(* ===== verification/Paths.thy ===== *)
theory Paths
  imports Prelude
begin

text \<open>
  The part of \<open>std::path\<close> (on Unix) that the sources use, directly or through \<open>camino\<close>'s UTF-8
  wrappers: the component iterator, \<open>join\<close>, \<open>parent\<close>, \<open>file_name\<close>, \<open>file_stem\<close>, \<open>extension\<close>,
  \<open>with_extension\<close>, \<open>starts_with\<close> and \<open>strip_prefix\<close>. Two Rust paths are equal, and hash equally, when
  their component lists are equal, so the key under which a path is stored in a \<open>HashMap\<close> is
  \<open>components p\<close>.
\<close>

section \<open>Components\<close>

datatype path_component = RootDir | CurDir | ParentDir | Normal string

type_synonym path_key = "path_component list"

definition skipped :: "string \<Rightarrow> bool" where
  "skipped p \<longleftrightarrow> p = [] \<or> p = ''.''"

definition to_component :: "string \<Rightarrow> path_component" where
  "to_component p = (if p = ''..'' then ParentDir else Normal p)"

definition body_components :: "string list \<Rightarrow> path_component list" where
  "body_components ps = map to_component (filter (\<lambda>p. \<not> skipped p) ps)"

definition is_absolute :: "string \<Rightarrow> bool" where
  "is_absolute s \<longleftrightarrow> (\<exists>t. s = CHR ''/'' # t)"

lemma is_absolute_code [code]: "is_absolute s = (case s of [] \<Rightarrow> False | c # _ \<Rightarrow> c = CHR ''/'')"
  by (cases s) (auto simp: is_absolute_def)

text \<open>
  A leading \<open>/\<close> is the root. Empty pieces and \<open>.\<close> are skipped, except that a relative path may start
  with the component \<open>.\<close>.
\<close>

definition components :: "string \<Rightarrow> path_key" where
  "components s =
     (if is_absolute s then RootDir # body_components (split_on CHR ''/'' s)
      else (case split_on CHR ''/'' s of
              p # ps \<Rightarrow> (if p = ''.'' then [CurDir] else []) @ body_components (p # ps)
            | [] \<Rightarrow> []))"

definition path_eq :: "string \<Rightarrow> string \<Rightarrow> bool" where
  "path_eq a b \<longleftrightarrow> components a = components b"

section \<open>Joining\<close>

definition path_join :: "string \<Rightarrow> string \<Rightarrow> string" where
  "path_join a b =
     (if is_absolute b then b
      else if a = [] \<or> last a = CHR ''/'' then a @ b
      else a @ ''/'' @ b)"

section \<open>The last component\<close>

text \<open>
  The pieces of a path below its root, with what the component iterator skips removed at the back
  (it never skips a leading \<open>.\<close> of a relative path).
\<close>

definition body_pieces :: "string \<Rightarrow> string list" where
  "body_pieces s = (if is_absolute s then split_on CHR ''/'' (tl s) else split_on CHR ''/'' s)"

definition keep_first_dot :: "bool \<Rightarrow> string list \<Rightarrow> bool" where
  "keep_first_dot rooted ps \<longleftrightarrow> \<not> rooted \<and> ps = [''.'']"

function trim_back :: "bool \<Rightarrow> string list \<Rightarrow> string list" where
  "trim_back rooted ps =
     (if ps = [] then []
      else if skipped (last ps) \<and> \<not> keep_first_dot rooted ps then trim_back rooted (butlast ps)
      else ps)"
  by auto
termination by (relation "measure (\<lambda>(_, ps). length ps)") auto

declare trim_back.simps [simp del]

definition render_pieces :: "bool \<Rightarrow> string list \<Rightarrow> string" where
  "render_pieces rooted ps = (if rooted then ''/'' else []) @ join_on ''/'' ps"

definition path_parent :: "string \<Rightarrow> string option" where
  "path_parent s =
     (let rooted = is_absolute s; ps = trim_back rooted (body_pieces s)
      in if ps = [] then None else Some (render_pieces rooted (trim_back rooted (butlast ps))))"

definition file_name :: "string \<Rightarrow> string option" where
  "file_name s =
     (case components s of
        [] \<Rightarrow> None
      | c # cs \<Rightarrow> (case last (c # cs) of Normal n \<Rightarrow> Some n | _ \<Rightarrow> None))"

definition rsplit_once :: "char \<Rightarrow> string \<Rightarrow> (string \<times> string) option" where
  "rsplit_once c s = map_option (\<lambda>(a, b). (rev b, rev a)) (split_once c (rev s))"

definition split_file_at_dot :: "string \<Rightarrow> string \<times> string option" where
  "split_file_at_dot f =
     (case rsplit_once CHR ''.'' f of
        None \<Rightarrow> (f, None)
      | Some (b, a) \<Rightarrow> if b = [] then (f, None) else (b, Some a))"

definition file_stem :: "string \<Rightarrow> string option" where
  "file_stem s = map_option (\<lambda>f. fst (split_file_at_dot f)) (file_name s)"

definition extension :: "string \<Rightarrow> string option" where
  "extension s = Option.bind (file_name s) (\<lambda>f. snd (split_file_at_dot f))"

text \<open>\<open>with_extension\<close> cuts the path right after the stem of its file name and appends the extension.\<close>

definition with_extension :: "string \<Rightarrow> string \<Rightarrow> string" where
  "with_extension s e =
     (case file_stem s of
        None \<Rightarrow> s
      | Some st \<Rightarrow>
          (let rooted = is_absolute s; ps = trim_back rooted (body_pieces s)
           in render_pieces rooted (butlast ps @ [st @ (if e = [] then [] else ''.'' @ e)])))"

section \<open>Prefixes\<close>

definition starts_with_path :: "string \<Rightarrow> string \<Rightarrow> bool" where
  "starts_with_path s base \<longleftrightarrow> prefix (components base) (components s)"

fun show_component :: "path_component \<Rightarrow> string" where
  "show_component RootDir = ''/''"
| "show_component CurDir = ''.''"
| "show_component ParentDir = ''..''"
| "show_component (Normal n) = n"

text \<open>
  The rest of a path below \<open>base\<close>. Rust returns the matching slice of the path's text, here it is
  rendered from its components: the two agree when that slice has no empty or \<open>.\<close> piece, which is so
  for the paths the sources build by joining directory-entry names onto \<open>base\<close>.
\<close>

definition strip_prefix_path :: "string \<Rightarrow> string \<Rightarrow> string option" where
  "strip_prefix_path base s =
     (if starts_with_path s base
      then Some (join_on ''/'' (map show_component (drop (length (components base)) (components s))))
      else None)"

section \<open>Names\<close>

text \<open>What \<open>read_dir\<close> yields as a file name: not empty, no separator, neither \<open>.\<close> nor \<open>..\<close>.\<close>

definition valid_name :: "string \<Rightarrow> bool" where
  "valid_name n \<longleftrightarrow> n \<noteq> [] \<and> CHR ''/'' \<notin> set n \<and> n \<noteq> ''.'' \<and> n \<noteq> ''..''"

lemmas [path_simps] =
  is_absolute_code components_def body_components_def skipped_def to_component_def path_join_def
  body_pieces_def keep_first_dot_def render_pieces_def path_parent_def file_name_def rsplit_once_def
  split_file_at_dot_def file_stem_def extension_def with_extension_def starts_with_path_def
  strip_prefix_path_def path_eq_def

section \<open>Lemmas\<close>

lemma is_absolute_Nil [simp]: "\<not> is_absolute []"
  by (simp add: is_absolute_def)

lemma is_absolute_Cons [simp]: "is_absolute (c # s) \<longleftrightarrow> c = CHR ''/''"
  by (simp add: is_absolute_def)

lemma valid_name_not_absolute [simp]: "valid_name n \<Longrightarrow> \<not> is_absolute n"
  by (cases n) (auto simp: valid_name_def)

lemma split_on_slash_snoc:
  "split_on c (a @ c # b) = split_on c a @ split_on c b"
proof (induction a)
  case Nil
  then show ?case by simp
next
  case (Cons x xs)
  obtain p ps where "split_on c xs = p # ps" by (cases "split_on c xs") auto
  with Cons show ?case by auto
qed

lemma body_components_append [simp]:
  "body_components (ps @ qs) = body_components ps @ body_components qs"
  by (simp add: body_components_def)

lemma body_components_valid [simp]:
  "valid_name n \<Longrightarrow> body_components [n] = [Normal n]"
  by (simp add: body_components_def skipped_def to_component_def valid_name_def)

lemma components_valid_name [simp]: "valid_name n \<Longrightarrow> components n = [Normal n]"
  by (simp add: components_def split_on_absent valid_name_def body_components_def skipped_def
      to_component_def)

lemma components_Nil [simp]: "components [] = []"
  by (simp add: components_def body_components_def skipped_def)

lemma is_absolute_append: "a \<noteq> [] \<Longrightarrow> is_absolute (a @ b) = is_absolute a"
  by (cases a) auto

lemma split_on_hd_append:
  "hd (split_on c (a @ c # b)) = hd (split_on c a)"
  by (simp add: split_on_slash_snoc)

lemma components_append_slash:
  assumes "a \<noteq> []"
  shows "components (a @ CHR ''/'' # b) = components a @ body_components (split_on CHR ''/'' b)"
proof -
  obtain p ps where ps: "split_on CHR ''/'' a = p # ps"
    by (cases "split_on CHR ''/'' a") auto
  show ?thesis
    using assms by (auto simp: components_def is_absolute_append split_on_slash_snoc ps body_components_def)
qed

text \<open>Joining a directory-entry name appends exactly one component.\<close>

lemma components_trailing_slash:
  assumes "a \<noteq> []" shows "components (a @ ''/'') = components a"
  using components_append_slash [OF assms, of "[]"] by (simp add: body_components_def skipped_def)

lemma components_root: "components ''/'' = [RootDir]"
  by (simp add: components_def body_components_def skipped_def)

lemma components_join_name:
  assumes "valid_name n"
  shows "components (path_join a n) = components a @ [Normal n]"
proof (cases "a = [] \<or> last a = CHR ''/''")
  case False
  then show ?thesis
    using assms components_append_slash [of a n]
    by (simp add: path_join_def split_on_absent valid_name_def body_components_def skipped_def to_component_def)
next
  case True
  show ?thesis
  proof (cases "a = []")
    case True
    then show ?thesis using assms by (simp add: path_join_def)
  next
    case False
    with True obtain a' where a': "a = a' @ ''/''"
      by (metis append_butlast_last_id)
    show ?thesis
    proof (cases "a' = []")
      case True
      then show ?thesis
        using assms a'
        by (simp add: path_join_def components_root)
          (simp add: components_def split_on_absent valid_name_def body_components_def skipped_def to_component_def)
    next
      case False
      then show ?thesis
        using assms a' components_append_slash [OF False, of n] components_trailing_slash [OF False]
        by (simp add: path_join_def split_on_absent valid_name_def body_components_def skipped_def to_component_def)
    qed
  qed
qed

lemma file_name_join: "valid_name n \<Longrightarrow> file_name (path_join a n) = Some n"
  by (cases "components a") (simp_all add: file_name_def components_join_name)

lemma starts_with_path_refl [simp]: "starts_with_path p p"
  by (simp add: starts_with_path_def)

lemma starts_with_path_trans:
  "starts_with_path a b \<Longrightarrow> starts_with_path b c \<Longrightarrow> starts_with_path a c"
  by (auto simp: starts_with_path_def intro: prefix_order.trans)

lemma starts_with_path_join: "valid_name n \<Longrightarrow> starts_with_path (path_join a n) a"
  by (simp add: starts_with_path_def components_join_name)

lemma path_join_Nil [simp]: "\<not> is_absolute b \<Longrightarrow> path_join [] b = b"
  by (simp add: path_join_def)

lemma path_join_neq_Nil [simp]: "b \<noteq> [] \<Longrightarrow> path_join a b \<noteq> []"
  by (auto simp: path_join_def)

lemma last_valid_name [simp]: "valid_name n \<Longrightarrow> last n \<noteq> CHR ''/''"
  by (metis last_in_set valid_name_def)

lemma last_path_join [simp]: "valid_name n \<Longrightarrow> last (path_join a n) \<noteq> CHR ''/''"
  using last_valid_name [of n] by (auto simp: path_join_def valid_name_def)

text \<open>Relative paths made of names: the keys of the journal and of both discovery results.\<close>

definition rel_path :: "string list \<Rightarrow> string" where
  "rel_path ns = join_on ''/'' ns"

lemma components_rel_path:
  assumes "\<forall>n \<in> set ns. valid_name n"
  shows "components (rel_path ns) = map Normal ns"
  using assms
proof (induction ns)
  case Nil
  then show ?case by (simp add: rel_path_def)
next
  case (Cons n ns)
  show ?case
  proof (cases "ns = []")
    case True
    then show ?thesis using Cons by (simp add: rel_path_def)
  next
    case False
    have sp: "split_on CHR ''/'' (rel_path ns) = ns"
      using Cons False by (simp add: rel_path_def split_join_on valid_name_def)
    have bc: "\<forall>m \<in> set ms. valid_name m \<Longrightarrow> body_components ms = map Normal ms" for ms
      by (auto simp: body_components_def valid_name_def skipped_def to_component_def filter_id_conv)
    have "n \<noteq> []" using Cons by (simp add: valid_name_def)
    then show ?thesis
      using Cons False components_append_slash [of n "rel_path ns"] sp bc [of ns]
      by (simp add: rel_path_def join_on_Cons)
  qed
qed

lemma rel_path_inj:
  assumes "\<forall>n \<in> set ns. valid_name n" "\<forall>n \<in> set ms. valid_name n" "rel_path ns = rel_path ms"
  shows "ns = ms"
proof -
  have "map Normal ns = map Normal ms"
    using components_rel_path [OF assms(1)] components_rel_path [OF assms(2)] assms(3) by simp
  then show ?thesis by (simp add: inj_map_eq_map inj_def)
qed

lemma strip_prefix_names:
  assumes "components p = components base @ map Normal ns" "\<forall>n \<in> set ns. valid_name n"
  shows "strip_prefix_path base p = Some (rel_path ns)"
proof -
  have "map show_component (map Normal ns) = ns" by (induction ns) auto
  then show ?thesis
    using assms by (simp add: strip_prefix_path_def starts_with_path_def rel_path_def)
qed

end
