(* ===== verification/SyncTypes.thy ===== *)
theory SyncTypes
  imports Paths
begin

text \<open>
  The vocabulary of the sync engine (\<open>crates/sync-engine/src\<close>): the entries found by the two
  discoveries and the instructions (\<open>types.rs\<close>), errors and their messages (\<open>error.rs\<close>), the run report
  (\<open>report.rs\<close>), the shared folder state (\<open>state.rs\<close>), and the construction of a remote URL from a
  relative path (\<open>lib.rs\<close>).
\<close>

section \<open>Entries and instructions (\<open>types.rs\<close>)\<close>

record LocalEntry =
  le_path :: string
  le_mtime :: system_time
  le_size :: u64
  le_inode :: u64
  le_is_virtual :: bool
  le_is_dir :: bool

record RemoteEntry =
  re_path :: string
  re_etag :: string
  re_mtime :: system_time
  re_size :: u64
  re_file_id :: string
  re_permissions :: u32
  re_is_dir :: bool

datatype SyncInstruction =
    Upload | Download | DeleteLocal | DeleteRemote | RenameLocal string | RenameRemote string
  | Conflict | UpdateMetadata | Ignore

datatype ConflictStrategy = KeepBoth | KeepRemote | KeepLocal

section \<open>Errors (\<open>error.rs\<close>)\<close>

text \<open>
  An \<open>std::io::Error\<close> is represented by its message. \<open>Http\<close> carries a status code and a message.
\<close>

datatype SyncError =
    Err_Http u16 string | Err_Io string | Err_Db string | Err_Vfs string | Err_Parse string
  | Err_Conflict string | Err_Cancelled | Err_Auth string

fun show_SyncError :: "SyncError \<Rightarrow> string" where
  "show_SyncError (Err_Http st m) = ''HTTP '' @ show_nat (unat st) @ '': '' @ m"
| "show_SyncError (Err_Io m) = ''I/O error: '' @ m"
| "show_SyncError (Err_Db m) = ''Database error: '' @ m"
| "show_SyncError (Err_Vfs m) = ''VFS error: '' @ m"
| "show_SyncError (Err_Parse m) = ''Parse error: '' @ m"
| "show_SyncError (Err_Conflict p) = ''Conflict at path: '' @ p"
| "show_SyncError Err_Cancelled = ''Sync cancelled''"
| "show_SyncError (Err_Auth m) = ''Auth error: '' @ m"

section \<open>The report (\<open>report.rs\<close>)\<close>

record HttpEvent =
  he_method :: string
  he_url :: string
  he_status :: u16
  he_duration_ms :: u64
  he_bytes :: u64

record SyncReport =
  rep_folder_id :: uuid
  rep_remote_entries :: nat
  rep_local_entries :: nat
  rep_downloads :: nat
  rep_uploads :: nat
  rep_conflicts :: nat
  rep_deletes_local :: nat
  rep_deletes_remote :: nat
  rep_ignored :: nat
  rep_errors :: "string list"
  rep_http_events :: "HttpEvent list"
  rep_duration_ms :: u64

section \<open>Folder state (\<open>state.rs\<close>)\<close>

datatype FolderStatus = Folder_Idle | Folder_Syncing | Folder_Error

datatype FileStatus = File_Ok | File_Syncing | File_Error string | File_Excluded

record SyncState =
  st_folder_id :: uuid
  st_status :: FolderStatus
  st_file_statuses :: "path_key \<rightharpoonup> FileStatus"
  st_last_sync :: "system_time option"
  st_errors :: "SyncError list"

definition new_SyncState :: "uuid \<Rightarrow> SyncState" where
  "new_SyncState fid =
     \<lparr>st_folder_id = fid, st_status = Folder_Idle, st_file_statuses = Map.empty, st_last_sync = None,
      st_errors = []\<rparr>"

definition set_file_status :: "string \<Rightarrow> FileStatus \<Rightarrow> SyncState \<Rightarrow> SyncState" where
  "set_file_status p s st = st\<lparr>st_file_statuses := (st_file_statuses st)(components p \<mapsto> s)\<rparr>"

definition clear_file_status :: "string \<Rightarrow> SyncState \<Rightarrow> SyncState" where
  "clear_file_status p st = st\<lparr>st_file_statuses := (st_file_statuses st)(components p := None)\<rparr>"

definition record_error :: "SyncError \<Rightarrow> SyncState \<Rightarrow> SyncState" where
  "record_error e st = st\<lparr>st_status := Folder_Error, st_errors := st_errors st @ [e]\<rparr>"

text \<open>\<open>now\<close> is the value of \<open>SystemTime::now()\<close>.\<close>

definition mark_complete :: "system_time \<Rightarrow> SyncState \<Rightarrow> SyncState" where
  "mark_complete now st = st\<lparr>st_status := Folder_Idle, st_last_sync := Some now\<rparr>"

lemmas [op_defs] = set_file_status_def clear_file_status_def record_error_def mark_complete_def

section \<open>Remote URLs (\<open>lib.rs\<close>)\<close>

text \<open>
  An \<open>http(s)\<close> URL without user information as the \<open>url\<close> crate holds it: scheme, host, port if it is not
  the default one, the path as its list of (percent-encoded) segments, query and fragment. \<open>enc\<close>, the percent-encoding that \<open>PathSegmentsMut::push\<close> applies to a
  segment, belongs to that crate and is a parameter; \<open>push\<close> drops the segments \<open>.\<close> and \<open>..\<close>, as the
  crate documents. \<open>cannot_be_a_base\<close> URLs have no segments.
\<close>

record url =
  url_scheme :: string
  url_host :: "string option"
  url_port :: "u16 option"
  url_segments :: "string list option"
  url_query :: "string option"
  url_fragment :: "string option"

definition url_origin :: "url \<Rightarrow> string" where
  "url_origin u =
     url_scheme u @ ''://'' @ (case url_host u of None \<Rightarrow> [] | Some h \<Rightarrow> h) @
     (case url_port u of None \<Rightarrow> [] | Some p \<Rightarrow> '':'' @ show_nat (unat p))"

definition pop_if_empty :: "string list \<Rightarrow> string list" where
  "pop_if_empty segs = (if segs \<noteq> [] \<and> last segs = [] then butlast segs else segs)"

definition push_segment :: "(string \<Rightarrow> string) \<Rightarrow> string list \<Rightarrow> string \<Rightarrow> string list" where
  "push_segment enc segs c = (if c = ''.'' \<or> c = ''..'' then segs else segs @ [enc c])"

definition join_remote_path :: "(string \<Rightarrow> string) \<Rightarrow> url \<Rightarrow> string \<Rightarrow> string + url" where
  "join_remote_path enc root rel =
     (case url_segments root of
        None \<Rightarrow> Inl ''relative URL with a cannot-be-a-base base''
      | Some segs \<Rightarrow>
          (let segs1 = fold (\<lambda>c acc. if c \<noteq> [] then push_segment enc acc c else acc)
                         (split_on CHR ''/'' (trim_matches CHR ''/'' rel)) (pop_if_empty segs);
               segs2 = (if ends_with_str rel ''/'' then push_segment enc segs1 [] else segs1)
           in Inr (root\<lparr>url_segments := Some segs2\<rparr>)))"

definition sanitise_url :: "url \<Rightarrow> url" where
  "sanitise_url u = u\<lparr>url_query := None, url_fragment := None\<rparr>"

definition show_url :: "url \<Rightarrow> string" where
  "show_url u =
     url_origin u @ (case url_segments u of None \<Rightarrow> [] | Some segs \<Rightarrow> ''/'' @ join_on ''/'' segs) @
     (case url_query u of None \<Rightarrow> [] | Some q \<Rightarrow> ''?'' @ q) @
     (case url_fragment u of None \<Rightarrow> [] | Some f \<Rightarrow> ''#'' @ f)"

section \<open>Lemmas\<close>

lemma st_status_record_error [simp]: "st_status (record_error e st) = Folder_Error"
  by (simp add: record_error_def)

lemma st_file_statuses_set [simp]:
  "st_file_statuses (set_file_status p s st) = (st_file_statuses st)(components p \<mapsto> s)"
  by (simp add: set_file_status_def)

lemma st_file_statuses_clear [simp]:
  "st_file_statuses (clear_file_status p st) = (st_file_statuses st)(components p := None)"
  by (simp add: clear_file_status_def)

lemma fold_push_names:
  assumes "\<forall>n \<in> set ns. valid_name n"
  shows "fold (\<lambda>c acc. if c \<noteq> [] then push_segment enc acc c else acc) ns acc = acc @ map enc ns"
  using assms
proof (induction ns arbitrary: acc)
  case Nil
  then show ?case by simp
next
  case (Cons n ns)
  then show ?case by (simp add: push_segment_def valid_name_def)
qed

lemma hd_join_on:
  "ns \<noteq> [] \<Longrightarrow> \<forall>n \<in> set ns. n \<noteq> [] \<Longrightarrow> hd (join_on sep ns) = hd (hd ns) \<and> join_on sep ns \<noteq> []"
  by (cases ns; cases "tl ns") auto

lemma last_join_on:
  "ns \<noteq> [] \<Longrightarrow> \<forall>n \<in> set ns. n \<noteq> [] \<Longrightarrow> last (join_on sep ns) = last (last ns) \<and> join_on sep ns \<noteq> []"
proof (induction ns)
  case Nil
  then show ?case by simp
next
  case (Cons n ns)
  then show ?case by (cases ns) auto
qed

lemma trim_matches_ends:
  "s = [] \<or> hd s \<noteq> c \<and> last s \<noteq> c \<Longrightarrow> trim_matches c s = s"
proof (cases s rule: rev_cases)
  case (snoc t x)
  assume "s = [] \<or> hd s \<noteq> c \<and> last s \<noteq> c"
  moreover from this snoc have "trim_start_matches c s = s"
    by (cases t) (auto simp: trim_start_matches_def)
  ultimately show ?thesis using snoc by (auto simp: trim_matches_def)
qed (simp add: trim_matches_def trim_start_matches_def)

lemma trim_matches_rel_path:
  assumes "\<forall>n \<in> set ns. valid_name n" "ns \<noteq> []"
  shows "trim_matches CHR ''/'' (rel_path ns) = rel_path ns"
proof -
  have ne: "\<forall>n \<in> set ns. n \<noteq> []" using assms by (simp add: valid_name_def)
  have "hd (hd ns) \<noteq> CHR ''/''" "last (last ns) \<noteq> CHR ''/''"
    using assms hd_in_set [of ns] last_in_set [of ns] hd_in_set [of "hd ns"] last_valid_name
    by (metis valid_name_def)+
  then show ?thesis
    using hd_join_on [OF assms(2) ne] last_join_on [OF assms(2) ne]
    by (intro trim_matches_ends) (simp add: rel_path_def)
qed

text \<open>
  For a relative path made of ordinary names, the URL is the space root with exactly those names, each
  percent-encoded by itself, as further segments. No name can start a query or climb out of the root.
\<close>

lemma join_remote_path_names:
  assumes "\<forall>n \<in> set ns. valid_name n" "ns \<noteq> []" "url_segments root = Some segs"
  shows "join_remote_path enc root (rel_path ns) =
    Inr (root\<lparr>url_segments := Some (pop_if_empty segs @ map enc ns)\<rparr>)"
proof -
  have ne: "\<forall>n \<in> set ns. n \<noteq> []" using assms by (simp add: valid_name_def)
  have "last (last ns) \<noteq> CHR ''/''" using assms last_in_set last_valid_name by blast
  then have *: "\<not> ends_with_str (rel_path ns) ''/''"
    using last_join_on [OF assms(2) ne, of "''/''"] by (auto simp: ends_with_str_def suffix_def rel_path_def)
  have "split_on CHR ''/'' (trim_matches CHR ''/'' (rel_path ns)) = ns"
    using assms trim_matches_rel_path [OF assms(1,2)] split_join_on [of ns "CHR ''/''"]
    by (simp add: rel_path_def valid_name_def)
  then show ?thesis
    using assms(3) * by (simp add: join_remote_path_def fold_push_names [OF assms(1)])
qed

end
