(* ===== verification/Reconcile.thy ===== *)
theory Reconcile
  imports SyncTypes
begin

text \<open>
  The decision function of the sync engine (\<open>crates/sync-engine/src/reconcile.rs\<close>) and its
  specification as a three-way merge: each side is compared with the journal baseline on its own, and the
  pair of changes determines the instruction.
\<close>

type_synonym JournalBaseline = "string \<times> u64"

fun reconcile :: "LocalEntry option \<Rightarrow> RemoteEntry option \<Rightarrow> JournalBaseline option \<Rightarrow> ConflictStrategy
    \<Rightarrow> SyncInstruction" where
  "reconcile None None _ _ = Ignore"
| "reconcile (Some _) None None _ = Upload"
| "reconcile (Some _) None (Some _) _ = DeleteLocal"
| "reconcile None (Some _) None _ = Download"
| "reconcile None (Some _) (Some _) _ = DeleteRemote"
| "reconcile (Some _) (Some _) None _ = Conflict"
| "reconcile (Some loc) (Some rem) (Some (j_etag, j_size)) strategy =
     (let remote_changed = (re_etag rem \<noteq> j_etag);
          local_changed = (le_size loc \<noteq> j_size)
      in (case (local_changed, remote_changed) of
            (False, False) \<Rightarrow> Ignore
          | (True, False) \<Rightarrow> Upload
          | (False, True) \<Rightarrow> Download
          | (True, True) \<Rightarrow>
              (case strategy of
                 KeepBoth \<Rightarrow> Conflict
               | KeepRemote \<Rightarrow> Download
               | KeepLocal \<Rightarrow> Upload)))"

section \<open>Specification: the change of each side against the baseline\<close>

datatype change = Absent | Created | Deleted | Unchanged | Modified

definition local_change :: "LocalEntry option \<Rightarrow> JournalBaseline option \<Rightarrow> change" where
  "local_change l j =
     (case (l, j) of
        (None, None) \<Rightarrow> Absent
      | (None, Some _) \<Rightarrow> Deleted
      | (Some _, None) \<Rightarrow> Created
      | (Some e, Some (_, sz)) \<Rightarrow> if le_size e = sz then Unchanged else Modified)"

definition remote_change :: "RemoteEntry option \<Rightarrow> JournalBaseline option \<Rightarrow> change" where
  "remote_change r j =
     (case (r, j) of
        (None, None) \<Rightarrow> Absent
      | (None, Some _) \<Rightarrow> Deleted
      | (Some _, None) \<Rightarrow> Created
      | (Some e, Some (et, _)) \<Rightarrow> if re_etag e = et then Unchanged else Modified)"

definition in_sync :: "change \<Rightarrow> bool" where
  "in_sync c \<longleftrightarrow> c = Absent \<or> c = Unchanged"

text \<open>
  The merge table. A deletion on one side wins over whatever happened on the other side; otherwise the
  changed side wins, and two changed sides go to the strategy. Two files created independently are
  always a conflict.
\<close>

definition merge :: "ConflictStrategy \<Rightarrow> change \<Rightarrow> change \<Rightarrow> SyncInstruction" where
  "merge s lc rc =
     (if lc = Deleted \<and> rc = Deleted \<or> in_sync lc \<and> in_sync rc then Ignore
      else if rc = Deleted then DeleteLocal
      else if lc = Deleted then DeleteRemote
      else if in_sync rc then Upload
      else if in_sync lc then Download
      else if lc = Created \<and> rc = Created \<or> s = KeepBoth then Conflict
      else if s = KeepRemote then Download
      else Upload)"

lemmas change_defs = local_change_def remote_change_def in_sync_def merge_def

lemma reconcile_both [simp]:
  "reconcile (Some loc) (Some rem) (Some (et, sz)) s =
     (if le_size loc = sz then (if re_etag rem = et then Ignore else Download)
      else if re_etag rem = et then Upload
      else (case s of KeepBoth \<Rightarrow> Conflict | KeepRemote \<Rightarrow> Download | KeepLocal \<Rightarrow> Upload))"
  by auto

declare reconcile.simps(7) [simp del]

lemmas reconcile_splits = if_splits option.splits ConflictStrategy.splits

section \<open>Properties\<close>

text \<open>
  C2: \<open>reconcile\<close> implements the three-way merge: its instruction depends on the two sides only
  through how each of them, compared alone with the journal baseline, has changed, and is the one of the
  merge table.
\<close>

theorem reconcile_is_merge:
  "reconcile l r j s = merge s (local_change l j) (remote_change r j)"
  by (cases "(l, r, j, s)" rule: reconcile.cases)
    (auto simp: change_defs split: reconcile_splits)

lemma reconcile_deletes_only_with_baseline:
  "reconcile l r j s = DeleteLocal \<longleftrightarrow> l \<noteq> None \<and> r = None \<and> j \<noteq> None"
  "reconcile l r j s = DeleteRemote \<longleftrightarrow> l = None \<and> r \<noteq> None \<and> j \<noteq> None"
  by (cases "(l, r, j, s)" rule: reconcile.cases; simp split: ConflictStrategy.splits)+

lemma reconcile_transfer_source:
  "reconcile l r j s = Upload \<Longrightarrow> l \<noteq> None"
  "reconcile l r j s = Download \<Longrightarrow> r \<noteq> None"
  by (cases "(l, r, j, s)" rule: reconcile.cases; auto split: if_splits)+

lemma reconcile_overwrites:
  "reconcile (Some l) (Some r) j s = Download \<Longrightarrow>
     (\<exists>et. j = Some (et, le_size l)) \<or> s = KeepRemote"
  "reconcile (Some l) (Some r) j s = Upload \<Longrightarrow>
     (\<exists>sz. j = Some (re_etag r, sz)) \<or> s = KeepLocal"
  by (cases "(Some l, Some r, j, s)" rule: reconcile.cases; auto split: if_splits ConflictStrategy.splits)+

lemma reconcile_never_renames:
  "reconcile l r j s \<noteq> RenameLocal p \<and> reconcile l r j s \<noteq> RenameRemote p \<and> reconcile l r j s \<noteq> UpdateMetadata"
  by (cases "(l, r, j, s)" rule: reconcile.cases) (auto split: ConflictStrategy.splits)

text \<open>What an instruction does away with: the local version, or the version on the server. A conflict does away with neither: the local version is kept in a copy.\<close>

definition discards_local :: "SyncInstruction \<Rightarrow> LocalEntry option \<Rightarrow> bool" where
  "discards_local i l \<longleftrightarrow> l \<noteq> None \<and> (i = DeleteLocal \<or> i = Download)"

definition discards_remote :: "SyncInstruction \<Rightarrow> RemoteEntry option \<Rightarrow> bool" where
  "discards_remote i r \<longleftrightarrow> r \<noteq> None \<and> (i = DeleteRemote \<or> i = Upload)"

text \<open>
  C3: Exactly when a version that the other side has not seen is lost. A version is unseen if it was created or
  modified since the baseline. An unseen local version is done away with if and only if it is modified and the server either has deleted the file, whatever the
  strategy, or has modified it too and the user chose \<open>KeepRemote\<close>; and symmetrically for the server with \<open>KeepLocal\<close>. So a file created on both sides is
  never lost, \<open>KeepBoth\<close> loses a version only to a deletion on the other side, and never are both versions lost.
\<close>

theorem reconcile_loses_unseen_version:
  "(discards_local (reconcile l r j s) l \<and> local_change l j \<in> {Created, Modified} \<longleftrightarrow>
      local_change l j = Modified \<and> (remote_change r j = Deleted \<or> remote_change r j = Modified \<and> s = KeepRemote)) \<and>
   (discards_remote (reconcile l r j s) r \<and> remote_change r j \<in> {Created, Modified} \<longleftrightarrow>
      remote_change r j = Modified \<and> (local_change l j = Deleted \<or> local_change l j = Modified \<and> s = KeepLocal)) \<and>
   \<not> (discards_local (reconcile l r j s) l \<and> discards_remote (reconcile l r j s) r)"
  by (cases "(l, r, j, s)" rule: reconcile.cases)
    (auto simp: local_change_def remote_change_def discards_local_def discards_remote_def split: reconcile_splits)

text \<open>An edit that is lost although both versions are to be kept.\<close>

theorem reconcile_edit_lost_to_deletion:
  "le_size l \<noteq> sz \<Longrightarrow> local_change (Some l) (Some (et, sz)) = Modified \<and> reconcile (Some l) None (Some (et, sz)) KeepBoth = DeleteLocal"
  by (simp add: local_change_def)

section \<open>What the size comparison cannot see\<close>

text \<open>
  The local side is compared by size alone. Two local versions of the same size get the same
  instruction whatever their modification times, so a same-size edit next to an unchanged remote file is
  ignored, and next to a changed remote file it is overwritten by a download without a conflict.
\<close>

theorem reconcile_blind_to_same_size_edit:
  assumes "le_size l = sz"
  shows "reconcile (Some l) (Some r) (Some (et, sz)) s = (if re_etag r = et then Ignore else Download)"
  using assms by simp

theorem reconcile_blind_to_same_size_edit_witness:
  "\<forall>s. reconcile
     (Some \<lparr>le_path = ''f'', le_mtime = 20, le_size = 5, le_inode = 1, le_is_virtual = False, le_is_dir = False\<rparr>)
     (Some \<lparr>re_path = ''f'', re_etag = ''e2'', re_mtime = 0, re_size = 5, re_file_id = ''i'',
            re_permissions = 0, re_is_dir = False\<rparr>)
     (Some (''e1'', 5)) s = Download"
proof
  fix s
  show "reconcile
     (Some \<lparr>le_path = ''f'', le_mtime = 20, le_size = 5, le_inode = 1, le_is_virtual = False, le_is_dir = False\<rparr>)
     (Some \<lparr>re_path = ''f'', re_etag = ''e2'', re_mtime = 0, re_size = 5, re_file_id = ''i'',
            re_permissions = 0, re_is_dir = False\<rparr>)
     (Some (''e1'', 5)) s = Download"
    by (subst reconcile_blind_to_same_size_edit) simp_all
qed

end
