(* ===== verification/DiscoveryLocal.thy ===== *)
theory DiscoveryLocal
  imports SyncTypes
begin

text \<open>
  Local discovery (\<open>crates/sync-engine/src/discovery/local.rs\<close>): the recursive walk over the sync
  folder. What the operating system reports is the input: for each directory the result of \<open>read_dir\<close>,
  for each entry its metadata or the error of reading it. Names are those of the recorded paths (the
  lossy decoding of a name that is not UTF-8 has been applied), and the listing of a subdirectory is
  what \<open>read_dir\<close> returns for its recorded path.
\<close>

section \<open>What the file system reports\<close>

datatype dirent =
    Ent_File string "system_time option" u64 u64  \<comment> \<open>name, \<open>modified()\<close>, \<open>len()\<close>, \<open>ino()\<close>\<close>
  | Ent_Dir string "system_time option" u64 "string + dirent list"  \<comment> \<open>name, \<open>modified()\<close>, \<open>ino()\<close>, \<open>read_dir\<close>\<close>
  | Ent_Other string  \<comment> \<open>neither file nor directory: \<open>DirEntry::metadata\<close> does not follow symbolic links\<close>
  | Ent_Meta_Error string string  \<comment> \<open>\<open>metadata()\<close> fails\<close>
  | Ent_Error string  \<comment> \<open>the directory iterator itself yields an error\<close>

type_synonym listing = "string + dirent list"

section \<open>The walk\<close>

definition UNIX_EPOCH :: system_time where
  "UNIX_EPOCH = 0"

definition modified_or_epoch :: "system_time option \<Rightarrow> system_time" where
  "modified_or_epoch m = (case m of Some t \<Rightarrow> t | None \<Rightarrow> UNIX_EPOCH)"

definition dir_entry :: "string \<Rightarrow> system_time option \<Rightarrow> u64 \<Rightarrow> LocalEntry" where
  "dir_entry p m ino =
     \<lparr>le_path = p, le_mtime = modified_or_epoch m, le_size = 0, le_inode = ino, le_is_virtual = False, le_is_dir = True\<rparr>"

definition file_entry :: "string \<Rightarrow> system_time option \<Rightarrow> u64 \<Rightarrow> u64 \<Rightarrow> LocalEntry" where
  "file_entry p m len ino =
     \<lparr>le_path = p, le_mtime = modified_or_epoch m, le_size = len, le_inode = ino, le_is_virtual = False, le_is_dir = False\<rparr>"

text \<open>The \<open>for\<close> loop over one directory: the entries pushed and the subdirectories collected.\<close>

fun scan_dir :: "string \<Rightarrow> dirent list \<Rightarrow> SyncError + LocalEntry list \<times> (string \<times> listing) list" where
  "scan_dir dir [] = Inr ([], [])"
| "scan_dir dir (Ent_Error e # es) = Inl (Err_Io e)"
| "scan_dir dir (Ent_Meta_Error n e # es) = Inl (Err_Io e)"
| "scan_dir dir (Ent_Other n # es) = scan_dir dir es"
| "scan_dir dir (Ent_File n m len ino # es) =
     (case scan_dir dir es of
        Inl e \<Rightarrow> Inl e
      | Inr (xs, subs) \<Rightarrow> Inr (file_entry (path_join dir n) m len ino # xs, subs))"
| "scan_dir dir (Ent_Dir n m ino l # es) =
     (case scan_dir dir es of
        Inl e \<Rightarrow> Inl e
      | Inr (xs, subs) \<Rightarrow> Inr (dir_entry (path_join dir n) m ino # xs, (path_join dir n, l) # subs))"

primrec dirent_size :: "dirent \<Rightarrow> nat" where
  "dirent_size (Ent_File n m len ino) = 1"
| "dirent_size (Ent_Dir n m ino l) = 2 + (case map_sum id (map dirent_size) l of Inl _ \<Rightarrow> 0 | Inr xs \<Rightarrow> sum_list xs)"
| "dirent_size (Ent_Other n) = 1"
| "dirent_size (Ent_Meta_Error n e) = 1"
| "dirent_size (Ent_Error e) = 1"

definition listing_size :: "listing \<Rightarrow> nat" where
  "listing_size l = (case l of Inl _ \<Rightarrow> 0 | Inr es \<Rightarrow> sum_list (map dirent_size es))"

lemma dirent_size_Dir: "dirent_size (Ent_Dir n m ino l) = 2 + listing_size l"
  by (cases l) (simp_all add: listing_size_def)

lemma scan_dir_size:
  "scan_dir dir es = Inr (xs, subs) \<Longrightarrow> sum_list (map (\<lambda>s. 2 + listing_size (snd s)) subs) \<le> sum_list (map dirent_size es)"
  by (induction dir es arbitrary: xs subs rule: scan_dir.induct)
    (auto simp: dirent_size_Dir simp del: dirent_size.simps(2) split: sum.splits prod.splits)

function (sequential) walk_dir :: "string \<Rightarrow> listing \<Rightarrow> SyncError + LocalEntry list"
  and walk_subdirs :: "(string \<times> listing) list \<Rightarrow> SyncError + LocalEntry list" where
  "walk_dir dir (Inl e) = Inl (Err_Io e)"
| "walk_dir dir (Inr es) =
     (case scan_dir dir es of
        Inl e \<Rightarrow> Inl e
      | Inr (xs, subs) \<Rightarrow>
          (case walk_subdirs subs of Inl e \<Rightarrow> Inl e | Inr ys \<Rightarrow> Inr (xs @ ys)))"
| "walk_subdirs [] = Inr []"
| "walk_subdirs ((sub, l) # subs) =
     (case walk_dir sub l of
        Inl e \<Rightarrow> Inl e
      | Inr xs \<Rightarrow> (case walk_subdirs subs of Inl e \<Rightarrow> Inl e | Inr ys \<Rightarrow> Inr (xs @ ys)))"
  by pat_completeness auto
termination
proof (relation "measure (case_sum (\<lambda>(_, l). 1 + listing_size l) (\<lambda>subs. sum_list (map (\<lambda>s. 2 + listing_size (snd s)) subs)))",
    goal_cases)
  case (2 dir es x xs subs)
  then show ?case using scan_dir_size [of dir es xs subs] by (simp add: listing_size_def)
qed auto

definition walk :: "string \<Rightarrow> listing \<Rightarrow> SyncError + LocalEntry list" where
  "walk root l = walk_dir root l"

text \<open>
  \<open>discover_local\<close> runs the walk on a blocking thread; \<open>joined\<close> is the error of joining that thread
  (it panicked or the runtime is shutting down), if any.
\<close>

definition discover_local :: "string option \<Rightarrow> string \<Rightarrow> listing \<Rightarrow> SyncError + LocalEntry list" where
  "discover_local joined root l =
     (case joined of Some e \<Rightarrow> Inl (Err_Io e) | None \<Rightarrow> walk root l)"

section \<open>Specification: the nodes of the tree\<close>

fun ent_name :: "dirent \<Rightarrow> string option" where
  "ent_name (Ent_File n _ _ _) = Some n"
| "ent_name (Ent_Dir n _ _ _) = Some n"
| "ent_name (Ent_Other n) = Some n"
| "ent_name (Ent_Meta_Error n _) = Some n"
| "ent_name (Ent_Error _) = None"

inductive at_path :: "dirent list \<Rightarrow> string list \<Rightarrow> dirent \<Rightarrow> bool" where
  at_here: "d \<in> set es \<Longrightarrow> ent_name d = Some n \<Longrightarrow> at_path es [n] d"
| at_below: "Ent_Dir n m ino (Inr es') \<in> set es \<Longrightarrow> at_path es' ns d \<Longrightarrow> at_path es (n # ns) d"

text \<open>The entry that stands for a node, if it is a file or a directory.\<close>

fun node_entry :: "string \<Rightarrow> dirent \<Rightarrow> LocalEntry option" where
  "node_entry p (Ent_File n m len ino) = Some (file_entry p m len ino)"
| "node_entry p (Ent_Dir n m ino l) = Some (dir_entry p m ino)"
| "node_entry p _ = None"

definition path_of :: "string \<Rightarrow> string list \<Rightarrow> string" where
  "path_of root ns = foldl path_join root ns"

text \<open>No read error anywhere in the tree.\<close>

inductive faulty :: "listing \<Rightarrow> bool" where
  faulty_read: "faulty (Inl e)"
| faulty_iter: "Ent_Error e \<in> set es \<Longrightarrow> faulty (Inr es)"
| faulty_meta: "Ent_Meta_Error n e \<in> set es \<Longrightarrow> faulty (Inr es)"
| faulty_sub: "Ent_Dir n m ino l \<in> set es \<Longrightarrow> faulty l \<Longrightarrow> faulty (Inr es)"

inductive_simps faulty_Inr: "faulty (Inr es)"
inductive_simps at_path_Cons: "at_path es (n # ns) d"
inductive_simps at_path_Nil: "at_path es [] d"

text \<open>A well-formed tree: the names of a directory are distinct file names.\<close>

inductive wf_listing :: "listing \<Rightarrow> bool" where
  wf_Inl: "wf_listing (Inl e)"
| wf_Inr: "distinct (map ent_name es) \<Longrightarrow> (\<And>d n. d \<in> set es \<Longrightarrow> ent_name d = Some n \<Longrightarrow> valid_name n) \<Longrightarrow>
    (\<And>n m ino l. Ent_Dir n m ino l \<in> set es \<Longrightarrow> wf_listing l) \<Longrightarrow> wf_listing (Inr es)"

inductive_simps wf_listing_Inr: "wf_listing (Inr es)"

section \<open>Lemmas\<close>

lemma path_of_Nil [simp]: "path_of root [] = root"
  by (simp add: path_of_def)

lemma path_of_Cons [simp]: "path_of root (n # ns) = path_of (path_join root n) ns"
  by (simp add: path_of_def)

lemma components_path_of:
  "\<forall>n \<in> set ns. valid_name n \<Longrightarrow> components (path_of root ns) = components root @ map Normal ns"
  by (induction ns arbitrary: root) (simp_all add: components_join_name)

lemma strip_prefix_path_of:
  "\<forall>n \<in> set ns. valid_name n \<Longrightarrow> strip_prefix_path root (path_of root ns) = Some (rel_path ns)"
  by (intro strip_prefix_names components_path_of)

lemma scan_dir_ok:
  "scan_dir dir es = Inr (xs, subs) \<Longrightarrow>
     set xs = {x. \<exists>d n. d \<in> set es \<and> ent_name d = Some n \<and> node_entry (path_join dir n) d = Some x} \<and>
     set subs = {(path_join dir n, l) | n m ino l. Ent_Dir n m ino l \<in> set es}"
proof (induction dir es arbitrary: xs subs rule: scan_dir.induct)
  case (5 dir n m len ino es)
  then obtain xs' where "scan_dir dir es = Inr (xs', subs)" "xs = file_entry (path_join dir n) m len ino # xs'"
    by (auto split: sum.splits)
  with "5.IH" show ?case by auto
next
  case (6 dir n m ino l es)
  then obtain xs' subs' where "scan_dir dir es = Inr (xs', subs')"
      "xs = dir_entry (path_join dir n) m ino # xs'" "subs = (path_join dir n, l) # subs'"
    by (auto split: sum.splits)
  with "6.IH" show ?case by auto
qed auto

lemma scan_dir_error_iff:
  "(\<exists>e. scan_dir dir es = Inl e) \<longleftrightarrow>
     (\<exists>e. Ent_Error e \<in> set es) \<or> (\<exists>n e. Ent_Meta_Error n e \<in> set es)"
  by (induction dir es rule: scan_dir.induct) (auto split: sum.splits)

lemma isl_iff: "isl x \<longleftrightarrow> (\<exists>e. x = Inl e)"
  by (cases x) auto

lemma walk_error_iff:
  "(isl (walk_dir dir l) \<longleftrightarrow> faulty l)"
  "(isl (walk_subdirs subs) \<longleftrightarrow> (\<exists>(p, l) \<in> set subs. faulty l))"
proof (induction dir l and subs rule: walk_dir_walk_subdirs.induct)
  case (1 dir e)
  then show ?case by (simp add: faulty_read)
next
  case (2 dir es)
  show ?case
  proof (cases "scan_dir dir es")
    case (Inl e)
    then show ?thesis using scan_dir_error_iff [of dir es] by (auto simp: faulty_Inr)
  next
    case (Inr p)
    then obtain xs subs where s: "scan_dir dir es = Inr (xs, subs)" by (cases p) auto
    have "isl (walk_subdirs subs) \<longleftrightarrow> (\<exists>n m ino l. Ent_Dir n m ino l \<in> set es \<and> faulty l)"
      using 2 [OF s refl] scan_dir_ok [OF s] by force
    then show ?thesis
      using s scan_dir_error_iff [of dir es] by (auto simp: faulty_Inr split: sum.splits)
  qed
next
  case (4 sub l subs)
  then show ?case by (cases "walk_dir sub l") (auto split: sum.splits)
qed auto

lemma at_path_nonempty: "at_path es ns d \<Longrightarrow> ns \<noteq> []"
  by (cases rule: at_path.cases) auto

lemma walk_ok_set:
  "walk_dir dir l = Inr xs \<Longrightarrow>
     set xs = {x. \<exists>es ns d. l = Inr es \<and> at_path es ns d \<and> node_entry (path_of dir ns) d = Some x}"
  "walk_subdirs subs = Inr xs \<Longrightarrow>
     set xs = {x. \<exists>p es ns d. (p, Inr es) \<in> set subs \<and> at_path es ns d \<and> node_entry (path_of p ns) d = Some x}"
proof (induction dir l and subs arbitrary: xs and xs rule: walk_dir_walk_subdirs.induct)
  case (2 dir es)
  then obtain ys subs zs where s: "scan_dir dir es = Inr (ys, subs)" and
      w: "walk_subdirs subs = Inr zs" and xs: "xs = ys @ zs"
    by (auto split: sum.splits)
  have "set xs = set ys \<union> set zs" using xs by simp
  also have "\<dots> = {x. \<exists>ns d. at_path es ns d \<and> node_entry (path_of dir ns) d = Some x}" (is "_ = ?R")
  proof (intro equalityI subsetI)
    fix x assume "x \<in> set ys \<union> set zs"
    then show "x \<in> ?R"
      using scan_dir_ok [OF s] "2.IH" [OF s refl w] by (fastforce intro: at_here at_below)
  next
    fix x assume "x \<in> ?R"
    then obtain ns d where "at_path es ns d" and x: "node_entry (path_of dir ns) d = Some x" by auto
    then show "x \<in> set ys \<union> set zs"
    proof (cases rule: at_path.cases)
      case (at_here n)
      then show ?thesis using scan_dir_ok [OF s] x by auto
    next
      case (at_below n m ino es' ns')
      then have "(path_join dir n, Inr es') \<in> set subs" using scan_dir_ok [OF s] by auto
      then show ?thesis using "2.IH" [OF s refl w] at_below x by auto
    qed
  qed
  finally show ?case by auto
next
  case (4 sub l subs)
  then obtain ys zs where w: "walk_dir sub l = Inr ys" "walk_subdirs subs = Inr zs" and xs: "xs = ys @ zs"
    by (auto split: sum.splits)
  then show ?case using "4.IH"(1) [OF w(1)] "4.IH"(2) [OF w] by auto
qed auto

lemma node_entry_path: "node_entry p d = Some x \<Longrightarrow> le_path x = p"
  by (cases d) (auto simp: file_entry_def dir_entry_def)

lemma at_path_valid:
  "at_path es ns d \<Longrightarrow> wf_listing (Inr es) \<Longrightarrow> \<forall>n \<in> set ns. valid_name n"
proof (induction rule: at_path.induct)
  case (at_here d es n)
  then show ?case by (auto simp: wf_listing_Inr)
next
  case (at_below n m ino es' es ns d)
  from at_below.prems have "\<And>n m ino l. Ent_Dir n m ino l \<in> set es \<Longrightarrow> valid_name n \<and> wf_listing l"
    unfolding wf_listing_Inr by (metis ent_name.simps(2))
  from this [OF at_below.hyps(1)] at_below.IH show ?case by simp
qed

lemma walk_dir_paths:
  assumes "walk_dir dir l = Inr xs" "wf_listing l" "x \<in> set xs"
  shows "\<exists>ns. ns \<noteq> [] \<and> components (le_path x) = components dir @ map Normal ns"
proof -
  obtain es ns d where "l = Inr es" "at_path es ns d" "node_entry (path_of dir ns) d = Some x"
    using walk_ok_set(1) [OF assms(1)] assms(3) by auto
  then show ?thesis
    using assms(2) at_path_valid at_path_nonempty node_entry_path components_path_of by metis
qed

fun is_dir_ent :: "dirent \<Rightarrow> bool" where
  "is_dir_ent (Ent_Dir _ _ _ _) = True"
| "is_dir_ent _ = False"

fun is_node :: "dirent \<Rightarrow> bool" where
  "is_node (Ent_File _ _ _ _) = True"
| "is_node (Ent_Dir _ _ _ _) = True"
| "is_node _ = False"

definition names_of :: "(dirent \<Rightarrow> bool) \<Rightarrow> dirent list \<Rightarrow> string list" where
  "names_of P es = map (the \<circ> ent_name) (filter P es)"

lemma scan_dir_names:
  "scan_dir dir es = Inr (xs, subs) \<Longrightarrow>
     map le_path xs = map (path_join dir) (names_of is_node es) \<and>
     map fst subs = map (path_join dir) (names_of is_dir_ent es)"
  by (induction dir es arbitrary: xs subs rule: scan_dir.induct)
    (auto simp: names_of_def file_entry_def dir_entry_def split: sum.splits)

lemma is_node_named: "is_node d \<or> is_dir_ent d \<Longrightarrow> \<exists>n. ent_name d = Some n"
  by (cases d) auto

lemma names_of_wf:
  assumes "wf_listing (Inr es)" "P = is_node \<or> P = is_dir_ent"
  shows "distinct (names_of P es) \<and> (\<forall>n \<in> set (names_of P es). valid_name n)"
proof
  have named: "d \<in> set (filter P es) \<Longrightarrow> \<exists>n. ent_name d = Some n" for d
    using assms(2) is_node_named by auto
  then have "map ent_name (filter P es) = map Some (names_of P es)"
    by (auto simp: names_of_def)
  moreover have "distinct (map ent_name (filter P es))"
    using assms(1) by (auto simp: wf_listing_Inr distinct_map_filter)
  ultimately show "distinct (names_of P es)" by (simp add: distinct_map)
  show "\<forall>n \<in> set (names_of P es). valid_name n"
    using named assms(1) by (fastforce simp: names_of_def wf_listing_Inr)
qed

lemma distinct_joined:
  "distinct ns \<Longrightarrow> \<forall>n \<in> set ns. valid_name n \<Longrightarrow> distinct (map (\<lambda>n. components (path_join dir n)) ns)"
  by (induction ns) (auto simp: components_join_name)

lemma joined_names:
  assumes "map (\<lambda>x. components (f x)) xs = map (\<lambda>n. components (path_join dir n)) ns" "\<forall>n \<in> set ns. valid_name n" "x \<in> set xs"
  shows "\<exists>n. components (f x) = components dir @ [Normal n]"
proof -
  have "components (f x) \<in> set (map (\<lambda>x. components (f x)) xs)" using assms(3) by simp
  then have "components (f x) \<in> (\<lambda>n. components (path_join dir n)) ` set ns" unfolding assms(1) by simp
  then show ?thesis using assms(2) by (auto simp: components_join_name)
qed

lemma scan_dir_distinct:
  assumes "scan_dir dir es = Inr (xs, subs)" "wf_listing (Inr es)"
  shows "distinct (map (\<lambda>x. components (le_path x)) xs)" "distinct (map (\<lambda>x. components (fst x)) subs)"
    and "x \<in> set xs \<Longrightarrow> \<exists>n. components (le_path x) = components dir @ [Normal n]"
    and "s \<in> set subs \<Longrightarrow> \<exists>n. components (fst s) = components dir @ [Normal n]"
proof -
  note wf = names_of_wf [OF assms(2)]
  have xs: "map (\<lambda>x. components (le_path x)) xs = map (\<lambda>n. components (path_join dir n)) (names_of is_node es)"
    and ss: "map (\<lambda>x. components (fst x)) subs = map (\<lambda>n. components (path_join dir n)) (names_of is_dir_ent es)"
    using arg_cong [OF conjunct1 [OF scan_dir_names [OF assms(1)]], of "map components"]
      arg_cong [OF conjunct2 [OF scan_dir_names [OF assms(1)]], of "map components"]
    by (simp_all add: comp_def del: map_eq_conv)
  show "distinct (map (\<lambda>x. components (le_path x)) xs)" "distinct (map (\<lambda>x. components (fst x)) subs)"
    unfolding xs ss using wf [of is_node] wf [of is_dir_ent] by (blast intro: distinct_joined)+
  show "x \<in> set xs \<Longrightarrow> \<exists>n. components (le_path x) = components dir @ [Normal n]"
    using joined_names [OF xs] wf by blast
  show "s \<in> set subs \<Longrightarrow> \<exists>n. components (fst s) = components dir @ [Normal n]"
    using joined_names [OF ss] wf by blast
qed

lemma walk_distinct:
  "walk_dir dir l = Inr xs \<Longrightarrow> wf_listing l \<Longrightarrow> distinct (map (\<lambda>x. components (le_path x)) xs)"
  "walk_subdirs subs = Inr xs \<Longrightarrow> \<forall>s \<in> set subs. wf_listing (snd s) \<Longrightarrow>
     distinct (map (\<lambda>x. components (fst x)) subs) \<Longrightarrow> \<exists>k. \<forall>s \<in> set subs. length (components (fst s)) = k \<Longrightarrow>
     distinct (map (\<lambda>x. components (le_path x)) xs) \<and>
     (\<forall>x \<in> set xs. \<exists>s \<in> set subs. \<exists>ns. ns \<noteq> [] \<and> components (le_path x) = components (fst s) @ map Normal ns)"
proof (induction dir l and subs arbitrary: xs and xs rule: walk_dir_walk_subdirs.induct)
  case (2 dir es)
  then obtain ys subs zs where s: "scan_dir dir es = Inr (ys, subs)" and
      w: "walk_subdirs subs = Inr zs" and xs: "xs = ys @ zs"
    by (auto split: sum.splits)
  note d = scan_dir_distinct [OF s "2.prems"(2)]
  have "\<forall>s \<in> set subs. wf_listing (snd s)"
    using scan_dir_ok [OF s] "2.prems"(2) by (auto simp: wf_listing_Inr)
  moreover have "\<exists>k. \<forall>s \<in> set subs. length (components (fst s)) = k"
    using d(4) by (metis length_append_singleton)
  ultimately have z: "distinct (map (\<lambda>x. components (le_path x)) zs)"
      "\<forall>x \<in> set zs. \<exists>s \<in> set subs. \<exists>ns. ns \<noteq> [] \<and> components (le_path x) = components (fst s) @ map Normal ns"
    using "2.IH" [OF s refl w _ d(2)] by blast+
  have "components (le_path x) \<noteq> components (le_path y)" if "x \<in> set ys" "y \<in> set zs" for x y
  proof -
    obtain sb ns where sb: "sb \<in> set subs" "ns \<noteq> []" "components (le_path y) = components (fst sb) @ map Normal ns"
      using z(2) \<open>y \<in> set zs\<close> by blast
    obtain n n' where "components (le_path x) = components dir @ [Normal n]" "components (fst sb) = components dir @ [Normal n']"
      using d(3) [OF \<open>x \<in> set ys\<close>] d(4) [OF sb(1)] by blast
    then show ?thesis using sb by auto
  qed
  then show ?case using d(1) z(1) xs by (auto simp: comp_def)
next
  case (4 sub l subs)
  then obtain ys zs where w: "walk_dir sub l = Inr ys" "walk_subdirs subs = Inr zs" and xs: "xs = ys @ zs"
    by (auto split: sum.splits)
  have z: "distinct (map (\<lambda>x. components (le_path x)) zs)"
      "\<forall>x \<in> set zs. \<exists>s \<in> set subs. \<exists>ns. ns \<noteq> [] \<and> components (le_path x) = components (fst s) @ map Normal ns"
    using "4.IH"(2) [OF w] "4.prems" by auto
  have y: "distinct (map (\<lambda>x. components (le_path x)) ys)"
      "\<forall>x \<in> set ys. \<exists>ns. ns \<noteq> [] \<and> components (le_path x) = components sub @ map Normal ns"
    using "4.IH"(1) [OF w(1)] "4.prems" walk_dir_paths [OF w(1)] by auto
  have "components (le_path x) \<noteq> components (le_path x')" if xy: "x \<in> set ys" "x' \<in> set zs" for x x'
  proof -
    obtain s where "s \<in> set subs" "\<exists>ns. components (le_path x') = components (fst s) @ map Normal ns"
      using z(2) xy(2) by blast
    moreover from this have "components (fst s) \<noteq> components sub" "length (components (fst s)) = length (components sub)"
      using "4.prems" by force+
    moreover have "\<exists>ns. components (le_path x) = components sub @ map Normal ns" using y(2) xy(1) by blast
    ultimately show ?thesis by (metis append_eq_append_conv)
  qed
  then show ?case using y z xs by (auto simp: comp_def)
qed auto

section \<open>Properties\<close>

lemma dir_below: "at_path es ns (Ent_Dir n m ino l) \<Longrightarrow> \<exists>n m ino l. Ent_Dir n m ino l \<in> set es"
  by (cases rule: at_path.cases) auto

lemma node_entry_dir: "node_entry p d = Some x \<Longrightarrow> le_is_dir x \<longleftrightarrow> (\<exists>n m ino l. d = Ent_Dir n m ino l)"
  by (cases d) (auto simp: file_entry_def dir_entry_def)

text \<open>
  C8: Local discovery returns exactly the files and the directories of the folder's tree. If the walk
  succeeds on a well-formed tree, then the entries are pairwise different paths; an entry is in the result
  if and only if it stands for a file or directory at some name sequence below the root; and the path
  relative to the root, which the engine uses as the key, is that name sequence joined by \<open>/\<close>. This contradicts the comment on the function, which
  says that directories are skipped and only regular files are returned: every directory of the tree is returned, and the result is the one the comment
  promises only if the folder has no subdirectory.
\<close>

theorem discover_local_exact:
  assumes "wf_listing (Inr es)" "discover_local None root (Inr es) = Inr xs"
  shows "distinct (map (\<lambda>x. components (le_path x)) xs) \<and>
    (\<forall>x. x \<in> set xs \<longleftrightarrow> (\<exists>ns d. at_path es ns d \<and> node_entry (path_of root ns) d = Some x)) \<and>
    (\<forall>x \<in> set xs. \<exists>ns. (\<forall>n \<in> set ns. valid_name n) \<and> le_path x = path_of root ns \<and>
       strip_prefix_path root (le_path x) = Some (rel_path ns)) \<and>
    (\<forall>ns n m ino l. at_path es ns (Ent_Dir n m ino l) \<longrightarrow> dir_entry (path_of root ns) m ino \<in> set xs) \<and>
    (list_all (\<lambda>x. \<not> le_is_dir x) xs \<longleftrightarrow> (\<forall>n m ino l. Ent_Dir n m ino l \<notin> set es))"
proof -
  have w: "walk_dir root (Inr es) = Inr xs"
    using assms(2) by (simp add: discover_local_def walk_def)
  have mem: "x \<in> set xs \<longleftrightarrow> (\<exists>ns d. at_path es ns d \<and> node_entry (path_of root ns) d = Some x)" for x
    using walk_ok_set(1) [OF w] by auto
  have names: "\<exists>ns. (\<forall>n \<in> set ns. valid_name n) \<and> le_path x = path_of root ns \<and>
       strip_prefix_path root (le_path x) = Some (rel_path ns)" if "x \<in> set xs" for x
    using that mem at_path_valid [OF _ assms(1)] node_entry_path strip_prefix_path_of by metis
  have dirs: "dir_entry (path_of root ns) m ino \<in> set xs" if "at_path es ns (Ent_Dir n m ino l)" for ns n m ino l
    using that mem by (metis node_entry.simps(2))
  have none: "\<not> le_is_dir x" if "x \<in> set xs" "\<forall>n m ino l. Ent_Dir n m ino l \<notin> set es" for x
    using that mem dir_below node_entry_dir by metis
  have some: "\<exists>x \<in> set xs. le_is_dir x" if "Ent_Dir n m ino l \<in> set es" for n m ino l
    using dirs [OF at_here [OF that]] by (intro bexI [of _ "dir_entry (path_of root [n]) m ino"]) (simp_all add: dir_entry_def)
  show ?thesis
  proof (intro conjI allI impI ballI)
    show "list_all (\<lambda>x. \<not> le_is_dir x) xs \<longleftrightarrow> (\<forall>n m ino l. Ent_Dir n m ino l \<notin> set es)"
      unfolding list_all_iff using none some by blast
  qed (use mem names dirs walk_distinct(1) [OF w assms(1)] in blast)+
qed

theorem discover_local_exact_witness:
  "let es = [Ent_Dir ''d'' (Some 3) 8 (Inr [Ent_File ''a'' None 5 9]), Ent_Other ''l'']
   in wf_listing (Inr es) \<and>
      discover_local None ''/s'' (Inr es) = Inr [dir_entry ''/s/d'' (Some 3) 8, file_entry ''/s/d/a'' None 5 9] \<and>
      (\<exists>ns d. at_path es ns d \<and> node_entry (path_of ''/s'' ns) d = Some (file_entry ''/s/d/a'' None 5 9)) \<and>
      \<not> list_all (\<lambda>x. \<not> le_is_dir x) [dir_entry ''/s/d'' (Some 3) 8, file_entry ''/s/d/a'' None 5 9]"
proof -
  let ?es = "[Ent_Dir ''d'' (Some 3) 8 (Inr [Ent_File ''a'' None 5 9]), Ent_Other ''l'']"
  let ?xs = "[dir_entry ''/s/d'' (Some 3) 8, file_entry ''/s/d/a'' None 5 9]"
  have wf: "wf_listing (Inr ?es)"
    by (auto simp: wf_listing_Inr valid_name_def)
  have run: "discover_local None ''/s'' (Inr ?es) = Inr ?xs"
    by (simp add: discover_local_def walk_def path_join_def)
  have "file_entry ''/s/d/a'' None 5 9 \<in> set ?xs" by simp
  moreover have "Ent_Dir ''d'' (Some 3) 8 (Inr [Ent_File ''a'' None 5 9]) \<in> set ?es" by simp
  ultimately show ?thesis using discover_local_exact [OF wf run] wf run unfolding Let_def by blast
qed

text \<open>
  C9: Local discovery is all or nothing. It fails exactly if the walk's thread failed or something
  in the tree could not be read: a \<open>read_dir\<close>, an entry of a directory, or the metadata of an entry, at
  any depth. It never returns a partial list, which the engine would take for deletions.
\<close>

theorem discover_local_fails_iff:
  "(\<exists>e. discover_local joined root l = Inl e) \<longleftrightarrow> (\<exists>msg. joined = Some msg) \<or> faulty l"
  using walk_error_iff(1) [of root l]
  by (auto simp: discover_local_def walk_def isl_iff split: option.splits)

end
