(* ===== verification/Http.thy ===== *)
theory Http
  imports SyncTypes
begin

text \<open>
  The code outside the repository that the network-facing components call, as parameters: sending a
  request (\<open>reqwest\<close>), reading XML events (\<open>quick_xml\<close>), percent-decoding (\<open>percent_encoding\<close>), and
  the parsing, the relative resolution and the segment encoding of URLs (\<open>url\<close>). Everything outside the process that a request can depend on
  or change is the world \<open>'w\<close>, which sending threads through. Sending either fails with a message or
  gives a response, whose body may still fail to be read.
\<close>

record request =
  rq_method :: string
  rq_url :: string
  rq_bearer :: "string option"
  rq_headers :: "(string \<times> string) list"
  rq_body :: string

record response =
  rs_status :: u16
  rs_headers :: "(string \<times> string) list"
  rs_body :: "string + string"

text \<open>\<open>net_elapsed\<close> is the number of milliseconds the request that led to a world has taken.\<close>

record 'w net =
  net_send :: "request \<Rightarrow> 'w \<Rightarrow> (string + response) \<times> 'w"
  net_elapsed :: "'w \<Rightarrow> u64"

datatype xml_event = Ev_Start string | Ev_Empty string | Ev_Text string | Ev_End string | Ev_Error string | Ev_Other

text \<open>
  \<open>lib_xml\<close> gives the events of a document up to the end of file or the first error; \<open>lib_url_error\<close> is
  the message for a string that \<open>lib_url_parse\<close> refuses.
\<close>

record libs =
  lib_xml :: "string \<Rightarrow> xml_event list"
  lib_pct_decode :: "string \<Rightarrow> string"
  lib_seg_encode :: "string \<Rightarrow> string"
  lib_url_join :: "url \<Rightarrow> string \<Rightarrow> string + url"
  lib_url_parse :: "string \<Rightarrow> url option"
  lib_url_error :: "string \<Rightarrow> string"
  lib_status_text :: "u16 \<Rightarrow> string"

text \<open>The header lookup of \<open>HeaderMap::get\<close>: names compare without case, the first value counts.\<close>

definition header :: "string \<Rightarrow> response \<Rightarrow> string option" where
  "header n r = map_option snd (find (\<lambda>h. eq_ignore_ascii_case (fst h) n) (rs_headers r))"

definition visible_ascii :: "char \<Rightarrow> bool" where
  "visible_ascii c \<longleftrightarrow> (let n = (of_char c :: nat) in 32 \<le> n \<and> n < 127 \<or> n = 9)"

text \<open>\<open>headers().get(n).and_then(|v| v.to_str().ok())\<close>: the value, if it is visible ASCII.\<close>

definition header_str :: "string \<Rightarrow> response \<Rightarrow> string option" where
  "header_str n r = (case header n r of Some v \<Rightarrow> if list_all visible_ascii v then Some v else None | None \<Rightarrow> None)"

definition header_or_empty :: "string \<Rightarrow> response \<Rightarrow> string" where
  "header_or_empty n r = (case header_str n r of Some v \<Rightarrow> v | None \<Rightarrow> [])"

definition url_path :: "url \<Rightarrow> string" where
  "url_path u = (case url_segments u of Some segs \<Rightarrow> ''/'' @ join_on ''/'' segs | None \<Rightarrow> [])"

text \<open>\<open>set_path(format!("{}/", path))\<close> on a path that does not end in a slash yet.\<close>

definition with_trailing_slash :: "url \<Rightarrow> url" where
  "with_trailing_slash u =
     (if ends_with_str (url_path u) ''/'' then u
      else u\<lparr>url_segments := map_option (\<lambda>segs. segs @ [[]]) (url_segments u)\<rparr>)"

definition collection_key :: "url \<Rightarrow> string" where
  "collection_key u = trim_end_matches CHR ''/'' (url_path u)"

definition http_event :: "string \<Rightarrow> url \<Rightarrow> u16 \<Rightarrow> u64 \<Rightarrow> u64 \<Rightarrow> HttpEvent" where
  "http_event meth u st ms n =
     \<lparr>he_method = meth, he_url = show_url (sanitise_url u), he_status = st, he_duration_ms = ms, he_bytes = n\<rparr>"

lemma show_url_sanitised:
  "url_segments u \<noteq> None \<Longrightarrow> show_url (sanitise_url u) = url_origin u @ url_path u"
  by (auto simp: show_url_def sanitise_url_def url_path_def url_origin_def)

text \<open>Facts that every URL derived from a base by changing its path has.\<close>

definition same_site :: "url \<Rightarrow> url \<Rightarrow> bool" where
  "same_site root u \<longleftrightarrow> url_origin u = url_origin root \<and> url_segments u \<noteq> None"

lemma join_remote_path_same_site:
  "join_remote_path enc root rel = Inr u \<Longrightarrow> same_site root u"
  by (auto simp: join_remote_path_def same_site_def url_origin_def Let_def split: option.splits)

section \<open>A concrete instance\<close>

text \<open>
  Instances of the parameters on which definitions can be evaluated: a library in which every name
  encodes to itself, and a network that gives the same answer to every request.
\<close>

definition sample_root :: url where
  "sample_root = \<lparr>url_scheme = ''https'', url_host = Some ''h'', url_port = None, url_segments = Some [''s'', []], url_query = None, url_fragment = None\<rparr>"

definition id_lib :: libs where
  "id_lib = \<lparr>lib_xml = \<lambda>_. [], lib_pct_decode = id, lib_seg_encode = id, lib_url_join = \<lambda>u _. Inr u,
     lib_url_parse = \<lambda>_. None, lib_url_error = id, lib_status_text = \<lambda>_. []\<rparr>"

definition const_net :: "u16 \<Rightarrow> string \<Rightarrow> unit net" where
  "const_net st body = \<lparr>net_send = \<lambda>_ _. (Inr \<lparr>rs_status = st, rs_headers = [], rs_body = Inr body\<rparr>, ()), net_elapsed = \<lambda>_. 1\<rparr>"

end
