(* ===== verification/DiscoveryRemote.thy ===== *)
theory DiscoveryRemote
  imports Http
begin

text \<open>
  Remote discovery (\<open>crates/sync-engine/src/discovery/remote.rs\<close>): the parser of a PROPFIND
  multi-status document as a fold over the XML events, and the breadth-first traversal of the collections.
  The server decides which collections exist, so the traversal may run forever; it is defined with fuel,
  one unit per request, and proved to end when the server names finitely many collections.
\<close>

section \<open>\<open>parse_propfind\<close>\<close>

record propfind_state =
  pf_href :: string
  pf_etag :: string
  pf_file_id :: string
  pf_size :: u64
  pf_is_collection :: bool
  pf_in_href :: bool
  pf_in_etag :: bool
  pf_in_length :: bool
  pf_in_fileid :: bool
  pf_in_response :: bool
  pf_files :: "RemoteEntry list"
  pf_dirs :: "url list"

definition propfind_init :: propfind_state where
  "propfind_init =
     \<lparr>pf_href = [], pf_etag = [], pf_file_id = [], pf_size = 0, pf_is_collection = False, pf_in_href = False,
      pf_in_etag = False, pf_in_length = False, pf_in_fileid = False, pf_in_response = False,
      pf_files = [], pf_dirs = []\<rparr>"

definition on_start :: "string \<Rightarrow> propfind_state \<Rightarrow> propfind_state" where
  "on_start name s =
     (if name = ''response'' then
        s\<lparr>pf_in_response := True, pf_href := [], pf_etag := [], pf_file_id := [], pf_size := 0,
          pf_is_collection := False\<rparr>
      else if name = ''href'' \<and> pf_in_response s then s\<lparr>pf_in_href := True\<rparr>
      else if name = ''getetag'' then s\<lparr>pf_in_etag := True\<rparr>
      else if name = ''getcontentlength'' then s\<lparr>pf_in_length := True\<rparr>
      else if name = ''fileid'' then s\<lparr>pf_in_fileid := True\<rparr>
      else if name = ''collection'' then s\<lparr>pf_is_collection := True\<rparr>
      else s)"

definition parse_u64_or_0 :: "string \<Rightarrow> u64" where
  "parse_u64_or_0 t = (case parse_unsigned (2 ^ 64 - 1) t of Some n \<Rightarrow> of_nat n | None \<Rightarrow> 0)"

definition on_text :: "string \<Rightarrow> propfind_state \<Rightarrow> propfind_state" where
  "on_text text s =
     s\<lparr>pf_href := (if pf_in_href s then text else pf_href s),
       pf_etag := (if pf_in_etag s then trim_matches CHR 0x22 text else pf_etag s),
       pf_size := (if pf_in_length s then parse_u64_or_0 text else pf_size s),
       pf_file_id := (if pf_in_fileid s then text else pf_file_id s),
       pf_in_href := False, pf_in_etag := False, pf_in_length := False, pf_in_fileid := False\<rparr>"

text \<open>The relative path of a resource: the part of its \<open>href\<close> below the space root, decoded.\<close>

definition href_rel :: "libs \<Rightarrow> url \<Rightarrow> string \<Rightarrow> string" where
  "href_rel lib space_root href =
     (let root_path = trim_end_matches CHR ''/'' (url_path space_root)
      in lib_pct_decode lib (trim_start_matches CHR ''/''
           (case strip_prefix_str root_path href of Some r \<Rightarrow> r | None \<Rightarrow> href)))"

definition remote_dir_entry :: "string \<Rightarrow> propfind_state \<Rightarrow> RemoteEntry" where
  "remote_dir_entry rel s =
     \<lparr>re_path = trim_end_matches CHR ''/'' rel, re_etag = pf_etag s, re_mtime = 0, re_size = 0,
      re_file_id = pf_file_id s, re_permissions = 0, re_is_dir = True\<rparr>"

definition remote_file_entry :: "string \<Rightarrow> propfind_state \<Rightarrow> RemoteEntry" where
  "remote_file_entry rel s =
     \<lparr>re_path = rel, re_etag = pf_etag s, re_mtime = 0, re_size = pf_size s,
      re_file_id = pf_file_id s, re_permissions = 0, re_is_dir = False\<rparr>"

definition on_end_response :: "libs \<Rightarrow> url \<Rightarrow> url \<Rightarrow> propfind_state \<Rightarrow> propfind_state" where
  "on_end_response lib space_root current_url s =
     (let s1 = s\<lparr>pf_in_response := False\<rparr>;
          href = pf_href s;
          root_path = trim_end_matches CHR ''/'' (url_path space_root);
          current_path = trim_end_matches CHR ''/'' (url_path current_url);
          rel = href_rel lib space_root href
      in if href = [] then s1
         else if rel = [] \<or> trim_end_matches CHR ''/'' href = root_path
                 \<or> trim_end_matches CHR ''/'' href = current_path then s1
         else if pf_is_collection s then
           s1\<lparr>pf_dirs := pf_dirs s @
                (case join_remote_path (lib_seg_encode lib) space_root (trim_end_matches CHR ''/'' rel) of
                   Inr sub_url \<Rightarrow> [with_trailing_slash sub_url]
                 | Inl _ \<Rightarrow> []),
              pf_files := pf_files s @ [remote_dir_entry rel s]\<rparr>
         else s1\<lparr>pf_files := pf_files s @ [remote_file_entry rel s]\<rparr>)"

fun propfind_event :: "libs \<Rightarrow> url \<Rightarrow> url \<Rightarrow> xml_event \<Rightarrow> propfind_state \<Rightarrow> propfind_state" where
  "propfind_event lib root cur (Ev_Start n) s = on_start n s"
| "propfind_event lib root cur (Ev_Empty n) s = (if n = ''collection'' then s\<lparr>pf_is_collection := True\<rparr> else s)"
| "propfind_event lib root cur (Ev_Text t) s = on_text t s"
| "propfind_event lib root cur (Ev_End n) s =
     (if n = ''response'' \<and> pf_in_response s then on_end_response lib root cur s else s)"
| "propfind_event lib root cur _ s = s"

fun propfind_loop :: "libs \<Rightarrow> url \<Rightarrow> url \<Rightarrow> xml_event list \<Rightarrow> propfind_state \<Rightarrow> SyncError + propfind_state" where
  "propfind_loop lib root cur [] s = Inr s"
| "propfind_loop lib root cur (Ev_Error e # evs) s = Inl (Err_Parse e)"
| "propfind_loop lib root cur (ev # evs) s = propfind_loop lib root cur evs (propfind_event lib root cur ev s)"

definition parse_propfind :: "libs \<Rightarrow> string \<Rightarrow> url \<Rightarrow> url \<Rightarrow> SyncError + RemoteEntry list \<times> url list" where
  "parse_propfind lib xml root cur =
     (case propfind_loop lib root cur (lib_xml lib xml) propfind_init of
        Inl e \<Rightarrow> Inl e
      | Inr s \<Rightarrow> Inr (pf_files s, pf_dirs s))"

section \<open>\<open>discover_remote\<close>\<close>

text \<open>The request body, line by line as in the raw string of the source.\<close>

definition propfind_body :: string where \<open>
  propfind_body = join_on [CHR 0x0A]
    [''<?xml version="1.0" encoding="utf-8"?>'',
     ''<D:propfind xmlns:D="DAV:" xmlns:OC="http://owncloud.org/ns">'',
     ''  <D:prop>'',
     ''    <D:resourcetype/>'',
     ''    <D:getlastmodified/>'',
     ''    <D:getcontentlength/>'',
     ''    <D:getetag/>'',
     ''    <OC:fileid/>'',
     ''    <OC:permissions/>'',
     ''  </D:prop>'',
     ''</D:propfind>'']\<close>

definition propfind_request :: "string \<Rightarrow> url \<Rightarrow> request" where
  "propfind_request bearer u =
     \<lparr>rq_method = ''PROPFIND'', rq_url = show_url u, rq_bearer = Some bearer,
      rq_headers = [(''Depth'', ''1''), (''Content-Type'', ''application/xml'')],
      rq_body = propfind_body\<rparr>"

text \<open>The loops that keep the new entries and queue the new collections.\<close>

fun push_new_entries :: "RemoteEntry list \<Rightarrow> string set \<Rightarrow> RemoteEntry list \<Rightarrow> RemoteEntry list \<times> string set" where
  "push_new_entries [] seen res = (res, seen)"
| "push_new_entries (e # es) seen res =
     (if re_path e \<in> seen then push_new_entries es seen res
      else push_new_entries es (insert (re_path e) seen) (res @ [e]))"

fun enqueue_new_dirs :: "url list \<Rightarrow> string set \<Rightarrow> url list \<Rightarrow> url list \<times> string set" where
  "enqueue_new_dirs [] visited queue = (queue, visited)"
| "enqueue_new_dirs (d # ds) visited queue =
     (if collection_key d \<in> visited then enqueue_new_dirs ds visited queue
      else enqueue_new_dirs ds (insert (collection_key d) visited) (queue @ [d]))"

text \<open>One request of the loop: the events it logs and the parsed children or the error.\<close>

definition propfind_step :: "libs \<Rightarrow> 'w net \<Rightarrow> string \<Rightarrow> url \<Rightarrow> url \<Rightarrow> 'w
    \<Rightarrow> (SyncError + RemoteEntry list \<times> url list) \<times> HttpEvent list \<times> 'w" where
  "propfind_step lib net bearer root u w =
     (case net_send net (propfind_request bearer u) w of
        (Inl e, w1) \<Rightarrow> (Inl (Err_Http 0 e), [], w1)
      | (Inr resp, w1) \<Rightarrow>
          (if rs_status resp \<noteq> 207 then
             (Inl (Err_Http (rs_status resp) ''PROPFIND failed''),
              [http_event ''PROPFIND'' u (rs_status resp) (net_elapsed net w1) 0], w1)
           else
             (case rs_body resp of
                Inl e \<Rightarrow> (Inl (Err_Http 0 e), [], w1)
              | Inr text \<Rightarrow>
                  (parse_propfind lib text root u,
                   [http_event ''PROPFIND'' u (rs_status resp) (net_elapsed net w1) (of_nat (length text))], w1))))"

fun discover_loop :: "nat \<Rightarrow> libs \<Rightarrow> 'w net \<Rightarrow> string \<Rightarrow> url \<Rightarrow> url list \<Rightarrow> string set \<Rightarrow> string set
    \<Rightarrow> RemoteEntry list \<Rightarrow> HttpEvent list \<Rightarrow> 'w \<Rightarrow> ((SyncError + RemoteEntry list) \<times> HttpEvent list \<times> 'w) option" where
  "discover_loop fuel lib net bearer root [] visited seen result events w = Some (Inr result, events, w)"
| "discover_loop 0 lib net bearer root (u # queue) visited seen result events w = None"
| "discover_loop (Suc fuel) lib net bearer root (u # queue) visited seen result events w =
     (case propfind_step lib net bearer root u w of
        (Inl e, evs, w1) \<Rightarrow> Some (Inl e, events @ evs, w1)
      | (Inr (files, dirs), evs, w1) \<Rightarrow>
          (let (result', seen') = push_new_entries files seen result;
               (queue', visited') = enqueue_new_dirs dirs visited queue
           in discover_loop fuel lib net bearer root queue' visited' seen' result' (events @ evs) w1))"

definition discover_remote :: "nat \<Rightarrow> libs \<Rightarrow> 'w net \<Rightarrow> url \<Rightarrow> string \<Rightarrow> HttpEvent list \<Rightarrow> 'w
    \<Rightarrow> ((SyncError + RemoteEntry list) \<times> HttpEvent list \<times> 'w) option" where
  "discover_remote fuel lib net root bearer events w =
     discover_loop fuel lib net bearer root [root] {collection_key root} {} [] events w"

section \<open>Lemmas on the traversal\<close>

lemma push_new_entries_spec:
  assumes "push_new_entries es seen res = (res', seen')" "seen = re_path ` set res" "distinct (map re_path res)"
  shows "seen' = re_path ` set res' \<and> distinct (map re_path res') \<and> set res \<subseteq> set res' \<and>
    set res' \<subseteq> set res \<union> set es \<and> re_path ` set res' = re_path ` set res \<union> re_path ` set es"
  using assms
proof (induction es seen res rule: push_new_entries.induct)
  case (2 e es seen res)
  show ?case
  proof (cases "re_path e \<in> seen")
    case True
    then show ?thesis using 2 by auto
  next
    case False
    have "distinct (map re_path (res @ [e]))" using 2 False by auto
    moreover have "insert (re_path e) seen = re_path ` set (res @ [e])" using 2 by auto
    ultimately have "seen' = re_path ` set res' \<and> distinct (map re_path res') \<and> set (res @ [e]) \<subseteq> set res' \<and>
      set res' \<subseteq> set (res @ [e]) \<union> set es \<and> re_path ` set res' = re_path ` set (res @ [e]) \<union> re_path ` set es"
      using "2.IH"(2) [OF False] "2.prems"(1) False by simp
    then show ?thesis by auto
  qed
qed auto

lemma enqueue_new_dirs_spec:
  assumes "enqueue_new_dirs ds visited queue = (queue', visited')"
  shows "\<exists>new. queue' = queue @ new \<and> set new \<subseteq> set ds \<and> distinct (map collection_key new) \<and>
    collection_key ` set new \<inter> visited = {} \<and> visited' = visited \<union> collection_key ` set new \<and>
    visited' = visited \<union> collection_key ` set ds"
  using assms
proof (induction ds visited queue rule: enqueue_new_dirs.induct)
  case (2 d ds visited queue)
  show ?case
  proof (cases "collection_key d \<in> visited")
    case True
    with 2 obtain new where "queue' = queue @ new" "set new \<subseteq> set ds" "distinct (map collection_key new)"
        "collection_key ` set new \<inter> visited = {}" "visited' = visited \<union> collection_key ` set new"
        "visited' = visited \<union> collection_key ` set ds"
      by auto
    with True show ?thesis by (intro exI [of _ new]) auto
  next
    case False
    with 2 obtain new where "queue' = (queue @ [d]) @ new" "set new \<subseteq> set ds" "distinct (map collection_key new)"
        "collection_key ` set new \<inter> insert (collection_key d) visited = {}"
        "visited' = insert (collection_key d) visited \<union> collection_key ` set new"
        "visited' = insert (collection_key d) visited \<union> collection_key ` set ds"
      by auto
    with False show ?thesis by (intro exI [of _ "d # new"]) auto
  qed
qed simp

text \<open>What one answered request of the traversal contributes.\<close>

record exchange =
  ex_url :: url
  ex_files :: "RemoteEntry list"
  ex_dirs :: "url list"

definition answered :: "libs \<Rightarrow> 'w net \<Rightarrow> string \<Rightarrow> url \<Rightarrow> exchange \<Rightarrow> bool" where
  "answered lib net bearer root x \<longleftrightarrow>
     (\<exists>w evs w1. propfind_step lib net bearer root (ex_url x) w = (Inr (ex_files x, ex_dirs x), evs, w1))"

lemma propfind_step_events:
  "propfind_step lib net bearer root u w = (Inr fd, evs, w1) \<Longrightarrow> map he_url evs = [show_url (sanitise_url u)]"
  by (auto simp: propfind_step_def http_event_def split: prod.splits sum.splits if_splits)

text \<open>
  A complete traversal: every request was answered, every collection named in an answer was itself
  requested, none was requested twice, and the result has one entry for each path named in an answer.
\<close>

definition complete_log :: "libs \<Rightarrow> 'w net \<Rightarrow> string \<Rightarrow> url \<Rightarrow> exchange list \<Rightarrow> RemoteEntry list \<Rightarrow> bool" where
  "complete_log lib net bearer root log result \<longleftrightarrow>
     (\<forall>x \<in> set log. answered lib net bearer root x \<and>
        collection_key ` set (ex_dirs x) \<subseteq> collection_key ` ex_url ` set log) \<and>
     distinct (map collection_key (map ex_url log)) \<and>
     distinct (map re_path result) \<and> set result \<subseteq> (\<Union>x \<in> set log. set (ex_files x)) \<and>
     re_path ` set result = (\<Union>x \<in> set log. re_path ` set (ex_files x))"

lemma discover_loop_log:
  assumes "discover_loop fuel lib net bearer root queue visited seen result events w = Some (Inr result', events', w')"
    and "visited = collection_key ` (ex_url ` set log \<union> set queue)"
    and "distinct (map collection_key (map ex_url log @ queue))"
    and "seen = re_path ` set result" "distinct (map re_path result)"
    and "\<forall>x \<in> set log. answered lib net bearer root x \<and> collection_key ` set (ex_dirs x) \<subseteq> visited"
    and "set result \<subseteq> (\<Union>x \<in> set log. set (ex_files x))"
    and "re_path ` set result = (\<Union>x \<in> set log. re_path ` set (ex_files x))"
  shows "\<exists>more. complete_log lib net bearer root (log @ more) result' \<and> prefix queue (map ex_url more) \<and>
    map he_url events' = map he_url events @ map (\<lambda>x. show_url (sanitise_url (ex_url x))) more"
  using assms
proof (induction fuel lib net bearer root queue visited seen result events w arbitrary: log
    rule: discover_loop.induct)
  case (1 fuel lib net bearer root visited seen result events w)
  then show ?case by (intro exI [of _ "[]"]) (auto simp: complete_log_def)
next
  case (3 fuel lib net bearer root u queue visited seen result events w)
  from "3.prems"(1) obtain files dirs evs w1 where
    st: "propfind_step lib net bearer root u w = (Inr (files, dirs), evs, w1)"
    by (auto split: prod.splits sum.splits)
  obtain result1 seen1 where pn: "push_new_entries files seen result = (result1, seen1)" by fastforce
  obtain queue1 visited1 where en: "enqueue_new_dirs dirs visited queue = (queue1, visited1)" by fastforce
  obtain new where new: "queue1 = queue @ new" "set new \<subseteq> set dirs" "distinct (map collection_key new)"
      "collection_key ` set new \<inter> visited = {}" "visited1 = visited \<union> collection_key ` set new"
      "visited1 = visited \<union> collection_key ` set dirs"
    using enqueue_new_dirs_spec [OF en] by blast
  note r = push_new_entries_spec [OF pn "3.prems"(4,5)]
  let ?x = "\<lparr>ex_url = u, ex_files = files, ex_dirs = dirs\<rparr>"
  have ans: "answered lib net bearer root ?x" using st by (auto simp: answered_def)
  have "\<exists>more. complete_log lib net bearer root ((log @ [?x]) @ more) result' \<and> prefix queue1 (map ex_url more) \<and>
    map he_url events' = map he_url (events @ evs) @ map (\<lambda>x. show_url (sanitise_url (ex_url x))) more"
  proof (rule "3.IH" [OF st [symmetric] refl refl refl refl pn [symmetric] refl en [symmetric]])
    show "discover_loop fuel lib net bearer root queue1 visited1 seen1 result1 (events @ evs) w1 =
        Some (Inr result', events', w')"
      using "3.prems"(1) st pn en by simp
    show "visited1 = collection_key ` (ex_url ` set (log @ [?x]) \<union> set queue1)"
      using new(1,5) "3.prems"(2) by auto
    show "distinct (map collection_key (map ex_url (log @ [?x]) @ queue1))"
      using "3.prems"(2,3) new(1,3,4) by auto
    show "\<forall>x \<in> set (log @ [?x]). answered lib net bearer root x \<and> collection_key ` set (ex_dirs x) \<subseteq> visited1"
      using ans "3.prems"(6) new(6) by auto
    show "set result1 \<subseteq> (\<Union>x \<in> set (log @ [?x]). set (ex_files x))"
      using r "3.prems"(7) by auto
    show "re_path ` set result1 = (\<Union>x \<in> set (log @ [?x]). re_path ` set (ex_files x))"
      using r "3.prems"(8) by auto
  qed (use r in auto)
  then obtain more where "complete_log lib net bearer root (log @ ?x # more) result'" "prefix queue1 (map ex_url more)"
      "map he_url events' = map he_url (events @ evs) @ map (\<lambda>x. show_url (sanitise_url (ex_url x))) more"
    by auto
  then show ?case
    using propfind_step_events [OF st] new(1) by (intro exI [of _ "?x # more"]) (auto simp: prefix_def)
qed simp

lemma discover_loop_terminates:
  assumes "finite K" "\<And>u w files dirs evs w1. propfind_step lib net bearer root u w = (Inr (files, dirs), evs, w1) \<Longrightarrow>
      collection_key ` set dirs \<subseteq> K"
    and "card (K - visited) + length queue \<le> fuel"
  shows "discover_loop fuel lib net bearer root queue visited seen result events w \<noteq> None"
  using assms(3)
proof (induction fuel arbitrary: queue visited seen result events w)
  case 0
  then show ?case by simp
next
  case (Suc fuel)
  show ?case
  proof (cases queue)
    case (Cons u queue0)
    obtain out evs w1 where st: "propfind_step lib net bearer root u w = (out, evs, w1)" by (rule prod_cases3)
    show ?thesis
    proof (cases out)
      case (Inr fd)
      obtain files dirs where fd: "fd = (files, dirs)" by fastforce
      obtain result1 seen1 where pn: "push_new_entries files seen result = (result1, seen1)" by fastforce
      obtain queue1 visited1 where en: "enqueue_new_dirs dirs visited queue0 = (queue1, visited1)" by fastforce
      obtain new where new: "queue1 = queue0 @ new" "distinct (map collection_key new)" "set new \<subseteq> set dirs"
          "collection_key ` set new \<inter> visited = {}" "visited1 = visited \<union> collection_key ` set new"
        using enqueue_new_dirs_spec [OF en] by blast
      have sub: "collection_key ` set new \<subseteq> K - visited"
        using new(3,4) assms(2) [of u w files dirs evs w1] st Inr fd by auto
      have "K - visited1 = (K - visited) - collection_key ` set new" using new(5) by auto
      then have "card (K - visited1) = card (K - visited) - length new"
        using card_Diff_subset [OF _ sub] distinct_card [OF new(2)] by simp
      moreover have "length new \<le> card (K - visited)"
        using card_mono [OF _ sub] assms(1) distinct_card [OF new(2)] by simp
      ultimately have "card (K - visited1) + length queue1 \<le> fuel"
        using Suc.prems Cons new(1) by simp
      from Suc.IH [OF this] show ?thesis using Cons st Inr fd pn en by simp
    qed (use Cons st in simp)
  qed simp
qed

text \<open>The network with a record of the requests that were sent over it.\<close>

definition recording :: "'w net \<Rightarrow> ('w \<times> request list) net" where
  "recording net =
     \<lparr>net_send = \<lambda>rq (w, sent). (case net_send net rq w of (r, w1) \<Rightarrow> (r, w1, sent @ [rq])), net_elapsed = \<lambda>(w, _). net_elapsed net w\<rparr>"

lemma propfind_step_recorded:
  "propfind_step lib net bearer root u w = (out, evs, w1) \<Longrightarrow>
     propfind_step lib (recording net) bearer root u (w, sent) = (out, evs, w1, sent @ [propfind_request bearer u])"
  by (auto simp: propfind_step_def recording_def split: prod.splits sum.splits if_splits)

text \<open>No collection is asked twice: what is asked are the queue and collections that were not known before.\<close>

lemma discover_loop_recorded:
  assumes "\<And>u w files dirs evs w1. propfind_step lib net bearer root u w = (Inr (files, dirs), evs, w1) \<Longrightarrow>
      collection_key ` set dirs \<subseteq> K"
    and "discover_loop fuel lib net bearer root queue visited seen result events w = Some (out, events', w')"
    and "distinct (map collection_key queue)" "collection_key ` set queue \<subseteq> visited"
  shows "\<exists>us. discover_loop fuel lib (recording net) bearer root queue visited seen result events (w, sent) =
        Some (out, events', w', sent @ map (propfind_request bearer) us) \<and>
      distinct (map collection_key us) \<and> collection_key ` set us \<subseteq> collection_key ` set queue \<union> (K - visited)"
  using assms(2-)
proof (induction fuel arbitrary: queue visited seen result events w sent)
  case 0
  then show ?case by (cases queue) auto
next
  case (Suc fuel)
  show ?case
  proof (cases queue)
    case Nil
    then show ?thesis using Suc.prems by (intro exI [of _ "[]"]) simp
  next
    case (Cons u queue0)
    obtain o1 evs w1 where st: "propfind_step lib net bearer root u w = (o1, evs, w1)" by (rule prod_cases3)
    note rec = propfind_step_recorded [OF st, of sent]
    show ?thesis
    proof (cases o1)
      case (Inl e)
      then show ?thesis using Suc.prems Cons st rec by (intro exI [of _ "[u]"]) simp
    next
      case (Inr fd)
      obtain files dirs where fd: "fd = (files, dirs)" by fastforce
      obtain result1 seen1 where pn: "push_new_entries files seen result = (result1, seen1)" by fastforce
      obtain queue1 visited1 where en: "enqueue_new_dirs dirs visited queue0 = (queue1, visited1)" by fastforce
      obtain new where new: "queue1 = queue0 @ new" "distinct (map collection_key new)" "set new \<subseteq> set dirs"
          "collection_key ` set new \<inter> visited = {}" "visited1 = visited \<union> collection_key ` set new"
        using enqueue_new_dirs_spec [OF en] by blast
      have K: "collection_key ` set new \<subseteq> K" using new(3) assms(1) [of u w files dirs evs w1] st Inr fd by auto
      have q0: "distinct (map collection_key queue0)" "collection_key ` set queue0 \<subseteq> visited" "collection_key u \<in> visited"
          "collection_key u \<notin> collection_key ` set queue0"
        using Suc.prems(2,3) Cons by auto
      have "discover_loop fuel lib net bearer root queue1 visited1 seen1 result1 (events @ evs) w1 = Some (out, events', w')"
        using Suc.prems(1) Cons st Inr fd pn en by simp
      moreover have "distinct (map collection_key queue1)" using q0(1,2) new(1,2,4) by (auto simp: disjoint_iff)
      moreover have "collection_key ` set queue1 \<subseteq> visited1" using q0 new by auto
      ultimately obtain us where us: "discover_loop fuel lib (recording net) bearer root queue1 visited1 seen1 result1 (events @ evs)
            (w1, sent @ [propfind_request bearer u]) = Some (out, events', w', (sent @ [propfind_request bearer u]) @ map (propfind_request bearer) us)"
          "distinct (map collection_key us)" "collection_key ` set us \<subseteq> collection_key ` set queue1 \<union> (K - visited1)"
        using Suc.IH [of queue1 visited1 seen1 result1 "events @ evs" w1 "sent @ [propfind_request bearer u]"] by blast
      have "collection_key u \<notin> collection_key ` set us" using us(3) q0(3,4) new(1,4,5) by auto
      moreover have "collection_key ` set us \<subseteq> collection_key ` set queue0 \<union> (K - visited)"
      proof -
        have "collection_key ` set queue1 = collection_key ` set queue0 \<union> collection_key ` set new" using new(1) by auto
        then show ?thesis using us(3) new(4,5) K by blast
      qed
      ultimately show ?thesis
        using us(1,2) Cons rec Inr fd pn en by (intro exI [of _ "u # us"]) auto
    qed
  qed
qed

section \<open>Lemmas on the parser\<close>

text \<open>
  The multi-status element a server sends for one resource: its \<open>href\<close> and the requested properties. The
  \<open>href\<close> is the space root's path followed by the encoded names, with a trailing slash for a collection.
\<close>

record resource =
  rc_names :: "string list"
  rc_etag :: string
  rc_size :: u64
  rc_file_id :: string
  rc_collection :: bool

definition text_element :: "string \<Rightarrow> string \<Rightarrow> xml_event list" where
  "text_element n t = [Ev_Start n, Ev_Text t, Ev_End n]"

definition resource_href :: "libs \<Rightarrow> url \<Rightarrow> resource \<Rightarrow> string" where
  "resource_href lib root r =
     trim_end_matches CHR ''/'' (url_path root) @ ''/'' @ join_on ''/'' (map (lib_seg_encode lib) (rc_names r)) @
     (if rc_collection r then ''/'' else [])"

definition resource_events :: "libs \<Rightarrow> url \<Rightarrow> resource \<Rightarrow> xml_event list" where
  "resource_events lib root r =
     Ev_Start ''response'' # text_element ''href'' (resource_href lib root r) @
     [Ev_Start ''propstat'', Ev_Start ''prop'', Ev_Start ''resourcetype''] @
     (if rc_collection r then [Ev_Empty ''collection''] else []) @ [Ev_End ''resourcetype''] @
     text_element ''getetag'' (CHR 0x22 # rc_etag r @ [CHR 0x22]) @
     (if rc_collection r then [] else text_element ''getcontentlength'' (show_nat (unat (rc_size r)))) @
     text_element ''fileid'' (rc_file_id r) @
     [Ev_End ''prop''] @ text_element ''status'' ''HTTP/1.1 200 OK'' @ [Ev_End ''propstat'', Ev_End ''response'']"

definition multistatus_events :: "libs \<Rightarrow> url \<Rightarrow> resource list \<Rightarrow> xml_event list" where
  "multistatus_events lib root rs =
     [Ev_Other, Ev_Start ''multistatus''] @ concat (map (resource_events lib root) rs) @ [Ev_End ''multistatus'']"

definition resource_entry :: "resource \<Rightarrow> RemoteEntry" where
  "resource_entry r =
     \<lparr>re_path = rel_path (rc_names r), re_etag = rc_etag r, re_mtime = 0,
      re_size = (if rc_collection r then 0 else rc_size r), re_file_id = rc_file_id r,
      re_permissions = 0, re_is_dir = rc_collection r\<rparr>"

definition resource_url :: "libs \<Rightarrow> url \<Rightarrow> resource \<Rightarrow> url" where
  "resource_url lib root r =
     root\<lparr>url_segments := Some (pop_if_empty (the (url_segments root)) @ map (lib_seg_encode lib) (rc_names r) @ [[]])\<rparr>"

text \<open>
  What is assumed of the encoding: a path of names, encoded segment by segment, decodes to the path, also with a
  trailing slash, and an encoded name is not empty and has no slash.
\<close>

definition encoding_ok :: "libs \<Rightarrow> bool" where
  "encoding_ok lib \<longleftrightarrow>
     (\<forall>ns. (\<forall>n \<in> set ns. valid_name n) \<longrightarrow> ns \<noteq> [] \<longrightarrow>
        lib_pct_decode lib (join_on ''/'' (map (lib_seg_encode lib) ns)) = join_on ''/'' ns \<and>
        lib_pct_decode lib (join_on ''/'' (map (lib_seg_encode lib) ns) @ ''/'') = join_on ''/'' ns @ ''/'') \<and>
     (\<forall>n. valid_name n \<longrightarrow> lib_seg_encode lib n \<noteq> [] \<and> CHR ''/'' \<notin> set (lib_seg_encode lib n))"

definition resource_ok :: "libs \<Rightarrow> url \<Rightarrow> url \<Rightarrow> resource \<Rightarrow> bool" where
  "resource_ok lib root cur r \<longleftrightarrow>
     rc_names r \<noteq> [] \<and> (\<forall>n \<in> set (rc_names r). valid_name n) \<and> CHR 0x22 \<notin> set (rc_etag r) \<and>
     trim_end_matches CHR ''/'' (resource_href lib root r) \<noteq> collection_key cur"

lemma parse_u64_show [simp]: "parse_u64_or_0 (show_nat (unat x)) = x"
proof -
  have "unat x < 2 ^ 64" using unsigned_less [of x, where ?'a = nat] by simp
  then have "unat x \<le> 2 ^ 64 - 1" by simp
  then show ?thesis by (simp add: parse_u64_or_0_def parse_unsigned_show del: One_nat_def)
qed

lemma trim_end_last: "s \<noteq> [] \<Longrightarrow> last s \<noteq> c \<Longrightarrow> trim_end_matches c s = s"
  by (metis append_butlast_last_id trim_end_matches_snoc_neq)

lemma propfind_loop_append:
  "\<forall>e. Ev_Error e \<notin> set evs \<Longrightarrow>
     propfind_loop lib root cur (evs @ evs') s = propfind_loop lib root cur evs' (fold (propfind_event lib root cur) evs s)"
proof (induction evs arbitrary: s)
  case (Cons ev evs)
  then show ?case by (cases ev) auto
qed simp

text \<open>The state between two \<open>response\<close> elements.\<close>

definition between_responses :: "propfind_state \<Rightarrow> bool" where
  "between_responses s \<longleftrightarrow>
     \<not> pf_in_href s \<and> \<not> pf_in_etag s \<and> \<not> pf_in_length s \<and> \<not> pf_in_fileid s \<and> \<not> pf_in_response s"

text \<open>The state when the end of the \<open>response\<close> element of a resource is reached.\<close>

lemma resource_events_collect:
  assumes "between_responses s" "CHR 0x22 \<notin> set (rc_etag r)"
  shows "fold (propfind_event lib root cur) (resource_events lib root r) s =
    on_end_response lib root cur
      (s\<lparr>pf_href := resource_href lib root r, pf_etag := rc_etag r,
         pf_size := (if rc_collection r then 0 else rc_size r), pf_file_id := rc_file_id r,
         pf_is_collection := rc_collection r, pf_in_response := True\<rparr>)"
  using assms trim_quotes [of "CHR 0x22" "rc_etag r"]
  by (cases s; cases "rc_collection r")
    (simp_all add: resource_events_def text_element_def on_start_def on_text_def between_responses_def)

lemma join_on_encoded:
  assumes "encoding_ok lib" "\<forall>n \<in> set ns. valid_name n" "ns \<noteq> []"
  shows "join_on ''/'' (map (lib_seg_encode lib) ns) \<noteq> [] \<and>
    hd (join_on ''/'' (map (lib_seg_encode lib) ns)) \<noteq> CHR ''/'' \<and>
    last (join_on ''/'' (map (lib_seg_encode lib) ns)) \<noteq> CHR ''/''"
proof -
  let ?es = "map (lib_seg_encode lib) ns"
  have e: "\<forall>e \<in> set ?es. e \<noteq> [] \<and> CHR ''/'' \<notin> set e" using assms by (auto simp: encoding_ok_def)
  then have ne: "\<forall>e \<in> set ?es. e \<noteq> []" by blast
  have "hd ?es \<in> set ?es" "last ?es \<in> set ?es" using assms(3) by (auto intro!: hd_in_set last_in_set simp del: set_map)
  then have "hd (hd ?es) \<noteq> CHR ''/''" "last (last ?es) \<noteq> CHR ''/''" using e hd_in_set last_in_set by metis+
  then show ?thesis
    using hd_join_on [OF _ ne, of "''/''"] last_join_on [OF _ ne, of "''/''"] assms(3) by simp
qed

lemma href_rel_resource:
  assumes "encoding_ok lib" "\<forall>n \<in> set (rc_names r). valid_name n" "rc_names r \<noteq> []"
  shows "href_rel lib root (resource_href lib root r) = rel_path (rc_names r) @ (if rc_collection r then ''/'' else [])"
proof -
  let ?x = "join_on ''/'' (map (lib_seg_encode lib) (rc_names r))"
  have "trim_start_matches CHR ''/'' (''/'' @ ?x @ t) = ?x @ t" for t
    using join_on_encoded [OF assms] by (cases ?x) (auto simp: trim_start_matches_def)
  then show ?thesis
    using assms by (auto simp: href_rel_def resource_href_def encoding_ok_def rel_path_def Let_def)
qed

lemma trim_resource_href:
  assumes "encoding_ok lib" "\<forall>n \<in> set (rc_names r). valid_name n" "rc_names r \<noteq> []"
  shows "trim_end_matches CHR ''/'' (resource_href lib root r) =
    collection_key root @ ''/'' @ join_on ''/'' (map (lib_seg_encode lib) (rc_names r))" (is "_ = ?h")
proof -
  have "last ?h \<noteq> CHR ''/''" using join_on_encoded [OF assms] by simp
  then have "trim_end_matches CHR ''/'' ?h = ?h" by (simp add: trim_end_last del: append_assoc)
  moreover have "resource_href lib root r = ?h @ (if rc_collection r then ''/'' else [])"
    by (simp add: resource_href_def collection_key_def)
  ultimately show ?thesis using trim_end_matches_snoc_eq [of "CHR ''/''" ?h] by (simp del: append_assoc)
qed

lemma with_trailing_slash_resource:
  assumes "encoding_ok lib" "\<forall>n \<in> set ns. valid_name n" "ns \<noteq> []"
  shows "with_trailing_slash (root\<lparr>url_segments := Some (segs @ map (lib_seg_encode lib) ns)\<rparr>) =
    root\<lparr>url_segments := Some (segs @ map (lib_seg_encode lib) ns @ [[]])\<rparr>"
proof -
  have "ss \<noteq> [] \<Longrightarrow> last ss \<noteq> [] \<Longrightarrow> last (join_on ''/'' ss) = last (last ss) \<and> join_on ''/'' ss \<noteq> []" for ss
  proof (induction ss)
    case (Cons x ss)
    then show ?case by (cases ss) auto
  qed simp
  moreover have "lib_seg_encode lib (last ns) \<noteq> []" "CHR ''/'' \<notin> set (lib_seg_encode lib (last ns))"
    using assms last_in_set [of ns] by (auto simp: encoding_ok_def)
  then have "last (map (lib_seg_encode lib) ns) \<noteq> []" "last (last (map (lib_seg_encode lib) ns)) \<noteq> CHR ''/''"
    using assms(3) by (metis last_map last_in_set)+
  ultimately have "last (join_on ''/'' (segs @ map (lib_seg_encode lib) ns)) \<noteq> CHR ''/'' \<and>
      join_on ''/'' (segs @ map (lib_seg_encode lib) ns) \<noteq> []"
    using assms(3) by simp
  then have "\<not> ends_with_str (''/'' @ join_on ''/'' (segs @ map (lib_seg_encode lib) ns)) ''/''"
    by (auto simp: ends_with_str_def suffix_def Cons_eq_append_conv)
  then show ?thesis by (simp add: with_trailing_slash_def url_path_def)
qed

lemma on_end_response_resource:
  assumes "encoding_ok lib" "resource_ok lib root cur r" "url_segments root \<noteq> None"
    and "pf_href s = resource_href lib root r" "pf_etag s = rc_etag r" "pf_is_collection s = rc_collection r"
    and "pf_size s = (if rc_collection r then 0 else rc_size r)" "pf_file_id s = rc_file_id r"
  shows "on_end_response lib root cur s = s\<lparr>pf_in_response := False, pf_files := pf_files s @ [resource_entry r],
    pf_dirs := pf_dirs s @ (if rc_collection r then [resource_url lib root r] else [])\<rparr>"
proof -
  have names: "\<forall>n \<in> set (rc_names r). valid_name n" "rc_names r \<noteq> []" using assms(2) by (auto simp: resource_ok_def)
  obtain segs where segs: "url_segments root = Some segs" using assms(3) by auto
  note rel = href_rel_resource [OF assms(1) names] and trim = trim_resource_href [OF assms(1) names]
  have last_rel: "rel_path (rc_names r) \<noteq> [] \<and> last (rel_path (rc_names r)) \<noteq> CHR ''/''"
    using names last_join_on [of "rc_names r" "''/''"] last_in_set [of "rc_names r"] last_valid_name
    by (metis rel_path_def valid_name_def)
  then have rel_trim: "trim_end_matches CHR ''/'' (rel_path (rc_names r) @ ''/'') = rel_path (rc_names r)"
      "trim_end_matches CHR ''/'' (rel_path (rc_names r)) = rel_path (rc_names r)"
    by (simp_all add: trim_end_last)
  have "resource_href lib root r \<noteq> []" by (simp add: resource_href_def)
  moreover have "trim_end_matches CHR ''/'' (resource_href lib root r) \<noteq> collection_key root" using trim by simp
  moreover have "trim_end_matches CHR ''/'' (resource_href lib root r) \<noteq> collection_key cur"
    using assms(2) by (simp add: resource_ok_def)
  ultimately show ?thesis
    using assms(4-8) rel rel_trim last_rel join_remote_path_names [OF names segs]
      with_trailing_slash_resource [OF assms(1) names]
    by (cases "rc_collection r")
      (simp_all add: on_end_response_def collection_key_def Let_def remote_dir_entry_def remote_file_entry_def
        resource_entry_def resource_url_def segs)
qed

lemma fold_resources:
  assumes "encoding_ok lib" "\<forall>r \<in> set rs. resource_ok lib root cur r" "url_segments root \<noteq> None" "between_responses s"
  shows "\<exists>s'. fold (propfind_event lib root cur) (concat (map (resource_events lib root) rs)) s = s' \<and> between_responses s' \<and>
    pf_files s' = pf_files s @ map resource_entry rs \<and>
    pf_dirs s' = pf_dirs s @ map (resource_url lib root) (filter rc_collection rs)"
  using assms(2,4)
proof (induction rs arbitrary: s)
  case (Cons r rs)
  have ok: "resource_ok lib root cur r" using Cons.prems by simp
  let ?s = "s\<lparr>pf_href := resource_href lib root r, pf_etag := rc_etag r,
         pf_size := (if rc_collection r then 0 else rc_size r), pf_file_id := rc_file_id r,
         pf_is_collection := rc_collection r, pf_in_response := True\<rparr>"
  let ?s1 = "fold (propfind_event lib root cur) (resource_events lib root r) s"
  have "?s1 = on_end_response lib root cur ?s"
    using Cons.prems ok by (intro resource_events_collect) (auto simp: resource_ok_def)
  also have "\<dots> = ?s\<lparr>pf_in_response := False, pf_files := pf_files ?s @ [resource_entry r],
    pf_dirs := pf_dirs ?s @ (if rc_collection r then [resource_url lib root r] else [])\<rparr>"
    by (rule on_end_response_resource [OF assms(1) ok assms(3)]) simp_all
  finally have s1: "?s1 = \<dots>" .
  then have "between_responses ?s1" "pf_files ?s1 = pf_files s @ [resource_entry r]"
      "pf_dirs ?s1 = pf_dirs s @ (if rc_collection r then [resource_url lib root r] else [])"
    using Cons.prems(2) by (simp_all add: between_responses_def)
  with Cons.IH [of ?s1] Cons.prems(1) show ?case by auto
qed simp

lemma resource_events_no_error: "Ev_Error e \<notin> set (resource_events lib root r)"
  by (auto simp: resource_events_def text_element_def)

text \<open>Also in an answer that lists the requested collection itself, only the listed collections are named.\<close>

lemma fold_resources_dirs:
  assumes "encoding_ok lib" "url_segments root \<noteq> None"
    and "\<forall>r \<in> set rs. rc_names r \<noteq> [] \<and> (\<forall>n \<in> set (rc_names r). valid_name n) \<and> CHR 0x22 \<notin> set (rc_etag r)"
    and "between_responses s"
  shows "\<exists>s'. fold (propfind_event lib root cur) (concat (map (resource_events lib root) rs)) s = s' \<and> between_responses s' \<and>
    set (pf_dirs s') \<subseteq> set (pf_dirs s) \<union> resource_url lib root ` set (filter rc_collection rs)"
  using assms(3,4)
proof (induction rs arbitrary: s)
  case (Cons r rs)
  let ?s = "s\<lparr>pf_href := resource_href lib root r, pf_etag := rc_etag r,
         pf_size := (if rc_collection r then 0 else rc_size r), pf_file_id := rc_file_id r,
         pf_is_collection := rc_collection r, pf_in_response := True\<rparr>"
  let ?s1 = "fold (propfind_event lib root cur) (resource_events lib root r) s"
  have s1: "?s1 = on_end_response lib root cur ?s"
    using Cons.prems by (intro resource_events_collect) auto
  have "between_responses ?s1 \<and> set (pf_dirs ?s1) \<subseteq> set (pf_dirs s) \<union> resource_url lib root ` set (filter rc_collection [r])"
  proof (cases "resource_ok lib root cur r")
    case True
    have "?s1 = ?s\<lparr>pf_in_response := False, pf_files := pf_files ?s @ [resource_entry r],
        pf_dirs := pf_dirs ?s @ (if rc_collection r then [resource_url lib root r] else [])\<rparr>"
      unfolding s1 by (rule on_end_response_resource [OF assms(1) True assms(2)]) simp_all
    then show ?thesis using Cons.prems(2) by (auto simp: between_responses_def)
  next
    case False
    then have "?s1 = ?s\<lparr>pf_in_response := False\<rparr>"
      using Cons.prems(1) unfolding s1
      by (simp add: on_end_response_def resource_ok_def collection_key_def Let_def)
    then show ?thesis using Cons.prems(2) by (auto simp: between_responses_def)
  qed
  with Cons.IH [of ?s1] Cons.prems(1) show ?case by auto
qed simp

lemma parse_propfind_dirs:
  assumes "encoding_ok lib" "url_segments root \<noteq> None"
    and "\<forall>r \<in> set rs. rc_names r \<noteq> [] \<and> (\<forall>n \<in> set (rc_names r). valid_name n) \<and> CHR 0x22 \<notin> set (rc_etag r)"
    and "lib_xml lib xml = multistatus_events lib root rs" "parse_propfind lib xml root cur = Inr (files, dirs)"
  shows "set dirs \<subseteq> resource_url lib root ` set (filter rc_collection rs)"
proof -
  have b: "between_responses propfind_init" by (simp add: between_responses_def propfind_init_def)
  let ?s = "fold (propfind_event lib root cur) (concat (map (resource_events lib root) rs)) propfind_init"
  have "set (pf_dirs ?s) \<subseteq> resource_url lib root ` set (filter rc_collection rs)"
    using fold_resources_dirs [OF assms(1-3) b, of cur] by (auto simp: propfind_init_def)
  moreover have "propfind_loop lib root cur (multistatus_events lib root rs) propfind_init =
    propfind_loop lib root cur [Ev_End ''multistatus''] ?s"
    by (simp add: multistatus_events_def on_start_def propfind_loop_append resource_events_no_error)
  ultimately show ?thesis using assms(4,5) by (simp add: parse_propfind_def)
qed

section \<open>A small server\<close>

text \<open>
  A concrete instance of the parameters: names encode to themselves, and the server answers every
  request with the same document, which lists two nested collections.
\<close>

definition sample_resources :: "resource list" where
  "sample_resources =
     [\<lparr>rc_names = [''d''], rc_etag = ''e1'', rc_size = 0, rc_file_id = ''1'', rc_collection = True\<rparr>,
      \<lparr>rc_names = [''d'', ''f''], rc_etag = ''e2'', rc_size = 0, rc_file_id = ''2'', rc_collection = True\<rparr>]"

definition listing_lib :: "resource list \<Rightarrow> libs" where
  "listing_lib rs = id_lib\<lparr>lib_xml := \<lambda>_. multistatus_events id_lib sample_root rs\<rparr>"

abbreviation sample_lib :: libs where
  "sample_lib \<equiv> listing_lib sample_resources"

lemma multistatus_listing: "lib_xml (listing_lib rs) xml = multistatus_events (listing_lib rs) sample_root rs"
  by (simp add: listing_lib_def id_lib_def multistatus_events_def resource_events_def [abs_def] resource_href_def)

lemma encoding_ok_listing: "encoding_ok (listing_lib rs)"
  by (auto simp: encoding_ok_def listing_lib_def id_lib_def valid_name_def)

lemma listing_dirs:
  assumes "parse_propfind (listing_lib rs) xml sample_root u = Inr (files, dirs)"
    and "\<forall>r \<in> set rs. rc_names r \<noteq> [] \<and> (\<forall>n \<in> set (rc_names r). valid_name n) \<and> CHR 0x22 \<notin> set (rc_etag r)"
  shows "set dirs \<subseteq> resource_url (listing_lib rs) sample_root ` set (filter rc_collection rs)"
  by (rule parse_propfind_dirs [OF encoding_ok_listing _ assms(2) multistatus_listing assms(1)]) (simp add: sample_root_def)

section \<open>Properties\<close>

text \<open>
  C10: A successful remote discovery is a complete traversal of what the server names. There is a
  sequence of answered requests, beginning with the space root, one logged HTTP event each, in which no
  collection is requested twice and every collection named in an answer is requested; the result has
  exactly one entry for every path named in any answer. A single failed or non-207 request makes the
  whole discovery fail, so the engine never takes an unread subtree for a deleted one.
\<close>

theorem discover_remote_complete:
  assumes "discover_remote fuel lib net root bearer events w = Some (Inr result, events', w')"
  shows "\<exists>log. log \<noteq> [] \<and> ex_url (hd log) = root \<and> complete_log lib net bearer root log result \<and>
    map he_url events' = map he_url events @ map (\<lambda>x. show_url (sanitise_url (ex_url x))) log"
proof -
  have "\<exists>log. complete_log lib net bearer root ([] @ log) result \<and> prefix [root] (map ex_url log) \<and>
    map he_url events' = map he_url events @ map (\<lambda>x. show_url (sanitise_url (ex_url x))) log"
    using assms unfolding discover_remote_def by (rule discover_loop_log) auto
  then show ?thesis by (auto simp: prefix_def map_eq_Cons_conv)
qed

theorem discover_remote_complete_witness:
  "\<exists>result events' w'. discover_remote 3 sample_lib (const_net 207 []) sample_root ''t'' [] () = Some (Inr result, events', w') \<and>
     map re_path result = [''d'', ''d/f''] \<and>
     (\<exists>log. complete_log sample_lib (const_net 207 []) ''t'' sample_root log result)"
proof -
  have "map_option (\<lambda>(out, _). map_sum id (map re_path) out)
      (discover_remote 3 sample_lib (const_net 207 []) sample_root ''t'' [] ()) = Some (Inr [''d'', ''d/f''])"
    by code_simp
  moreover obtain out events' w' where
    run: "discover_remote 3 sample_lib (const_net 207 []) sample_root ''t'' [] () = Some (out, events', w')"
    using calculation by fastforce
  ultimately obtain result where out: "out = Inr result" "map re_path result = [''d'', ''d/f'']"
    by (cases out) simp_all
  note run = run [unfolded out(1)]
  from discover_remote_complete [OF run] obtain log where "complete_log sample_lib (const_net 207 []) ''t'' sample_root log result"
    by auto
  with out(2) run show ?thesis by (intro exI [of _ result] exI [of _ events'] exI [of _ w'] conjI exI [of _ log])
qed

text \<open>
  C11: Remote discovery terminates and asks every collection at most once. If the collections that the server names, over all its answers,
  have their keys in a finite set \<open>K\<close>, then one request per key and one for the root are enough: the traversal returns, with a listing or an error,
  and the requests it has sent are PROPFINDs for collections with different keys, each the root or one of \<open>K\<close>. So it ends also if the server's collections refer to each
  other in cycles or are named again in every answer.
\<close>

theorem discover_remote_terminates:
  assumes "finite K"
    and "\<And>u w files dirs evs w1. propfind_step lib net bearer root u w = (Inr (files, dirs), evs, w1) \<Longrightarrow>
      collection_key ` set dirs \<subseteq> K"
    and "Suc (card K) \<le> fuel"
  shows "\<exists>out events' w' us. discover_remote fuel lib net root bearer events w = Some (out, events', w') \<and>
    discover_remote fuel lib (recording net) root bearer events (w, []) = Some (out, events', w', map (propfind_request bearer) us) \<and>
    distinct (map collection_key us) \<and> collection_key ` set us \<subseteq> insert (collection_key root) K"
proof -
  have "card (K - {collection_key root}) \<le> card K" using assms(1) by (simp add: card_mono)
  then have "discover_remote fuel lib net root bearer events w \<noteq> None"
    unfolding discover_remote_def
    using assms by (intro discover_loop_terminates [of K]) auto
  then obtain out events' w' where run: "discover_remote fuel lib net root bearer events w = Some (out, events', w')" by auto
  from discover_loop_recorded [OF assms(2) run [unfolded discover_remote_def], where sent = "[]"] run show ?thesis
    unfolding discover_remote_def by auto
qed

text \<open>
  The server lists the same two collections in every answer, also in the listings of these two, so that each
  collection is named again by the other one.
\<close>

lemma sample_dirs_of_answer:
  assumes "parse_propfind sample_lib xml sample_root u = Inr (files, dirs)"
  shows "collection_key ` set dirs \<subseteq> {''/s/d'', ''/s/d/f''}"
proof -
  have "set dirs \<subseteq> resource_url sample_lib sample_root ` set (filter rc_collection sample_resources)"
    using assms by (rule listing_dirs) (simp add: sample_resources_def valid_name_def)
  moreover have "collection_key ` resource_url sample_lib sample_root ` set (filter rc_collection sample_resources) = {''/s/d'', ''/s/d/f''}"
    by code_simp
  ultimately show ?thesis by blast
qed

lemma sample_dirs:
  assumes "propfind_step sample_lib (const_net 207 []) ''t'' sample_root u w = (Inr (files, dirs), evs, w1)"
  shows "collection_key ` set dirs \<subseteq> {''/s/d'', ''/s/d/f''}"
  using assms sample_dirs_of_answer [of "[]" u files dirs] by (simp add: propfind_step_def const_net_def)

theorem discover_remote_terminates_witness:
  "\<exists>out events' us. discover_remote 3 sample_lib (recording (const_net 207 [])) sample_root ''t'' [] ((), []) =
      Some (Inr out, events', (), map (propfind_request ''t'') us) \<and>
    distinct (map collection_key us) \<and> map rq_url (map (propfind_request ''t'') us) = [''https://h/s/'', ''https://h/s/d/'', ''https://h/s/d/f/'']"
proof -
  have "card {''/s/d'', ''/s/d/f''} = 2" by simp
  then have "Suc (card {''/s/d'', ''/s/d/f''}) \<le> 3" by simp
  from discover_remote_terminates [of "{''/s/d'', ''/s/d/f''}" sample_lib "const_net 207 []" "''t''" sample_root 3 "[]" "()", OF _ _ this] sample_dirs obtain out events' w' us where
    run: "discover_remote 3 sample_lib (recording (const_net 207 [])) sample_root ''t'' [] ((), []) =
      Some (out, events', w', map (propfind_request ''t'') us)" and dist: "distinct (map collection_key us)"
    by (metis finite.emptyI finite.insertI)
  have "map_option (\<lambda>(out, _, _, sent). (map_sum id length out, map rq_url sent))
      (discover_remote 3 sample_lib (recording (const_net 207 [])) sample_root ''t'' [] ((), [])) =
    Some (Inr 2, [''https://h/s/'', ''https://h/s/d/'', ''https://h/s/d/f/''])"
    by code_simp
  then show ?thesis using run dist by (cases out) auto
qed

text \<open>
  C12: The PROPFIND parser reads back what a server writes. For a multi-status document that lists
  resources under the space root, the parser returns one entry per resource in document order, with the
  decoded relative path, the unquoted etag, the size and the file id, and one collection URL, ending in a
  slash, per collection; reserved characters in names never change which resource is meant. It is assumed that the XML
  reader delivers the document's elements and that percent-decoding inverts the segment encoding.
\<close>

theorem parse_propfind_roundtrip:
  assumes "encoding_ok lib" "url_segments root \<noteq> None" "\<forall>r \<in> set rs. resource_ok lib root cur r"
    and "lib_xml lib xml = multistatus_events lib root rs"
  shows "parse_propfind lib xml root cur =
    Inr (map resource_entry rs, map (resource_url lib root) (filter rc_collection rs))"
proof -
  have b: "between_responses propfind_init" by (simp add: between_responses_def propfind_init_def)
  let ?s = "fold (propfind_event lib root cur) (concat (map (resource_events lib root) rs)) propfind_init"
  have s: "pf_files ?s = map resource_entry rs" "pf_dirs ?s = map (resource_url lib root) (filter rc_collection rs)"
    using fold_resources [OF assms(1,3,2) b] by (simp_all add: propfind_init_def)
  have "propfind_loop lib root cur (multistatus_events lib root rs) propfind_init =
    propfind_loop lib root cur [Ev_End ''multistatus''] ?s"
    by (simp add: multistatus_events_def on_start_def propfind_loop_append resource_events_no_error)
  then show ?thesis using s assms(4) by (simp add: parse_propfind_def)
qed

theorem parse_propfind_roundtrip_witness:
  "parse_propfind sample_lib [] sample_root sample_root =
     Inr (map resource_entry sample_resources, map (resource_url sample_lib sample_root) (filter rc_collection sample_resources))"
proof (rule parse_propfind_roundtrip)
  show "\<forall>r \<in> set sample_resources. resource_ok sample_lib sample_root sample_root r"
    by (simp add: sample_resources_def resource_ok_def valid_name_def resource_href_def sample_root_def listing_lib_def id_lib_def
        collection_key_def url_path_def trim_end_matches_def)
qed (simp_all add: encoding_ok_listing multistatus_listing sample_root_def)

end
