(* ===== verification/Async.thy ===== *)
theory Async
  imports Main "HOL-Library.Multiset"
begin

text \<open>
  Asynchronous functions. Between two \<open>await\<close> points other tasks run, so an \<open>async fn\<close> is a program of
  atomic actions on the shared state: \<open>Act f\<close> performs one action and continues with the program that
  depends on its result. The programs are well-founded, an \<open>async fn\<close> modelled this way always ends.
  \<open>run\<close> executes a program without interference; a pool of tasks executes several of them in any
  interleaving, with a semaphore of \<open>n\<close> permits that each task holds from its first to its last action.
\<close>

section \<open>Programs\<close>

datatype ('s, 'a) prog = Done 'a | Act "'s \<Rightarrow> ('s, 'a) prog \<times> 's"

primrec prog_bind :: "('s, 'a) prog \<Rightarrow> ('a \<Rightarrow> ('s, 'b) prog) \<Rightarrow> ('s, 'b) prog" where
  "prog_bind (Done a) k = k a"
| "prog_bind (Act f) k = Act (map_prod (\<lambda>p. prog_bind p k) id \<circ> f)"

definition call :: "('s \<Rightarrow> 'r \<times> 's) \<Rightarrow> ('r \<Rightarrow> ('s, 'a) prog) \<Rightarrow> ('s, 'a) prog" where
  "call f k = Act (\<lambda>s. case f s of (r, s') \<Rightarrow> (k r, s'))"

primrec run :: "('s, 'a) prog \<Rightarrow> 's \<Rightarrow> 'a \<times> 's" where
  "run (Done a) s = (a, s)"
| "run (Act f) s = (case (map_prod run id \<circ> f) s of (r, s') \<Rightarrow> r s')"

lemma prog_induct [case_names Done Act, induct type: prog]:
  assumes "\<And>a. P (Done a)" "\<And>f. (\<And>s. P (fst (f s))) \<Longrightarrow> P (Act f)"
  shows "P p"
proof (induction p rule: prog.induct)
  case (Act f)
  have "f s \<in> range f" "fst (f s) \<in> Basic_BNFs.fsts (f s)" for s
    by (simp_all add: Basic_BNFs.fsts.simps)
  with Act show ?case by (intro assms(2)) blast
qed (rule assms(1))

lemma run_call [simp]: "run (call f k) s = (case f s of (r, s') \<Rightarrow> run (k r) s')"
  by (simp add: call_def split: prod.split)

lemma run_bind [simp]: "run (prog_bind p k) s = (case run p s of (a, s') \<Rightarrow> run (k a) s')"
proof (induction p arbitrary: s)
  case (Act f)
  then show ?case by (simp add: split_beta)
qed simp

lemma prog_bind_call [simp]: "prog_bind (call f k) k' = call f (\<lambda>r. prog_bind (k r) k')"
  by (simp add: call_def fun_eq_iff split: prod.split)

section \<open>Guarantees\<close>

text \<open>Every action of the program, from whatever state it starts, makes a step allowed by \<open>G\<close>.\<close>

primrec guarantee :: "('s \<Rightarrow> 's \<Rightarrow> bool) \<Rightarrow> ('s, 'a) prog \<Rightarrow> bool" where
  "guarantee G (Done a) = True"
| "guarantee G (Act f) = (\<forall>s. G s (snd (f s)) \<and> fst ((map_prod (guarantee G) id \<circ> f) s))"

lemma guarantee_call [simp]: "guarantee G (call f k) \<longleftrightarrow> (\<forall>s. G s (snd (f s)) \<and> guarantee G (k (fst (f s))))"
  by (simp add: call_def split_beta)

lemma guarantee_bind:
  "guarantee G p \<Longrightarrow> (\<And>a. guarantee G (k a)) \<Longrightarrow> guarantee G (prog_bind p k)"
  by (induction p) (simp_all add: split_beta)

lemma guarantee_run:
  assumes "guarantee G p" "\<And>s. G s s" "\<And>s s' s''. G s s' \<Longrightarrow> G s' s'' \<Longrightarrow> G s s''"
  shows "G s (snd (run p s))"
  using assms(1) by (induction p arbitrary: s) (auto simp: split_beta intro: assms(2,3))

text \<open>
  \<open>ensures R p Q s\<close>: if the environment makes steps of \<open>R\<close> before every action of \<open>p\<close> and after the
  last one, then \<open>p\<close> started in \<open>s\<close> ends with a result and a state that satisfy \<open>Q\<close>.
\<close>

primrec ensures :: "('s \<Rightarrow> 's \<Rightarrow> bool) \<Rightarrow> ('a \<Rightarrow> 's \<Rightarrow> bool) \<Rightarrow> ('s, 'a) prog \<Rightarrow> 's \<Rightarrow> bool" where
  "ensures R Q (Done a) s = (\<forall>s'. R s s' \<longrightarrow> Q a s')"
| "ensures R Q (Act f) s = (\<forall>s'. R s s' \<longrightarrow> (case (map_prod (ensures R Q) id \<circ> f) s' of (e, s'') \<Rightarrow> e s''))"

lemma ensures_call [simp]:
  "ensures R Q (call f k) s \<longleftrightarrow> (\<forall>s'. R s s' \<longrightarrow> ensures R Q (k (fst (f s'))) (snd (f s')))"
  by (simp add: call_def split_beta)

lemma ensures_interfere:
  assumes "ensures R Q p s" "R s s'" "\<And>a b c. R a b \<Longrightarrow> R b c \<Longrightarrow> R a c"
  shows "ensures R Q p s'"
  using assms(1) by (cases p) (auto simp: split_beta intro: assms(2,3))

text \<open>A first part that keeps an invariant, which interference keeps as well, can be skipped.\<close>

lemma ensures_bind_inv:
  assumes "guarantee G p" "I s"
    and "\<And>s s'. G s s' \<Longrightarrow> I s \<Longrightarrow> I s'" "\<And>s s'. R s s' \<Longrightarrow> I s \<Longrightarrow> I s'"
    and "\<And>a s. I s \<Longrightarrow> ensures R Q (k a) s"
  shows "ensures R Q (prog_bind p k) s"
  using assms(1,2)
proof (induction p arbitrary: s)
  case (Act f)
  have g: "G s' (snd (f s')) \<and> guarantee G (fst (f s'))" for s' using Act.prems(1) by simp
  have "ensures R Q (prog_bind (fst (f s')) k) (snd (f s'))" if "R s s'" for s'
    using Act.IH [of s' "snd (f s')"] g [of s'] assms(3) assms(4) [OF that Act.prems(2)] by blast
  then show ?case by (simp add: split_beta)
qed (simp add: assms(5))

section \<open>Pools of tasks\<close>

datatype ('s, 'a) task = Waiting "('s, 'a) prog" | Running "('s, 'a) prog" | Finished 'a

fun is_running :: "('s, 'a) task \<Rightarrow> bool" where
  "is_running (Running _) = True"
| "is_running _ = False"

fun is_finished :: "('s, 'a) task \<Rightarrow> bool" where
  "is_finished (Finished _) = True"
| "is_finished _ = False"

definition running_tasks :: "('s, 'a) task list \<Rightarrow> nat" where
  "running_tasks ts = length (filter is_running ts)"

text \<open>
  A state of the pool: the tasks in the order they were spawned, the numbers of the finished tasks in the
  order in which \<open>join_next\<close> returns them, and the shared state.
\<close>

type_synonym ('s, 'a) pool = "('s, 'a) task list \<times> nat list \<times> 's"

inductive pool_step :: "nat \<Rightarrow> ('s, 'a) pool \<Rightarrow> ('s, 'a) pool \<Rightarrow> bool" for n where
  acquire: "i < length ts \<Longrightarrow> ts ! i = Waiting p \<Longrightarrow> running_tasks ts < n \<Longrightarrow>
    pool_step n (ts, js, s) (ts[i := Running p], js, s)"
| act: "i < length ts \<Longrightarrow> ts ! i = Running (Act f) \<Longrightarrow> f s = (p, s') \<Longrightarrow>
    pool_step n (ts, js, s) (ts[i := Running p], js, s')"
| finish: "i < length ts \<Longrightarrow> ts ! i = Running (Done a) \<Longrightarrow>
    pool_step n (ts, js, s) (ts[i := Finished a], js @ [i], s)"

inductive_cases pool_stepE: "pool_step n (ts, js, s) q"

abbreviation pool_run :: "nat \<Rightarrow> ('s, 'a) pool \<Rightarrow> ('s, 'a) pool \<Rightarrow> bool" where
  "pool_run n \<equiv> (pool_step n)\<^sup>*\<^sup>*"

definition spawn :: "('s, 'a) prog list \<Rightarrow> 's \<Rightarrow> ('s, 'a) pool" where
  "spawn ps s = (map Waiting ps, [], s)"

section \<open>Lemmas\<close>

lemma running_tasks_update:
  "i < length ts \<Longrightarrow>
     running_tasks (ts[i := t]) = running_tasks ts + (if is_running t then 1 else 0) - (if is_running (ts ! i) then 1 else 0)"
proof (induction ts arbitrary: i)
  case (Cons x ts)
  show ?case
  proof (cases i)
    case (Suc j)
    have "running_tasks ts \<ge> (if is_running (ts ! j) then 1 else 0)"
      using Cons.prems Suc by (auto simp: running_tasks_def Suc_le_eq filter_empty_conv dest: nth_mem)
    then show ?thesis using Cons Suc by (auto simp: running_tasks_def)
  qed (auto simp: running_tasks_def)
qed simp

lemma pool_step_permits:
  assumes "pool_step n (ts, js, s) (ts', js', s')" "running_tasks ts \<le> n"
  shows "running_tasks ts' \<le> n"
  using assms by (auto elim!: pool_stepE simp: running_tasks_update)

lemma pool_run_permits:
  assumes "pool_run n (spawn ps s) (ts, js, s')"
  shows "running_tasks ts \<le> n"
proof -
  have "running_tasks (fst q) \<le> n" if "pool_run n (spawn ps s) q" for q
    using that
  proof (induction rule: rtranclp_induct)
    case base
    then show ?case by (simp add: spawn_def running_tasks_def filter_map comp_def)
  next
    case (step q r)
    then show ?case using pool_step_permits by (metis prod.exhaust_sel)
  qed
  from this [OF assms] show ?thesis by simp
qed

lemma pool_run_joined:
  assumes "pool_run n (spawn ps s) (ts, js, s')"
  shows "length ts = length ps \<and> distinct js \<and> set js = {i. i < length ts \<and> is_finished (ts ! i)}"
proof -
  have "length (fst q) = length ps \<and> distinct (fst (snd q)) \<and>
      set (fst (snd q)) = {i. i < length (fst q) \<and> is_finished (fst q ! i)}" if "pool_run n (spawn ps s) q" for q
    using that
  proof (induction rule: rtranclp_induct)
    case base
    then show ?case by (auto simp: spawn_def)
  next
    case (step q r)
    from step(2) show ?case
    proof (cases rule: pool_step.cases)
      case (acquire i ts p js s)
      then have "is_finished (ts[i := Running p] ! j) = is_finished (ts ! j)" for j
        by (cases "j = i") simp_all
      then show ?thesis using acquire step.IH by simp
    next
      case (act i ts f s p s' js)
      then have "is_finished (ts[i := Running p] ! j) = is_finished (ts ! j)" for j
        by (cases "j = i") simp_all
      then show ?thesis using act step.IH by simp
    next
      case (finish i ts a js s)
      then show ?thesis using step.IH by (auto simp: nth_list_update)
    qed
  qed
  from this [OF assms] show ?thesis by simp
qed

text \<open>A pool that can make no step has finished all its tasks, if there is a permit at all.\<close>

lemma pool_progress:
  assumes "0 < n" "\<not> list_all is_finished ts"
  shows "\<exists>q. pool_step n (ts, js, s) q"
proof (cases "running_tasks ts = 0")
  case True
  then have nr: "\<not> is_running (ts ! i)" if "i < length ts" for i
    using that by (auto simp: running_tasks_def filter_empty_conv)
  obtain i where i: "i < length ts" "\<not> is_finished (ts ! i)" using assms(2) by (auto simp: list_all_length)
  with nr [OF i(1)] obtain p where "ts ! i = Waiting p" by (cases "ts ! i") auto
  from acquire [OF i(1) this, of n js s] True assms(1) show ?thesis by auto
next
  case False
  then obtain i where i: "i < length ts" "is_running (ts ! i)"
    by (auto simp: running_tasks_def filter_empty_conv in_set_conv_nth)
  then obtain p where p: "ts ! i = Running p" by (cases "ts ! i") auto
  show ?thesis
  proof (cases p)
    case (Done a)
    from finish [OF i(1) p [unfolded Done], of n js s] show ?thesis by auto
  next
    case (Act f)
    obtain p' s' where "f s = (p', s')" by fastforce
    from act [OF i(1) p [unfolded Act] this, of n js] show ?thesis by auto
  qed
qed

section \<open>Termination of pools\<close>

text \<open>
  Every step replaces one task by a smaller one: a program by its continuation after an action, a
  waiting task by a running one, a running one by a finished one. So every schedule of a pool ends.
\<close>

inductive smaller :: "('s, 'a) task \<Rightarrow> ('s, 'a) task \<Rightarrow> bool" where
  smaller_acquire: "smaller (Running p) (Waiting p)"
| smaller_act: "f s = (p, s') \<Longrightarrow> smaller (Running p) (Running (Act f))"
| smaller_finish: "smaller (Finished a) (Running (Done a))"

inductive_cases smaller_FinishedE: "smaller t (Finished a)"
inductive_cases smaller_DoneE: "smaller t (Running (Done a))"
inductive_cases smaller_ActE: "smaller t (Running (Act f))"
inductive_cases smaller_WaitingE: "smaller t (Waiting p)"

lemma smaller_accp: "Wellfounded.accp smaller t"
proof -
  have fin: "Wellfounded.accp smaller (Finished a)" for a :: 'b
    by (rule accp.accI) (erule smaller_FinishedE)
  have run: "Wellfounded.accp smaller (Running p)" for p :: "('a, 'b) prog"
  proof (induction p)
    case (Done a)
    show ?case by (rule accp.accI, erule smaller_DoneE) (simp add: fin)
  next
    case (Act f)
    show ?case
    proof (rule accp.accI)
      fix t :: "('a, 'b) task"
      assume "smaller t (Running (Act f))"
      then obtain s p s' where "f s = (p, s')" "t = Running p" by (rule smaller_ActE)
      then show "Wellfounded.accp smaller t" using Act [of s] by simp
    qed
  qed
  have "Wellfounded.accp smaller (Waiting p)" for p :: "('a, 'b) prog"
    by (rule accp.accI, erule smaller_WaitingE) (simp add: run)
  with fin run show ?thesis by (cases t) auto
qed

lemma wf_smaller: "wf {(t, t'). smaller t t'}"
proof -
  have "wfp smaller" by (rule accp_wfpI) (simp add: smaller_accp)
  then show ?thesis by (simp add: wfp_def)
qed

lemma mset_update_mult:
  assumes "i < length ts" "smaller t (ts ! i)"
  shows "(mset (ts[i := t]), mset ts) \<in> mult1 {(t, t'). smaller t t'}"
proof -
  have "mset (ts[i := t]) = mset ts - {#ts ! i#} + {#t#}"
    using assms(1) by (simp add: mset_update)
  moreover have "mset ts = (mset ts - {#ts ! i#}) + {#ts ! i#}" using assms(1) by simp
  ultimately show ?thesis using assms(2) unfolding mult1_def by force
qed

lemma pool_step_decreases:
  "pool_step n (ts, js, s) (ts', js', s') \<Longrightarrow> (mset ts', mset ts) \<in> mult1 {(t, t'). smaller t t'}"
  by (erule pool_stepE) (auto intro!: mset_update_mult intro: smaller.intros)

lemma pool_terminates: "wfp (\<lambda>q r. pool_step n r q)"
proof -
  have "{(q, r). pool_step n r q} \<subseteq> inv_image (mult1 {(t, t'). smaller t t'}) (\<lambda>q. mset (fst q))"
    using pool_step_decreases by (auto simp: inv_image_def)
  moreover have "wf (inv_image (mult1 {(t, t'). smaller t t'}) (\<lambda>q :: ('a, 'b) pool. mset (fst q)))"
    by (intro wf_inv_image wf_mult1 wf_smaller)
  ultimately show ?thesis unfolding wfp_def by (rule wf_subset [rotated])
qed

text \<open>Hence every pool with a permit can be run to its end, whatever steps have been made so far.\<close>

lemma pool_completes:
  assumes "0 < n"
  shows "\<exists>ts' js' s'. pool_run n q (ts', js', s') \<and> list_all is_finished ts'"
proof (induction q rule: wfp_induct_rule [OF pool_terminates [of n]])
  case (1 q)
  obtain ts js s where q: "q = (ts, js, s)" by (cases q)
  show ?case
  proof (cases "list_all is_finished ts")
    case True
    then show ?thesis using q by blast
  next
    case False
    from pool_progress [OF assms this, of js s] obtain r where r: "pool_step n q r" unfolding q ..
    from 1 [OF r] obtain ts' js' s' where rest: "pool_run n r (ts', js', s')" and fin: "list_all is_finished ts'" by blast
    from converse_rtranclp_into_rtranclp [of "pool_step n", OF r rest] fin show ?thesis by (intro exI conjI)
  qed
qed

section \<open>Tasks that do not interfere\<close>

text \<open>
  The interface between a pool and its tasks. Task \<open>i\<close> promises that its actions make steps of \<open>G i\<close>
  and relies on the other tasks making steps of \<open>R i\<close> only; the steps of one task are allowed by the rely
  condition of every other.
\<close>

locale independent_tasks =
  fixes G :: "nat \<Rightarrow> 's \<Rightarrow> 's \<Rightarrow> bool" and R :: "nat \<Rightarrow> 's \<Rightarrow> 's \<Rightarrow> bool"
  assumes rely_refl: "R i s s"
    and rely_trans: "R i s s' \<Longrightarrow> R i s' s'' \<Longrightarrow> R i s s''"
    and rely_guar: "G i s s' \<Longrightarrow> i \<noteq> j \<Longrightarrow> R j s s'"
begin

fun task_ok :: "nat \<Rightarrow> ('a \<Rightarrow> 's \<Rightarrow> bool) \<Rightarrow> ('s, 'a) task \<Rightarrow> 's \<Rightarrow> bool" where
  "task_ok i Q (Waiting p) s = (guarantee (G i) p \<and> ensures (R i) Q p s)"
| "task_ok i Q (Running p) s = (guarantee (G i) p \<and> ensures (R i) Q p s)"
| "task_ok i Q (Finished a) s = (\<forall>s'. R i s s' \<longrightarrow> Q a s')"

lemma task_ok_interfere: "task_ok i Q t s \<Longrightarrow> R i s s' \<Longrightarrow> task_ok i Q t s'"
  by (cases t) (auto intro: rely_trans ensures_interfere)

lemma task_ok_act:
  assumes "task_ok i Q (Running (Act f)) s" "f s = (p, s')"
  shows "task_ok i Q (Running p) s' \<and> G i s s'"
proof -
  have "guarantee (G i) (Act f)" "ensures (R i) Q (Act f) s" using assms(1) by simp_all
  then have "G i s (snd (f s)) \<and> guarantee (G i) (fst (f s))" "ensures (R i) Q (fst (f s)) (snd (f s))"
    using rely_refl [of i s] by (simp_all add: split_beta)
  then show ?thesis using assms(2) by simp
qed

lemma pool_step_ok:
  assumes "pool_step n (ts, js, s) (ts', js', s')"
    and "\<forall>i < length ts. task_ok i (Q i) (ts ! i) s"
  shows "\<forall>i < length ts'. task_ok i (Q i) (ts' ! i) s'"
  using assms(1)
proof (cases rule: pool_step.cases)
  case (acquire i p)
  then have "task_ok i (Q i) (Running p) s" using assms(2) by (metis task_ok.simps(1,2) prod.inject)
  with acquire assms(2) show ?thesis by (auto simp: nth_list_update)
next
  case (act i f p)
  then have *: "task_ok i (Q i) (Running p) s'" "G i s s'"
    using assms(2) task_ok_act [of i "Q i" f s p s'] by auto
  have "task_ok j (Q j) (ts ! j) s'" if "j < length ts" "j \<noteq> i" for j
    using assms(2) that rely_guar [OF *(2)] by (auto intro: task_ok_interfere)
  with * act show ?thesis by (auto simp: nth_list_update)
next
  case (finish i a)
  then have "task_ok i (Q i) (Finished a) s"
    using assms(2) by (metis task_ok.simps(2,3) ensures.simps(1) prod.inject)
  with finish assms(2) show ?thesis by (auto simp: nth_list_update)
qed

lemma pool_result:
  assumes "pool_run n (spawn ps s) (ts, js, s')"
    and "\<And>i. i < length ps \<Longrightarrow> guarantee (G i) (ps ! i) \<and> ensures (R i) (Q i) (ps ! i) s"
    and "i < length ts" "ts ! i = Finished a"
  shows "Q i a s'"
proof -
  have "\<forall>i < length (fst q). task_ok i (Q i) (fst q ! i) (snd (snd q))" if "pool_run n (spawn ps s) q" for q
    using that
  proof (induction rule: rtranclp_induct)
    case base
    then show ?case using assms(2) by (simp add: spawn_def)
  next
    case (step q r)
    then show ?case using pool_step_ok by (metis prod.exhaust_sel)
  qed
  from this [OF assms(1)] assms(3) have "task_ok i (Q i) (ts ! i) s'" by simp
  then show ?thesis using assms(4) rely_refl by simp
qed

lemma pool_frame:
  assumes "pool_run n (spawn ps s) (ts, js, s')"
    and "\<And>i. i < length ps \<Longrightarrow> guarantee (G i) (ps ! i)" "\<And>i. i < length ps \<Longrightarrow> i \<noteq> j"
  shows "R j s s'"
proof -
  have "length (fst q) = length ps \<and> R j s (snd (snd q)) \<and>
      (\<forall>i < length ps. \<forall>p. fst q ! i = Waiting p \<or> fst q ! i = Running p \<longrightarrow> guarantee (G i) p)"
    if "pool_run n (spawn ps s) q" for q
    using that
  proof (induction rule: rtranclp_induct)
    case base
    then show ?case using assms(2) by (simp add: spawn_def rely_refl)
  next
    case (step q r)
    from step(2) show ?case
    proof (cases rule: pool_step.cases)
      case (act i ts f s1 p s2 js)
      then have g: "guarantee (G i) (Act f)" using step.IH by auto
      then have "G i s1 s2" "guarantee (G i) p" using act by (auto simp: split_beta dest!: spec [of _ s1])
      then show ?thesis
        using act step.IH rely_trans rely_guar assms(3) by (auto simp: nth_list_update)
    qed (use step.IH in \<open>auto simp: nth_list_update split: if_splits\<close>)
  qed
  from this [OF assms(1)] show ?thesis by simp
qed

end

section \<open>Schedules\<close>

text \<open>One step of a given task, and a sequence of them: an executable part of the step relation.\<close>

fun step_task :: "nat \<Rightarrow> nat \<Rightarrow> ('s, 'a) pool \<Rightarrow> ('s, 'a) pool" where
  "step_task n i (ts, js, s) =
     (if i < length ts then
        (case ts ! i of
           Waiting p \<Rightarrow> if running_tasks ts < n then (ts[i := Running p], js, s) else (ts, js, s)
         | Running (Act f) \<Rightarrow> (case f s of (p, s') \<Rightarrow> (ts[i := Running p], js, s'))
         | Running (Done a) \<Rightarrow> (ts[i := Finished a], js @ [i], s)
         | Finished a \<Rightarrow> (ts, js, s))
      else (ts, js, s))"

definition run_schedule :: "nat \<Rightarrow> nat list \<Rightarrow> ('s, 'a) pool \<Rightarrow> ('s, 'a) pool" where
  "run_schedule n sched q = fold (step_task n) sched q"

lemma step_task_pool_run: "pool_run n q (step_task n i q)"
proof -
  obtain ts js s where q: "q = (ts, js, s)" by (cases q)
  have "q = step_task n i q \<or> pool_step n q (step_task n i q)"
    unfolding q by (auto split: task.split prog.split prod.split intro: pool_step.intros)
  then show ?thesis by (metis r_into_rtranclp rtranclp.rtrancl_refl)
qed

lemma run_schedule_pool_run: "pool_run n q (run_schedule n sched q)"
  unfolding run_schedule_def
proof (induction sched arbitrary: q)
  case (Cons i sched)
  show ?case using rtranclp_trans [OF step_task_pool_run [of n q i] Cons.IH] by simp
qed simp

end
