(* ===== verification/FileSystem.thy ===== *)
theory FileSystem
  imports Paths
begin

text \<open>
  The part of \<open>std::fs\<close> that the sources call, on a file system without links. A path names a node by
  the sequence of names from the root that resolving its components gives; a file node refers to its inode,
  which holds the contents, because an open handle keeps referring to the inode when the path is renamed or
  reused. Every call may fail for reasons of the system (permissions, a full disk): \<open>fs_env\<close> gives the
  outcome of each call, and how far a call that fails half-way has got.
\<close>

type_synonym names = "string list"

datatype fs_node = FFile nat | FDir

record disk =
  fs_tree :: "names \<rightharpoonup> fs_node"
  fs_data :: "nat \<Rightarrow> string"
  fs_next :: nat

datatype io_error =
    Io_Not_Found | Io_Not_A_Directory | Io_Is_A_Directory | Io_Already_Exists | Io_Not_Empty
  | Io_Invalid_Input | Io_Fault string

fun io_msg :: "io_error \<Rightarrow> string" where
  "io_msg Io_Not_Found = ''No such file or directory (os error 2)''"
| "io_msg Io_Not_A_Directory = ''Not a directory (os error 20)''"
| "io_msg Io_Is_A_Directory = ''Is a directory (os error 21)''"
| "io_msg Io_Already_Exists = ''File exists (os error 17)''"
| "io_msg Io_Not_Empty = ''Directory not empty (os error 39)''"
| "io_msg Io_Invalid_Input = ''Invalid argument (os error 22)''"
| "io_msg (Io_Fault m) = m"

datatype fs_call =
    Remove_File names | Remove_Dir_All names | Create_Dir_All names | Create_File names | Write_All nat | Flush nat
  | Rename names | Read names | Metadata names

text \<open>
  \<open>fs_progress\<close> is the number of bytes written, or of ancestors created, by a failing call;
  \<open>fs_removed\<close> tells which nodes a failing recursive removal has already removed.
\<close>

record fs_env =
  fs_fault :: "fs_call \<Rightarrow> io_error option"
  fs_progress :: "fs_call \<Rightarrow> nat"
  fs_removed :: "names \<Rightarrow> bool"
  fs_dir_len :: nat

definition reliable_fs :: fs_env where
  "reliable_fs = \<lparr>fs_fault = \<lambda>_. None, fs_progress = \<lambda>_. 0, fs_removed = \<lambda>_. False, fs_dir_len = 4096\<rparr>"

section \<open>Resolution\<close>

fun resolve_step :: "path_component \<Rightarrow> names \<Rightarrow> names" where
  "resolve_step RootDir ns = []"
| "resolve_step CurDir ns = ns"
| "resolve_step ParentDir ns = butlast ns"
| "resolve_step (Normal n) ns = ns @ [n]"

definition resolve :: "string \<Rightarrow> names" where
  "resolve p = fold resolve_step (components p) []"

section \<open>Operations\<close>

definition is_dir_at :: "disk \<Rightarrow> names \<Rightarrow> bool" where
  "is_dir_at d p \<longleftrightarrow> p = [] \<or> fs_tree d p = Some FDir"

definition content :: "disk \<Rightarrow> names \<Rightarrow> string option" where
  "content d p = (case fs_tree d p of Some (FFile i) \<Rightarrow> Some (fs_data d i) | _ \<Rightarrow> None)"

abbreviation set_node :: "names \<Rightarrow> fs_node option \<Rightarrow> disk \<Rightarrow> disk" where
  "set_node p n d \<equiv> d\<lparr>fs_tree := (fs_tree d)(p := n)\<rparr>"

abbreviation set_data :: "nat \<Rightarrow> string \<Rightarrow> disk \<Rightarrow> disk" where
  "set_data i c d \<equiv> d\<lparr>fs_data := (fs_data d)(i := c)\<rparr>"

definition fs_remove_file :: "fs_env \<Rightarrow> names \<Rightarrow> disk \<Rightarrow> (io_error + unit) \<times> disk" where
  "fs_remove_file env p d =
     (case fs_fault env (Remove_File p) of
        Some e \<Rightarrow> (Inl e, d)
      | None \<Rightarrow>
          (if p = [] then (Inl Io_Is_A_Directory, d)
           else (case fs_tree d p of
                   None \<Rightarrow> (Inl Io_Not_Found, d)
                 | Some FDir \<Rightarrow> (Inl Io_Is_A_Directory, d)
                 | Some (FFile _) \<Rightarrow> (Inr (), set_node p None d))))"

definition ancestors :: "names \<Rightarrow> names list" where
  "ancestors p = map (\<lambda>i. take (Suc i) p) [0..<length p]"

definition prune :: "(names \<Rightarrow> bool) \<Rightarrow> disk \<Rightarrow> disk" where
  "prune P d = d\<lparr>fs_tree := (\<lambda>q. if P q then None else fs_tree d q)\<rparr>"

definition fs_remove_dir_all :: "fs_env \<Rightarrow> names \<Rightarrow> disk \<Rightarrow> (io_error + unit) \<times> disk" where
  "fs_remove_dir_all env p d =
     (if p = [] then (Inl Io_Invalid_Input, d)
      else (case fs_tree d p of
        None \<Rightarrow> (Inl Io_Not_Found, d)
      | Some (FFile _) \<Rightarrow> (Inl Io_Not_A_Directory, d)
      | Some FDir \<Rightarrow>
          (case fs_fault env (Remove_Dir_All p) of
             Some e \<Rightarrow> (Inl e, prune (\<lambda>q. \<exists>r \<in> set (ancestors q). strict_prefix p r \<and> fs_removed env r) d)
           | None \<Rightarrow> (Inr (), prune (prefix p) d))))"

definition mkdirs :: "names list \<Rightarrow> disk \<Rightarrow> disk" where
  "mkdirs qs d = d\<lparr>fs_tree := (\<lambda>q. if fs_tree d q = None \<and> q \<in> set qs then Some FDir else fs_tree d q)\<rparr>"

definition fs_create_dir_all :: "fs_env \<Rightarrow> names \<Rightarrow> disk \<Rightarrow> (io_error + unit) \<times> disk" where
  "fs_create_dir_all env p d =
     (if is_dir_at d p then (Inr (), d)
      else if \<exists>q \<in> set (ancestors p). content d q \<noteq> None then
        (Inl (if content d p \<noteq> None then Io_Already_Exists else Io_Not_A_Directory), d)
      else (case fs_fault env (Create_Dir_All p) of
              Some e \<Rightarrow> (Inl e, mkdirs (take (fs_progress env (Create_Dir_All p)) (ancestors p)) d)
            | None \<Rightarrow> (Inr (), mkdirs (ancestors p) d)))"

text \<open>\<open>File::create\<close>: an existing file is truncated and keeps its inode. The result is the handle.\<close>

definition fs_create_file :: "fs_env \<Rightarrow> names \<Rightarrow> disk \<Rightarrow> (io_error + nat) \<times> disk" where
  "fs_create_file env p d =
     (case fs_fault env (Create_File p) of
        Some e \<Rightarrow> (Inl e, d)
      | None \<Rightarrow>
          (if is_dir_at d p then (Inl Io_Is_A_Directory, d)
           else if \<not> is_dir_at d (butlast p) then
             (Inl (if fs_tree d (butlast p) = None then Io_Not_Found else Io_Not_A_Directory), d)
           else (case fs_tree d p of
                   Some (FFile i) \<Rightarrow> (Inr i, set_data i [] d)
                 | _ \<Rightarrow> (Inr (fs_next d),
                         (set_data (fs_next d) [] (set_node p (Some (FFile (fs_next d))) d))\<lparr>fs_next := Suc (fs_next d)\<rparr>))))"

text \<open>\<open>write_all\<close> through a handle positioned at the start.\<close>

definition overwrite :: "string \<Rightarrow> string \<Rightarrow> string" where
  "overwrite bytes old = bytes @ drop (length bytes) old"

definition fs_write_all :: "fs_env \<Rightarrow> nat \<Rightarrow> string \<Rightarrow> disk \<Rightarrow> (io_error + unit) \<times> disk" where
  "fs_write_all env h bytes d =
     (case fs_fault env (Write_All h) of
        Some e \<Rightarrow> (Inl e, set_data h (overwrite (take (fs_progress env (Write_All h)) bytes) (fs_data d h)) d)
      | None \<Rightarrow> (Inr (), set_data h (overwrite bytes (fs_data d h)) d))"

definition fs_flush :: "fs_env \<Rightarrow> nat \<Rightarrow> disk \<Rightarrow> (io_error + unit) \<times> disk" where
  "fs_flush env h d = (case fs_fault env (Flush h) of Some e \<Rightarrow> (Inl e, d) | None \<Rightarrow> (Inr (), d))"

definition move_tree :: "names \<Rightarrow> names \<Rightarrow> disk \<Rightarrow> disk" where
  "move_tree a b d = d\<lparr>fs_tree :=
     (\<lambda>q. if prefix b q then fs_tree d (a @ drop (length b) q) else if prefix a q then None else fs_tree d q)\<rparr>"

definition fs_rename :: "fs_env \<Rightarrow> names \<Rightarrow> names \<Rightarrow> disk \<Rightarrow> (io_error + unit) \<times> disk" where
  "fs_rename env a b d =
     (case fs_fault env (Rename a) of
        Some e \<Rightarrow> (Inl e, d)
      | None \<Rightarrow>
          (if a = [] \<or> b = [] then (Inl Io_Invalid_Input, d)
           else (case fs_tree d a of
             None \<Rightarrow> (Inl Io_Not_Found, d)
           | Some node \<Rightarrow>
               (if a = b then (Inr (), d)
                else if \<not> is_dir_at d (butlast b) then
                  (Inl (if fs_tree d (butlast b) = None then Io_Not_Found else Io_Not_A_Directory), d)
                else (case node of
                  FFile i \<Rightarrow>
                    (if fs_tree d b = Some FDir then (Inl Io_Is_A_Directory, d)
                     else (Inr (), d\<lparr>fs_tree := (fs_tree d)(b \<mapsto> FFile i, a := None)\<rparr>))
                | FDir \<Rightarrow>
                    (if prefix a b then (Inl Io_Invalid_Input, d)
                     else if content d b \<noteq> None then (Inl Io_Not_A_Directory, d)
                     else if \<exists>q. strict_prefix b q \<and> fs_tree d q \<noteq> None then (Inl Io_Not_Empty, d)
                     else (Inr (), move_tree a b d)))))))"

definition fs_read :: "fs_env \<Rightarrow> names \<Rightarrow> disk \<Rightarrow> io_error + string" where
  "fs_read env p d =
     (case fs_fault env (Read p) of
        Some e \<Rightarrow> Inl e
      | None \<Rightarrow>
          (if is_dir_at d p then Inl Io_Is_A_Directory
           else (case content d p of None \<Rightarrow> Inl Io_Not_Found | Some c \<Rightarrow> Inr c)))"

definition fs_metadata_len :: "fs_env \<Rightarrow> names \<Rightarrow> disk \<Rightarrow> io_error + nat" where
  "fs_metadata_len env p d =
     (case fs_fault env (Metadata p) of
        Some e \<Rightarrow> Inl e
      | None \<Rightarrow>
          (if is_dir_at d p then Inr (fs_dir_len env)
           else (case content d p of None \<Rightarrow> Inl Io_Not_Found | Some c \<Rightarrow> Inr (length c))))"

section \<open>Well-formed disks\<close>

text \<open>Every node lies in a directory, and every inode belongs to one path at most.\<close>

definition disk_wf :: "disk \<Rightarrow> bool" where
  "disk_wf d \<longleftrightarrow>
     (\<forall>p. p \<noteq> [] \<longrightarrow> fs_tree d p \<noteq> None \<longrightarrow> is_dir_at d (butlast p)) \<and>
     (\<forall>p q i. fs_tree d p = Some (FFile i) \<longrightarrow> fs_tree d q = Some (FFile i) \<longrightarrow> p = q) \<and>
     (\<forall>p i. fs_tree d p = Some (FFile i) \<longrightarrow> i < fs_next d)"

lemma fs_reliable_fault [simp]: "fs_fault reliable_fs c = None"
  by (simp add: reliable_fs_def)

section \<open>Frame lemmas\<close>

lemma overwrite_Nil [simp]: "overwrite b [] = b"
  by (simp add: overwrite_def)

lemma content_set_node: "content (set_node p None d) q = (if q = p then None else content d q)"
  by (simp add: content_def split: option.split fs_node.split)

lemma content_mkdirs [simp]: "content (mkdirs qs d) q = content d q"
  by (simp add: content_def mkdirs_def split: option.split fs_node.split)

lemma content_None_iff: "content d q = None \<longleftrightarrow> fs_tree d q = None \<or> fs_tree d q = Some FDir"
  by (auto simp: content_def split: option.split fs_node.split)

lemma fs_remove_file_frame: "q \<noteq> p \<Longrightarrow> content (snd (fs_remove_file env p d)) q = content d q"
  by (auto simp: fs_remove_file_def content_def split: option.splits fs_node.splits)

lemma fs_create_dir_all_content [simp]: "content (snd (fs_create_dir_all env p d)) q = content d q"
  by (simp add: fs_create_dir_all_def split: option.splits)

lemma fs_create_dir_all_ok:
  "fst (fs_create_dir_all env p d) = Inr () \<Longrightarrow> is_dir_at (snd (fs_create_dir_all env p d)) p"
proof -
  have "p \<noteq> [] \<Longrightarrow> p \<in> set (ancestors p)"
    by (cases "length p") (auto simp: ancestors_def image_iff intro!: bexI [of _ "length p - 1"])
  then show "fst (fs_create_dir_all env p d) = Inr () \<Longrightarrow> is_dir_at (snd (fs_create_dir_all env p d)) p"
    by (auto simp: fs_create_dir_all_def is_dir_at_def mkdirs_def content_None_iff split: if_splits option.splits)
qed

lemma fs_create_file_frame:
  "disk_wf d \<Longrightarrow> q \<noteq> p \<Longrightarrow> content (snd (fs_create_file env p d)) q = content d q"
  by (auto simp: fs_create_file_def content_def disk_wf_def split: option.splits fs_node.splits)

lemma fs_create_file_handle:
  "fs_create_file env p d = (Inr h, d') \<Longrightarrow> fs_tree d' p = Some (FFile h) \<and> fs_data d' h = []"
  by (auto simp: fs_create_file_def split: option.splits fs_node.splits if_splits)

lemma fs_write_all_frame:
  "disk_wf d \<Longrightarrow> fs_tree d p = Some (FFile h) \<Longrightarrow> q \<noteq> p \<Longrightarrow> content (snd (fs_write_all env h b d)) q = content d q"
  by (auto simp: fs_write_all_def content_def disk_wf_def split: option.splits fs_node.splits)

lemma fs_flush_disk [simp]: "snd (fs_flush env h d) = d"
  by (simp add: fs_flush_def split: option.splits)

lemma content_tree_upd [simp]:
  "content (d\<lparr>fs_tree := t\<rparr>) q = (case t q of Some (FFile i) \<Rightarrow> Some (fs_data d i) | _ \<Rightarrow> None)"
  by (simp add: content_def split: option.split fs_node.split)

lemma fs_rename_file:
  assumes "fs_tree d a = Some (FFile i)"
  shows "snd (fs_rename env a b d) =
    (if fst (fs_rename env a b d) = Inr () \<and> a \<noteq> b then d\<lparr>fs_tree := (fs_tree d)(b \<mapsto> FFile i, a := None)\<rparr> else d)"
  using assms
  by (cases "fs_fault env (Rename a)"; cases "a = [] \<or> b = []"; cases "a = b"; cases "is_dir_at d (butlast b)";
      cases "fs_tree d b = Some FDir")
    (simp_all add: fs_rename_def del: fun_upd_apply)

lemma fs_rename_fail: "fs_rename env a b d = (Inl e, d') \<Longrightarrow> d' = d"
  by (cases "fs_fault env (Rename a)"; cases "fs_tree d a")
    (auto simp: fs_rename_def split: fs_node.splits if_splits)

lemma fs_rename_missing: "fs_tree d a = None \<Longrightarrow> snd (fs_rename env a b d) = d"
  by (cases "fs_fault env (Rename a)") (simp_all add: fs_rename_def)

lemma fs_rename_file_frame:
  assumes "fs_tree d a \<noteq> Some FDir" "q \<noteq> a" "q \<noteq> b"
  shows "content (snd (fs_rename env a b d)) q = content d q"
proof (cases "fs_tree d a")
  case None
  then show ?thesis by (simp add: fs_rename_missing)
next
  case (Some n)
  then obtain i where "fs_tree d a = Some (FFile i)" using assms by (cases n) auto
  from fs_rename_file [OF this, of env b] show ?thesis
    using assms by (simp add: content_def [of d])
qed

lemma fs_rename_file_ok:
  assumes "fs_rename env a b d = (Inr (), d')" "content d a = Some c" "a \<noteq> b"
  shows "content d' b = Some c \<and> fs_tree d' a = None"
proof -
  obtain i where i: "fs_tree d a = Some (FFile i)" "c = fs_data d i"
    using assms(2) by (auto simp: content_def split: option.splits fs_node.splits)
  from fs_rename_file [OF i(1), of env b] show ?thesis
    using assms i by simp
qed

section \<open>Preservation of well-formedness\<close>

lemma disk_wf_remove_file: "disk_wf d \<Longrightarrow> disk_wf (snd (fs_remove_file env p d))"
  by (auto simp: fs_remove_file_def disk_wf_def is_dir_at_def split: option.splits fs_node.splits)

lemma disk_wf_create_file: "disk_wf d \<Longrightarrow> disk_wf (snd (fs_create_file env p d))"
  by (auto simp: fs_create_file_def disk_wf_def is_dir_at_def split: option.splits fs_node.splits if_splits)
    (auto simp: less_Suc_eq)

lemma disk_wf_write_all: "disk_wf d \<Longrightarrow> disk_wf (snd (fs_write_all env h b d))"
  by (auto simp: fs_write_all_def disk_wf_def is_dir_at_def split: option.splits)

lemma take_ancestors: "q \<in> set (take k (ancestors p)) \<longleftrightarrow> (\<exists>i < min k (length p). q = take (Suc i) p)"
  by (auto simp: ancestors_def in_set_conv_nth)

lemma ancestors_take_closed:
  assumes "q \<in> set (take k (ancestors p))"
  shows "q \<noteq> [] \<and> (butlast q = [] \<or> butlast q \<in> set (take k (ancestors p)))"
proof -
  obtain i where i: "i < min k (length p)" "q = take (Suc i) p"
    using assms by (auto simp: take_ancestors)
  then have b: "butlast q = take i p" by (simp add: butlast_take)
  have "q \<noteq> []" using i by auto
  moreover have "i \<noteq> 0 \<Longrightarrow> butlast q \<in> set (take k (ancestors p))"
    unfolding take_ancestors using i b by (intro exI [of _ "i - 1"]) auto
  ultimately show ?thesis using b by (cases "i = 0") auto
qed

lemma disk_wf_mkdirs:
  assumes "disk_wf d" "\<forall>q \<in> set qs. content d q = None \<and> (butlast q = [] \<or> butlast q \<in> set qs)"
  shows "disk_wf (mkdirs qs d)"
proof -
  have "is_dir_at (mkdirs qs d) p" if "is_dir_at d p \<or> p \<in> set qs \<or> p = []" for p
    using that assms(2) by (auto simp: is_dir_at_def mkdirs_def content_None_iff)
  moreover have "fs_tree (mkdirs qs d) p \<noteq> None \<Longrightarrow> fs_tree d p \<noteq> None \<or> p \<in> set qs" for p
    by (auto simp: mkdirs_def split: if_splits)
  ultimately have "\<forall>p. p \<noteq> [] \<longrightarrow> fs_tree (mkdirs qs d) p \<noteq> None \<longrightarrow> is_dir_at (mkdirs qs d) (butlast p)"
    using assms unfolding disk_wf_def by metis
  then show ?thesis using assms(1) by (auto simp: disk_wf_def mkdirs_def split: if_splits)
qed

lemma disk_wf_create_dir_all:
  assumes "disk_wf d" shows "disk_wf (snd (fs_create_dir_all env p d))"
proof -
  have "disk_wf (mkdirs (take k (ancestors p)) d)" if "\<forall>q \<in> set (ancestors p). content d q = None" for k
    using that ancestors_take_closed by (intro disk_wf_mkdirs [OF assms]) (meson in_set_takeD)
  from this [of "length (ancestors p)"] this show ?thesis
    using assms by (auto simp: fs_create_dir_all_def split: option.splits)
qed

lemma disk_wf_rename_file:
  assumes "disk_wf d" "fs_tree d a = Some (FFile i)"
  shows "disk_wf (snd (fs_rename env a b d))"
proof (cases "fst (fs_rename env a b d) = Inr () \<and> a \<noteq> b")
  case True
  then have "a \<noteq> []" "b \<noteq> []" "is_dir_at d (butlast b)" "fs_tree d b \<noteq> Some FDir"
    using assms(2) by (auto simp: fs_rename_def split: option.splits if_splits)
  moreover have "butlast b \<noteq> a" "butlast b \<noteq> b"
    using calculation assms(2) by (auto simp: is_dir_at_def)
  ultimately have "disk_wf (d\<lparr>fs_tree := (fs_tree d)(b \<mapsto> FFile i, a := None)\<rparr>)"
    using assms by (auto simp: disk_wf_def is_dir_at_def split: if_splits)
  then show ?thesis using True fs_rename_file [OF assms(2)] by simp
qed (use assms fs_rename_file [OF assms(2)] in auto)

end
