(* ===== verification/Journal.thy ===== *)
theory Journal
  imports Prelude
begin

text \<open>
  The sync journal (\<open>crates/sync-db\<close>): the row types of \<open>models.rs\<close>, the tables of
  \<open>migrations/001_initial.sql\<close>, and every query of \<open>SyncJournalDb\<close> in \<open>db.rs\<close> as a function on the
  tables. A table is the list of its rows in insertion order; \<open>path TEXT PRIMARY KEY\<close> compares text
  bytewise. Each query may fail in the storage layer: the parameter \<open>flt\<close> gives the outcome of each
  call, and a failing statement leaves the tables as they were.

  The locale \<open>kv_table\<close> states what the callers rely on (lookup after insert-or-replace, lookup after
  delete, uniqueness of the key) and is interpreted for each of the three tables.
\<close>

section \<open>Rows (\<open>models.rs\<close>)\<close>

record JournalEntry =
  je_path :: string
  je_etag :: "string option"
  je_mtime :: "i64 option"
  je_size :: "i64 option"
  je_inode :: "i64 option"
  je_file_id :: "string option"
  je_checksum :: "string option"
  je_is_virtual :: i64

definition new_JournalEntry :: "string \<Rightarrow> JournalEntry" where
  "new_JournalEntry p =
     \<lparr>je_path = p, je_etag = None, je_mtime = None, je_size = None, je_inode = None,
      je_file_id = None, je_checksum = None, je_is_virtual = 0\<rparr>"

definition is_virtual_file :: "JournalEntry \<Rightarrow> bool" where
  "is_virtual_file e \<longleftrightarrow> je_is_virtual e \<noteq> 0"

record UploadInfo =
  ui_path :: string
  ui_upload_id :: string
  ui_offset :: i64
  ui_size :: i64

definition new_UploadInfo :: "string \<Rightarrow> string \<Rightarrow> i64 \<Rightarrow> UploadInfo" where
  "new_UploadInfo p uid sz = \<lparr>ui_path = p, ui_upload_id = uid, ui_offset = 0, ui_size = sz\<rparr>"

record ErrorBlacklistEntry =
  bl_path :: string
  bl_error_count :: i64
  bl_last_error :: string
  bl_retry_after :: i64

definition new_ErrorBlacklistEntry :: "string \<Rightarrow> i64 \<Rightarrow> string \<Rightarrow> i64 \<Rightarrow> ErrorBlacklistEntry" where
  "new_ErrorBlacklistEntry p n e t =
     \<lparr>bl_path = p, bl_error_count = n, bl_last_error = e, bl_retry_after = t\<rparr>"

datatype DbError = Sqlx string | Migration string | NotFound string | Db_Io string

section \<open>SQL on a keyed table\<close>

definition sql_select :: "('r \<Rightarrow> string) \<Rightarrow> string \<Rightarrow> 'r list \<Rightarrow> 'r option" where
  "sql_select key p t = find (\<lambda>r. key r = p) t"

text \<open>\<open>INSERT ... ON CONFLICT(path) DO UPDATE SET\<close> of every other column.\<close>

definition sql_upsert :: "('r \<Rightarrow> string) \<Rightarrow> 'r \<Rightarrow> 'r list \<Rightarrow> 'r list" where
  "sql_upsert key r t =
     (if \<exists>r' \<in> set t. key r' = key r then map (\<lambda>r'. if key r' = key r then r else r') t else t @ [r])"

definition sql_delete :: "('r \<Rightarrow> string) \<Rightarrow> string \<Rightarrow> 'r list \<Rightarrow> 'r list" where
  "sql_delete key p t = filter (\<lambda>r. key r \<noteq> p) t"

definition sql_order_by :: "('r \<Rightarrow> string) \<Rightarrow> 'r list \<Rightarrow> 'r list" where
  "sql_order_by key t = sort_key key t"

definition primary_key :: "('r \<Rightarrow> string) \<Rightarrow> 'r list \<Rightarrow> bool" where
  "primary_key key t \<longleftrightarrow> distinct (map key t)"

section \<open>The database handle (\<open>db.rs\<close>)\<close>

record SyncJournalDb =
  metadata :: "JournalEntry list"
  upload_info :: "UploadInfo list"
  error_blacklist :: "ErrorBlacklistEntry list"
  selective_sync :: "string list"

datatype db_call =
    Open_Call | Migrate_Call | Get_Call string | Upsert_Call string | Delete_Call string | List_Call
  | Get_Upload_Call string | Set_Upload_Call string | Clear_Upload_Call string
  | Add_Blacklist_Call string | Get_Blacklist_Call string | Clear_Blacklist_Call string

type_synonym db_fault = "db_call \<Rightarrow> DbError option"

abbreviation no_db_fault :: db_fault where
  "no_db_fault \<equiv> (\<lambda>_. None)"

definition empty_db :: SyncJournalDb where
  "empty_db = \<lparr>metadata = [], upload_info = [], error_blacklist = [], selective_sync = []\<rparr>"

text \<open>
  \<open>open\<close>: \<open>path_str\<close> is the result of \<open>Path::to_str\<close>, \<open>existing\<close> the database file found there, if any.
  Every statement of the migration is \<open>IF NOT EXISTS\<close> or \<open>OR IGNORE\<close>, so it keeps existing rows.
\<close>

definition open_db :: "db_fault \<Rightarrow> string option \<Rightarrow> SyncJournalDb option \<Rightarrow> DbError + SyncJournalDb" where
  "open_db flt path_str existing =
     (case path_str of
        None \<Rightarrow> Inl (Db_Io ''non-UTF-8 path'')
      | Some _ \<Rightarrow>
          (case flt Open_Call of
             Some e \<Rightarrow> Inl e
           | None \<Rightarrow>
               (case flt Migrate_Call of
                  Some e \<Rightarrow> Inl e
                | None \<Rightarrow> Inr (case existing of Some db \<Rightarrow> db | None \<Rightarrow> empty_db))))"

definition db_exec :: "db_fault \<Rightarrow> db_call \<Rightarrow> (SyncJournalDb \<Rightarrow> SyncJournalDb) \<Rightarrow> SyncJournalDb
    \<Rightarrow> (DbError + unit) \<times> SyncJournalDb" where
  "db_exec flt c f db = (case flt c of Some e \<Rightarrow> (Inl e, db) | None \<Rightarrow> (Inr (), f db))"

definition db_query :: "db_fault \<Rightarrow> db_call \<Rightarrow> 'a \<Rightarrow> DbError + 'a" where
  "db_query flt c x = (case flt c of Some e \<Rightarrow> Inl e | None \<Rightarrow> Inr x)"

definition get_entry :: "db_fault \<Rightarrow> string \<Rightarrow> SyncJournalDb \<Rightarrow> DbError + JournalEntry option" where
  "get_entry flt p db = db_query flt (Get_Call p) (sql_select je_path p (metadata db))"

definition upsert_entry :: "db_fault \<Rightarrow> JournalEntry \<Rightarrow> SyncJournalDb \<Rightarrow> (DbError + unit) \<times> SyncJournalDb" where
  "upsert_entry flt e = db_exec flt (Upsert_Call (je_path e))
     (\<lambda>db. db\<lparr>metadata := sql_upsert je_path e (metadata db)\<rparr>)"

definition delete_entry :: "db_fault \<Rightarrow> string \<Rightarrow> SyncJournalDb \<Rightarrow> (DbError + unit) \<times> SyncJournalDb" where
  "delete_entry flt p = db_exec flt (Delete_Call p)
     (\<lambda>db. db\<lparr>metadata := sql_delete je_path p (metadata db)\<rparr>)"

definition list_entries :: "db_fault \<Rightarrow> SyncJournalDb \<Rightarrow> DbError + JournalEntry list" where
  "list_entries flt db = db_query flt List_Call (sql_order_by je_path (metadata db))"

definition get_upload_info :: "db_fault \<Rightarrow> string \<Rightarrow> SyncJournalDb \<Rightarrow> DbError + UploadInfo option" where
  "get_upload_info flt p db = db_query flt (Get_Upload_Call p) (sql_select ui_path p (upload_info db))"

definition set_upload_info :: "db_fault \<Rightarrow> UploadInfo \<Rightarrow> SyncJournalDb \<Rightarrow> (DbError + unit) \<times> SyncJournalDb" where
  "set_upload_info flt i = db_exec flt (Set_Upload_Call (ui_path i))
     (\<lambda>db. db\<lparr>upload_info := sql_upsert ui_path i (upload_info db)\<rparr>)"

definition clear_upload_info :: "db_fault \<Rightarrow> string \<Rightarrow> SyncJournalDb \<Rightarrow> (DbError + unit) \<times> SyncJournalDb" where
  "clear_upload_info flt p = db_exec flt (Clear_Upload_Call p)
     (\<lambda>db. db\<lparr>upload_info := sql_delete ui_path p (upload_info db)\<rparr>)"

definition add_blacklist :: "db_fault \<Rightarrow> ErrorBlacklistEntry \<Rightarrow> SyncJournalDb
    \<Rightarrow> (DbError + unit) \<times> SyncJournalDb" where
  "add_blacklist flt e = db_exec flt (Add_Blacklist_Call (bl_path e))
     (\<lambda>db. db\<lparr>error_blacklist := sql_upsert bl_path e (error_blacklist db)\<rparr>)"

definition get_blacklist :: "db_fault \<Rightarrow> string \<Rightarrow> SyncJournalDb \<Rightarrow> DbError + ErrorBlacklistEntry option" where
  "get_blacklist flt p db =
     db_query flt (Get_Blacklist_Call p) (sql_select bl_path p (error_blacklist db))"

definition clear_blacklist :: "db_fault \<Rightarrow> string \<Rightarrow> SyncJournalDb \<Rightarrow> (DbError + unit) \<times> SyncJournalDb" where
  "clear_blacklist flt p = db_exec flt (Clear_Blacklist_Call p)
     (\<lambda>db. db\<lparr>error_blacklist := sql_delete bl_path p (error_blacklist db)\<rparr>)"

definition db_wf :: "SyncJournalDb \<Rightarrow> bool" where
  "db_wf db \<longleftrightarrow> primary_key je_path (metadata db) \<and> primary_key ui_path (upload_info db) \<and>
     primary_key bl_path (error_blacklist db)"

text \<open>The journal seen as a map: what the rest of the program knows of the \<open>metadata\<close> table.\<close>

definition journal_map :: "SyncJournalDb \<Rightarrow> string \<Rightarrow> JournalEntry option" where
  "journal_map db p = sql_select je_path p (metadata db)"

datatype journal_op =
    Op_Upsert JournalEntry | Op_Delete string | Op_Set_Upload UploadInfo | Op_Clear_Upload string
  | Op_Add_Blacklist ErrorBlacklistEntry | Op_Clear_Blacklist string

fun run_journal_op :: "db_fault \<Rightarrow> journal_op \<Rightarrow> SyncJournalDb \<Rightarrow> (DbError + unit) \<times> SyncJournalDb" where
  "run_journal_op flt (Op_Upsert e) = upsert_entry flt e"
| "run_journal_op flt (Op_Delete p) = delete_entry flt p"
| "run_journal_op flt (Op_Set_Upload i) = set_upload_info flt i"
| "run_journal_op flt (Op_Clear_Upload p) = clear_upload_info flt p"
| "run_journal_op flt (Op_Add_Blacklist e) = add_blacklist flt e"
| "run_journal_op flt (Op_Clear_Blacklist p) = clear_blacklist flt p"

definition run_journal_ops :: "db_fault \<Rightarrow> journal_op list \<Rightarrow> SyncJournalDb \<Rightarrow> SyncJournalDb" where
  "run_journal_ops flt ops db = fold (\<lambda>op db. snd (run_journal_op flt op db)) ops db"

text \<open>The effect of one call on the abstract map from paths to entries.\<close>

fun abs_journal_op :: "db_fault \<Rightarrow> journal_op \<Rightarrow> (string \<Rightarrow> JournalEntry option) \<Rightarrow> string \<Rightarrow> JournalEntry option" where
  "abs_journal_op flt (Op_Upsert e) m =
     (if flt (Upsert_Call (je_path e)) = None then m(je_path e := Some e) else m)"
| "abs_journal_op flt (Op_Delete p) m = (if flt (Delete_Call p) = None then m(p := None) else m)"
| "abs_journal_op flt _ m = m"

section \<open>The contract of a keyed table\<close>

locale kv_table =
  fixes key :: "'r \<Rightarrow> string"
    and get :: "string \<Rightarrow> 't \<Rightarrow> 'r option"
    and put :: "'r \<Rightarrow> 't \<Rightarrow> 't"
    and del :: "string \<Rightarrow> 't \<Rightarrow> 't"
    and inv :: "'t \<Rightarrow> bool"
  assumes get_key: "get p t = Some r \<Longrightarrow> key r = p"
    and get_put: "inv t \<Longrightarrow> get p (put r t) = (if p = key r then Some r else get p t)"
    and get_del: "get p (del q t) = (if p = q then None else get p t)"
    and inv_put: "inv t \<Longrightarrow> inv (put r t)"
    and inv_del: "inv t \<Longrightarrow> inv (del p t)"
begin

lemma get_put_put: "inv t \<Longrightarrow> key r = key r' \<Longrightarrow> get p (put r (put r' t)) = get p (put r t)"
  by (simp add: get_put inv_put)

lemma get_put_commute:
  "inv t \<Longrightarrow> key r \<noteq> key r' \<Longrightarrow> get p (put r (put r' t)) = get p (put r' (put r t))"
  by (simp add: get_put inv_put)

lemma get_del_put: "inv t \<Longrightarrow> get p (del (key r) (put r t)) = get p (del (key r) t)"
  by (simp add: get_put get_del)

lemma get_put_del: "inv t \<Longrightarrow> get p (put r (del (key r) t)) = get p (put r t)"
  by (simp add: get_put get_del inv_del)

lemma inv_fold_put: "inv t \<Longrightarrow> inv (fold put rs t)"
  by (induction rs arbitrary: t) (auto simp: inv_put)

lemma get_fold_put:
  "inv t \<Longrightarrow> get p (fold put rs t) = (case find (\<lambda>r. key r = p) (rev rs) of Some r \<Rightarrow> Some r | None \<Rightarrow> get p t)"
proof (induction rs arbitrary: t)
  case Nil
  then show ?case by simp
next
  case (Cons r rs)
  then show ?case
    by (simp add: inv_put get_put find_append split: option.splits)
qed

end

section \<open>The tables fulfil the contract\<close>

lemma sql_select_Some: "sql_select key p t = Some r \<Longrightarrow> r \<in> set t \<and> key r = p"
  by (auto simp: sql_select_def dest: find_Some_mem)

lemma find_map_replace:
  "\<exists>r' \<in> set t. key r' = key r \<Longrightarrow>
   find (\<lambda>r. key r = p) (map (\<lambda>r'. if key r' = key r then r else r') t) =
     (if p = key r then Some r else find (\<lambda>r. key r = p) t)"
proof (induction t)
  case Nil
  then show ?case by simp
next
  case (Cons x t)
  show ?case
  proof (cases "\<exists>r' \<in> set t. key r' = key r")
    case True
    then show ?thesis using Cons.IH by auto
  next
    case False
    then have "map (\<lambda>r'. if key r' = key r then r else r') t = t"
      by (auto intro: map_idI)
    then show ?thesis using Cons.prems False by auto
  qed
qed

lemma sql_select_upsert:
  "sql_select key p (sql_upsert key r t) = (if p = key r then Some r else sql_select key p t)"
proof (cases "\<exists>r' \<in> set t. key r' = key r")
  case True
  then show ?thesis by (simp add: sql_select_def sql_upsert_def find_map_replace)
next
  case False
  then show ?thesis
    by (auto simp: sql_select_def sql_upsert_def find_append dest: find_Some_mem split: option.splits)
qed

lemma sql_select_delete:
  "sql_select key p (sql_delete key q t) = (if p = q then None else sql_select key p t)"
  unfolding sql_select_def sql_delete_def by (induction t) auto

lemma primary_key_upsert: "primary_key key t \<Longrightarrow> primary_key key (sql_upsert key r t)"
proof (cases "\<exists>r' \<in> set t. key r' = key r")
  case True
  assume "primary_key key t"
  moreover have "map (key \<circ> (\<lambda>r'. if key r' = key r then r else r')) t = map key t"
    by simp
  ultimately show ?thesis using True by (simp add: sql_upsert_def primary_key_def del: map_eq_conv)
qed (auto simp: sql_upsert_def primary_key_def)

lemma primary_key_delete: "primary_key key t \<Longrightarrow> primary_key key (sql_delete key p t)"
  by (auto simp: primary_key_def sql_delete_def distinct_map_filter)

lemmas sql_table_laws =
  sql_select_upsert sql_select_delete primary_key_upsert primary_key_delete

interpretation metadata_table: kv_table je_path "sql_select je_path" "sql_upsert je_path" "sql_delete je_path"
    "primary_key je_path"
  by unfold_locales (auto simp: sql_table_laws dest: sql_select_Some)

interpretation upload_table: kv_table ui_path "sql_select ui_path" "sql_upsert ui_path" "sql_delete ui_path"
    "primary_key ui_path"
  by unfold_locales (auto simp: sql_table_laws dest: sql_select_Some)

interpretation blacklist_table: kv_table bl_path "sql_select bl_path" "sql_upsert bl_path" "sql_delete bl_path"
    "primary_key bl_path"
  by unfold_locales (auto simp: sql_table_laws dest: sql_select_Some)

section \<open>Behaviour of the handle\<close>

lemmas db_op_defs =
  upsert_entry_def delete_entry_def set_upload_info_def clear_upload_info_def add_blacklist_def
  clear_blacklist_def db_exec_def

lemma metadata_upsert_entry:
  "metadata (snd (upsert_entry flt e db)) =
     (if flt (Upsert_Call (je_path e)) = None then sql_upsert je_path e (metadata db) else metadata db)"
  by (auto simp: db_op_defs split: option.splits)

lemma metadata_delete_entry:
  "metadata (snd (delete_entry flt p db)) =
     (if flt (Delete_Call p) = None then sql_delete je_path p (metadata db) else metadata db)"
  by (auto simp: db_op_defs split: option.splits)

lemma journal_map_upsert:
  "journal_map (snd (upsert_entry flt e db)) =
     (if flt (Upsert_Call (je_path e)) = None then (journal_map db)(je_path e := Some e) else journal_map db)"
  by (auto simp: journal_map_def metadata_upsert_entry sql_select_upsert fun_eq_iff)

lemma journal_map_delete:
  "journal_map (snd (delete_entry flt p db)) =
     (if flt (Delete_Call p) = None then (journal_map db)(p := None) else journal_map db)"
  by (auto simp: journal_map_def metadata_delete_entry sql_select_delete fun_eq_iff)

lemma db_wf_run_journal_op: "db_wf db \<Longrightarrow> db_wf (snd (run_journal_op flt op db))"
  by (cases op) (auto simp: db_op_defs db_wf_def primary_key_upsert primary_key_delete split: option.splits)

lemma journal_map_run_journal_op:
  "journal_map (snd (run_journal_op flt op db)) = abs_journal_op flt op (journal_map db)"
proof (cases op)
  case (Op_Upsert e)
  then show ?thesis by (simp add: journal_map_upsert)
next
  case (Op_Delete p)
  then show ?thesis by (simp add: journal_map_delete)
qed (auto simp: journal_map_def fun_eq_iff db_op_defs split: option.splits)

lemma list_entries_sorted:
  assumes "primary_key je_path (metadata db)"
  shows "\<exists>es. list_entries no_db_fault db = Inr es \<and> sorted_wrt (<) (map je_path es) \<and> set es = set (metadata db)"
proof -
  have "sorted_wrt (<) (map je_path (sql_order_by je_path (metadata db)))"
    using assms by (simp add: sql_order_by_def primary_key_def strict_sorted_iff distinct_map)
  then show ?thesis
    by (simp add: list_entries_def db_query_def sql_order_by_def)
qed

lemma journal_map_run_journal_ops:
  "journal_map (run_journal_ops flt ops db) = fold (abs_journal_op flt) ops (journal_map db)"
  unfolding run_journal_ops_def
  by (induction ops arbitrary: db) (simp_all add: journal_map_run_journal_op)

lemma db_wf_run_journal_ops: "db_wf db \<Longrightarrow> db_wf (run_journal_ops flt ops db)"
  unfolding run_journal_ops_def
  by (induction ops arbitrary: db) (simp_all add: db_wf_run_journal_op)

lemma mem_metadata_iff:
  "primary_key je_path (metadata db) \<Longrightarrow> e \<in> set (metadata db) \<longleftrightarrow> journal_map db (je_path e) = Some e"
  by (simp add: journal_map_def sql_select_def primary_key_def find_key_iff_mem)

text \<open>
  C1: The journal database refines a map from paths to entries. After any sequence of insert-or-replace,
  delete, upload-state and blacklist calls, whatever storage faults occur, looking a path up gives what
  the abstract map gives, the primary keys of all three tables stay unique, and \<open>list_entries\<close> is the
  list of all entries in strictly increasing path order: an entry is listed exactly if it is what the map
  holds at its path.
\<close>

theorem journal_refines_map:
  assumes "db_wf db"
  shows "journal_map (run_journal_ops flt ops db) = fold (abs_journal_op flt) ops (journal_map db) \<and>
    db_wf (run_journal_ops flt ops db) \<and>
    (\<exists>es. list_entries no_db_fault (run_journal_ops flt ops db) = Inr es \<and> sorted_wrt (<) (map je_path es) \<and>
      (\<forall>e. e \<in> set es \<longleftrightarrow> fold (abs_journal_op flt) ops (journal_map db) (je_path e) = Some e))"
proof -
  have map: "journal_map (run_journal_ops flt ops db) = fold (abs_journal_op flt) ops (journal_map db)"
    by (rule journal_map_run_journal_ops)
  have wf: "db_wf (run_journal_ops flt ops db)"
    using assms by (rule db_wf_run_journal_ops)
  then have pk: "primary_key je_path (metadata (run_journal_ops flt ops db))"
    by (simp add: db_wf_def)
  obtain es where es: "list_entries no_db_fault (run_journal_ops flt ops db) = Inr es"
      "sorted_wrt (<) (map je_path es)" "set es = set (metadata (run_journal_ops flt ops db))"
    using list_entries_sorted [OF pk] by blast
  then have "\<forall>e. e \<in> set es \<longleftrightarrow> fold (abs_journal_op flt) ops (journal_map db) (je_path e) = Some e"
    using mem_metadata_iff [OF pk] map by simp
  with map wf es show ?thesis by blast
qed

theorem journal_refines_map_witness:
  "db_wf empty_db \<and>
   (let db = run_journal_ops no_db_fault
        [Op_Upsert (new_JournalEntry ''b''), Op_Upsert (new_JournalEntry ''a''), Op_Delete ''b''] empty_db
    in db_wf db \<and> journal_map db ''b'' = None)"
proof -
  have "db_wf empty_db" by (simp add: db_wf_def empty_db_def primary_key_def)
  from journal_refines_map [OF this, of no_db_fault
      "[Op_Upsert (new_JournalEntry ''b''), Op_Upsert (new_JournalEntry ''a''), Op_Delete ''b'']"] this
  show ?thesis by (simp add: Let_def)
qed

end
