(* ===== verification/Propagate.thy ===== *)
theory Propagate
  imports Http Async FileSystem Journal
begin

text \<open>
  The transfer operations of the sync engine (\<open>crates/sync-engine/src/propagate\<close>): download, upload by
  PUT and by TUS, deletion and creation of collections. Each is a program of atomic actions, one per
  \<open>await\<close>, on the world that the tasks of a sync run share: the local disk, the journal, the folder state
  and the network.
\<close>

section \<open>The shared world\<close>

record 'n world =
  w_disk :: disk
  w_db :: SyncJournalDb
  w_state :: SyncState
  w_net :: 'n

text \<open>What the world's answers depend on: network, libraries, faults of disk and database, the clock.\<close>

record 'n env =
  en_net :: "'n net"
  en_lib :: libs
  en_fs :: fs_env
  en_db :: db_fault
  en_now :: "'n \<Rightarrow> nat"

definition send :: "'n env \<Rightarrow> request \<Rightarrow> 'n world \<Rightarrow> ((string + response) \<times> u64) \<times> 'n world" where
  "send env rq w =
     (case net_send (en_net env) rq (w_net w) of
        (r, n) \<Rightarrow> ((r, net_elapsed (en_net env) n), w\<lparr>w_net := n\<rparr>))"

definition on_disk :: "(disk \<Rightarrow> 'r \<times> disk) \<Rightarrow> 'n world \<Rightarrow> 'r \<times> 'n world" where
  "on_disk f w = (case f (w_disk w) of (r, d) \<Rightarrow> (r, w\<lparr>w_disk := d\<rparr>))"

definition look_disk :: "(disk \<Rightarrow> 'r) \<Rightarrow> 'n world \<Rightarrow> 'r \<times> 'n world" where
  "look_disk f w = (f (w_disk w), w)"

definition on_db :: "(SyncJournalDb \<Rightarrow> 'r \<times> SyncJournalDb) \<Rightarrow> 'n world \<Rightarrow> 'r \<times> 'n world" where
  "on_db f w = (case f (w_db w) of (r, d) \<Rightarrow> (r, w\<lparr>w_db := d\<rparr>))"

definition on_state :: "(SyncState \<Rightarrow> SyncState) \<Rightarrow> 'n world \<Rightarrow> unit \<times> 'n world" where
  "on_state f w = ((), w\<lparr>w_state := f (w_state w)\<rparr>)"

lemmas world_op_defs = send_def on_disk_def look_disk_def on_db_def on_state_def

type_synonym ('n, 'a) io = "('n world, 'a) prog"

section \<open>\<open>ops.rs\<close>\<close>

definition delete_local :: "'n env \<Rightarrow> string \<Rightarrow> ('n, SyncError + unit) io" where
  "delete_local env path =
     call (on_disk (fs_remove_file (en_fs env) (resolve path)))
       (\<lambda>r. case r of
          Inr _ \<Rightarrow> Done (Inr ())
        | Inl e \<Rightarrow> if e = Io_Not_Found then Done (Inr ()) else Done (Inl (Err_Io (io_msg e))))"

definition delete_local_dir :: "'n env \<Rightarrow> string \<Rightarrow> ('n, SyncError + unit) io" where
  "delete_local_dir env path =
     call (on_disk (fs_remove_dir_all (en_fs env) (resolve path)))
       (\<lambda>r. case r of
          Inr _ \<Rightarrow> Done (Inr ())
        | Inl e \<Rightarrow> if e = Io_Not_Found then Done (Inr ()) else Done (Inl (Err_Io (io_msg e))))"

definition delete_remote :: "'n env \<Rightarrow> url \<Rightarrow> string \<Rightarrow> ('n, SyncError + unit) io" where
  "delete_remote env u bearer =
     call (send env \<lparr>rq_method = ''DELETE'', rq_url = show_url u, rq_bearer = Some bearer, rq_headers = [], rq_body = []\<rparr>)
       (\<lambda>(r, _). case r of
          Inl e \<Rightarrow> Done (Inl (Err_Http 0 e))
        | Inr resp \<Rightarrow>
            (let status = rs_status resp in
             if status \<noteq> 204 \<and> status \<noteq> 200 \<and> status \<noteq> 404 then
               Done (Inl (Err_Http status (''DELETE failed: '' @ lib_status_text (en_lib env) status)))
             else Done (Inr ())))"

definition mkdir_remote :: "'n env \<Rightarrow> url \<Rightarrow> string \<Rightarrow> ('n, SyncError + unit) io" where
  "mkdir_remote env u bearer =
     call (send env \<lparr>rq_method = ''MKCOL'', rq_url = show_url u, rq_bearer = Some bearer, rq_headers = [], rq_body = []\<rparr>)
       (\<lambda>(r, _). case r of
          Inl e \<Rightarrow> Done (Inl (Err_Http 0 e))
        | Inr resp \<Rightarrow>
            (if rs_status resp \<in> {201, 200, 405} then Done (Inr ())
             else Done (Inl (Err_Http (rs_status resp) ''MKCOL failed''))))"

definition rename_remote :: "'n env \<Rightarrow> url \<Rightarrow> url \<Rightarrow> ('n, SyncError + unit) io" where
  "rename_remote env from_url to_url =
     call (send env \<lparr>rq_method = ''MOVE'', rq_url = show_url from_url, rq_bearer = None,
                     rq_headers = [(''Destination'', show_url to_url), (''Overwrite'', ''T'')], rq_body = []\<rparr>)
       (\<lambda>(r, _). case r of
          Inl e \<Rightarrow> Done (Inl (Err_Http 0 e))
        | Inr resp \<Rightarrow>
            (let status = rs_status resp in
             if status \<noteq> 201 \<and> status \<noteq> 204 then
               Done (Inl (Err_Http status (''MOVE failed: '' @ lib_status_text (en_lib env) status)))
             else Done (Inr ())))"

section \<open>\<open>download.rs\<close>\<close>

record DownloadRequest =
  dl_remote_url :: url
  dl_local_dest :: string
  dl_expected_etag :: "string option"
  dl_bearer_token :: string

definition strip_quotes :: "string \<Rightarrow> string" where
  "strip_quotes s = trim_matches CHR 0x22 s"

definition etag_matches :: "string option \<Rightarrow> string \<Rightarrow> bool" where
  "etag_matches expected server =
     (case expected of None \<Rightarrow> True | Some x \<Rightarrow> strip_quotes server = strip_quotes x)"

text \<open>The block that writes the temporary file and moves it over the destination.\<close>

definition store_file :: "'n env \<Rightarrow> string \<Rightarrow> string \<Rightarrow> string \<Rightarrow> ('n, SyncError + unit) io" where
  "store_file env tmp_path dest bytes =
     (let err = (\<lambda>e. Done (Inl (Err_Io (io_msg e)))) in
      call (on_disk (fs_create_file (en_fs env) (resolve tmp_path)))
        (\<lambda>r. case r of
           Inl e \<Rightarrow> err e
         | Inr h \<Rightarrow>
             call (on_disk (fs_write_all (en_fs env) h bytes))
               (\<lambda>r. case r of
                  Inl e \<Rightarrow> err e
                | Inr _ \<Rightarrow>
                    call (on_disk (fs_flush (en_fs env) h))
                      (\<lambda>r. case r of
                         Inl e \<Rightarrow> err e
                       | Inr _ \<Rightarrow>
                           call (on_disk (fs_rename (en_fs env) (resolve tmp_path) (resolve dest)))
                             (\<lambda>r. case r of
                                Inl e \<Rightarrow>
                                  call (on_disk (fs_remove_file (en_fs env) (resolve tmp_path)))
                                    (\<lambda>_. Done (Inl (Err_Io (io_msg e))))
                              | Inr _ \<Rightarrow> Done (Inr ()))))))"

text \<open>The part after the destination's directory exists: read the body, check the etag, store the file.\<close>

definition receive_body :: "'n env \<Rightarrow> DownloadRequest \<Rightarrow> response \<Rightarrow> u64 \<Rightarrow> ('n, (SyncError + string) \<times> HttpEvent list) io" where
  "receive_body env req resp ms =
     (let server_etag = header_or_empty ''etag'' resp; dest = dl_local_dest req in
      case rs_body resp of
        Inl e \<Rightarrow> Done (Inl (Err_Http 0 e), [])
      | Inr bytes \<Rightarrow>
          (let evs = [http_event ''GET'' (dl_remote_url req) (rs_status resp) ms (of_nat (length bytes))] in
           if \<not> etag_matches (dl_expected_etag req) server_etag then
             Done (Inl (Err_Parse (''ETag mismatch: expected '' @ the (dl_expected_etag req) @ '', got '' @ server_etag)), evs)
           else
             prog_bind (store_file env (with_extension dest ''tmp'') dest bytes)
               (\<lambda>r. case r of Inl e \<Rightarrow> Done (Inl e, evs) | Inr _ \<Rightarrow> Done (Inr server_etag, evs))))"

definition get_request :: "DownloadRequest \<Rightarrow> request" where
  "get_request req = \<lparr>rq_method = ''GET'', rq_url = show_url (dl_remote_url req), rq_bearer = Some (dl_bearer_token req),
     rq_headers = [], rq_body = []\<rparr>"

definition propagate_download :: "'n env \<Rightarrow> DownloadRequest \<Rightarrow> ('n, (SyncError + string) \<times> HttpEvent list) io" where
  "propagate_download env req =
     call (send env (get_request req))
       (\<lambda>(r, ms). case r of
          Inl e \<Rightarrow> Done (Inl (Err_Http 0 e), [])
        | Inr resp \<Rightarrow>
            (if rs_status resp \<noteq> 200 then
               Done (Inl (Err_Http (rs_status resp) (''GET failed: '' @ lib_status_text (en_lib env) (rs_status resp))),
                     [http_event ''GET'' (dl_remote_url req) (rs_status resp) ms 0])
             else
               (case path_parent (dl_local_dest req) of
                  None \<Rightarrow> receive_body env req resp ms
                | Some parent \<Rightarrow>
                    call (on_disk (fs_create_dir_all (en_fs env) (resolve parent)))
                      (\<lambda>r. case r of
                         Inl e \<Rightarrow> Done (Inl (Err_Io (io_msg e)), [])
                       | Inr _ \<Rightarrow> receive_body env req resp ms))))"

section \<open>\<open>upload.rs\<close>\<close>

record UploadRequest =
  ul_local_path :: string
  ul_remote_url :: url
  ul_space_root :: url
  ul_size :: u64
  ul_checksum :: "string option"
  ul_tus_threshold :: u64
  ul_bearer_token :: string

definition show_u64 :: "u64 \<Rightarrow> string" where
  "show_u64 x = show_nat (unat x)"

definition show_u16 :: "u16 \<Rightarrow> string" where
  "show_u16 x = show_nat (unat x)"

text \<open>The ancestors of the uploaded file, outermost first, as paths relative to the space root.\<close>

definition ancestor_rels :: "url \<Rightarrow> url \<Rightarrow> string list" where
  "ancestor_rels remote_url space_root =
     (let root_path = trim_end_matches CHR ''/'' (url_path space_root);
          file_path = url_path remote_url;
          rel = trim_start_matches CHR ''/'' (case strip_prefix_str root_path file_path of Some r \<Rightarrow> r | None \<Rightarrow> file_path);
          parts = split_on CHR ''/'' rel
      in map (\<lambda>i. join_on ''/'' (take i parts)) [1..<length parts])"

fun mkdir_each :: "'n env \<Rightarrow> url \<Rightarrow> string \<Rightarrow> string list \<Rightarrow> ('n, SyncError + unit) io" where
  "mkdir_each env space_root bearer [] = Done (Inr ())"
| "mkdir_each env space_root bearer (rel # rels) =
     (case lib_url_join (en_lib env) space_root rel of
        Inl e \<Rightarrow> Done (Inl (Err_Parse e))
      | Inr u \<Rightarrow>
          prog_bind (mkdir_remote env (with_trailing_slash u) bearer)
            (\<lambda>r. case r of Inl e \<Rightarrow> Done (Inl e) | Inr _ \<Rightarrow> mkdir_each env space_root bearer rels))"

definition ensure_parent_collections :: "'n env \<Rightarrow> url \<Rightarrow> url \<Rightarrow> string \<Rightarrow> ('n, SyncError + unit) io" where
  "ensure_parent_collections env remote_url space_root bearer =
     mkdir_each env space_root bearer (ancestor_rels remote_url space_root)"

definition put_request :: "UploadRequest \<Rightarrow> string \<Rightarrow> request" where
  "put_request req bytes =
     \<lparr>rq_method = ''PUT'', rq_url = show_url (ul_remote_url req), rq_bearer = Some (ul_bearer_token req),
      rq_headers = (''Content-Length'', show_u64 (ul_size req)) #
        (case ul_checksum req of None \<Rightarrow> [] | Some cs \<Rightarrow> [(''OC-Checksum'', ''SHA256:'' @ cs)]),
      rq_body = bytes\<rparr>"

definition put_ok :: "u16 \<Rightarrow> bool" where
  "put_ok status \<longleftrightarrow> status = 200 \<or> status = 201 \<or> status = 204"

definition upload_put :: "'n env \<Rightarrow> UploadRequest \<Rightarrow> ('n, (SyncError + string) \<times> HttpEvent list) io" where
  "upload_put env req =
     (let u = ul_remote_url req in
      call (look_disk (fs_read (en_fs env) (resolve (ul_local_path req))))
        (\<lambda>r. case r of
           Inl e \<Rightarrow> Done (Inl (Err_Io (io_msg e)), [])
         | Inr bytes \<Rightarrow>
             call (send env (put_request req bytes))
               (\<lambda>(r, ms). case r of
                  Inl e \<Rightarrow> Done (Inl (Err_Http 0 e), [])
                | Inr resp \<Rightarrow>
                    (let status = rs_status resp;
                         ev = http_event ''PUT'' u status ms (ul_size req) in
                     if status = 409 then
                       prog_bind (ensure_parent_collections env u (ul_space_root req) (ul_bearer_token req))
                         (\<lambda>r. case r of
                            Inl e \<Rightarrow> Done (Inl e, [ev])
                          | Inr _ \<Rightarrow>
                              call (send env (put_request req bytes))
                                (\<lambda>(r, ms'). case r of
                                   Inl e \<Rightarrow> Done (Inl (Err_Http 0 e), [ev])
                                 | Inr resp' \<Rightarrow>
                                     (let status' = rs_status resp';
                                          ev' = http_event ''PUT'' u status' ms' (ul_size req) in
                                      if \<not> put_ok status' then
                                        Done (Inl (Err_Http status' (''PUT retry failed: '' @ show_u16 status')), [ev, ev'])
                                      else Done (Inr (header_or_empty ''etag'' resp'), [ev, ev']))))
                     else if \<not> put_ok status then
                       Done (Inl (Err_Http status (''PUT failed: '' @ show_u16 status)), [ev])
                     else Done (Inr (header_or_empty ''etag'' resp), [ev])))))"

definition tus_create_request :: "UploadRequest \<Rightarrow> request" where
  "tus_create_request req =
     \<lparr>rq_method = ''POST'', rq_url = show_url (ul_remote_url req), rq_bearer = Some (ul_bearer_token req),
      rq_headers = [(''Tus-Resumable'', ''1.0.0''), (''Upload-Length'', show_u64 (ul_size req)), (''Content-Length'', ''0'')],
      rq_body = []\<rparr>"

definition tus_patch_request :: "UploadRequest \<Rightarrow> string \<Rightarrow> string \<Rightarrow> request" where
  "tus_patch_request req patch_url bytes =
     \<lparr>rq_method = ''PATCH'', rq_url = patch_url, rq_bearer = Some (ul_bearer_token req),
      rq_headers = [(''Tus-Resumable'', ''1.0.0''), (''Upload-Offset'', ''0''),
        (''Content-Type'', ''application/offset+octet-stream''), (''Content-Length'', show_u64 (ul_size req))],
      rq_body = bytes\<rparr>"

text \<open>An absolute \<open>Location\<close> is taken as it is, any other one is appended to scheme, host and port.\<close>

definition tus_patch_url :: "url \<Rightarrow> string \<Rightarrow> string" where
  "tus_patch_url u location =
     (if prefix ''http://'' location \<or> prefix ''https://'' location then location
      else url_origin u @ location)"

definition upload_tus :: "'n env \<Rightarrow> UploadRequest \<Rightarrow> ('n, (SyncError + string) \<times> HttpEvent list) io" where
  "upload_tus env req =
     (let u = ul_remote_url req in
      call (send env (tus_create_request req))
        (\<lambda>(r, ms). case r of
           Inl e \<Rightarrow> Done (Inl (Err_Http 0 e), [])
         | Inr resp \<Rightarrow>
             (let create_status = rs_status resp;
                  ev = http_event ''POST'' u create_status ms 0 in
              if create_status \<noteq> 201 then Done (Inl (Err_Http create_status ''TUS creation failed''), [ev])
              else
                (case header_str ''location'' resp of
                   None \<Rightarrow> Done (Inl (Err_Parse ''TUS: missing Location header''), [ev])
                 | Some location \<Rightarrow>
                     (let patch_url = tus_patch_url u location in
                      call (look_disk (fs_read (en_fs env) (resolve (ul_local_path req))))
                        (\<lambda>r. case r of
                           Inl e \<Rightarrow> Done (Inl (Err_Io (io_msg e)), [ev])
                         | Inr bytes \<Rightarrow>
                             call (send env (tus_patch_request req patch_url bytes))
                               (\<lambda>(r, ms'). case r of
                                  Inl e \<Rightarrow> Done (Inl (Err_Http 0 e), [ev])
                                | Inr resp' \<Rightarrow>
                                    (let patch_status = rs_status resp';
                                         purl = (case lib_url_parse (en_lib env) patch_url of Some p \<Rightarrow> p | None \<Rightarrow> u);
                                         ev' = http_event ''PATCH'' purl patch_status ms' (ul_size req) in
                                     if patch_status \<noteq> 204 \<and> patch_status \<noteq> 200 then
                                       Done (Inl (Err_Http patch_status ''TUS PATCH failed''), [ev, ev'])
                                     else Done (Inr (header_or_empty ''etag'' resp'), [ev, ev'])))))))))"

definition propagate_upload :: "'n env \<Rightarrow> UploadRequest \<Rightarrow> ('n, (SyncError + string) \<times> HttpEvent list) io" where
  "propagate_upload env req =
     (if ul_tus_threshold req \<le> ul_size req then upload_tus env req else upload_put env req)"

section \<open>Lemmas\<close>

text \<open>Which parts of the world a program may change.\<close>

definition net_only :: "'n world \<Rightarrow> 'n world \<Rightarrow> bool" where
  "net_only w w' \<longleftrightarrow> w_disk w' = w_disk w \<and> w_db w' = w_db w \<and> w_state w' = w_state w"

definition books_kept :: "'n world \<Rightarrow> 'n world \<Rightarrow> bool" where
  "books_kept w w' \<longleftrightarrow> w_db w' = w_db w \<and> w_state w' = w_state w"

lemma net_only_trans: "net_only w w1 \<Longrightarrow> net_only w1 w2 \<Longrightarrow> net_only w w2"
  by (simp add: net_only_def)

lemma net_only_books: "net_only w w' \<Longrightarrow> books_kept w w'"
  by (simp add: net_only_def books_kept_def)

lemma send_frame [simp]: "net_only w (snd (send env rq w))" "books_kept w (snd (send env rq w))"
  by (simp_all add: send_def net_only_def books_kept_def split: prod.split)

lemma look_disk_frame [simp]: "net_only w (snd (look_disk f w))" "books_kept w (snd (look_disk f w))"
  by (simp_all add: look_disk_def net_only_def books_kept_def)

lemma on_disk_frame [simp]: "books_kept w (w\<lparr>w_disk := d\<rparr>)" "books_kept w w"
  by (simp_all add: books_kept_def)

lemma guarantee_weaken: "guarantee G p \<Longrightarrow> (\<And>s s'. G s s' \<Longrightarrow> G' s s') \<Longrightarrow> guarantee G' p"
  by (induction p) (simp_all add: split_beta)

lemma mkdir_remote_net_only: "guarantee net_only (mkdir_remote env u bearer)"
  by (simp add: mkdir_remote_def split_beta split: sum.split)

lemma delete_remote_net_only: "guarantee net_only (delete_remote env u bearer)"
  by (simp add: delete_remote_def Let_def split_beta split: sum.split)

lemma mkdir_each_net_only: "guarantee net_only (mkdir_each env root bearer rels)"
  by (induction rels) (auto intro!: guarantee_bind mkdir_remote_net_only split: sum.split)

lemma upload_put_net_only: "guarantee net_only (upload_put env req)"
  by (auto simp: upload_put_def Let_def split_beta ensure_parent_collections_def
      intro!: guarantee_bind mkdir_each_net_only split: sum.split)

lemma upload_tus_net_only: "guarantee net_only (upload_tus env req)"
  by (auto simp: upload_tus_def Let_def split_beta split: sum.split option.split)

lemma propagate_upload_net_only: "guarantee net_only (propagate_upload env req)"
  by (simp add: propagate_upload_def upload_put_net_only upload_tus_net_only)

lemma run_on_disk [simp]: "on_disk f w = (fst (f (w_disk w)), w\<lparr>w_disk := snd (f (w_disk w))\<rparr>)"
  by (simp add: on_disk_def split_beta)

lemma store_file_books: "guarantee books_kept (store_file env tmp dest bytes)"
  by (simp add: store_file_def Let_def split: sum.split)

lemma propagate_download_books: "guarantee books_kept (propagate_download env req)"
  by (auto simp: propagate_download_def receive_body_def Let_def split_beta
      intro!: guarantee_bind store_file_books split: sum.split option.split)

lemma delete_local_books: "guarantee books_kept (delete_local env p)"
  by (simp add: delete_local_def split: sum.split)

lemma delete_local_dir_books: "guarantee books_kept (delete_local_dir env p)"
  by (simp add: delete_local_dir_def split: sum.split)

lemma upload_put_success:
  "run (upload_put env req) w = ((Inr etag, evs), w') \<Longrightarrow>
     (\<exists>e. evs = [e] \<and> he_method e = ''PUT'' \<and> put_ok (he_status e)) \<or>
     (\<exists>e e'. evs = [e, e'] \<and> he_method e = ''PUT'' \<and> he_status e = 409 \<and> he_method e' = ''PUT'' \<and> put_ok (he_status e'))"
  by (auto simp: upload_put_def Let_def http_event_def split: prod.splits sum.splits if_splits)

lemma upload_tus_success:
  "run (upload_tus env req) w = ((Inr etag, evs), w') \<Longrightarrow>
     \<exists>e e'. evs = [e, e'] \<and> he_method e = ''POST'' \<and> he_status e = 201 \<and> he_method e' = ''PATCH'' \<and> he_status e' \<in> {200, 204}"
  by (auto simp: upload_tus_def Let_def http_event_def split: prod.splits sum.splits if_splits option.splits)

lemma store_file_run:
  assumes "run (store_file env tmp dest bytes) w = (r, w')" "disk_wf (w_disk w)" "resolve tmp \<noteq> resolve dest"
  shows "w' = w\<lparr>w_disk := w_disk w'\<rparr>"
    and "\<And>q. q \<noteq> resolve tmp \<Longrightarrow> q \<noteq> resolve dest \<Longrightarrow> content (w_disk w') q = content (w_disk w) q"
    and "r \<noteq> Inr () \<Longrightarrow> content (w_disk w') (resolve dest) = content (w_disk w) (resolve dest)"
    and "r = Inr () \<Longrightarrow> content (w_disk w') (resolve dest) = Some bytes \<and> fs_tree (w_disk w') (resolve tmp) = None"
proof -
  let ?t = "resolve tmp" and ?p = "resolve dest" and ?d = "w_disk w" and ?fs = "en_fs env"
  have goal: "w' = w\<lparr>w_disk := w_disk w'\<rparr> \<and>
    (\<forall>q. q \<noteq> ?t \<longrightarrow> q \<noteq> ?p \<longrightarrow> content (w_disk w') q = content ?d q) \<and>
    (r \<noteq> Inr () \<longrightarrow> content (w_disk w') ?p = content ?d ?p) \<and>
    (r = Inr () \<longrightarrow> content (w_disk w') ?p = Some bytes \<and> fs_tree (w_disk w') ?t = None)"
  proof (cases "fst (fs_create_file ?fs ?t ?d)")
    case (Inl e)
    then have "r = Inl (Err_Io (io_msg e))" "w' = w\<lparr>w_disk := snd (fs_create_file ?fs ?t ?d)\<rparr>"
      using assms(1) by (simp_all add: store_file_def Let_def)
    then show ?thesis using fs_create_file_frame [OF assms(2)] assms(3) by simp
  next
    case (Inr h)
    define d1 where "d1 = snd (fs_create_file ?fs ?t ?d)"
    have c: "fs_create_file ?fs ?t ?d = (Inr h, d1)" using Inr d1_def by (metis prod.collapse)
    have wf1: "disk_wf d1" using disk_wf_create_file [OF assms(2)] d1_def by blast
    have t1: "fs_tree d1 ?t = Some (FFile h)" "fs_data d1 h = []" using fs_create_file_handle [OF c] by auto
    have fr1: "content d1 q = content ?d q" if "q \<noteq> ?t" for q
      using fs_create_file_frame [OF assms(2) that, of ?fs] d1_def by simp
    obtain x2 d2 where wr: "fs_write_all ?fs h bytes d1 = (x2, d2)" by fastforce
    have t2: "fs_tree d2 ?t = Some (FFile h)" using t1 wr by (auto simp: fs_write_all_def split: option.splits)
    have fr2: "content d2 q = content ?d q" if "q \<noteq> ?t" for q
      using fs_write_all_frame [OF wf1 t1(1) that, of ?fs bytes] fr1 [OF that] wr by simp
    have full: "x2 = Inr () \<Longrightarrow> content d2 ?t = Some bytes"
      using t1 wr by (auto simp: fs_write_all_def content_def split: option.splits)
    obtain x3 where fl: "fs_flush ?fs h d2 = (x3, d2)" by (metis fs_flush_disk prod.collapse)
    obtain x4 d4 where rn: "fs_rename ?fs ?t ?p d2 = (x4, d4)" by fastforce
    note steps = assms(1) [unfolded store_file_def Let_def] c wr fl rn
    consider (write_fails) e where "x2 = Inl e" | (flush) e where "x2 = Inr ()" "x3 = Inl e"
      | (rename) e where "x2 = Inr ()" "x3 = Inr ()" "x4 = Inl e" | (ok) "x2 = Inr ()" "x3 = Inr ()" "x4 = Inr ()"
      by (cases x2; cases x3; cases x4) auto
    then show ?thesis
    proof cases
      case write_fails
      then have "r = Inl (Err_Io (io_msg e))" "w' = w\<lparr>w_disk := d2\<rparr>" using steps by simp_all
      then show ?thesis using fr2 assms(3) by simp
    next
      case flush
      then have "r = Inl (Err_Io (io_msg e))" "w' = w\<lparr>w_disk := d2\<rparr>" using steps by simp_all
      then show ?thesis using fr2 assms(3) by simp
    next
      case rename
      then have "d4 = d2" using rn fs_rename_fail by metis
      then have "r = Inl (Err_Io (io_msg e))" "w' = w\<lparr>w_disk := snd (fs_remove_file ?fs ?t d2)\<rparr>"
        using steps rename by simp_all
      then show ?thesis using fr2 fs_remove_file_frame assms(3) by simp
    next
      case ok
      then have "r = Inr ()" "w' = w\<lparr>w_disk := d4\<rparr>" using steps by simp_all
      moreover have "content d4 ?p = Some bytes \<and> fs_tree d4 ?t = None"
        using fs_rename_file_ok [of ?fs ?t ?p d2 d4 bytes] rn ok full assms(3) by simp
      moreover have "content d4 q = content ?d q" if "q \<noteq> ?t" "q \<noteq> ?p" for q
        using fs_rename_file_frame [of d2 ?t q ?p ?fs] t2 that fr2 rn by simp
      ultimately show ?thesis by simp
    qed
  qed
  show "w' = w\<lparr>w_disk := w_disk w'\<rparr>" using goal by blast
  show "\<And>q. q \<noteq> ?t \<Longrightarrow> q \<noteq> ?p \<Longrightarrow> content (w_disk w') q = content ?d q" using goal by blast
  show "r \<noteq> Inr () \<Longrightarrow> content (w_disk w') ?p = content ?d ?p" using goal by blast
  show "r = Inr () \<Longrightarrow> content (w_disk w') ?p = Some bytes \<and> fs_tree (w_disk w') ?t = None" using goal by blast
qed

abbreviation download_tmp :: "DownloadRequest \<Rightarrow> names" where
  "download_tmp req \<equiv> resolve (with_extension (dl_local_dest req) ''tmp'')"

abbreviation download_dest :: "DownloadRequest \<Rightarrow> names" where
  "download_dest req \<equiv> resolve (dl_local_dest req)"

lemma receive_body_run:
  assumes "run (receive_body env req resp ms) w = ((res, evs), w')" "disk_wf (w_disk w)"
    and "download_tmp req \<noteq> download_dest req"
  shows "w' = w\<lparr>w_disk := w_disk w'\<rparr> \<and>
    (\<forall>q. q \<noteq> download_tmp req \<and> q \<noteq> download_dest req \<longrightarrow> content (w_disk w') q = content (w_disk w) q) \<and>
    (\<forall>e. res = Inl e \<longrightarrow> content (w_disk w') (download_dest req) = content (w_disk w) (download_dest req)) \<and>
    (\<forall>etag. res = Inr etag \<longrightarrow>
       (\<exists>bytes. rs_body resp = Inr bytes \<and> etag = header_or_empty ''etag'' resp \<and> etag_matches (dl_expected_etag req) etag \<and>
          content (w_disk w') (download_dest req) = Some bytes \<and> fs_tree (w_disk w') (download_tmp req) = None))"
proof (cases "\<exists>bytes. rs_body resp = Inr bytes \<and> etag_matches (dl_expected_etag req) (header_or_empty ''etag'' resp)")
  case False
  then have "w' = w" "\<exists>e. res = Inl e"
    using assms(1) by (auto simp: receive_body_def Let_def split: sum.splits if_splits)
  then show ?thesis by auto
next
  case True
  then obtain bytes where b: "rs_body resp = Inr bytes" "etag_matches (dl_expected_etag req) (header_or_empty ''etag'' resp)"
    by blast
  obtain r w1 where st: "run (store_file env (with_extension (dl_local_dest req) ''tmp'') (dl_local_dest req) bytes) w = (r, w1)"
    by fastforce
  note f = store_file_run [OF st assms(2,3)]
  have "w' = w1" "res = (case r of Inl e \<Rightarrow> Inl e | Inr _ \<Rightarrow> Inr (header_or_empty ''etag'' resp))"
    using assms(1) b st by (auto simp: receive_body_def Let_def split: sum.splits)
  with f b show ?thesis by (cases r) auto
qed

lemma propagate_download_run:
  assumes "run (propagate_download env req) w = ((res, evs), w')" "disk_wf (w_disk w)"
    and "download_tmp req \<noteq> download_dest req"
  shows "w_db w' = w_db w \<and> w_state w' = w_state w \<and>
    (\<forall>q. q \<noteq> download_tmp req \<and> q \<noteq> download_dest req \<longrightarrow> content (w_disk w') q = content (w_disk w) q) \<and>
    (\<forall>e. res = Inl e \<longrightarrow> content (w_disk w') (download_dest req) = content (w_disk w) (download_dest req)) \<and>
    (\<forall>etag. res = Inr etag \<longrightarrow>
       (\<exists>resp bytes. fst (fst (send env (get_request req) w)) = Inr resp \<and> rs_status resp = 200 \<and> rs_body resp = Inr bytes \<and>
          etag = header_or_empty ''etag'' resp \<and> etag_matches (dl_expected_etag req) etag \<and>
          content (w_disk w') (download_dest req) = Some bytes \<and> fs_tree (w_disk w') (download_tmp req) = None))"
proof -
  obtain r ms w1 where s: "send env (get_request req) w = ((r, ms), w1)" by (metis prod.exhaust)
  have w1: "w_disk w1 = w_disk w" "w_db w1 = w_db w" "w_state w1 = w_state w"
    using s by (auto simp: send_def split: prod.splits)
  show ?thesis
  proof (cases "\<exists>resp. r = Inr resp \<and> rs_status resp = 200")
    case False
    then have "w' = w1" "\<exists>e. res = Inl e"
      using assms(1) s by (auto simp: propagate_download_def split: sum.splits if_splits)
    then show ?thesis using w1 by auto
  next
    case True
    then obtain resp where resp: "r = Inr resp" "rs_status resp = 200" by blast
    obtain w2 where w2: "content (w_disk w2) = content (w_disk w)" "disk_wf (w_disk w2)" "w_db w2 = w_db w" "w_state w2 = w_state w"
      "run (receive_body env req resp ms) w2 = ((res, evs), w') \<or> w' = w2 \<and> (\<exists>e. res = Inl e)"
    proof (cases "path_parent (dl_local_dest req)")
      case None
      then show ?thesis using that [of w1] assms(1,2) s resp w1 by (simp add: propagate_download_def)
    next
      case (Some parent)
      let ?mk = "fs_create_dir_all (en_fs env) (resolve parent) (w_disk w1)"
      show ?thesis
        using that [of "w1\<lparr>w_disk := snd ?mk\<rparr>"] assms(1,2) s resp w1 Some disk_wf_create_dir_all
        by (cases "fst ?mk") (auto simp: propagate_download_def fun_eq_iff)
    qed
    from w2(5) show ?thesis
    proof
      assume "run (receive_body env req resp ms) w2 = ((res, evs), w')"
      note b = receive_body_run [OF this w2(2) assms(3)]
      then have "w_db w' = w_db w2" "w_state w' = w_state w2"
        by (metis world.ext_inject world.surjective world.update_convs(1))+
      with b w2 s resp show ?thesis by auto
    next
      assume "w' = w2 \<and> (\<exists>e. res = Inl e)"
      then show ?thesis using w2 by auto
    qed
  qed
qed

text \<open>A concrete environment and world: a server that answers every request alike, a reliable disk.\<close>

definition sample_response :: "u16 \<Rightarrow> string \<Rightarrow> response" where
  "sample_response st body = \<lparr>rs_status = st, rs_headers = [(''etag'', ''e9'')], rs_body = Inr body\<rparr>"

definition sample_env :: "response \<Rightarrow> fs_env \<Rightarrow> unit env" where
  "sample_env resp fs = \<lparr>en_net = \<lparr>net_send = \<lambda>_ _. (Inr resp, ()), net_elapsed = \<lambda>_. 1\<rparr>, en_lib = id_lib, en_fs = fs,
     en_db = no_db_fault, en_now = \<lambda>_. 42\<rparr>"

definition sample_disk :: "(string \<times> string) list \<Rightarrow> disk" where
  "sample_disk fs = \<lparr>fs_tree = (\<lambda>p. if p = [''s''] then Some FDir
       else (case map_of (zip (map (\<lambda>f. [''s'', fst f]) fs) [0..<length fs]) p of Some i \<Rightarrow> Some (FFile i) | None \<Rightarrow> None)),
     fs_data = (\<lambda>i. if i < length fs then snd (fs ! i) else []), fs_next = length fs\<rparr>"

definition sample_world :: "disk \<Rightarrow> unit world" where
  "sample_world d = \<lparr>w_disk = d, w_db = empty_db, w_state = new_SyncState 1, w_net = ()\<rparr>"

definition sample_download :: "string \<Rightarrow> DownloadRequest" where
  "sample_download dest = \<lparr>dl_remote_url = sample_root, dl_local_dest = dest, dl_expected_etag = None, dl_bearer_token = ''t''\<rparr>"

lemma resolve_sample:
  "resolve ''/s/f.txt'' = [''s'', ''f.txt'']" "resolve (with_extension ''/s/f.txt'' ''tmp'') = [''s'', ''f.tmp'']"
  "resolve ''/s/f.tmp'' = [''s'', ''f.tmp'']" "resolve (with_extension ''/s/f.tmp'' ''tmp'') = [''s'', ''f.tmp'']"
  "path_parent ''/s/f.txt'' = Some ''/s''" "path_parent ''/s/f.tmp'' = Some ''/s''" "resolve ''/s'' = [''s'']"
  by code_simp+

lemma disk_wf_sample: "disk_wf (sample_disk [(''f.txt'', ''old''), (''f.tmp'', ''mine'')])"
  by (auto simp: disk_wf_def sample_disk_def is_dir_at_def split: option.splits if_splits)

section \<open>Properties\<close>

text \<open>
  C13: A download to a path that does not itself end in \<open>.tmp\<close> replaces its destination as a whole or not at all. Its temporary file
  has the name of the destination with the extension \<open>tmp\<close>. Provided that this is not the destination itself, an
  undisturbed download that fails, for whatever reason (transport error,
  status other than 200, unreadable body, etag mismatch, a failing disk operation), leaves the contents
  of the destination as they were; one that succeeds leaves there exactly the body of the 200 response
  whose etag it returns. Files other than these two, the journal and the statuses do not
  change. The temporary name is not reserved: a file of the user's that has it is overwritten, and after a success
  nothing is left under it.
\<close>

theorem download_all_or_nothing:
  assumes "run (propagate_download env req) w = ((res, evs), w')" "disk_wf (w_disk w)"
    and "download_tmp req \<noteq> download_dest req"
  shows "w_db w' = w_db w \<and> w_state w' = w_state w \<and>
    (\<forall>q. q \<noteq> download_tmp req \<and> q \<noteq> download_dest req \<longrightarrow> content (w_disk w') q = content (w_disk w) q) \<and>
    (\<forall>e. res = Inl e \<longrightarrow> content (w_disk w') (download_dest req) = content (w_disk w) (download_dest req)) \<and>
    (\<forall>etag. res = Inr etag \<longrightarrow>
       (\<exists>resp bytes. fst (fst (send env (get_request req) w)) = Inr resp \<and> rs_status resp = 200 \<and> rs_body resp = Inr bytes \<and>
          etag = header_or_empty ''etag'' resp \<and> etag_matches (dl_expected_etag req) etag \<and>
          content (w_disk w') (download_dest req) = Some bytes \<and> fs_tree (w_disk w') (download_tmp req) = None))"
  by (rule propagate_download_run [OF assms])

theorem download_all_or_nothing_witness:
  "let env = sample_env (sample_response 200 ''new'') reliable_fs;
       req = sample_download ''/s/f.txt'';
       w = sample_world (sample_disk [(''f.txt'', ''old''), (''f.tmp'', ''mine'')]);
       w' = snd (run (propagate_download env req) w)
   in fst (fst (run (propagate_download env req) w)) = Inr ''e9'' \<and> content (w_disk w') [''s'', ''f.txt''] = Some ''new'' \<and>
      content (w_disk w) [''s'', ''f.tmp''] = Some ''mine'' \<and> fs_tree (w_disk w') [''s'', ''f.tmp''] = None"
proof -
  let ?env = "sample_env (sample_response 200 ''new'') reliable_fs" and ?req = "sample_download ''/s/f.txt''"
  let ?w = "sample_world (sample_disk [(''f.txt'', ''old''), (''f.tmp'', ''mine'')])"
  have res: "fst (fst (run (propagate_download ?env ?req) ?w)) = Inr ''e9''" by code_simp
  obtain evs w' where run: "run (propagate_download ?env ?req) ?w = ((Inr ''e9'', evs), w')"
    using res by (metis prod.collapse)
  have "fst (fst (send ?env (get_request ?req) ?w)) = Inr (sample_response 200 ''new'')"
    by (simp add: send_def sample_env_def)
  moreover have "content (w_disk ?w) [''s'', ''f.tmp''] = Some ''mine''" by code_simp
  ultimately show ?thesis
    using download_all_or_nothing [OF run] run disk_wf_sample
    by (simp add: sample_world_def sample_download_def resolve_sample sample_response_def)
qed

text \<open>
  The temporary name of a download is not reserved. It is the destination with its extension
  replaced by \<open>tmp\<close>, so downloading \<open>f.txt\<close> destroys an unrelated file \<open>f.tmp\<close> next to it, and a
  destination that is itself called \<open>f.tmp\<close> is written in place: when writing fails half-way, the old contents
  are gone although the download reports an error.
\<close>

theorem download_tmp_name_collides:
  "let d = sample_disk [(''f.txt'', ''old''), (''f.tmp'', ''mine'')];
       ok = run (propagate_download (sample_env (sample_response 200 ''new'') reliable_fs) (sample_download ''/s/f.txt'')) (sample_world d);
       full = reliable_fs\<lparr>fs_fault := (\<lambda>c. case c of Write_All _ \<Rightarrow> Some (Io_Fault ''No space left on device'') | _ \<Rightarrow> None)\<rparr>;
       bad = run (propagate_download (sample_env (sample_response 200 ''new'') full) (sample_download ''/s/f.tmp'')) (sample_world d)
   in content d [''s'', ''f.tmp''] = Some ''mine'' \<and>
      fst (fst ok) = Inr ''e9'' \<and> content (w_disk (snd ok)) [''s'', ''f.tmp''] = None \<and>
      fst (fst bad) = Inl (Err_Io ''No space left on device'') \<and> content (w_disk (snd bad)) [''s'', ''f.tmp''] = Some []"
  by code_simp

text \<open>
  C15: An upload is accepted only on the server's word, and touches nothing local. Whatever the
  server answers, the local disk, the journal and the statuses are unchanged; the upload reports success only
  after a file below the threshold was accepted by a PUT answered 200, 201 or 204, at most the second one
  and the second one only after a 409, or a file at or above the threshold by a TUS creation answered 201 followed by
  a PATCH answered 200 or 204.
\<close>

theorem upload_success_needs_acceptance:
  assumes "run (propagate_upload env req) w = ((res, evs), w')"
  shows "net_only w w' \<and>
    (\<forall>etag. res = Inr etag \<longrightarrow>
       (if ul_size req < ul_tus_threshold req then
          (\<exists>e. evs = [e] \<and> he_method e = ''PUT'' \<and> put_ok (he_status e)) \<or>
          (\<exists>e e'. evs = [e, e'] \<and> he_method e = ''PUT'' \<and> he_status e = 409 \<and> he_method e' = ''PUT'' \<and> put_ok (he_status e'))
        else \<exists>e e'. evs = [e, e'] \<and> he_method e = ''POST'' \<and> he_status e = 201 \<and>
          he_method e' = ''PATCH'' \<and> he_status e' \<in> {200, 204}))"
proof -
  have "net_only w (snd (run (propagate_upload env req) w))"
    by (rule guarantee_run [OF propagate_upload_net_only]) (auto simp: net_only_def)
  then have "net_only w w'" using assms by simp
  moreover have "if ul_size req < ul_tus_threshold req then run (upload_put env req) w = ((res, evs), w')
      else run (upload_tus env req) w = ((res, evs), w')"
    using assms by (auto simp: propagate_upload_def not_le split: if_splits)
  ultimately show ?thesis
    using upload_put_success [of env req w _ evs w'] upload_tus_success [of env req w _ evs w']
    by (cases "ul_size req < ul_tus_threshold req") simp_all
qed

definition sample_upload :: "u64 \<Rightarrow> UploadRequest" where
  "sample_upload sz = \<lparr>ul_local_path = ''/s/f.txt'', ul_remote_url = sample_root, ul_space_root = sample_root, ul_size = sz,
     ul_checksum = None, ul_tus_threshold = 10, ul_bearer_token = ''t''\<rparr>"

theorem upload_success_needs_acceptance_witness:
  "\<exists>evs w' e. run (propagate_upload (sample_env (sample_response 201 []) reliable_fs) (sample_upload 3))
        (sample_world (sample_disk [(''f.txt'', ''old'')])) = ((Inr ''e9'', evs), w') \<and>
      evs = [e] \<and> put_ok (he_status e)"
proof -
  let ?p = "propagate_upload (sample_env (sample_response 201 []) reliable_fs) (sample_upload 3)"
  let ?w = "sample_world (sample_disk [(''f.txt'', ''old'')])"
  have res: "fst (fst (run ?p ?w)) = Inr ''e9''" "length (snd (fst (run ?p ?w))) = 1" by code_simp+
  obtain evs w' where run: "run ?p ?w = ((Inr ''e9'', evs), w')" using res by (metis prod.collapse)
  have "ul_size (sample_upload 3) < ul_tus_threshold (sample_upload 3)" by (simp add: sample_upload_def)
  with upload_success_needs_acceptance [OF run] run res(2) show ?thesis by auto
qed

end
