(* ===== verification/Engine.thy ===== *)
theory Engine
  imports Reconcile DiscoveryLocal DiscoveryRemote Propagate
begin

text \<open>
  One sync run (\<open>crates/sync-engine/src/engine.rs\<close>): discovery of both sides, reconciliation of every
  path with the journal, the directory instructions one after the other, and the file instructions as
  concurrent tasks limited by a semaphore. The first phases are functions; the file phase is a relation, because the
  tasks interleave at their \<open>await\<close> points in an order that is not determined.
\<close>

section \<open>Configuration\<close>

record EngineConfig =
  cfg_folder_id :: uuid
  cfg_local_root :: string
  cfg_space_root :: url
  cfg_conflict_strategy :: ConflictStrategy
  cfg_max_parallel_transfers :: nat
  cfg_tus_threshold :: u64

section \<open>Phase 1: discovery\<close>

text \<open>
  A \<open>HashMap\<close> with path keys as an association list: inserting at an existing key replaces the value and
  keeps the key, and keys are compared by their components.
\<close>

type_synonym 'v path_map = "(string \<times> 'v) list"

fun pm_insert :: "string \<Rightarrow> 'v \<Rightarrow> 'v path_map \<Rightarrow> 'v path_map" where
  "pm_insert k v [] = [(k, v)]"
| "pm_insert k v ((k', v') # m) = (if path_eq k k' then (k', v) # m else (k', v') # pm_insert k v m)"

definition pm_get :: "'v path_map \<Rightarrow> string \<Rightarrow> 'v option" where
  "pm_get m k = map_option snd (find (\<lambda>e. path_eq (fst e) k) m)"

definition pm_collect :: "(string \<times> 'v) list \<Rightarrow> 'v path_map" where
  "pm_collect kvs = fold (\<lambda>(k, v) m. pm_insert k v m) kvs []"

definition local_map :: "EngineConfig \<Rightarrow> LocalEntry list \<Rightarrow> LocalEntry path_map" where
  "local_map cfg es =
     pm_collect (map (\<lambda>e. (case strip_prefix_path (cfg_local_root cfg) (le_path e) of Some r \<Rightarrow> r | None \<Rightarrow> le_path e, e)) es)"

definition remote_map :: "RemoteEntry list \<Rightarrow> RemoteEntry path_map" where
  "remote_map es = pm_collect (map (\<lambda>e. (re_path e, e)) es)"

text \<open>The keys of both maps without repetition; \<open>ord\<close> is the iteration order of the \<open>HashSet\<close>.\<close>

definition all_paths :: "(string list \<Rightarrow> string list) \<Rightarrow> 'a path_map \<Rightarrow> 'b path_map \<Rightarrow> string list" where
  "all_paths ord lm rm =
     ord (map fst lm @ filter (\<lambda>k. \<not> list_ex (\<lambda>l. path_eq l k) (map fst lm)) (map fst rm))"

section \<open>Phase 2: reconciliation\<close>

record instruction =
  in_path :: string
  in_instr :: SyncInstruction
  in_remote :: "RemoteEntry option"
  in_is_dir :: bool

definition baseline_of :: "JournalEntry \<Rightarrow> JournalBaseline option" where
  "baseline_of e =
     (case je_etag e of
        None \<Rightarrow> None
      | Some etag \<Rightarrow> (case je_size e of None \<Rightarrow> None | Some sz \<Rightarrow> Some (etag, sz)))"

definition baseline :: "db_fault \<Rightarrow> SyncJournalDb \<Rightarrow> string \<Rightarrow> JournalBaseline option" where
  "baseline flt db p =
     (case get_entry flt p db of
        Inl _ \<Rightarrow> None
      | Inr None \<Rightarrow> None
      | Inr (Some e) \<Rightarrow> baseline_of e)"

definition instruction_for :: "db_fault \<Rightarrow> EngineConfig \<Rightarrow> SyncJournalDb \<Rightarrow> LocalEntry path_map \<Rightarrow> RemoteEntry path_map
    \<Rightarrow> string \<Rightarrow> instruction" where
  "instruction_for flt cfg db lm rm path =
     (let loc = pm_get lm path; rem = pm_get rm path;
          is_dir = (case loc of Some e \<Rightarrow> le_is_dir e | None \<Rightarrow> (case rem of Some e \<Rightarrow> re_is_dir e | None \<Rightarrow> False))
      in \<lparr>in_path = path, in_instr = reconcile loc rem (baseline flt db path) (cfg_conflict_strategy cfg),
          in_remote = rem, in_is_dir = is_dir\<rparr>)"

record plan =
  pl_instructions :: "instruction list"
  pl_ignored :: nat

definition make_plan :: "db_fault \<Rightarrow> EngineConfig \<Rightarrow> SyncJournalDb \<Rightarrow> LocalEntry path_map \<Rightarrow> RemoteEntry path_map
    \<Rightarrow> string list \<Rightarrow> plan" where
  "make_plan flt cfg db lm rm paths =
     (let ins = map (instruction_for flt cfg db lm rm) paths
      in \<lparr>pl_instructions = filter (\<lambda>i. in_instr i \<noteq> Ignore) ins,
          pl_ignored = length (filter (\<lambda>i. in_instr i = Ignore) ins)\<rparr>)"

definition count_instr :: "SyncInstruction \<Rightarrow> instruction list \<Rightarrow> nat" where
  "count_instr i is = length (filter (\<lambda>x. in_instr x = i) is)"

definition dir_instructions :: "instruction list \<Rightarrow> instruction list" where
  "dir_instructions = filter in_is_dir"

definition file_instructions :: "instruction list \<Rightarrow> instruction list" where
  "file_instructions = filter (\<lambda>i. \<not> in_is_dir i)"

section \<open>Phase 3a: directories\<close>

definition journal_row :: "string \<Rightarrow> string \<Rightarrow> u64 \<Rightarrow> string option \<Rightarrow> JournalEntry" where
  "journal_row p etag sz fid =
     \<lparr>je_path = p, je_etag = Some etag, je_mtime = None, je_size = Some sz, je_inode = None,
      je_file_id = fid, je_checksum = None, je_is_virtual = 0\<rparr>"

definition mark :: "string \<Rightarrow> FileStatus \<Rightarrow> 'a \<Rightarrow> ('n, 'a) io" where
  "mark p s a = call (on_state (set_file_status p s)) (\<lambda>_. Done a)"

definition unmark :: "string \<Rightarrow> 'a \<Rightarrow> ('n, 'a) io" where
  "unmark p a = call (on_state (clear_file_status p)) (\<lambda>_. Done a)"

text \<open>
  One directory instruction. The result is the error message that the loop pushes, if any; a URL that
  cannot be built makes the whole run return.
\<close>

definition dir_step :: "'n env \<Rightarrow> EngineConfig \<Rightarrow> string \<Rightarrow> instruction \<Rightarrow> ('n, SyncError + string option) io" where
  "dir_step env cfg bearer ins =
     (let p = in_path ins; local_path = path_join (cfg_local_root cfg) p;
          failed = (\<lambda>msg. mark p (File_Error msg) (Inr (Some msg)));
          db = en_db env in
      case join_remote_path (lib_seg_encode (en_lib env)) (cfg_space_root cfg) p of
        Inl e \<Rightarrow> Done (Inl (Err_Parse e))
      | Inr remote_url \<Rightarrow>
          (case in_instr ins of
             Upload \<Rightarrow>
               prog_bind (mkdir_remote env remote_url bearer)
                 (\<lambda>r. case r of
                    Inr _ \<Rightarrow> call (on_db (upsert_entry db (journal_row p [] 0 None))) (\<lambda>_. mark p File_Ok (Inr None))
                  | Inl e \<Rightarrow> failed (show_SyncError e))
           | Download \<Rightarrow>
               call (on_disk (fs_create_dir_all (en_fs env) (resolve local_path)))
                 (\<lambda>r. case r of
                    Inr _ \<Rightarrow> call (on_db (upsert_entry db (journal_row p [] 0 (map_option re_file_id (in_remote ins)))))
                      (\<lambda>_. mark p File_Ok (Inr None))
                  | Inl e \<Rightarrow> failed (io_msg e))
           | DeleteRemote \<Rightarrow>
               prog_bind (delete_remote env remote_url bearer)
                 (\<lambda>r. case r of
                    Inr _ \<Rightarrow> call (on_db (delete_entry db p)) (\<lambda>_. unmark p (Inr None))
                  | Inl e \<Rightarrow> failed (show_SyncError e))
           | DeleteLocal \<Rightarrow>
               prog_bind (delete_local_dir env local_path)
                 (\<lambda>r. case r of
                    Inr _ \<Rightarrow> call (on_db (delete_entry db p)) (\<lambda>_. unmark p (Inr None))
                  | Inl e \<Rightarrow> failed (show_SyncError e))
           | _ \<Rightarrow> Done (Inr None)))"

fun dir_phase :: "'n env \<Rightarrow> EngineConfig \<Rightarrow> string \<Rightarrow> instruction list \<Rightarrow> string list \<Rightarrow> ('n, SyncError + string list) io" where
  "dir_phase env cfg bearer [] errs = Done (Inr errs)"
| "dir_phase env cfg bearer (i # is) errs =
     prog_bind (dir_step env cfg bearer i)
       (\<lambda>r. case r of
          Inl e \<Rightarrow> Done (Inl e)
        | Inr None \<Rightarrow> dir_phase env cfg bearer is errs
        | Inr (Some msg) \<Rightarrow> dir_phase env cfg bearer is (errs @ [msg]))"

section \<open>Phase 3b: files\<close>

text \<open>\<open>make_conflict_path\<close>; \<open>ts\<close> is the clock in seconds.\<close>

definition make_conflict_path :: "nat \<Rightarrow> string \<Rightarrow> string" where
  "make_conflict_path ts original =
     (let stem = (case file_stem original of Some s \<Rightarrow> s | None \<Rightarrow> original);
          conflict_name = (case extension original of
             Some e \<Rightarrow> stem @ ''_conflict_'' @ show_nat ts @ ''.'' @ e
           | None \<Rightarrow> stem @ ''_conflict_'' @ show_nat ts)
      in (case path_parent original of Some p \<Rightarrow> path_join p conflict_name | None \<Rightarrow> conflict_name))"

definition now_of :: "'n env \<Rightarrow> 'n world \<Rightarrow> nat \<times> 'n world" where
  "now_of env w = (en_now env (w_net w), w)"

type_synonym task_result = "HttpEvent list \<times> (SyncError + unit)"

definition finish_transfer :: "'n env \<Rightarrow> string \<Rightarrow> u64 \<Rightarrow> string option \<Rightarrow> string \<Rightarrow> HttpEvent list \<Rightarrow> ('n, task_result) io" where
  "finish_transfer env p sz fid etag evs =
     call (on_db (upsert_entry (en_db env) (journal_row p (strip_quotes etag) sz fid)))
       (\<lambda>_. mark p File_Ok (evs, Inr ()))"

definition fail_transfer :: "string \<Rightarrow> SyncError \<Rightarrow> HttpEvent list \<Rightarrow> ('n, task_result) io" where
  "fail_transfer p e evs = mark p (File_Error (show_SyncError e)) (evs, Inl e)"

definition len_or_zero :: "io_error + nat \<Rightarrow> u64" where
  "len_or_zero r = (case r of Inr n \<Rightarrow> of_nat n | Inl _ \<Rightarrow> 0)"

text \<open>Download to the local path and record it: shared by \<open>Download\<close> and the end of \<open>Conflict\<close>.\<close>

definition fetch :: "'n env \<Rightarrow> string \<Rightarrow> string \<Rightarrow> url \<Rightarrow> string \<Rightarrow> RemoteEntry option \<Rightarrow> ('n, task_result) io" where
  "fetch env bearer local_path remote_url p rem =
     prog_bind (propagate_download env \<lparr>dl_remote_url = remote_url, dl_local_dest = local_path,
                  dl_expected_etag = None, dl_bearer_token = bearer\<rparr>)
       (\<lambda>(r, evs). case r of
          Inr etag \<Rightarrow>
            call (look_disk (fs_metadata_len (en_fs env) (resolve local_path)))
              (\<lambda>len. finish_transfer env p (len_or_zero len) (map_option re_file_id rem) etag evs)
        | Inl e \<Rightarrow> fail_transfer p e evs)"

definition upload_task :: "'n env \<Rightarrow> EngineConfig \<Rightarrow> string \<Rightarrow> string \<Rightarrow> url \<Rightarrow> string \<Rightarrow> ('n, task_result) io" where
  "upload_task env cfg bearer local_path remote_url p =
     call (look_disk (fs_metadata_len (en_fs env) (resolve local_path)))
       (\<lambda>len. let sz = len_or_zero len in
          prog_bind (propagate_upload env \<lparr>ul_local_path = local_path, ul_remote_url = remote_url,
              ul_space_root = cfg_space_root cfg, ul_size = sz, ul_checksum = None,
              ul_tus_threshold = cfg_tus_threshold cfg, ul_bearer_token = bearer\<rparr>)
            (\<lambda>(r, evs). case r of
               Inr etag \<Rightarrow> finish_transfer env p sz None etag evs
             | Inl e \<Rightarrow> fail_transfer p e evs))"

definition conflict_task :: "'n env \<Rightarrow> string \<Rightarrow> string \<Rightarrow> url \<Rightarrow> string \<Rightarrow> RemoteEntry option \<Rightarrow> ('n, task_result) io" where
  "conflict_task env bearer local_path remote_url p rem =
     call (now_of env)
       (\<lambda>ts. call (on_disk (fs_rename (en_fs env) (resolve local_path) (resolve (make_conflict_path ts local_path))))
          (\<lambda>r. case r of
             Inl e \<Rightarrow> mark p (File_Error (''conflict rename: '' @ io_msg e)) ([], Inl (Err_Io (io_msg e)))
           | Inr _ \<Rightarrow> fetch env bearer local_path remote_url p rem))"

text \<open>The body of the task that is spawned for a file instruction, after it got its permit.\<close>

definition file_task :: "'n env \<Rightarrow> EngineConfig \<Rightarrow> string \<Rightarrow> instruction \<Rightarrow> url \<Rightarrow> ('n, task_result) io option" where
  "file_task env cfg bearer ins remote_url =
     (let p = in_path ins; local_path = path_join (cfg_local_root cfg) p;
          syncing = (\<lambda>k. call (on_state (set_file_status p File_Syncing)) (\<lambda>_. k)) in
      case in_instr ins of
        Download \<Rightarrow> Some (syncing (fetch env bearer local_path remote_url p (in_remote ins)))
      | Upload \<Rightarrow> Some (syncing (upload_task env cfg bearer local_path remote_url p))
      | Conflict \<Rightarrow> Some (syncing (conflict_task env bearer local_path remote_url p (in_remote ins)))
      | DeleteLocal \<Rightarrow>
          Some (prog_bind (delete_local env local_path)
            (\<lambda>r. case r of
               Inr _ \<Rightarrow> call (on_db (delete_entry (en_db env) p)) (\<lambda>_. unmark p ([], Inr ()))
             | Inl e \<Rightarrow> fail_transfer p e []))
      | DeleteRemote \<Rightarrow>
          Some (prog_bind (delete_remote env remote_url bearer)
            (\<lambda>r. case r of
               Inr _ \<Rightarrow> call (on_db (delete_entry (en_db env) p)) (\<lambda>_. unmark p ([], Inr ()))
             | Inl e \<Rightarrow> fail_transfer p e []))
      | _ \<Rightarrow> None)"

text \<open>
  The loop that spawns the tasks. A URL that cannot be built makes the run return; the tasks spawned
  before are aborted with the \<open>JoinSet\<close>, but there are none, since the first path fails as well.
\<close>

fun spawn_tasks :: "'n env \<Rightarrow> EngineConfig \<Rightarrow> string \<Rightarrow> instruction list \<Rightarrow> SyncError + (instruction \<times> ('n, task_result) io) list" where
  "spawn_tasks env cfg bearer [] = Inr []"
| "spawn_tasks env cfg bearer (i # is) =
     (case join_remote_path (lib_seg_encode (en_lib env)) (cfg_space_root cfg) (in_path i) of
        Inl e \<Rightarrow> Inl (Err_Parse e)
      | Inr u \<Rightarrow>
          (case spawn_tasks env cfg bearer is of
             Inl e \<Rightarrow> Inl e
           | Inr ts \<Rightarrow> Inr (case file_task env cfg bearer i u of None \<Rightarrow> ts | Some t \<Rightarrow> (i, t) # ts)))"

section \<open>The run\<close>

text \<open>The \<open>join_next\<close> loop over the results in the order of completion.\<close>

fun join_results :: "task_result list \<Rightarrow> HttpEvent list \<Rightarrow> string list \<Rightarrow> HttpEvent list \<times> string list" where
  "join_results [] evs errs = (evs, errs)"
| "join_results ((task_http, Inr _) # rs) evs errs = join_results rs (evs @ task_http) errs"
| "join_results ((task_http, Inl e) # rs) evs errs = join_results rs (evs @ task_http) (errs @ [show_SyncError e])"

fun task_result :: "('n world, task_result) task \<Rightarrow> task_result" where
  "task_result (Finished r) = r"
| "task_result _ = ([], Inr ())"

definition final_state :: "system_time \<Rightarrow> string list \<Rightarrow> SyncState \<Rightarrow> SyncState" where
  "final_state now errs st = (if errs \<noteq> [] then st\<lparr>st_status := Folder_Error\<rparr> else mark_complete now st)"

definition make_report :: "EngineConfig \<Rightarrow> nat \<Rightarrow> nat \<Rightarrow> plan \<Rightarrow> string list \<Rightarrow> HttpEvent list \<Rightarrow> u64 \<Rightarrow> SyncReport" where
  "make_report cfg n_remote n_local pl errs evs ms =
     (let is = pl_instructions pl in
      \<lparr>rep_folder_id = cfg_folder_id cfg, rep_remote_entries = n_remote, rep_local_entries = n_local,
       rep_downloads = count_instr Download is, rep_uploads = count_instr Upload is,
       rep_conflicts = count_instr Conflict is, rep_deletes_local = count_instr DeleteLocal is,
       rep_deletes_remote = count_instr DeleteRemote is, rep_ignored = pl_ignored pl,
       rep_errors = errs, rep_http_events = evs, rep_duration_ms = ms\<rparr>)"

text \<open>
  What the run finds and what is not determined by the program: the result of \<open>get_valid_token\<close>, the
  report of the file system, which of two failing discoveries \<open>try_join!\<close> reports, the iteration order
  of the path set, the number of requests allowed, the clock at the end.
\<close>

record run_input =
  ri_token :: "string + string"
  ri_joined :: "string option"
  ri_tree :: listing
  ri_local_first :: bool
  ri_order :: "string list \<Rightarrow> string list"
  ri_fuel :: nat
  ri_now :: system_time
  ri_duration :: u64

definition start_state :: "'n world \<Rightarrow> 'n world" where
  "start_state w = w\<lparr>w_state := (w_state w)\<lparr>st_status := Folder_Syncing\<rparr>\<rparr>"

definition discover :: "'n env \<Rightarrow> EngineConfig \<Rightarrow> run_input \<Rightarrow> string \<Rightarrow> 'n world
    \<Rightarrow> ((SyncError + LocalEntry list \<times> RemoteEntry list \<times> HttpEvent list) \<times> 'n world) option" where
  "discover env cfg ri bearer w =
     map_option (\<lambda>(rr, evs, n).
        (case (discover_local (ri_joined ri) (cfg_local_root cfg) (ri_tree ri), rr) of
           (Inl e, Inr _) \<Rightarrow> Inl e
         | (Inr _, Inl e) \<Rightarrow> Inl e
         | (Inl e, Inl e') \<Rightarrow> Inl (if ri_local_first ri then e else e')
         | (Inr ls, Inr rs) \<Rightarrow> Inr (ls, rs, evs), w\<lparr>w_net := n\<rparr>))
       (discover_remote (ri_fuel ri) (en_lib env) (en_net env) (cfg_space_root cfg) bearer [] (w_net w))"

definition plan_of :: "'n env \<Rightarrow> EngineConfig \<Rightarrow> run_input \<Rightarrow> 'n world \<Rightarrow> LocalEntry list \<Rightarrow> RemoteEntry list \<Rightarrow> plan" where
  "plan_of env cfg ri w ls rs =
     (let lm = local_map cfg ls; rm = remote_map rs
      in make_plan (en_db env) cfg (w_db w) lm rm (all_paths (ri_order ri) lm rm))"

text \<open>
  A step of the file phase: the tasks share the run's \<open>Semaphore\<close>, which has \<open>max_parallel_transfers\<close> permits.
\<close>

definition transfer_step :: "EngineConfig \<Rightarrow> ('n world, task_result) pool \<Rightarrow> ('n world, task_result) pool \<Rightarrow> bool" where
  "transfer_step cfg = pool_step (cfg_max_parallel_transfers cfg)"

abbreviation transfers :: "EngineConfig \<Rightarrow> ('n world, task_result) pool \<Rightarrow> ('n world, task_result) pool \<Rightarrow> bool" where
  "transfers cfg \<equiv> (transfer_step cfg)\<^sup>*\<^sup>*"

text \<open>
  \<open>run_sync env cfg ri w out w'\<close>: a run started in \<open>w\<close> may return \<open>out\<close> and leave \<open>w'\<close>. Every early
  return leaves the folder status at \<open>Syncing\<close>.
\<close>

inductive run_sync :: "'n env \<Rightarrow> EngineConfig \<Rightarrow> run_input \<Rightarrow> 'n world \<Rightarrow> SyncError + SyncReport \<Rightarrow> 'n world \<Rightarrow> bool"
  for env cfg ri w where
  auth_fails: "ri_token ri = Inl e \<Longrightarrow> run_sync env cfg ri w (Inl (Err_Auth e)) (start_state w)"
| discovery_fails: "ri_token ri = Inr bearer \<Longrightarrow> discover env cfg ri bearer (start_state w) = Some (Inl e, w1) \<Longrightarrow>
    run_sync env cfg ri w (Inl e) w1"
| dirs_fail: "ri_token ri = Inr bearer \<Longrightarrow> discover env cfg ri bearer (start_state w) = Some (Inr (ls, rs, evs), w1) \<Longrightarrow>
    pl = plan_of env cfg ri w1 ls rs \<Longrightarrow>
    run (dir_phase env cfg bearer (dir_instructions (pl_instructions pl)) []) w1 = (Inl e, w2) \<Longrightarrow>
    run_sync env cfg ri w (Inl e) w2"
| spawn_fails: "ri_token ri = Inr bearer \<Longrightarrow> discover env cfg ri bearer (start_state w) = Some (Inr (ls, rs, evs), w1) \<Longrightarrow>
    pl = plan_of env cfg ri w1 ls rs \<Longrightarrow>
    run (dir_phase env cfg bearer (dir_instructions (pl_instructions pl)) []) w1 = (Inr errs, w2) \<Longrightarrow>
    spawn_tasks env cfg bearer (file_instructions (pl_instructions pl)) = Inl e \<Longrightarrow>
    run_sync env cfg ri w (Inl e) w2"
| completes: "ri_token ri = Inr bearer \<Longrightarrow> discover env cfg ri bearer (start_state w) = Some (Inr (ls, rs, evs), w1) \<Longrightarrow>
    pl = plan_of env cfg ri w1 ls rs \<Longrightarrow>
    run (dir_phase env cfg bearer (dir_instructions (pl_instructions pl)) []) w1 = (Inr errs, w2) \<Longrightarrow>
    spawn_tasks env cfg bearer (file_instructions (pl_instructions pl)) = Inr tasks \<Longrightarrow>
    transfers cfg (spawn (map snd tasks) w2) (ts, js, w3) \<Longrightarrow>
    list_all is_finished ts \<Longrightarrow>
    join_results (map (\<lambda>i. task_result (ts ! i)) js) evs errs = (evs', errs') \<Longrightarrow>
    run_sync env cfg ri w (Inr (make_report cfg (length rs) (length ls) pl errs' evs' (ri_duration ri)))
      (w3\<lparr>w_state := final_state (ri_now ri) errs' (w_state w3)\<rparr>)"

section \<open>Lemmas on the path maps\<close>

abbreviation pm_keys :: "'v path_map \<Rightarrow> path_key list" where
  "pm_keys m \<equiv> map (\<lambda>e. components (fst e)) m"

lemma pm_insert_keys:
  "pm_keys (pm_insert k v m) = (if components k \<in> set (pm_keys m) then pm_keys m else pm_keys m @ [components k])"
proof (induction m)
  case (Cons e m)
  obtain k' v' where "e = (k', v')" by fastforce
  with Cons show ?case by (cases "components k = components k'") (simp_all add: path_eq_def)
qed simp

lemma pm_collect_keys:
  "distinct (pm_keys (pm_collect kvs)) \<and> set (pm_keys (pm_collect kvs)) = (\<lambda>kv. components (fst kv)) ` set kvs"
proof -
  have "distinct (pm_keys m) \<Longrightarrow> distinct (pm_keys (fold (\<lambda>(k, v) m. pm_insert k v m) kvs m)) \<and>
      set (pm_keys (fold (\<lambda>(k, v) m. pm_insert k v m) kvs m)) = set (pm_keys m) \<union> (\<lambda>kv. components (fst kv)) ` set kvs" for m
  proof (induction kvs arbitrary: m)
    case (Cons kv kvs)
    obtain k v where kv: "kv = (k, v)" by fastforce
    have "distinct (pm_keys (pm_insert k v m))" using Cons.prems by (simp add: pm_insert_keys)
    from Cons.IH [OF this] show ?case by (auto simp: kv pm_insert_keys)
  qed simp
  from this [of "[]"] show ?thesis by (simp add: pm_collect_def)
qed

lemma all_paths_keys:
  assumes "\<And>xs. mset (ord xs) = mset xs" "distinct (pm_keys lm)" "distinct (pm_keys rm)"
  shows "distinct (map components (all_paths ord lm rm)) \<and>
    set (map components (all_paths ord lm rm)) = set (pm_keys lm) \<union> set (pm_keys rm)"
proof -
  let ?xs = "map fst lm @ filter (\<lambda>k. \<not> list_ex (\<lambda>l. path_eq l k) (map fst lm)) (map fst rm)"
  have "mset (map components (ord ?xs)) = mset (map components ?xs)"
    unfolding mset_map assms(1) ..
  then have *: "distinct (map components (ord ?xs)) = distinct (map components ?xs)"
      "set (map components (ord ?xs)) = set (map components ?xs)"
    by (metis mset_eq_imp_distinct_iff, metis set_mset_mset)
  have "distinct (map components ?xs)"
    using assms(2,3) by (auto simp: comp_def distinct_map_filter list_ex_iff path_eq_def)
  moreover have "set (map components ?xs) = set (pm_keys lm) \<union> set (pm_keys rm)"
    by (auto simp: list_ex_iff path_eq_def image_iff; metis fst_conv)
  ultimately show ?thesis using * by (simp add: all_paths_def)
qed

lemma instruction_for_fields [simp]:
  "in_path (instruction_for flt cfg db lm rm p) = p"
  "in_instr (instruction_for flt cfg db lm rm p) =
     reconcile (pm_get lm p) (pm_get rm p) (baseline flt db p) (cfg_conflict_strategy cfg)"
  "in_remote (instruction_for flt cfg db lm rm p) = pm_get rm p"
  by (simp_all add: instruction_for_def Let_def)

lemma reconcile_range: "reconcile l r j s \<in> {Upload, Download, DeleteLocal, DeleteRemote, Conflict, Ignore}"
  by (cases "(l, r, j, s)" rule: reconcile.cases) (auto split: reconcile_splits)

lemma count_instr_total:
  assumes "\<forall>i \<in> set ins. in_instr i \<in> {Upload, Download, DeleteLocal, DeleteRemote, Conflict, Ignore}"
  shows "count_instr Download ins + count_instr Upload ins + count_instr Conflict ins + count_instr DeleteLocal ins +
    count_instr DeleteRemote ins + length (filter (\<lambda>i. in_instr i = Ignore) ins) = length ins"
  using assms unfolding count_instr_def by (induction ins) auto

lemma count_instr_filter: "i \<noteq> Ignore \<Longrightarrow> count_instr i (filter (\<lambda>x. in_instr x \<noteq> Ignore) ins) = count_instr i ins"
  by (induction ins) (auto simp: count_instr_def)

lemma make_plan_counts:
  assumes "pl = make_plan flt cfg db lm rm paths"
  shows "count_instr Download (pl_instructions pl) + count_instr Upload (pl_instructions pl) +
    count_instr Conflict (pl_instructions pl) + count_instr DeleteLocal (pl_instructions pl) +
    count_instr DeleteRemote (pl_instructions pl) + pl_ignored pl = length paths"
proof -
  let ?ins = "map (instruction_for flt cfg db lm rm) paths"
  have "\<forall>i \<in> set ?ins. in_instr i \<in> {Upload, Download, DeleteLocal, DeleteRemote, Conflict, Ignore}"
    using reconcile_range by auto
  from count_instr_total [OF this] show ?thesis
    unfolding assms make_plan_def Let_def by (simp add: count_instr_filter)
qed

lemma make_plan_paths:
  "pl = make_plan flt cfg db lm rm paths \<Longrightarrow> distinct (map components paths) \<Longrightarrow>
     distinct (map (\<lambda>i. components (in_path i)) (pl_instructions pl)) \<and> in_path ` set (pl_instructions pl) \<subseteq> set paths"
  unfolding make_plan_def Let_def by (induction paths arbitrary: pl) (auto simp: image_iff)

section \<open>What a task may touch\<close>

abbreviation row_at :: "'n world \<Rightarrow> string \<Rightarrow> JournalEntry option" where
  "row_at w p \<equiv> journal_map (w_db w) p"

abbreviation status_at :: "'n world \<Rightarrow> string \<Rightarrow> FileStatus option" where
  "status_at w p \<equiv> st_file_statuses (w_state w) (components p)"

text \<open>The journal row and the status of a path are as before.\<close>

definition keeps :: "string \<Rightarrow> 'n world \<Rightarrow> 'n world \<Rightarrow> bool" where
  "keeps q w w' \<longleftrightarrow> row_at w' q = row_at w q \<and> status_at w' q = status_at w q"

text \<open>Only the row and the status of \<open>p\<close> may have changed.\<close>

definition touches :: "string \<Rightarrow> 'n world \<Rightarrow> 'n world \<Rightarrow> bool" where
  "touches p w w' \<longleftrightarrow> (\<forall>q. components q \<noteq> components p \<longrightarrow> keeps q w w')"

lemma keeps_refl [simp]: "keeps q w w"
  by (simp add: keeps_def)

lemma keeps_trans: "keeps q w w1 \<Longrightarrow> keeps q w1 w2 \<Longrightarrow> keeps q w w2"
  by (simp add: keeps_def)

lemma touches_books: "books_kept w w' \<Longrightarrow> touches p w w'"
  by (simp add: books_kept_def touches_def keeps_def)

lemma touches_set_status [simp]: "touches p w (snd (on_state (set_file_status p s) w))"
  by (auto simp: touches_def keeps_def on_state_def)

lemma touches_clear_status [simp]: "touches p w (snd (on_state (clear_file_status p) w))"
  by (auto simp: touches_def keeps_def on_state_def)

lemma on_db_snd [simp]: "w_db (snd (on_db f w)) = snd (f (w_db w))" "w_state (snd (on_db f w)) = w_state w"
  by (simp_all add: on_db_def split: prod.split)

lemma touches_upsert [simp]: "je_path e = p \<Longrightarrow> touches p w (snd (on_db (upsert_entry flt e) w))"
  by (auto simp: touches_def keeps_def journal_map_upsert)

lemma touches_delete [simp]: "touches p w (snd (on_db (delete_entry flt p) w))"
  by (auto simp: touches_def keeps_def journal_map_delete)

lemma journal_row_path [simp]: "je_path (journal_row p et sz fid) = p"
  by (simp add: journal_row_def)

lemma guarantee_mark [simp]: "guarantee (touches p) (mark p s a)" "guarantee (touches p) (unmark p a)"
  by (simp_all add: mark_def unmark_def)

lemma guarantee_finish [simp]:
  "guarantee (touches p) (finish_transfer env p sz fid etag evs)" "guarantee (touches p) (fail_transfer p e evs)"
  by (simp_all add: finish_transfer_def fail_transfer_def)

lemma touches_books_lift: "guarantee books_kept pr \<Longrightarrow> guarantee (touches p) pr"
  by (erule guarantee_weaken) (rule touches_books)

lemma touches_net_lift: "guarantee net_only pr \<Longrightarrow> guarantee (touches p) pr"
  by (erule guarantee_weaken) (intro touches_books net_only_books)

lemma touches_look [simp]: "touches p w (snd (look_disk f w))" "touches p w (snd (now_of env w))"
  "touches p w (w\<lparr>w_disk := d\<rparr>)"
  by (auto intro!: touches_books simp: books_kept_def look_disk_def now_of_def)

lemma guarantee_fetch: "guarantee (touches p) (fetch env bearer lp u p rem)"
  by (auto simp: fetch_def intro!: guarantee_bind touches_books_lift [OF propagate_download_books] split: sum.split)

lemma guarantee_file_task:
  "file_task env cfg bearer i u = Some t \<Longrightarrow> guarantee (touches (in_path i)) t"
  by (auto simp: file_task_def Let_def upload_task_def conflict_task_def
      intro!: guarantee_bind guarantee_fetch touches_books_lift [OF delete_local_books]
        touches_net_lift [OF delete_remote_net_only] touches_net_lift [OF propagate_upload_net_only]
      split: SyncInstruction.splits sum.split)

section \<open>What a task leaves behind\<close>

text \<open>
  The journal row and the status of the task's path after the task has ended, given the row \<open>j\<close> it
  started from.
\<close>

definition task_outcome :: "'n env \<Rightarrow> instruction \<Rightarrow> JournalEntry option \<Rightarrow> task_result \<Rightarrow> 'n world \<Rightarrow> bool" where
  "task_outcome env i j r w =
     (let p = in_path i in
      case snd r of
        Inl e \<Rightarrow> row_at w p = j \<and> (\<exists>m. status_at w p = Some (File_Error m))
      | Inr _ \<Rightarrow>
          if in_instr i = DeleteLocal \<or> in_instr i = DeleteRemote then
            row_at w p = (if en_db env (Delete_Call p) = None then None else j) \<and> status_at w p = None
          else
            (if en_db env (Upsert_Call p) = None then \<exists>et sz fid. row_at w p = Some (journal_row p et sz fid) else row_at w p = j) \<and>
            status_at w p = Some File_Ok)"

lemma ensures_mark:
  assumes "\<And>w'. row_at w' p = row_at w p \<Longrightarrow> status_at w' p = Some s \<Longrightarrow> Q a w'"
  shows "ensures (keeps p) Q (mark p s a) w"
  using assms by (auto simp: mark_def keeps_def on_state_def)

lemma ensures_unmark:
  assumes "\<And>w'. row_at w' p = row_at w p \<Longrightarrow> status_at w' p = None \<Longrightarrow> Q a w'"
  shows "ensures (keeps p) Q (unmark p a) w"
  using assms by (auto simp: unmark_def keeps_def on_state_def)

lemma ensures_finish:
  assumes "in_path i = p" "in_instr i \<noteq> DeleteLocal" "in_instr i \<noteq> DeleteRemote" "row_at w p = j"
  shows "ensures (keeps p) (task_outcome env i j) (finish_transfer env p sz fid etag evs) w"
  using assms
  by (auto simp: finish_transfer_def task_outcome_def Let_def keeps_def journal_map_upsert intro!: ensures_mark) blast

lemma ensures_fail:
  "in_path i = p \<Longrightarrow> row_at w p = j \<Longrightarrow> ensures (keeps p) (task_outcome env i j) (fail_transfer p e evs) w"
  by (auto simp: fail_transfer_def task_outcome_def Let_def intro!: ensures_mark)

lemma ensures_deleted:
  assumes "in_path i = p" "in_instr i = DeleteLocal \<or> in_instr i = DeleteRemote" "row_at w p = j"
  shows "ensures (keeps p) (task_outcome env i j) (call (on_db (delete_entry (en_db env) p)) (\<lambda>_. unmark p (evs, Inr ()))) w"
  using assms
  by (auto simp: task_outcome_def Let_def keeps_def journal_map_delete intro!: ensures_unmark)

lemma ensures_after_books:
  assumes "guarantee books_kept pr" "row_at w p = j" "\<And>a w. row_at w p = j \<Longrightarrow> ensures (keeps p) Q (k a) w"
  shows "ensures (keeps p) Q (prog_bind pr k) w"
  by (rule ensures_bind_inv [where I = "\<lambda>w. row_at w p = j", OF assms(1,2) _ _ assms(3)])
    (auto simp: books_kept_def keeps_def)

lemma look_db [simp]:
  "w_db (snd (look_disk f w)) = w_db w" "w_db (snd (now_of env w)) = w_db w" "w_db (snd (on_state g w)) = w_db w"
  by (simp_all add: look_disk_def now_of_def on_state_def)

lemma books_net: "guarantee net_only pr \<Longrightarrow> guarantee books_kept pr"
  by (erule guarantee_weaken) (rule net_only_books)

lemma ensures_fetch:
  assumes "in_path i = p" "in_instr i \<noteq> DeleteLocal" "in_instr i \<noteq> DeleteRemote" "row_at w p = j"
  shows "ensures (keeps p) (task_outcome env i j) (fetch env bearer lp u p rem) w"
  unfolding fetch_def
proof (rule ensures_after_books [OF propagate_download_books assms(4)])
  fix a :: "(SyncError + string) \<times> HttpEvent list" and w :: "'a world"
  assume "row_at w p = j"
  then show "ensures (keeps p) (task_outcome env i j) (case a of (r, evs) \<Rightarrow>
      (case r of
         Inr etag \<Rightarrow> call (look_disk (fs_metadata_len (en_fs env) (resolve lp)))
            (\<lambda>len. finish_transfer env p (len_or_zero len) (map_option re_file_id rem) etag evs)
       | Inl e \<Rightarrow> fail_transfer p e evs)) w"
    using assms(1-3)
    by (auto simp: split_beta keeps_def intro!: ensures_finish ensures_fail split: sum.split)
qed

lemma ensures_upload:
  assumes "in_path i = p" "in_instr i = Upload" "row_at w p = j"
  shows "ensures (keeps p) (task_outcome env i j) (upload_task env cfg bearer lp u p) w"
  unfolding upload_task_def ensures_call Let_def
proof (intro allI impI ensures_after_books [OF books_net [OF propagate_upload_net_only], where j = j])
  fix w' assume "keeps p w w'"
  then show "row_at (snd (look_disk (fs_metadata_len (en_fs env) (resolve lp)) w')) p = j"
    using assms(3) by (simp add: keeps_def)
qed (use assms(1,2) in \<open>auto simp: split_beta intro!: ensures_finish ensures_fail split: sum.split\<close>)

lemma ensures_conflict:
  assumes "in_path i = p" "in_instr i = Conflict" "row_at w p = j"
  shows "ensures (keeps p) (task_outcome env i j) (conflict_task env bearer lp u p rem) w"
  using assms
  by (auto simp: conflict_task_def keeps_def task_outcome_def Let_def intro!: ensures_mark ensures_fetch split: sum.split)

lemma ensures_file_task:
  assumes "file_task env cfg bearer i u = Some t" "row_at w (in_path i) = j"
  shows "ensures (keeps (in_path i)) (task_outcome env i j) t w"
proof -
  have syncing: "ensures (keeps p) Q (call (on_state (set_file_status p File_Syncing)) (\<lambda>_. k)) w"
    if "row_at w p = j" "\<And>w. row_at w p = j \<Longrightarrow> ensures (keeps p) Q k w" for p Q k
    using that by (auto simp: keeps_def)
  show ?thesis
    using assms
    by (auto simp: file_task_def Let_def
        intro!: syncing ensures_fetch ensures_upload ensures_conflict ensures_after_books [OF delete_local_books]
          ensures_after_books [OF books_net [OF delete_remote_net_only]] ensures_fail ensures_deleted
        simp del: ensures_call
        split: SyncInstruction.splits sum.split)
qed

section \<open>The pool of file tasks\<close>

lemma spawn_tasks_ok:
  "spawn_tasks env cfg bearer ins = Inr tasks \<Longrightarrow>
     (\<forall>x \<in> set tasks. \<exists>u. file_task env cfg bearer (fst x) u = Some (snd x)) \<and> subseq (map fst tasks) ins"
proof (induction ins arbitrary: tasks)
  case (Cons i ins)
  then obtain u ts where "spawn_tasks env cfg bearer ins = Inr ts"
      "tasks = (case file_task env cfg bearer i u of None \<Rightarrow> ts | Some t \<Rightarrow> (i, t) # ts)"
    by (auto split: sum.splits)
  with Cons.IH [of ts] show ?case by (cases "file_task env cfg bearer i u") auto
qed simp

interpretation engine_tasks: independent_tasks
    "\<lambda>i w w'. \<forall>j < length paths. j \<noteq> i \<longrightarrow> keeps (paths ! j) w w'"
    "\<lambda>i w w'. i < length paths \<longrightarrow> keeps (paths ! i) w w'" for paths
  by unfold_locales (auto intro: keeps_trans)

lemma touches_others:
  assumes "distinct (map components ps)" "i < length ps" "touches (ps ! i) w w'"
  shows "\<forall>j < length ps. j \<noteq> i \<longrightarrow> keeps (ps ! j) w w'"
  using assms by (auto simp: touches_def distinct_conv_nth)

lemma guarantee_others:
  assumes "distinct (map components ps)" "i < length ps" "guarantee (touches (ps ! i)) pr"
  shows "guarantee (\<lambda>w w'. \<forall>j < length ps. j \<noteq> i \<longrightarrow> keeps (ps ! j) w w') pr"
  using assms(3) by (rule guarantee_weaken) (rule touches_others [OF assms(1,2)])

lemma file_phase:
  assumes "spawn_tasks env cfg bearer ins = Inr tasks" "distinct (map (\<lambda>i. components (in_path i)) ins)"
    and "pool_run n (spawn (map snd tasks) w) (ts, js, w')"
  shows "k < length tasks \<Longrightarrow> ts ! k = Finished r \<Longrightarrow>
      task_outcome env (fst (tasks ! k)) (row_at w (in_path (fst (tasks ! k)))) r w'"
    and "components q \<notin> (\<lambda>i. components (in_path i)) ` set ins \<Longrightarrow> keeps q w w'"
proof -
  let ?ps = "map (\<lambda>x. in_path (fst x)) tasks"
  note sp = spawn_tasks_ok [OF assms(1)]
  have g: "guarantee (touches (?ps ! i)) (map snd tasks ! i)" if "i < length tasks" for i
    using sp that guarantee_file_task by (metis length_map nth_map nth_mem)
  have sub: "subseq (map components ?ps) (map (\<lambda>i. components (in_path i)) ins)"
    using subseq_map [OF conjunct2 [OF sp], of "\<lambda>i. components (in_path i)"] by (simp add: comp_def)
  have d: "distinct (map components ?ps)" using subseq_set_distinct [OF sub] assms(2) by simp
  have len: "length ts = length tasks" using pool_run_joined [OF assms(3)] by simp
  let ?Q = "\<lambda>i. task_outcome env (fst (tasks ! i)) (row_at w (?ps ! i))"
  have ok: "guarantee (\<lambda>w w'. \<forall>j < length ?ps. j \<noteq> i \<longrightarrow> keeps (?ps ! j) w w') (map snd tasks ! i) \<and>
      ensures (\<lambda>w w'. i < length ?ps \<longrightarrow> keeps (?ps ! i) w w') (?Q i) (map snd tasks ! i) w"
    if i: "i < length (map snd tasks)" for i
  proof
    show "guarantee (\<lambda>w w'. \<forall>j < length ?ps. j \<noteq> i \<longrightarrow> keeps (?ps ! j) w w') (map snd tasks ! i)"
      using guarantee_others [OF d, of i] g [of i] i by simp
    obtain u where "file_task env cfg bearer (fst (tasks ! i)) u = Some (snd (tasks ! i))"
      using sp i by (metis length_map nth_mem)
    from ensures_file_task [OF this refl, of w]
    show "ensures (\<lambda>w w'. i < length ?ps \<longrightarrow> keeps (?ps ! i) w w') (?Q i) (map snd tasks ! i) w"
      using i by simp
  qed
  show "task_outcome env (fst (tasks ! k)) (row_at w (in_path (fst (tasks ! k)))) r w'"
    if "k < length tasks" "ts ! k = Finished r"
    using engine_tasks.pool_result [where paths = ?ps and Q = ?Q, OF assms(3) ok, of k r] that len by simp
  show "keeps q w w'" if "components q \<notin> (\<lambda>i. components (in_path i)) ` set ins"
  proof -
    let ?qs = "?ps @ [q]"
    have "set (map components ?ps) \<subseteq> (\<lambda>i. components (in_path i)) ` set ins"
      using subseq_set_distinct [OF sub] by simp
    then have d': "distinct (map components ?qs)" using d that by auto
    have g': "guarantee (\<lambda>w w'. \<forall>j < length ?qs. j \<noteq> i \<longrightarrow> keeps (?qs ! j) w w') (map snd tasks ! i)"
      if "i < length (map snd tasks)" for i
    proof (rule guarantee_others [OF d'])
      show "guarantee (touches (?qs ! i)) (map snd tasks ! i)" using g [of i] that by (simp add: nth_append)
    qed (use that in simp)
    have "length ?ps < length ?qs \<longrightarrow> keeps (?qs ! length ?ps) w w'"
      by (rule engine_tasks.pool_frame [where paths = ?qs, OF assms(3) g']) simp_all
    then show ?thesis using nth_append_length [of ?ps q "[]"] by simp
  qed
qed

section \<open>Lemmas on the whole run\<close>

lemma guarantee_dir_step: "guarantee (touches (in_path i)) (dir_step env cfg bearer i)"
  by (auto simp: dir_step_def Let_def
      intro!: guarantee_bind touches_net_lift [OF mkdir_remote_net_only] touches_net_lift [OF delete_remote_net_only]
        touches_books_lift [OF delete_local_dir_books]
      split: SyncInstruction.split sum.split)

lemma touches_run:
  assumes "guarantee (touches p) pr" shows "touches p w (snd (run pr w))"
  by (rule guarantee_run [OF assms]) (auto simp: touches_def intro: keeps_trans)

lemma dir_phase_keeps:
  assumes "components q \<notin> (\<lambda>i. components (in_path i)) ` set ins"
  shows "keeps q w (snd (run (dir_phase env cfg bearer ins errs) w))"
  using assms
proof (induction ins arbitrary: errs w)
  case (Cons i ins)
  obtain r w1 where r: "run (dir_step env cfg bearer i) w = (r, w1)" by fastforce
  have "touches (in_path i) w w1" using touches_run [OF guarantee_dir_step, of i w env cfg bearer] r by simp
  then have "keeps q w w1" using Cons.prems by (auto simp: touches_def)
  then show ?case using Cons r by (auto intro: keeps_trans split: sum.split option.split)
qed simp

lemma discover_books: "discover env cfg ri bearer w = Some (out, w1) \<Longrightarrow> w_db w1 = w_db w \<and> w_state w1 = w_state w"
  by (auto simp: discover_def split: prod.splits)

lemma join_results_spec:
  "join_results rs evs errs =
     (evs @ concat (map fst rs), errs @ concat (map (\<lambda>r. case snd r of Inl e \<Rightarrow> [show_SyncError e] | Inr _ \<Rightarrow> []) rs))"
  by (induction rs evs errs rule: join_results.induct) auto

lemma local_map_keys: "distinct (pm_keys (local_map cfg ls))" "distinct (pm_keys (remote_map rs))"
  "set (pm_keys (remote_map rs)) = (\<lambda>e. components (re_path e)) ` set rs"
  using pm_collect_keys [of "map (\<lambda>e. (re_path e, e)) rs"]
  by (simp_all add: local_map_def remote_map_def pm_collect_keys image_image)

lemma plan_paths:
  assumes "\<And>xs. mset (ri_order ri xs) = mset xs" "pl = plan_of env cfg ri w ls rs"
  shows "distinct (map (\<lambda>i. components (in_path i)) (pl_instructions pl))"
    and "(\<lambda>i. components (in_path i)) ` set (pl_instructions pl) \<subseteq>
      set (pm_keys (local_map cfg ls)) \<union> set (pm_keys (remote_map rs))"
proof -
  let ?lm = "local_map cfg ls" and ?rm = "remote_map rs"
  note k = all_paths_keys [OF assms(1) local_map_keys(1) [of cfg ls] local_map_keys(2) [of rs]]
  have pl: "pl = make_plan (en_db env) cfg (w_db w) ?lm ?rm (all_paths (ri_order ri) ?lm ?rm)"
    using assms(2) by (simp add: plan_of_def Let_def)
  note m = make_plan_paths [OF pl] k
  show "distinct (map (\<lambda>i. components (in_path i)) (pl_instructions pl))" using m by blast
  have "in_path ` set (pl_instructions pl) \<subseteq> set (all_paths (ri_order ri) ?lm ?rm)" using m by blast
  then have "components ` in_path ` set (pl_instructions pl) \<subseteq> set (map components (all_paths (ri_order ri) ?lm ?rm))"
    by auto
  then show "(\<lambda>i. components (in_path i)) ` set (pl_instructions pl) \<subseteq> set (pm_keys ?lm) \<union> set (pm_keys ?rm)"
    using k by (simp add: image_image)
qed

lemma plan_counts:
  assumes "\<And>xs. mset (ri_order ri xs) = mset xs" "pl = plan_of env cfg ri w ls rs"
  shows "count_instr Download (pl_instructions pl) + count_instr Upload (pl_instructions pl) +
    count_instr Conflict (pl_instructions pl) + count_instr DeleteLocal (pl_instructions pl) +
    count_instr DeleteRemote (pl_instructions pl) + pl_ignored pl =
    card (set (pm_keys (local_map cfg ls)) \<union> set (pm_keys (remote_map rs)))"
proof -
  let ?ps = "all_paths (ri_order ri) (local_map cfg ls) (remote_map rs)"
  have "length ?ps = card (set (map components ?ps))"
    using all_paths_keys [OF assms(1) local_map_keys(1,2)] distinct_card by (metis length_map)
  also have "\<dots> = card (set (pm_keys (local_map cfg ls)) \<union> set (pm_keys (remote_map rs)))"
    using all_paths_keys [OF assms(1) local_map_keys(1,2)] by metis
  finally show ?thesis using make_plan_counts assms(2) by (metis plan_of_def)
qed

definition folder_status_kept :: "'n world \<Rightarrow> 'n world \<Rightarrow> bool" where
  "folder_status_kept w w' \<longleftrightarrow> st_status (w_state w') = st_status (w_state w)"

lemma folder_status_ops [simp]:
  "folder_status_kept w (snd (on_state (set_file_status p s) w))"
  "folder_status_kept w (snd (on_state (clear_file_status p) w))"
  "folder_status_kept w (snd (on_db f w))" "folder_status_kept w (w\<lparr>w_disk := d\<rparr>)"
  by (simp_all add: folder_status_kept_def on_state_def set_file_status_def clear_file_status_def)

lemma books_folder_status: "guarantee books_kept pr \<Longrightarrow> guarantee folder_status_kept pr"
  by (erule guarantee_weaken) (simp add: books_kept_def folder_status_kept_def)

lemma dir_step_folder_status: "guarantee folder_status_kept (dir_step env cfg bearer i)"
  by (auto simp: dir_step_def Let_def mark_def unmark_def
      intro!: guarantee_bind books_folder_status [OF books_net [OF mkdir_remote_net_only]]
        books_folder_status [OF books_net [OF delete_remote_net_only]] books_folder_status [OF delete_local_dir_books]
      split: SyncInstruction.split sum.split)

lemma dir_phase_folder_status: "guarantee folder_status_kept (dir_phase env cfg bearer ins errs)"
  by (induction ins arbitrary: errs) (auto intro!: guarantee_bind dir_step_folder_status split: sum.split option.split)

lemma dir_phase_status: "st_status (w_state (snd (run (dir_phase env cfg bearer ins errs) w))) = st_status (w_state w)"
  using guarantee_run [OF dir_phase_folder_status, of w env cfg bearer ins errs] by (simp add: folder_status_kept_def)

text \<open>A concrete configuration and input of a run.\<close>

definition sample_cfg :: EngineConfig where
  "sample_cfg = \<lparr>cfg_folder_id = 1, cfg_local_root = ''/s'', cfg_space_root = sample_root, cfg_conflict_strategy = KeepBoth,
     cfg_max_parallel_transfers = 2, cfg_tus_threshold = 10\<rparr>"

definition sample_input :: "string + string \<Rightarrow> dirent list \<Rightarrow> run_input" where
  "sample_input tok es = \<lparr>ri_token = tok, ri_joined = None, ri_tree = Inr es, ri_local_first = True, ri_order = id, ri_fuel = 5,
     ri_now = 99, ri_duration = 3\<rparr>"

lemma sample_discover:
  "\<exists>evs. discover (sample_env (sample_response 207 []) reliable_fs) sample_cfg (sample_input tok []) bearer w =
     Some (Inr ([], [], evs), w)"
  by (simp add: discover_def discover_remote_def sample_input_def sample_env_def sample_cfg_def propfind_step_def
      discover_local_def walk_def parse_propfind_def id_lib_def propfind_init_def sample_response_def eval_nat_numeral)

lemma sample_run_completes:
  "\<exists>rep w'. run_sync (sample_env (sample_response 207 []) reliable_fs) sample_cfg (sample_input (Inr ''t'') []) w (Inr rep) w' \<and>
     rep_errors rep = []"
proof -
  let ?env = "sample_env (sample_response 207 []) reliable_fs" and ?ri = "sample_input (Inr ''t'') []"
  obtain evs where d: "discover ?env sample_cfg ?ri ''t'' (start_state w) = Some (Inr ([], [], evs), start_state w)"
    using sample_discover by blast
  have pl: "pl_instructions (plan_of ?env sample_cfg ?ri w1 [] []) = []" for w1
    by (simp add: plan_of_def make_plan_def all_paths_def local_map_def remote_map_def pm_collect_def Let_def sample_input_def)
  have "run_sync ?env sample_cfg ?ri w (Inr (make_report sample_cfg 0 0 (plan_of ?env sample_cfg ?ri (start_state w) [] []) [] evs 3))
      ((start_state w)\<lparr>w_state := final_state 99 [] (w_state (start_state w))\<rparr>)"
    using completes [where env = ?env and cfg = sample_cfg and ri = ?ri and w = w, OF _ d refl, of "[]" "start_state w" "[]" "[]" "[]" "start_state w" evs "[]"]
    by (simp add: pl dir_instructions_def file_instructions_def spawn_def) (simp add: sample_input_def)
  then show ?thesis by (intro exI conjI) (auto simp: make_report_def Let_def)
qed

section \<open>Properties\<close>

text \<open>
  C16: The journal and the statuses tell the truth about every file task, in every interleaving. When
  all tasks of the file phase have ended, in whatever order their steps were interleaved: a task that failed has
  left the journal row of its path as it found it and an error status; one that transferred or deleted its
  file has written, or removed, the row of its path (unless the database refused) and the status says so;
  and the row and status of every path that has no task are untouched.
\<close>

theorem file_tasks_keep_books:
  assumes "spawn_tasks env cfg bearer ins = Inr tasks" "distinct (map (\<lambda>i. components (in_path i)) ins)"
    and "pool_run n (spawn (map snd tasks) w) (ts, js, w')" "list_all is_finished ts"
  shows "(\<forall>k < length tasks. task_outcome env (fst (tasks ! k)) (row_at w (in_path (fst (tasks ! k)))) (task_result (ts ! k)) w') \<and>
    (\<forall>q. components q \<notin> (\<lambda>i. components (in_path i)) ` set ins \<longrightarrow> row_at w' q = row_at w q \<and> status_at w' q = status_at w q)"
proof (intro conjI allI impI)
  fix k assume k: "k < length tasks"
  then have "is_finished (ts ! k)" using assms(4) pool_run_joined [OF assms(3)] by (simp add: list_all_length)
  then obtain r where "ts ! k = Finished r" by (cases "ts ! k") auto
  with file_phase(1) [OF assms(1-3) k]
  show "task_outcome env (fst (tasks ! k)) (row_at w (in_path (fst (tasks ! k)))) (task_result (ts ! k)) w'" by simp
qed (use file_phase(2) [OF assms(1-3)] in \<open>auto simp: keeps_def\<close>)

text \<open>A file instruction and its task: delete the local copy of \<open>f.txt\<close>.\<close>

definition sample_delete :: instruction where
  "sample_delete = \<lparr>in_path = ''f.txt'', in_instr = DeleteLocal, in_remote = None, in_is_dir = False\<rparr>"

theorem file_tasks_keep_books_witness:
  "\<exists>tasks ts js w'. spawn_tasks (sample_env (sample_response 200 []) reliable_fs) sample_cfg ''t'' [sample_delete] = Inr tasks \<and>
     pool_run 1 (spawn (map snd tasks) (sample_world (sample_disk [(''f.txt'', ''old'')]))) (ts, js, w') \<and> list_all is_finished ts \<and>
     task_outcome (sample_env (sample_response 200 []) reliable_fs) sample_delete None (task_result (ts ! 0)) w'"
proof -
  let ?env = "sample_env (sample_response 200 []) reliable_fs" and ?w = "sample_world (sample_disk [(''f.txt'', ''old'')])"
  obtain t where sp: "spawn_tasks ?env sample_cfg ''t'' [sample_delete] = Inr [(sample_delete, t)]"
    by (simp add: sample_delete_def sample_cfg_def sample_root_def join_remote_path_def file_task_def Let_def)
  obtain ts js w' where run: "pool_run 1 (spawn (map snd [(sample_delete, t)]) ?w) (ts, js, w')" "list_all is_finished ts"
    using pool_completes [of 1 "spawn (map snd [(sample_delete, t)]) ?w"] by auto
  have "row_at ?w (in_path sample_delete) = None"
    by (simp add: sample_world_def journal_map_def empty_db_def sql_select_def)
  moreover have "task_outcome ?env sample_delete (row_at ?w (in_path sample_delete)) (task_result (ts ! 0)) w'"
    using file_tasks_keep_books [OF sp _ run] by simp
  ultimately show ?thesis using sp run by (intro exI conjI) (auto simp del: spawn_tasks.simps)
qed

text \<open>
  C17: The report accounts for every path. A run that returns a report has found listings of both
  sides; downloads, uploads, conflicts, deletions and ignored paths add up to the number of different
  paths in the two listings; and the folder ends \<open>Idle\<close> with a new time of last sync if the report lists no error, and
  in \<open>Error\<close> otherwise.
\<close>

theorem sync_report_accounts:
  assumes "\<And>xs. mset (ri_order ri xs) = mset xs" "run_sync env cfg ri w (Inr rep) w'"
  shows "(\<exists>bearer ls rs evs w1. discover env cfg ri bearer (start_state w) = Some (Inr (ls, rs, evs), w1) \<and>
      rep_local_entries rep = length ls \<and> rep_remote_entries rep = length rs \<and>
      rep_downloads rep + rep_uploads rep + rep_conflicts rep + rep_deletes_local rep + rep_deletes_remote rep + rep_ignored rep =
        card (set (pm_keys (local_map cfg ls)) \<union> set (pm_keys (remote_map rs)))) \<and>
    (if rep_errors rep = [] then st_status (w_state w') = Folder_Idle \<and> st_last_sync (w_state w') = Some (ri_now ri)
     else st_status (w_state w') = Folder_Error)"
  using assms(2)
proof (cases rule: run_sync.cases)
  case (completes bearer ls rs evs w1 pl errs w2 tasks ts js w3 evs' errs')
  then have "rep_downloads rep + rep_uploads rep + rep_conflicts rep + rep_deletes_local rep + rep_deletes_remote rep + rep_ignored rep =
        card (set (pm_keys (local_map cfg ls)) \<union> set (pm_keys (remote_map rs)))"
    using plan_counts [OF assms(1), of pl env cfg w1 ls rs] by (simp add: make_report_def Let_def)
  moreover have "rep_local_entries rep = length ls" "rep_remote_entries rep = length rs" "rep_errors rep = errs'"
    using completes by (simp_all add: make_report_def Let_def)
  moreover have "w_state w' = final_state (ri_now ri) errs' (w_state w3)" using completes by simp
  ultimately show ?thesis
    using completes(4) by (intro conjI exI) (auto simp: final_state_def mark_complete_def)
qed

theorem sync_report_accounts_witness:
  "\<exists>rep w'. run_sync (sample_env (sample_response 207 []) reliable_fs) sample_cfg (sample_input (Inr ''t'') [])
      (sample_world (sample_disk [])) (Inr rep) w' \<and> rep_errors rep = [] \<and> st_last_sync (w_state w') = Some 99"
proof -
  obtain rep w' where run: "run_sync (sample_env (sample_response 207 []) reliable_fs) sample_cfg (sample_input (Inr ''t'') [])
      (sample_world (sample_disk [])) (Inr rep) w'" and "rep_errors rep = []"
    using sample_run_completes by blast
  with sync_report_accounts [OF _ run] show ?thesis by (auto simp: sample_input_def)
qed

text \<open>
  A run that fails early leaves the folder at \<open>Syncing\<close>. Whenever a run returns an error (no token,
  failed discovery, an unusable space root), the folder status it leaves is \<open>Syncing\<close>, neither
  \<open>Error\<close> nor \<open>Idle\<close>.
\<close>

theorem failed_run_stays_syncing:
  assumes "run_sync env cfg ri w (Inl e) w'"
  shows "st_status (w_state w') = Folder_Syncing"
  using assms
proof (cases rule: run_sync.cases)
  case (dirs_fail bearer ls rs evs w1 pl)
  then show ?thesis
    using dir_phase_status [of env cfg bearer "dir_instructions (pl_instructions pl)" "[]" w1]
    by (auto simp: start_state_def dest!: discover_books)
next
  case (spawn_fails bearer ls rs evs w1 pl errs)
  then show ?thesis
    using dir_phase_status [of env cfg bearer "dir_instructions (pl_instructions pl)" "[]" w1]
    by (auto simp: start_state_def dest!: discover_books)
qed (auto simp: start_state_def dest!: discover_books)

theorem failed_run_stays_syncing_witness:
  "\<exists>w'. run_sync (sample_env (sample_response 207 []) reliable_fs) sample_cfg (sample_input (Inl ''expired'') [])
      (sample_world (sample_disk [])) (Inl (Err_Auth ''expired'')) w' \<and> st_status (w_state w') = Folder_Syncing"
proof -
  have "run_sync (sample_env (sample_response 207 []) reliable_fs) sample_cfg (sample_input (Inl ''expired'') [])
      (sample_world (sample_disk [])) (Inl (Err_Auth ''expired'')) (start_state (sample_world (sample_disk [])))"
    by (rule auth_fails) (simp add: sample_input_def)
  with failed_run_stays_syncing [OF this] show ?thesis by blast
qed

end
