(* ===== verification/EngineSafety.thy ===== *)
theory EngineSafety
  imports Engine
begin

text \<open>
  Further properties of a sync run: that it ends, what it preserves of the user's data in a conflict, that
  what it records makes the next run quiet, and the cases in which the recorded baseline does harm.
\<close>

section \<open>Termination\<close>

text \<open>
  The pool with which a run begins its file phase: none if the run has returned before, without a token, after a failed
  discovery, or at an unusable path of a directory or a file.
\<close>

definition start_file_phase :: "'n env \<Rightarrow> EngineConfig \<Rightarrow> run_input \<Rightarrow> 'n world \<Rightarrow> ('n world, task_result) pool option" where
  "start_file_phase env cfg ri w =
     (case ri_token ri of
        Inl _ \<Rightarrow> None
      | Inr bearer \<Rightarrow>
          (case discover env cfg ri bearer (start_state w) of
             Some (Inr (ls, rs, evs), w1) \<Rightarrow>
               (let ins = pl_instructions (plan_of env cfg ri w1 ls rs) in
                case run (dir_phase env cfg bearer (dir_instructions ins) []) w1 of
                  (Inr errs, w2) \<Rightarrow>
                    (case spawn_tasks env cfg bearer (file_instructions ins) of
                       Inr tasks \<Rightarrow> Some (spawn (map snd tasks) w2)
                     | Inl _ \<Rightarrow> None)
                | (Inl _, _) \<Rightarrow> None)
           | _ \<Rightarrow> None))"

text \<open>A file phase that has finished all its tasks makes the run return.\<close>

lemma finished_file_phase_returns:
  assumes "start_file_phase env cfg ri w = Some q" "transfers cfg q (ts, js, w3)" "list_all is_finished ts"
  shows "\<exists>rep w'. run_sync env cfg ri w (Inr rep) w' \<and> w_disk w' = w_disk w3 \<and> w_db w' = w_db w3 \<and> w_net w' = w_net w3"
proof -
  obtain bearer where tok: "ri_token ri = Inr bearer"
    using assms(1) by (auto simp: start_file_phase_def split: sum.splits)
  obtain ls rs evs w1 where d: "discover env cfg ri bearer (start_state w) = Some (Inr (ls, rs, evs), w1)"
    using assms(1) tok by (auto simp: start_file_phase_def split: sum.splits option.splits prod.splits)
  define pl where "pl = plan_of env cfg ri w1 ls rs"
  obtain errs w2 where dr: "run (dir_phase env cfg bearer (dir_instructions (pl_instructions pl)) []) w1 = (Inr errs, w2)"
    using assms(1) tok d by (auto simp: start_file_phase_def Let_def pl_def [symmetric] split: sum.splits prod.splits)
  obtain tasks where sp: "spawn_tasks env cfg bearer (file_instructions (pl_instructions pl)) = Inr tasks"
      and q: "q = spawn (map snd tasks) w2"
    using assms(1) tok d dr by (auto simp: start_file_phase_def Let_def pl_def [symmetric] split: sum.splits)
  obtain evs' errs' where "join_results (map (\<lambda>i. task_result (ts ! i)) js) evs errs = (evs', errs')" by fastforce
  from completes [OF tok d pl_def dr sp assms(2) [unfolded q] assms(3) this] show ?thesis by fastforce
qed

text \<open>A run whose discovery ends returns before the file phase or begins it.\<close>

lemma run_sync_reaches_file_phase:
  assumes "\<And>bearer. discover env cfg ri bearer (start_state w) \<noteq> None" "start_file_phase env cfg ri w = None"
  shows "\<exists>out w'. run_sync env cfg ri w out w'"
proof (cases "ri_token ri")
  case (Inl e)
  then show ?thesis by (blast intro: auth_fails)
next
  case tok: (Inr bearer)
  obtain out w1 where d: "discover env cfg ri bearer (start_state w) = Some (out, w1)" using assms(1) [of bearer] by auto
  show ?thesis
  proof (cases out)
    case (Inl e)
    then show ?thesis using discovery_fails [OF tok] d by blast
  next
    case (Inr lre)
    obtain ls rs evs where lre: "lre = (ls, rs, evs)" by (cases lre)
    define pl where "pl = plan_of env cfg ri w1 ls rs"
    obtain dr w2 where dr: "run (dir_phase env cfg bearer (dir_instructions (pl_instructions pl)) []) w1 = (dr, w2)"
      by fastforce
    note d' = d [unfolded Inr lre]
    show ?thesis
    proof (cases dr)
      case (Inl e)
      then show ?thesis using dirs_fail [OF tok d' pl_def] dr by blast
    next
      case dirs: (Inr errs)
      then obtain e where "spawn_tasks env cfg bearer (file_instructions (pl_instructions pl)) = Inl e"
        using assms(2) tok d' dr by (auto simp: start_file_phase_def Let_def pl_def [symmetric] split: sum.splits)
      then show ?thesis using spawn_fails [OF tok d' pl_def dr [unfolded dirs]] by blast
    qed
  qed
qed

text \<open>Without a permit no task is ever taken up.\<close>

lemma no_permit_no_step:
  assumes "transfers cfg (spawn ps w) q" "cfg_max_parallel_transfers cfg = 0"
  shows "q = spawn ps w"
proof -
  have "\<not> transfer_step cfg (spawn ps w) r" for r
    using assms(2) by (cases r) (auto simp: transfer_step_def spawn_def elim!: pool_stepE)
  then show ?thesis using assms(1) by (metis converse_rtranclpE)
qed

lemma run_sync_needs_permit:
  assumes "run_sync env cfg ri w out w'" "start_file_phase env cfg ri w = Some q" "fst q \<noteq> []"
  shows "0 < cfg_max_parallel_transfers cfg"
  using assms(1)
proof (cases rule: run_sync.cases)
  case (completes bearer ls rs evs w1 pl errs w2 tasks ts js w3 evs' errs')
  then have q: "q = spawn (map snd tasks) w2" using assms(2) by (simp add: start_file_phase_def Let_def)
  show ?thesis
  proof (rule ccontr)
    assume "\<not> 0 < cfg_max_parallel_transfers cfg"
    with completes have "(ts, js, w3) = q" using no_permit_no_step [of cfg "map snd tasks" w2] q by simp
    then show False using completes q assms(3) by (cases tasks) (auto simp: spawn_def)
  qed
qed (use assms(2) in \<open>auto simp: start_file_phase_def Let_def\<close>)

lemma start_file_phase_spawn: "start_file_phase env cfg ri w = Some q \<Longrightarrow> \<exists>ps w2. q = spawn ps w2"
  by (auto simp: start_file_phase_def Let_def split: sum.splits option.splits prod.splits)

lemma discover_terminates:
  assumes "finite K" "\<And>u w files dirs evs w1.
      propfind_step (en_lib env) (en_net env) bearer (cfg_space_root cfg) u w = (Inr (files, dirs), evs, w1) \<Longrightarrow>
      collection_key ` set dirs \<subseteq> K"
    and "Suc (card K) \<le> ri_fuel ri"
  shows "discover env cfg ri bearer w \<noteq> None"
proof -
  have "card (K - {collection_key (cfg_space_root cfg)}) \<le> card K" by (rule card_Diff1_le)
  then have "discover_remote (ri_fuel ri) (en_lib env) (en_net env) (cfg_space_root cfg) bearer [] (w_net w) \<noteq> None"
    unfolding discover_remote_def
    using assms(3) by (intro discover_loop_terminates [OF assms(1,2)]) auto
  then show ?thesis by (auto simp: discover_def)
qed

lemma run_sync_returns_iff:
  assumes "\<And>bearer. discover env cfg ri bearer (start_state w) \<noteq> None"
  shows "(\<exists>out w'. run_sync env cfg ri w out w') \<longleftrightarrow>
      0 < cfg_max_parallel_transfers cfg \<or> (\<forall>q. start_file_phase env cfg ri w = Some q \<longrightarrow> fst q = [])" (is "?returns \<longleftrightarrow> ?can")
proof
  assume ?can
  show ?returns
  proof (cases "start_file_phase env cfg ri w")
    case None
    then show ?thesis using run_sync_reaches_file_phase assms by metis
  next
    case (Some q)
    have "\<exists>ts js w3. transfers cfg q (ts, js, w3) \<and> list_all is_finished ts"
    proof (cases "fst q = []")
      case True
      then have "q = ([], fst (snd q), snd (snd q))" by (cases q) simp
      then show ?thesis by (metis list.pred_inject(1) rtranclp.rtrancl_refl)
    next
      case False
      then show ?thesis using \<open>?can\<close> Some pool_completes [of "cfg_max_parallel_transfers cfg" q] by (auto simp: transfer_step_def)
    qed
    then show ?thesis using finished_file_phase_returns [OF Some] by blast
  qed
qed (use run_sync_needs_permit in blast)

section \<open>What the baseline means for the next run\<close>

abbreviation fetch_request :: "url \<Rightarrow> string \<Rightarrow> string \<Rightarrow> DownloadRequest" where
  "fetch_request u lp bearer \<equiv> \<lparr>dl_remote_url = u, dl_local_dest = lp, dl_expected_etag = None, dl_bearer_token = bearer\<rparr>"

lemma baseline_row:
  "flt (Get_Call p) = None \<Longrightarrow> baseline flt db p = (case journal_map db p of None \<Rightarrow> None | Some e \<Rightarrow> baseline_of e)"
  by (simp add: baseline_def get_entry_def db_query_def journal_map_def split: option.split)

lemma baseline_of_journal_row [simp]: "baseline_of (journal_row p et sz fid) = Some (et, sz)"
  by (simp add: baseline_of_def journal_row_def)

lemma baseline_after_upsert:
  assumes "flt (Get_Call p) = None" "flt (Upsert_Call p) = None"
  shows "baseline flt (snd (upsert_entry flt (journal_row p et sz fid) db)) p = Some (et, sz)"
  using assms by (simp add: baseline_row journal_map_upsert)

lemma mark_run [simp]:
  "run (mark p s a) w = (a, w\<lparr>w_state := set_file_status p s (w_state w)\<rparr>)"
  "run (unmark p a) w = (a, w\<lparr>w_state := clear_file_status p (w_state w)\<rparr>)"
  by (simp_all add: mark_def unmark_def on_state_def)

lemma finish_transfer_run:
  assumes "run (finish_transfer env p sz fid etag evs) w = (r, w')"
  shows "r = (evs, Inr ()) \<and> w_disk w' = w_disk w \<and>
    w_db w' = snd (upsert_entry (en_db env) (journal_row p (strip_quotes etag) sz fid) (w_db w))"
  using assms by (auto simp: finish_transfer_def on_db_def split: prod.splits)

lemma fail_transfer_run:
  "run (fail_transfer p e evs) w = ((evs, Inl e), w\<lparr>w_state := set_file_status p (File_Error (show_SyncError e)) (w_state w)\<rparr>)"
  by (simp add: fail_transfer_def)

text \<open>A fetch of a file, with what it does to the disk and to the journal.\<close>

lemma fetch_run:
  assumes "run (fetch env bearer lp u p rem) w = ((evs, res), w')" "disk_wf (w_disk w)"
    and "download_tmp (fetch_request u lp bearer) \<noteq> resolve lp"
  shows "(\<forall>q. q \<noteq> resolve (with_extension lp ''tmp'') \<and> q \<noteq> resolve lp \<longrightarrow> content (w_disk w') q = content (w_disk w) q) \<and>
    (\<forall>e. res = Inl e \<longrightarrow> content (w_disk w') (resolve lp) = content (w_disk w) (resolve lp) \<and> w_db w' = w_db w) \<and>
    (res = Inr () \<longrightarrow> (\<exists>resp bytes. fst (fst (send env (get_request (fetch_request u lp bearer)) w)) = Inr resp \<and>
        rs_status resp = 200 \<and> rs_body resp = Inr bytes \<and> content (w_disk w') (resolve lp) = Some bytes \<and>
        w_db w' = snd (upsert_entry (en_db env) (journal_row p (strip_quotes (header_or_empty ''etag'' resp))
          (len_or_zero (fs_metadata_len (en_fs env) (resolve lp) (w_disk w'))) (map_option re_file_id rem)) (w_db w))))"
proof -
  obtain r evs1 w1 where d: "run (propagate_download env (fetch_request u lp bearer)) w = ((r, evs1), w1)"
    by (metis prod.exhaust)
  note dl = propagate_download_run [OF d assms(2)] assms(3)
  show ?thesis
  proof (cases r)
    case (Inl e)
    then have "res = Inl e" "w_disk w' = w_disk w1" "w_db w' = w_db w1"
      using assms(1) d by (auto simp: fetch_def fail_transfer_run)
    then show ?thesis using dl Inl by simp
  next
    case (Inr etag)
    have "run (finish_transfer env p (len_or_zero (fs_metadata_len (en_fs env) (resolve lp) (w_disk w1)))
        (map_option re_file_id rem) etag evs1) w1 = ((evs, res), w')"
      using assms(1) d Inr by (auto simp: fetch_def look_disk_def)
    from finish_transfer_run [OF this] show ?thesis using dl Inr by auto
  qed
qed

lemma len_or_zero_content:
  assumes "content d p = Some c" "fs_fault fs (Metadata p) = None" "p \<noteq> []"
  shows "len_or_zero (fs_metadata_len fs p d) = of_nat (length c)"
  using assms by (auto simp: fs_metadata_len_def len_or_zero_def is_dir_at_def content_def)

text \<open>The request of an upload task.\<close>

abbreviation upload_request :: "EngineConfig \<Rightarrow> string \<Rightarrow> url \<Rightarrow> u64 \<Rightarrow> string \<Rightarrow> UploadRequest" where
  "upload_request cfg lp u sz bearer \<equiv> \<lparr>ul_local_path = lp, ul_remote_url = u, ul_space_root = cfg_space_root cfg, ul_size = sz,
    ul_checksum = None, ul_tus_threshold = cfg_tus_threshold cfg, ul_bearer_token = bearer\<rparr>"

lemma upload_task_run:
  assumes "run (upload_task env cfg bearer lp u p) w = ((evs, Inr ()), w')"
    and "sz = len_or_zero (fs_metadata_len (en_fs env) (resolve lp) (w_disk w))"
  shows "w_disk w' = w_disk w \<and>
    (\<exists>etag. fst (fst (run (propagate_upload env (upload_request cfg lp u sz bearer)) w)) = Inr etag \<and>
       w_db w' = snd (upsert_entry (en_db env) (journal_row p (strip_quotes etag) sz None) (w_db w)))"
proof -
  define req where "req = upload_request cfg lp u sz bearer"
  obtain r evs1 w1 where d: "run (propagate_upload env req) w = ((r, evs1), w1)" by (metis prod.exhaust)
  have "net_only w (snd (run (propagate_upload env req) w))"
    by (rule guarantee_run [OF propagate_upload_net_only]) (auto simp: net_only_def)
  then have n: "net_only w w1" using d by simp
  have step: "run (case r of Inr etag \<Rightarrow> finish_transfer env p sz None etag evs1 | Inl e \<Rightarrow> fail_transfer p e evs1) w1
      = ((evs, Inr ()), w')"
    using assms(1) d unfolding upload_task_def req_def assms(2) by (simp add: look_disk_def Let_def)
  then obtain etag where r: "r = Inr etag" by (cases r) (auto simp: fail_transfer_run)
  then have "run (finish_transfer env p sz None etag evs1) w1 = ((evs, Inr ()), w')" using step by simp
  from finish_transfer_run [OF this] n d r show ?thesis unfolding net_only_def req_def by (metis fst_conv)
qed

text \<open>The directory of a \<open>Download\<close> instruction, and the row recorded for it.\<close>

lemma dir_step_download_run:
  assumes "run (dir_step env cfg bearer ins) w = (Inr None, w')" "in_instr ins = Download"
  shows "w_db w' = snd (upsert_entry (en_db env) (journal_row (in_path ins) [] 0 (map_option re_file_id (in_remote ins))) (w_db w))"
  using assms
  by (cases "join_remote_path (lib_seg_encode (en_lib env)) (cfg_space_root cfg) (in_path ins)";
      cases "fst (fs_create_dir_all (en_fs env) (resolve (path_join (cfg_local_root cfg) (in_path ins))) (w_disk w))")
    (auto simp: dir_step_def Let_def on_db_def split_beta)

text \<open>Every run that finds this size and this etag ignores the path.\<close>

definition settled :: "db_fault \<Rightarrow> SyncJournalDb \<Rightarrow> string \<Rightarrow> string \<Rightarrow> u64 \<Rightarrow> bool" where
  "settled flt db p etag sz \<longleftrightarrow>
     (\<forall>l r s. le_size l = sz \<and> re_etag r = etag \<longrightarrow> reconcile (Some l) (Some r) (baseline flt db p) s = Ignore)"

lemma settled_upsert:
  "flt (Get_Call p) = None \<Longrightarrow> flt (Upsert_Call p) = None \<Longrightarrow>
     settled flt (snd (upsert_entry flt (journal_row p et sz fid) db)) p et sz"
  by (simp add: settled_def baseline_after_upsert)

lemma run_sync_frame:
  assumes "\<And>xs. mset (ri_order ri xs) = mset xs" "run_sync env cfg ri w out w'"
    and "\<And>bearer ls rs evs w1. discover env cfg ri bearer (start_state w) = Some (Inr (ls, rs, evs), w1) \<Longrightarrow>
      components p \<notin> set (pm_keys (local_map cfg ls)) \<union> set (pm_keys (remote_map rs))"
  shows "row_at w' p = row_at w p"
proof -
  have start: "row_at (start_state w) p = row_at w p" by (simp add: start_state_def)
  have after: "row_at w2 p = row_at w p \<and> components p \<notin> (\<lambda>i. components (in_path i)) ` set (pl_instructions pl)"
    if "discover env cfg ri bearer (start_state w) = Some (Inr (ls, rs, evs), w1)" "pl = plan_of env cfg ri w1 ls rs"
      "run (dir_phase env cfg bearer (dir_instructions (pl_instructions pl)) []) w1 = (dr, w2)"
    for bearer ls rs evs w1 pl dr w2
  proof -
    have np: "components p \<notin> (\<lambda>i. components (in_path i)) ` set (pl_instructions pl)"
      using plan_paths(2) [OF assms(1) that(2)] assms(3) [OF that(1)] by blast
    then have "components p \<notin> (\<lambda>i. components (in_path i)) ` set (dir_instructions (pl_instructions pl))"
      by (auto simp: dir_instructions_def)
    from dir_phase_keeps [OF this, of w1 env cfg bearer "[]"] np show ?thesis
      using discover_books [OF that(1)] that(3) start by (simp add: keeps_def)
  qed
  from assms(2) show ?thesis
  proof (cases rule: run_sync.cases)
    case (completes bearer ls rs evs w1 pl errs w2 tasks ts js w3 evs' errs')
    note a = after [OF completes(4-6)]
    have "components p \<notin> (\<lambda>i. components (in_path i)) ` set (file_instructions (pl_instructions pl))"
      using conjunct2 [OF a] by (auto simp: file_instructions_def)
    moreover have "distinct (map (\<lambda>i. components (in_path i)) (file_instructions (pl_instructions pl)))"
      using plan_paths(1) [OF assms(1) completes(5)] by (simp add: file_instructions_def distinct_map_filter)
    ultimately have "keeps p w2 w3" using file_phase(2) completes(7,8) unfolding transfer_step_def by blast
    then show ?thesis using a completes(2) by (simp add: keeps_def)
  next
    case (dirs_fail bearer ls rs evs w1 pl e)
    then show ?thesis using after [OF dirs_fail(3-5)] by simp
  next
    case (spawn_fails bearer ls rs evs w1 pl errs e)
    then show ?thesis using after [OF spawn_fails(3-5)] by simp
  next
    case (discovery_fails bearer e)
    then show ?thesis using discover_books [OF discovery_fails(3)] start by simp
  qed (use start in simp)
qed

section \<open>Conflicts\<close>

lemma conflict_task_run:
  assumes "run (conflict_task env bearer lp u p rem) w = ((evs, res), w')" "disk_wf (w_disk w)"
    and "content (w_disk w) (resolve lp) = Some c" "cp = resolve (make_conflict_path (en_now env (w_net w)) lp)"
    and "cp \<noteq> resolve lp"
  obtains (kept) e where "res = Inl e" "w_disk w' = w_disk w" "w_db w' = w_db w"
  | (moved) w1 where "run (fetch env bearer lp u p rem) w1 = ((evs, res), w')" "disk_wf (w_disk w1)" "w_net w1 = w_net w"
      "w_db w1 = w_db w" "content (w_disk w1) cp = Some c" "content (w_disk w1) (resolve lp) = None"
      "\<forall>q. q \<noteq> cp \<and> q \<noteq> resolve lp \<longrightarrow> content (w_disk w1) q = content (w_disk w) q"
proof (cases "fst (fs_rename (en_fs env) (resolve lp) cp (w_disk w))")
  case (Inl e)
  then have "snd (fs_rename (en_fs env) (resolve lp) cp (w_disk w)) = w_disk w"
    using fs_rename_fail by (metis prod.collapse)
  then show ?thesis
    using assms(1) Inl by (intro kept [of "Err_Io (io_msg e)"]) (auto simp: conflict_task_def now_of_def assms(4) [symmetric])
next
  case (Inr x)
  let ?rn = "fs_rename (en_fs env) (resolve lp) cp (w_disk w)" and ?w1 = "w\<lparr>w_disk := snd (fs_rename (en_fs env) (resolve lp) cp (w_disk w))\<rparr>"
  obtain i where i: "fs_tree (w_disk w) (resolve lp) = Some (FFile i)"
    using assms(3) by (auto simp: content_def split: option.splits fs_node.splits)
  have rn: "?rn = (Inr (), snd ?rn)" using Inr by (metis old.unit.exhaust prod.collapse)
  show ?thesis
  proof (rule moved [of ?w1])
    show "run (fetch env bearer lp u p rem) ?w1 = ((evs, res), w')"
      using assms(1) Inr by (simp add: conflict_task_def now_of_def assms(4) [symmetric])
    show "disk_wf (w_disk ?w1)" using disk_wf_rename_file [OF assms(2) i] by simp
    show "\<forall>q. q \<noteq> cp \<and> q \<noteq> resolve lp \<longrightarrow> content (w_disk ?w1) q = content (w_disk w) q"
      using fs_rename_file_frame i by simp
  qed (use fs_rename_file_ok [OF rn assms(3)] assms(5) in \<open>auto simp: content_None_iff\<close>)
qed

section \<open>Properties\<close>

text \<open>
  C19: A run returns, if it can. If the server names finitely many collections, a run returns from every world,
  unless it is configured with no transfer at a time and there is a file to transfer: then it never returns. However the
  tasks of its file phase are scheduled, at most the configured number of them is active at any moment, no schedule goes on
  forever, as long as a transfer is allowed one of the unfinished tasks can go on, and once all have finished the run returns
  a report on the files and the journal they have left.
\<close>

theorem run_sync_returns:
  fixes env :: "'n env"
  assumes "finite K" "\<And>bearer u w files dirs evs w1.
      propfind_step (en_lib env) (en_net env) bearer (cfg_space_root cfg) u w = (Inr (files, dirs), evs, w1) \<Longrightarrow>
      collection_key ` set dirs \<subseteq> K"
    and "Suc (card K) \<le> ri_fuel ri"
  shows "((\<exists>out w'. run_sync env cfg ri w out w') \<longleftrightarrow>
      0 < cfg_max_parallel_transfers cfg \<or> (\<forall>q. start_file_phase env cfg ri w = Some q \<longrightarrow> fst q = [])) \<and>
    (\<forall>q ts js w3. start_file_phase env cfg ri w = Some q \<and> transfers cfg q (ts, js, w3) \<longrightarrow>
       running_tasks ts \<le> cfg_max_parallel_transfers cfg \<and>
       (if list_all is_finished ts
        then \<exists>rep w'. run_sync env cfg ri w (Inr rep) w' \<and> w_disk w' = w_disk w3 \<and> w_db w' = w_db w3 \<and> w_net w' = w_net w3
        else 0 < cfg_max_parallel_transfers cfg \<longrightarrow> (\<exists>r. transfer_step cfg (ts, js, w3) r))) \<and>
    (\<nexists>sched. start_file_phase env cfg ri w = Some (sched 0) \<and> (\<forall>n. transfer_step cfg (sched n) (sched (Suc n))))"
proof (intro conjI allI impI)
  show "(\<exists>out w'. run_sync env cfg ri w out w') \<longleftrightarrow>
      0 < cfg_max_parallel_transfers cfg \<or> (\<forall>q. start_file_phase env cfg ri w = Some q \<longrightarrow> fst q = [])"
    by (rule run_sync_returns_iff) (rule discover_terminates [OF assms])
  fix q ts js w3
  assume r: "start_file_phase env cfg ri w = Some q \<and> transfers cfg q (ts, js, w3)"
  then obtain ps w2 where "q = spawn ps w2" using start_file_phase_spawn by blast
  with r show "running_tasks ts \<le> cfg_max_parallel_transfers cfg"
    using pool_run_permits [of "cfg_max_parallel_transfers cfg" ps w2 ts js w3] by (simp add: transfer_step_def)
  show "if list_all is_finished ts
        then \<exists>rep w'. run_sync env cfg ri w (Inr rep) w' \<and> w_disk w' = w_disk w3 \<and> w_db w' = w_db w3 \<and> w_net w' = w_net w3
        else 0 < cfg_max_parallel_transfers cfg \<longrightarrow> (\<exists>r. transfer_step cfg (ts, js, w3) r)"
  proof (cases "list_all is_finished ts")
    case True
    then show ?thesis using finished_file_phase_returns [of env cfg ri w q ts js w3] r by simp
  next
    case False
    then show ?thesis using pool_progress [OF _ False, of "cfg_max_parallel_transfers cfg" js w3] by (simp add: transfer_step_def)
  qed
next
  show "\<nexists>sched. start_file_phase env cfg ri w = Some (sched 0) \<and> (\<forall>n. transfer_step cfg (sched n) (sched (Suc n)))"
    using pool_terminates [of "cfg_max_parallel_transfers cfg"]
    unfolding transfer_step_def wfp_def wf_iff_no_infinite_down_chain by auto
qed

text \<open>
  A server with two nested collections, which it lists in every answer, and a local folder with two new files: the run asks for
  three collections, makes two directories and begins its file phase with two uploads.
\<close>

definition listing_env :: "unit env" where
  "listing_env = (sample_env (sample_response 207 []) reliable_fs)\<lparr>en_lib := sample_lib\<rparr>"

abbreviation two_files :: run_input where
  "two_files \<equiv> sample_input (Inr ''t'') [Ent_File ''f'' None 3 1, Ent_File ''g'' None 3 2]"

abbreviation two_files_world :: "unit world" where
  "two_files_world \<equiv> sample_world (sample_disk [(''f'', ''old''), (''g'', ''new'')])"

lemma two_files_start:
  "map_option (length \<circ> fst) (start_file_phase listing_env sample_cfg two_files two_files_world) = Some 2"
  "map_option (length \<circ> fst) (start_file_phase listing_env (sample_cfg\<lparr>cfg_max_parallel_transfers := 0\<rparr>) two_files two_files_world) = Some 2"
  by code_simp+

theorem run_sync_returns_witness:
  "\<exists>q out w'. start_file_phase listing_env sample_cfg two_files two_files_world = Some q \<and> length (fst q) = 2 \<and>
     run_sync listing_env sample_cfg two_files two_files_world out w' \<and>
     (\<forall>ts js w3. transfers sample_cfg q (ts, js, w3) \<longrightarrow> running_tasks ts \<le> 2) \<and>
     (\<nexists>out w'. run_sync listing_env (sample_cfg\<lparr>cfg_max_parallel_transfers := 0\<rparr>) two_files two_files_world out w')"
proof -
  let ?none = "sample_cfg\<lparr>cfg_max_parallel_transfers := 0\<rparr>" and ?K = "{''/s/d'', ''/s/d/f''} :: string set"
  have K: "collection_key ` set dirs \<subseteq> ?K"
    if "propfind_step (en_lib listing_env) (en_net listing_env) bearer sample_root u w = (Inr (files, dirs), evs, w1)"
    for bearer u w files dirs evs w1
    using that sample_dirs_of_answer [of "[]" u files dirs]
    by (simp add: propfind_step_def listing_env_def sample_env_def sample_response_def)
  obtain q where q: "start_file_phase listing_env sample_cfg two_files two_files_world = Some q" "length (fst q) = 2"
    using two_files_start(1) by auto
  obtain q0 where q0: "start_file_phase listing_env ?none two_files two_files_world = Some q0" "fst q0 \<noteq> []"
    using two_files_start(2) by fastforce
  have root: "cfg_space_root sample_cfg = sample_root" "cfg_space_root ?none = sample_root" "Suc (card ?K) \<le> ri_fuel two_files"
      "cfg_max_parallel_transfers sample_cfg = 2"
    by (simp_all add: sample_cfg_def sample_input_def)
  note ok = run_sync_returns [of ?K listing_env sample_cfg two_files two_files_world]
    and zero = run_sync_returns [of ?K listing_env ?none two_files two_files_world]
  have "\<exists>out w'. run_sync listing_env sample_cfg two_files two_files_world out w'"
    by (rule ok [THEN conjunct1, THEN iffD2]) (use K root in auto)
  moreover have "running_tasks ts \<le> 2" if "transfers sample_cfg q (ts, js, w3)" for ts js w3
  proof -
    have "running_tasks ts \<le> cfg_max_parallel_transfers sample_cfg"
      by (rule ok [THEN conjunct2, THEN conjunct1, rule_format, THEN conjunct1]) (use K root q that in auto)
    then show ?thesis using root(4) by simp
  qed
  moreover have "(\<exists>out w'. run_sync listing_env ?none two_files two_files_world out w') \<longleftrightarrow>
      0 < cfg_max_parallel_transfers ?none \<or> (\<forall>q. start_file_phase listing_env ?none two_files two_files_world = Some q \<longrightarrow> fst q = [])"
    by (rule zero [THEN conjunct1]) (use K root in auto)
  then have "\<nexists>out w'. run_sync listing_env ?none two_files two_files_world out w'" using q0 by auto
  ultimately show ?thesis using q by blast
qed

text \<open>
  C20: A conflict never loses the local version. When the conflict task of a file runs undisturbed and
  the local path, its conflict name and the download's temporary name are three different paths, then
  afterwards the old local contents are in the conflict file, or, if the task failed before, still in place; a task
  that succeeds leaves them in the conflict file and the body of a 200 response at the local path. No fourth file changes.
\<close>

theorem conflict_keeps_local_version:
  assumes "run (conflict_task env bearer lp u p rem) w = ((evs, res), w')" "disk_wf (w_disk w)"
    and "content (w_disk w) (resolve lp) = Some c" "cp = resolve (make_conflict_path (en_now env (w_net w)) lp)"
    and "distinct [cp, resolve lp, resolve (with_extension lp ''tmp'')]"
  shows "(content (w_disk w') cp = Some c \<or> content (w_disk w') (resolve lp) = Some c \<and> (\<exists>e. res = Inl e)) \<and>
    (res = Inr () \<longrightarrow> content (w_disk w') cp = Some c \<and>
       (\<exists>resp bytes. fst (net_send (en_net env) (get_request (fetch_request u lp bearer)) (w_net w)) = Inr resp \<and>
          rs_status resp = 200 \<and> rs_body resp = Inr bytes \<and> content (w_disk w') (resolve lp) = Some bytes)) \<and>
    (\<forall>q. q \<notin> {cp, resolve lp, resolve (with_extension lp ''tmp'')} \<longrightarrow> content (w_disk w') q = content (w_disk w) q)"
proof -
  have cp: "cp \<noteq> resolve lp" using assms(5) by auto
  show ?thesis
  proof (rule conflict_task_run [OF assms(1-4) cp])
    fix e assume "res = Inl e" "w_disk w' = w_disk w"
    then show ?thesis using assms(3) by simp
  next
    fix w1 assume f: "run (fetch env bearer lp u p rem) w1 = ((evs, res), w')" "disk_wf (w_disk w1)" "w_net w1 = w_net w"
      "content (w_disk w1) cp = Some c"
      "\<forall>q. q \<noteq> cp \<and> q \<noteq> resolve lp \<longrightarrow> content (w_disk w1) q = content (w_disk w) q"
    have "download_tmp (fetch_request u lp bearer) \<noteq> resolve lp" using assms(5) by auto
    note fr = fetch_run [OF f(1,2) this]
    have "fst (fst (send env (get_request (fetch_request u lp bearer)) w1)) =
        fst (net_send (en_net env) (get_request (fetch_request u lp bearer)) (w_net w))"
      by (simp add: send_def f(3) split_beta)
    then show ?thesis using fr f(4,5) assms(5) by auto
  qed
qed

lemma conflict_sample:
  "make_conflict_path 42 ''/s/f.txt'' = ''/s/f_conflict_42.txt''" "resolve ''/s/f_conflict_42.txt'' = [''s'', ''f_conflict_42.txt'']"
  by code_simp+

theorem conflict_keeps_local_version_witness:
  "let env = sample_env (sample_response 200 ''new'') reliable_fs;
       w = sample_world (sample_disk [(''f.txt'', ''old''), (''f.tmp'', ''mine'')]);
       r = run (conflict_task env ''t'' ''/s/f.txt'' sample_root ''f.txt'' None) w
   in snd (fst r) = Inr () \<and> content (w_disk (snd r)) [''s'', ''f_conflict_42.txt''] = Some ''old'' \<and>
      content (w_disk (snd r)) [''s'', ''f.txt''] = Some ''new''"
proof -
  let ?env = "sample_env (sample_response 200 ''new'') reliable_fs"
  let ?w = "sample_world (sample_disk [(''f.txt'', ''old''), (''f.tmp'', ''mine'')])"
  let ?p = "conflict_task ?env ''t'' ''/s/f.txt'' sample_root ''f.txt'' None"
  have res: "snd (fst (run ?p ?w)) = Inr ()" by code_simp
  obtain evs w' where run: "run ?p ?w = ((evs, Inr ()), w')" using res by (metis prod.collapse)
  have c: "content (w_disk ?w) (resolve ''/s/f.txt'') = Some ''old''" by code_simp
  have "en_now ?env (w_net ?w) = 42" "fst (net_send (en_net ?env) rq (w_net ?w)) = Inr (sample_response 200 ''new'')" for rq
    by (simp_all add: sample_env_def)
  then show ?thesis
    using conflict_keeps_local_version [OF run _ c] run disk_wf_sample
    by (simp add: sample_world_def resolve_sample sample_response_def conflict_sample)
qed

text \<open>
  C21: A transfer that succeeded is not repeated. After an undisturbed download or upload of a file
  that succeeded, the journal being readable and writable, the next run ignores the file, whatever the conflict
  strategy, as long as it finds the size that is on the disk now and the etag that the server gave with the transfer.
\<close>

theorem successful_transfer_settles:
  assumes "en_db env (Get_Call p) = None" "en_db env (Upsert_Call p) = None" "disk_wf (w_disk w)" "resolve lp \<noteq> []"
    and "fs_fault (en_fs env) (Metadata (resolve lp)) = None" "download_tmp (fetch_request u lp bearer) \<noteq> resolve lp"
  shows "(run (fetch env bearer lp u p rem) w = ((evs, Inr ()), w') \<longrightarrow>
      (\<exists>resp bytes. fst (fst (send env (get_request (fetch_request u lp bearer)) w)) = Inr resp \<and>
         content (w_disk w') (resolve lp) = Some bytes \<and>
         settled (en_db env) (w_db w') p (strip_quotes (header_or_empty ''etag'' resp)) (of_nat (length bytes)))) \<and>
    (run (upload_task env cfg bearer lp u p) w = ((evs, Inr ()), w') \<and> content (w_disk w) (resolve lp) = Some bytes \<longrightarrow>
      (\<exists>etag. fst (fst (run (propagate_upload env (upload_request cfg lp u (of_nat (length bytes)) bearer)) w)) = Inr etag \<and>
         content (w_disk w') (resolve lp) = Some bytes \<and>
         settled (en_db env) (w_db w') p (strip_quotes etag) (of_nat (length bytes))))"
proof (intro conjI impI)
  assume "run (fetch env bearer lp u p rem) w = ((evs, Inr ()), w')"
  from fetch_run [OF this assms(3,6)] obtain resp b where r:
      "fst (fst (send env (get_request (fetch_request u lp bearer)) w)) = Inr resp" "content (w_disk w') (resolve lp) = Some b"
      "w_db w' = snd (upsert_entry (en_db env) (journal_row p (strip_quotes (header_or_empty ''etag'' resp))
         (len_or_zero (fs_metadata_len (en_fs env) (resolve lp) (w_disk w'))) (map_option re_file_id rem)) (w_db w))"
    by blast
  show "\<exists>resp bytes. fst (fst (send env (get_request (fetch_request u lp bearer)) w)) = Inr resp \<and>
         content (w_disk w') (resolve lp) = Some bytes \<and>
         settled (en_db env) (w_db w') p (strip_quotes (header_or_empty ''etag'' resp)) (of_nat (length bytes))"
    using r settled_upsert [OF assms(1,2)] len_or_zero_content [OF r(2) assms(5,4)]
    by (intro exI [of _ resp] exI [of _ b]) simp
next
  assume a: "run (upload_task env cfg bearer lp u p) w = ((evs, Inr ()), w') \<and> content (w_disk w) (resolve lp) = Some bytes"
  then have len: "of_nat (length bytes) = len_or_zero (fs_metadata_len (en_fs env) (resolve lp) (w_disk w))"
    using len_or_zero_content [OF _ assms(5,4)] by simp
  from upload_task_run [OF conjunct1 [OF a] len] a settled_upsert [OF assms(1,2)]
  show "\<exists>etag. fst (fst (run (propagate_upload env (upload_request cfg lp u (of_nat (length bytes)) bearer)) w)) = Inr etag \<and>
         content (w_disk w') (resolve lp) = Some bytes \<and>
         settled (en_db env) (w_db w') p (strip_quotes etag) (of_nat (length bytes))"
    by auto
qed

theorem successful_transfer_settles_witness:
  "let w' = snd (run (fetch (sample_env (sample_response 200 ''new'') reliable_fs) ''t'' ''/s/f.txt'' sample_root ''f.txt'' None)
        (sample_world (sample_disk [(''f.txt'', ''old''), (''f.tmp'', ''mine'')])))
   in \<exists>bytes. content (w_disk w') [''s'', ''f.txt''] = Some bytes \<and> settled no_db_fault (w_db w') ''f.txt'' ''e9'' (of_nat (length bytes))"
proof -
  let ?env = "sample_env (sample_response 200 ''new'') reliable_fs"
  let ?w = "sample_world (sample_disk [(''f.txt'', ''old''), (''f.tmp'', ''mine'')])"
  let ?p = "fetch ?env ''t'' ''/s/f.txt'' sample_root ''f.txt'' None"
  have res: "snd (fst (run ?p ?w)) = Inr ()" by code_simp
  obtain evs w' where run: "run ?p ?w = ((evs, Inr ()), w')" using res by (metis prod.collapse)
  have env: "en_db ?env = no_db_fault" "fs_fault (en_fs ?env) c = None"
      "fst (fst (send ?env rq ?w)) = Inr (sample_response 200 ''new'')" for c rq
    by (simp_all add: sample_env_def send_def)
  have etag: "strip_quotes (header_or_empty ''etag'' (sample_response 200 ''new'')) = ''e9''" by code_simp
  have "\<exists>bytes. content (w_disk w') [''s'', ''f.txt''] = Some bytes \<and> settled no_db_fault (w_db w') ''f.txt'' ''e9'' (of_nat (length bytes))"
    using successful_transfer_settles [where env = ?env and p = "''f.txt''" and lp = "''/s/f.txt''" and w = ?w and bearer = "''t''"
      and rem = None and u = sample_root and evs = evs and w' = w' and cfg = sample_cfg] run env etag disk_wf_sample
    by (simp add: resolve_sample sample_world_def)
  then show ?thesis using run by simp
qed

text \<open>
  Directories never settle. The run that creates a directory found on the server records the empty
  etag for it, so every later run that finds the directory on both sides, with a server that has etags, is told to
  download it again, and again counts it as a download.
\<close>

theorem downloaded_directory_never_settles:
  assumes "run (dir_step env cfg bearer ins) w = (Inr None, w')" "in_instr ins = Download"
    and "en_db env (Get_Call (in_path ins)) = None" "en_db env (Upsert_Call (in_path ins)) = None"
    and "le_size l = 0" "re_etag r \<noteq> []"
  shows "reconcile (Some l) (Some r) (baseline (en_db env) (w_db w') (in_path ins)) s = Download"
  using assms(5,6) unfolding dir_step_download_run [OF assms(1,2)]
  by (simp add: baseline_after_upsert [OF assms(3,4)])

definition sample_mkdir :: instruction where
  "sample_mkdir = \<lparr>in_path = ''d'', in_instr = Download,
     in_remote = Some \<lparr>re_path = ''d'', re_etag = ''e1'', re_mtime = 0, re_size = 0, re_file_id = ''1'', re_permissions = 0, re_is_dir = True\<rparr>,
     in_is_dir = True\<rparr>"

theorem downloaded_directory_never_settles_witness:
  "let w' = snd (run (dir_step (sample_env (sample_response 207 []) reliable_fs) sample_cfg ''t'' sample_mkdir) (sample_world (sample_disk [])))
   in is_dir_at (w_disk w') [''s'', ''d''] \<and>
      reconcile (Some (dir_entry ''/s/d'' None 7)) (in_remote sample_mkdir) (baseline no_db_fault (w_db w') ''d'') KeepBoth = Download"
proof -
  let ?env = "sample_env (sample_response 207 []) reliable_fs"
  let ?r = "run (dir_step ?env sample_cfg ''t'' sample_mkdir) (sample_world (sample_disk []))"
  have res: "fst ?r = Inr None" "is_dir_at (w_disk (snd ?r)) [''s'', ''d'']" by code_simp+
  have run: "?r = (Inr None, snd ?r)" using res(1) by (metis prod.collapse)
  have "en_db ?env = no_db_fault" by (simp add: sample_env_def)
  with downloaded_directory_never_settles [OF run, of "dir_entry ''/s/d'' None 7" _ KeepBoth] res(2) show ?thesis
    by (simp add: sample_mkdir_def dir_entry_def)
qed

text \<open>
  The journal row of a path that has vanished on both sides is never removed, and later costs a
  file. A run in which neither listing has the path leaves its row as it was, whatever the outcome of the run; and as
  long as that row has an etag and a size, a file that is newly created at the path is not uploaded: the
  reconciler orders its deletion.
\<close>

theorem stale_row_deletes_new_file:
  assumes "\<And>xs. mset (ri_order ri xs) = mset xs" "run_sync env cfg ri w out w'"
    and "\<And>bearer ls rs evs w1. discover env cfg ri bearer (start_state w) = Some (Inr (ls, rs, evs), w1) \<Longrightarrow>
      components p \<notin> set (pm_keys (local_map cfg ls)) \<union> set (pm_keys (remote_map rs))"
    and "flt (Get_Call p) = None" "row_at w p = Some e" "je_etag e = Some et" "je_size e = Some sz"
  shows "row_at w' p = Some e \<and> reconcile (Some l) None (baseline flt (w_db w') p) s = DeleteLocal"
proof -
  have "row_at w' p = Some e" using run_sync_frame [OF assms(1-3)] assms(5) by simp
  moreover from this have "baseline flt (w_db w') p = Some (et, sz)"
    using assms(4,6,7) by (simp add: baseline_row baseline_of_def)
  ultimately show ?thesis by simp
qed

definition sample_journal :: "unit world" where
  "sample_journal = (sample_world (sample_disk []))\<lparr>w_db := snd (upsert_entry no_db_fault (journal_row ''f.txt'' ''e1'' 3 None) empty_db)\<rparr>"

theorem stale_row_deletes_new_file_witness:
  "\<exists>rep w'. run_sync (sample_env (sample_response 207 []) reliable_fs) sample_cfg (sample_input (Inr ''t'') []) sample_journal (Inr rep) w' \<and>
     reconcile (Some (file_entry ''/s/f.txt'' None 8 9)) None (baseline no_db_fault (w_db w') ''f.txt'') KeepBoth = DeleteLocal"
proof -
  let ?env = "sample_env (sample_response 207 []) reliable_fs" and ?ri = "sample_input (Inr ''t'') []"
  obtain rep w' where run: "run_sync ?env sample_cfg ?ri sample_journal (Inr rep) w'" using sample_run_completes by blast
  have row: "row_at sample_journal ''f.txt'' = Some (journal_row ''f.txt'' ''e1'' 3 None)"
    by (simp add: sample_journal_def journal_map_upsert)
  have "row_at w' ''f.txt'' = Some (journal_row ''f.txt'' ''e1'' 3 None) \<and>
      reconcile (Some (file_entry ''/s/f.txt'' None 8 9)) None (baseline no_db_fault (w_db w') ''f.txt'') KeepBoth = DeleteLocal"
  proof (rule stale_row_deletes_new_file [OF _ run _ _ row])
    fix bearer ls rs evs w1
    assume "discover ?env sample_cfg ?ri bearer (start_state sample_journal) = Some (Inr (ls, rs, evs), w1)"
    then have "ls = [] \<and> rs = []" using sample_discover [of "Inr ''t''" bearer "start_state sample_journal"] by auto
    then show "components ''f.txt'' \<notin> set (pm_keys (local_map sample_cfg ls)) \<union> set (pm_keys (remote_map rs))"
      by (simp add: local_map_def remote_map_def pm_collect_def)
  qed (simp_all add: sample_input_def journal_row_def)
  with run show ?thesis by blast
qed

text \<open>
  The server chooses where a download is written. A response whose \<open>href\<close> climbs out of the
  space root is accepted by the parser; the entry gets the relative path \<open>../passwd\<close>; reconciliation orders its
  download; and the file task, with a reliable disk, writes the body outside the local sync root.
\<close>

theorem remote_path_escapes_root:
  "let xml = [Ev_Start ''response''] @ text_element ''href'' ''/s/../passwd'' @ text_element ''getetag'' ''e1'' @ [Ev_End ''response''];
       env = sample_env (sample_response 200 ''evil'') reliable_fs;
       parsed = parse_propfind (id_lib\<lparr>lib_xml := \<lambda>_. xml\<rparr>) [] sample_root sample_root
   in case parsed of
        Inl _ \<Rightarrow> False
      | Inr (files, _) \<Rightarrow>
          (let ins = instruction_for no_db_fault sample_cfg empty_db [] (remote_map files) ''../passwd''
           in in_instr ins = Download \<and>
              (case file_task env sample_cfg ''t'' ins sample_root of
                 None \<Rightarrow> False
               | Some task \<Rightarrow> content (w_disk (snd (run task (sample_world (sample_disk []))))) [''passwd''] = Some ''evil''))"
  by code_simp

end
