(* ===== verification/Scheduler.thy ===== *)
theory Scheduler
  imports Prelude
begin

text \<open>
  The sync scheduler of the daemon (\<open>crates/daemon/src/scheduler.rs\<close>): per folder three flags and the
  time of the last run. The iteration order of the \<open>HashMap\<close> is unspecified and is a parameter of the
  one operation that iterates, \<open>ready_to_run\<close>.
\<close>

section \<open>State and operations\<close>

record FolderScheduleState =
  paused :: bool
  running :: bool
  pending :: bool
  last_sync :: "system_time option"

definition default_schedule :: FolderScheduleState where
  "default_schedule = \<lparr>paused = False, running = False, pending = False, last_sync = None\<rparr>"

type_synonym SyncScheduler = "uuid \<rightharpoonup> FolderScheduleState"

definition new_scheduler :: "uuid list \<Rightarrow> SyncScheduler" where
  "new_scheduler ids = fold (\<lambda>i m. m(i \<mapsto> default_schedule)) ids Map.empty"

definition add_folder :: "uuid \<Rightarrow> SyncScheduler \<Rightarrow> SyncScheduler" where
  "add_folder i m = (case m i of Some _ \<Rightarrow> m | None \<Rightarrow> m(i \<mapsto> default_schedule))"

definition with_state :: "uuid \<Rightarrow> (FolderScheduleState \<Rightarrow> FolderScheduleState) \<Rightarrow> SyncScheduler \<Rightarrow> SyncScheduler" where
  "with_state i f m = (case m i of Some s \<Rightarrow> m(i \<mapsto> f s) | None \<Rightarrow> m)"

definition request_sync :: "uuid \<Rightarrow> SyncScheduler \<Rightarrow> SyncScheduler" where
  "request_sync i = with_state i (\<lambda>s. if \<not> running s \<and> \<not> paused s then s\<lparr>pending := True\<rparr> else s)"

definition force_request_sync :: "uuid \<Rightarrow> SyncScheduler \<Rightarrow> SyncScheduler" where
  "force_request_sync i = with_state i (\<lambda>s. if \<not> paused s then s\<lparr>pending := True\<rparr> else s)"

definition start_sync :: "uuid \<Rightarrow> SyncScheduler \<Rightarrow> SyncScheduler" where
  "start_sync i = with_state i (\<lambda>s. s\<lparr>running := True, pending := False\<rparr>)"

definition finish_sync :: "system_time \<Rightarrow> uuid \<Rightarrow> SyncScheduler \<Rightarrow> SyncScheduler" where
  "finish_sync now i = with_state i (\<lambda>s. s\<lparr>running := False, last_sync := Some now\<rparr>)"

definition pause :: "uuid \<Rightarrow> SyncScheduler \<Rightarrow> SyncScheduler" where
  "pause i = with_state i (\<lambda>s. s\<lparr>paused := True\<rparr>)"

definition resume :: "uuid \<Rightarrow> SyncScheduler \<Rightarrow> SyncScheduler" where
  "resume i = with_state i (\<lambda>s. s\<lparr>paused := False\<rparr>)"

definition is_ready :: "FolderScheduleState \<Rightarrow> bool" where
  "is_ready s \<longleftrightarrow> pending s \<and> \<not> running s \<and> \<not> paused s"

definition ready_to_run :: "uuid list \<Rightarrow> SyncScheduler \<Rightarrow> uuid list" where
  "ready_to_run order m = filter (\<lambda>i. case m i of Some s \<Rightarrow> is_ready s | None \<Rightarrow> False) order"

definition iteration_order :: "uuid list \<Rightarrow> SyncScheduler \<Rightarrow> bool" where
  "iteration_order order m \<longleftrightarrow> distinct order \<and> set order = dom m"

definition folder_status :: "uuid \<Rightarrow> SyncScheduler \<Rightarrow> string option" where
  "folder_status i m = map_option (\<lambda>s. if paused s then ''paused'' else if running s then ''syncing'' else ''idle'') (m i)"

text \<open>The tick of the daemon: collect the ready folders and mark each of them started.\<close>

definition tick_start :: "uuid list \<Rightarrow> SyncScheduler \<Rightarrow> uuid list \<times> SyncScheduler" where
  "tick_start order m = (let ids = ready_to_run order m in (ids, fold start_sync ids m))"

lemmas sched_defs =
  with_state_def request_sync_def force_request_sync_def start_sync_def finish_sync_def pause_def resume_def
  add_folder_def

section \<open>Runs of the scheduler\<close>

datatype sched_event =
    Add uuid | Request uuid | Force uuid | Start uuid | Finish system_time uuid | Pause uuid | Resume uuid

fun sched_apply :: "sched_event \<Rightarrow> SyncScheduler \<Rightarrow> SyncScheduler" where
  "sched_apply (Add i) = add_folder i"
| "sched_apply (Request i) = request_sync i"
| "sched_apply (Force i) = force_request_sync i"
| "sched_apply (Start i) = start_sync i"
| "sched_apply (Finish now i) = finish_sync now i"
| "sched_apply (Pause i) = pause i"
| "sched_apply (Resume i) = resume i"

text \<open>
  A run in which a folder is started only when \<open>ready_to_run\<close> returned it, as the daemon's tick does
  under one lock, and finished only by the task that was started for it.
\<close>

inductive sched_run :: "SyncScheduler \<Rightarrow> sched_event list \<Rightarrow> SyncScheduler \<Rightarrow> bool" where
  run_Nil: "sched_run m [] m"
| run_snoc: "sched_run m tr m1 \<Longrightarrow>
    (\<forall>i. e = Start i \<longrightarrow> (\<exists>s. m1 i = Some s \<and> is_ready s)) \<Longrightarrow>
    (\<forall>now i. e = Finish now i \<longrightarrow> (\<exists>s. m1 i = Some s \<and> running s)) \<Longrightarrow>
    sched_run m (tr @ [e]) (sched_apply e m1)"

fun starts :: "uuid \<Rightarrow> sched_event \<Rightarrow> bool" where
  "starts i (Start j) \<longleftrightarrow> i = j"
| "starts i _ \<longleftrightarrow> False"

fun finishes :: "uuid \<Rightarrow> sched_event \<Rightarrow> bool" where
  "finishes i (Finish _ j) \<longleftrightarrow> i = j"
| "finishes i _ \<longleftrightarrow> False"

fun event_folder :: "sched_event \<Rightarrow> uuid" where
  "event_folder (Add i) = i"
| "event_folder (Request i) = i"
| "event_folder (Force i) = i"
| "event_folder (Start i) = i"
| "event_folder (Finish _ i) = i"
| "event_folder (Pause i) = i"
| "event_folder (Resume i) = i"

definition count_if :: "('a \<Rightarrow> bool) \<Rightarrow> 'a list \<Rightarrow> nat" where
  "count_if P xs = length (filter P xs)"

lemma count_if_snoc [simp]: "count_if P (xs @ [x]) = count_if P xs + (if P x then 1 else 0)"
  by (simp add: count_if_def)

lemma count_if_Nil [simp]: "count_if P [] = 0"
  by (simp add: count_if_def)

section \<open>The contract of a per-folder update\<close>

text \<open>
  Every operation changes the entry of its own folder at most, and only if the folder is known. The
  locale collects what follows from that; each operation is an instance of it.
\<close>

locale folder_update =
  fixes upd :: "uuid \<Rightarrow> SyncScheduler \<Rightarrow> SyncScheduler"
    and f :: "FolderScheduleState \<Rightarrow> FolderScheduleState"
  assumes upd_is: "upd i m = (case m i of Some s \<Rightarrow> m(i \<mapsto> f s) | None \<Rightarrow> m)"
begin

lemma upd_same: "upd i m i = map_option f (m i)"
  by (simp add: upd_is split: option.splits)

lemma upd_other: "j \<noteq> i \<Longrightarrow> upd i m j = m j"
  by (simp add: upd_is split: option.splits)

lemma upd_dom: "dom (upd i m) = dom m"
  by (auto simp: upd_is split: option.splits)

lemma upd_unknown: "m i = None \<Longrightarrow> upd i m = m"
  by (simp add: upd_is)

lemma upd_commute:
  "i \<noteq> j \<Longrightarrow> upd i (upd j m) = upd j (upd i m)"
  by (auto simp: upd_is fun_eq_iff split: option.splits)

end

interpretation req: folder_update request_sync "\<lambda>s. if \<not> running s \<and> \<not> paused s then s\<lparr>pending := True\<rparr> else s"
  by unfold_locales (simp add: sched_defs)

interpretation force: folder_update force_request_sync "\<lambda>s. if \<not> paused s then s\<lparr>pending := True\<rparr> else s"
  by unfold_locales (simp add: sched_defs)

interpretation start: folder_update start_sync "\<lambda>s. s\<lparr>running := True, pending := False\<rparr>"
  by unfold_locales (simp add: sched_defs)

interpretation finish: folder_update "finish_sync now" "\<lambda>s. s\<lparr>running := False, last_sync := Some now\<rparr>" for now
  by unfold_locales (simp add: sched_defs)

interpretation pause: folder_update pause "\<lambda>s. s\<lparr>paused := True\<rparr>"
  by unfold_locales (simp add: sched_defs)

interpretation resume: folder_update resume "\<lambda>s. s\<lparr>paused := False\<rparr>"
  by unfold_locales (simp add: sched_defs)

lemmas sched_same = req.upd_same force.upd_same start.upd_same finish.upd_same pause.upd_same resume.upd_same

lemmas sched_other =
  req.upd_other force.upd_other start.upd_other finish.upd_other pause.upd_other resume.upd_other

lemma add_folder_same: "add_folder i m i = (case m i of Some s \<Rightarrow> Some s | None \<Rightarrow> Some default_schedule)"
  by (simp add: add_folder_def split: option.splits)

lemma add_folder_other: "j \<noteq> i \<Longrightarrow> add_folder i m j = m j"
  by (simp add: add_folder_def split: option.splits)

lemma new_scheduler_lookup: "new_scheduler ids i = (if i \<in> set ids then Some default_schedule else None)"
proof -
  have "fold (\<lambda>i m. m(i \<mapsto> default_schedule)) ids m i = (if i \<in> set ids then Some default_schedule else m i)"
    for m by (induction ids arbitrary: m) auto
  then show ?thesis by (simp add: new_scheduler_def)
qed

lemma dom_new_scheduler [simp]: "dom (new_scheduler ids) = set ids"
  by (auto simp: new_scheduler_lookup dom_def)

section \<open>Properties\<close>

lemma ready_to_run_iff:
  "iteration_order order m \<Longrightarrow>
     distinct (ready_to_run order m) \<and> (i \<in> set (ready_to_run order m) \<longleftrightarrow> (\<exists>s. m i = Some s \<and> is_ready s))"
  by (auto simp: ready_to_run_def iteration_order_def split: option.splits)

lemma fold_start_lookup:
  "distinct ids \<Longrightarrow> fold start_sync ids m i =
     (if i \<in> set ids then map_option (\<lambda>s. s\<lparr>running := True, pending := False\<rparr>) (m i) else m i)"
proof (induction ids arbitrary: m)
  case Nil
  then show ?case by simp
next
  case (Cons a ids)
  then show ?case by (cases "a = i") (auto simp: start.upd_same start.upd_other)
qed

lemma sched_apply_other: "i \<noteq> event_folder e \<Longrightarrow> sched_apply e m i = m i"
  by (cases e) (auto simp: sched_other add_folder_other)

lemma starts_event_folder: "i \<noteq> event_folder e \<Longrightarrow> \<not> starts i e \<and> \<not> finishes i e"
  by (cases e) auto

lemmas sched_event_simps = sched_same add_folder_same default_schedule_def is_ready_def

abbreviation running_count :: "uuid \<Rightarrow> SyncScheduler \<Rightarrow> nat" where
  "running_count i m \<equiv> (case m i of Some s \<Rightarrow> if running s then 1 else 0 | None \<Rightarrow> 0)"

lemma running_balance:
  assumes "sched_run m tr m'" "running_count i m = 0"
  shows "count_if (starts i) tr = count_if (finishes i) tr + running_count i m'"
  using assms
proof (induction rule: sched_run.induct)
  case (run_snoc m tr m1 e)
  show ?case
  proof (cases "i = event_folder e")
    case True
    then show ?thesis
      using run_snoc by (cases e) (auto simp: sched_event_simps split: option.splits if_splits)
  next
    case False
    then show ?thesis
      using run_snoc by (simp add: sched_apply_other starts_event_folder)
  qed
qed simp

lemma pending_kept:
  assumes "sched_run m tr m'" "count_if (starts i) tr = 0" "m i = Some s" "pending s"
  shows "\<exists>s'. m' i = Some s' \<and> pending s'"
  using assms
proof (induction rule: sched_run.induct)
  case (run_snoc m tr m1 e)
  then obtain s1 where s1: "m1 i = Some s1" "pending s1" by (auto split: if_splits)
  show ?case
  proof (cases "i = event_folder e")
    case True
    then show ?thesis
      using run_snoc.prems(1) s1 by (cases e) (auto simp: sched_event_simps split: if_splits)
  next
    case False
    then show ?thesis using s1 by (simp add: sched_apply_other)
  qed
qed simp

text \<open>
  C5: Runs of one folder never overlap. In every history of the scheduler since it was created,
  whatever requests, pauses and resumes come in between, a folder has been started as often as it has
  been finished, or once more, and once more exactly while its \<open>running\<close> flag is set.
\<close>

theorem scheduler_no_overlap:
  assumes "sched_run (new_scheduler ids) tr m"
  shows "count_if (finishes i) tr \<le> count_if (starts i) tr \<and>
    count_if (starts i) tr \<le> Suc (count_if (finishes i) tr) \<and>
    (count_if (starts i) tr = Suc (count_if (finishes i) tr) \<longleftrightarrow> (\<exists>s. m i = Some s \<and> running s))"
proof -
  have "running_count i (new_scheduler ids) = 0"
    by (simp add: new_scheduler_lookup default_schedule_def)
  from running_balance [OF assms this] show ?thesis by (auto split: option.splits)
qed

theorem scheduler_no_overlap_witness:
  "\<exists>m. sched_run (new_scheduler [7]) [Request 7, Start 7] m \<and>
     count_if (starts 7) [Request 7, Start 7] \<le> Suc (count_if (finishes 7) [Request 7, Start 7])"
proof -
  have 0: "sched_run (new_scheduler [7]) [] (new_scheduler [7])" by (rule run_Nil)
  have 1: "sched_run (new_scheduler [7]) [Request 7] (sched_apply (Request 7) (new_scheduler [7]))"
    using run_snoc [OF 0, of "Request 7"] by simp
  have 2: "sched_run (new_scheduler [7]) [Request 7, Start 7]
     (sched_apply (Start 7) (sched_apply (Request 7) (new_scheduler [7])))"
    using run_snoc [OF 1, of "Start 7"]
    by (simp add: req.upd_same new_scheduler_lookup default_schedule_def is_ready_def)
  show ?thesis using 2 scheduler_no_overlap [OF 2, of 7] by blast
qed

text \<open>
  C6: A forced request is not lost. If a forced request arrives for a known folder that is not paused,
  then after any further history in which the folder has not been started, as soon as the folder is
  neither running nor paused, the scheduler reports it as ready, even if it was running when the request came
  or was paused and resumed in between.
\<close>

theorem force_request_not_lost:
  assumes "m i = Some s" "\<not> paused s"
    and "sched_run (force_request_sync i m) tr m'" "count_if (starts i) tr = 0"
    and "m' i = Some s'" "\<not> running s'" "\<not> paused s'"
    and "iteration_order order m'"
  shows "i \<in> set (ready_to_run order m')"
proof -
  have "force_request_sync i m i = Some (s\<lparr>pending := True\<rparr>)"
    using assms(1,2) by (simp add: force.upd_same)
  from pending_kept [OF assms(3,4) this] have "pending s'" using assms(5) by simp
  then show ?thesis using assms ready_to_run_iff [OF assms(8)] by (auto simp: is_ready_def)
qed

theorem force_request_not_lost_witness:
  "let s = \<lparr>paused = False, running = True, pending = False, last_sync = None\<rparr>;
       m = [7 \<mapsto> s];
       m' = finish_sync 5 7 (force_request_sync 7 m)
   in 7 \<in> set (ready_to_run [7] m')"
proof -
  let ?s = "\<lparr>paused = False, running = True, pending = False, last_sync = None\<rparr>"
  let ?m = "[7 \<mapsto> ?s] :: SyncScheduler"
  have run: "sched_run (force_request_sync 7 ?m) [Finish 5 7] (finish_sync 5 7 (force_request_sync 7 ?m))"
    using run_snoc [OF run_Nil, of "Finish 5 7" "force_request_sync 7 ?m"] by (simp add: force.upd_same)
  have "7 \<in> set (ready_to_run [7] (finish_sync 5 7 (force_request_sync 7 ?m)))"
    by (rule force_request_not_lost [OF _ _ run])
      (auto simp: force.upd_same finish.upd_same iteration_order_def force.upd_dom finish.upd_dom count_if_def)
  then show ?thesis by (simp add: Let_def)
qed

text \<open>
  C7: One scheduler tick starts exactly the ready folders, each once: the folders it returns are
  distinct and are those that were pending, not running and not paused; afterwards they are running and no
  longer pending, every other folder is untouched, and no folder is ready any more.
\<close>

theorem tick_starts_ready_folders:
  assumes "iteration_order order m" "tick_start order m = (ids, m')"
  shows "distinct ids \<and> (\<forall>i. i \<in> set ids \<longleftrightarrow> (\<exists>s. m i = Some s \<and> is_ready s)) \<and>
    (\<forall>i \<in> set ids. \<exists>s. m' i = Some s \<and> running s \<and> \<not> pending s) \<and>
    (\<forall>i. i \<notin> set ids \<longrightarrow> m' i = m i) \<and> ready_to_run order m' = []"
proof -
  have ids: "ids = ready_to_run order m" and m': "m' = fold start_sync ids m"
    using assms(2) by (auto simp: tick_start_def Let_def)
  have d: "distinct ids" and r: "i \<in> set ids \<longleftrightarrow> (\<exists>s. m i = Some s \<and> is_ready s)" for i
    using ready_to_run_iff [OF assms(1)] ids by auto
  have l: "m' i = (if i \<in> set ids then map_option (\<lambda>s. s\<lparr>running := True, pending := False\<rparr>) (m i) else m i)" for i
    using fold_start_lookup [OF d] m' by simp
  have "ready_to_run order m' = []"
    using r by (auto simp: ready_to_run_def l filter_empty_conv is_ready_def split: option.splits)
  with d r l show ?thesis by auto
qed

theorem tick_starts_ready_folders_witness:
  "ready_to_run [3, 9] (snd (tick_start [3, 9] (request_sync 9 (new_scheduler [3, 9])))) = []"
proof -
  have "iteration_order [3, 9] (request_sync 9 (new_scheduler [3, 9]))"
    by (simp add: iteration_order_def req.upd_dom dom_new_scheduler)
  from tick_starts_ready_folders [OF this prod.collapse [symmetric]] show ?thesis by blast
qed

end
