(* ===== verification/Auth.thy ===== *)
theory Auth
  imports Http Async
begin

text \<open>
  Authentication (\<open>crates/ocis-client/src/auth\<close>): the token set and its expiry, the OIDC endpoints, the
  refresh and the code exchange, the keychain, and the token manager that every sync run asks for a token. JSON, form encoding, SHA-256, base64
  and the random generator are parameters.
\<close>

section \<open>Errors (\<open>error.rs\<close>)\<close>

datatype OcisError =
    Ocis_Http string | Ocis_Auth string | Ocis_WebDav string | Ocis_Parse string | Ocis_Keychain string
  | Ocis_Io string | Ocis_Url string | Ocis_Json string

fun show_OcisError :: "OcisError \<Rightarrow> string" where
  "show_OcisError (Ocis_Http e) = ''HTTP error: '' @ e"
| "show_OcisError (Ocis_Auth e) = ''Authentication error: '' @ e"
| "show_OcisError (Ocis_WebDav e) = ''WebDAV error: '' @ e"
| "show_OcisError (Ocis_Parse e) = ''Parse error: '' @ e"
| "show_OcisError (Ocis_Keychain e) = ''Keychain error: '' @ e"
| "show_OcisError (Ocis_Io e) = ''I/O error: '' @ e"
| "show_OcisError (Ocis_Url e) = ''URL parse error: '' @ e"
| "show_OcisError (Ocis_Json e) = ''JSON error: '' @ e"

section \<open>Sending a request and decoding the answer\<close>

text \<open>\<open>error_for_status\<close> turns the statuses 400 to 599 into an error.\<close>

definition error_status :: "u16 \<Rightarrow> bool" where
  "error_status s \<longleftrightarrow> 400 \<le> s \<and> s < 600"

definition success_status :: "u16 \<Rightarrow> bool" where
  "success_status s \<longleftrightarrow> 200 \<le> s \<and> s < 300"

text \<open>\<open>send().await?.error_for_status()?.json().await?\<close>, every error of which is an \<open>OcisError::Http\<close>.\<close>

definition status_checked :: "libs \<Rightarrow> string + response \<Rightarrow> OcisError + response" where
  "status_checked lib r =
     (case r of
        Inl e \<Rightarrow> Inl (Ocis_Http e)
      | Inr resp \<Rightarrow> if error_status (rs_status resp) then Inl (Ocis_Http (lib_status_text lib (rs_status resp))) else Inr resp)"

definition decode_json :: "libs \<Rightarrow> (string \<Rightarrow> string + 'a) \<Rightarrow> string + response \<Rightarrow> OcisError + 'a" where
  "decode_json lib dec r =
     (case status_checked lib r of
        Inl e \<Rightarrow> Inl e
      | Inr resp \<Rightarrow>
          (case rs_body resp of
             Inl e \<Rightarrow> Inl (Ocis_Http e)
           | Inr text \<Rightarrow> (case dec text of Inl e \<Rightarrow> Inl (Ocis_Http e) | Inr x \<Rightarrow> Inr x)))"

section \<open>Tokens (\<open>oidc.rs\<close>)\<close>

record TokenSet =
  ts_access_token :: string
  ts_refresh_token :: "string option"
  ts_expires_at :: i64

text \<open>\<open>now >= self.expires_at - 30\<close>, signed and with the wrap-around of a release build.\<close>

definition is_expired :: "i64 \<Rightarrow> TokenSet \<Rightarrow> bool" where
  "is_expired now t \<longleftrightarrow> ts_expires_at t - 30 <=s now"

record TokenResponse =
  tr_access_token :: string
  tr_refresh_token :: "string option"
  tr_expires_in :: "u64 option"

definition token_response_to_set :: "i64 \<Rightarrow> TokenResponse \<Rightarrow> TokenSet" where
  "token_response_to_set now resp =
     \<lparr>ts_access_token = tr_access_token resp, ts_refresh_token = tr_refresh_token resp,
      ts_expires_at = now + (case tr_expires_in resp of Some n \<Rightarrow> n | None \<Rightarrow> 3600)\<rparr>"

record OidcConfig =
  oc_issuer_url :: url
  oc_client_id :: string
  oc_client_secret :: "string option"
  oc_redirect_uri :: url
  oc_authorization_endpoint :: url
  oc_token_endpoint :: url

text \<open>The libraries behind the flow.\<close>

record auth_libs =
  al_form :: "(string \<times> string) list \<Rightarrow> string"
  al_discovery :: "string \<Rightarrow> string + url \<times> url"
  al_token :: "string \<Rightarrow> string + TokenResponse"
  al_sha256 :: "string \<Rightarrow> string"
  al_base64 :: "string \<Rightarrow> string"
  al_append_pairs :: "(string \<times> string) list \<Rightarrow> url \<Rightarrow> url"
  al_token_to_json :: "TokenSet \<Rightarrow> string"
  al_token_from_json :: "string \<Rightarrow> string + TokenSet"

text \<open>\<open>discover\<close>: parsing of the two URLs, the discovery document, parsing of the redirect URI, in this order.\<close>

definition parse_url :: "libs \<Rightarrow> string \<Rightarrow> OcisError + url" where
  "parse_url lib s = (case lib_url_parse lib s of Some u \<Rightarrow> Inr u | None \<Rightarrow> Inl (Ocis_Auth (lib_url_error lib s)))"

definition get_request_plain :: "string \<Rightarrow> request" where
  "get_request_plain u = \<lparr>rq_method = ''GET'', rq_url = u, rq_bearer = None, rq_headers = [], rq_body = []\<rparr>"

definition oidc_discover :: "libs \<Rightarrow> auth_libs \<Rightarrow> 'w net \<Rightarrow> string \<Rightarrow> string \<Rightarrow> string option \<Rightarrow> string \<Rightarrow> 'w
    \<Rightarrow> (OcisError + OidcConfig) \<times> 'w" where
  "oidc_discover lib al net issuer client_id client_secret redirect_uri w =
     (case parse_url lib issuer of
        Inl e \<Rightarrow> (Inl e, w)
      | Inr issuer_url \<Rightarrow>
          (case parse_url lib (trim_end_matches CHR ''/'' issuer @ ''/.well-known/openid-configuration'') of
             Inl e \<Rightarrow> (Inl e, w)
           | Inr discovery_url \<Rightarrow>
               (case net_send net (get_request_plain (show_url discovery_url)) w of
                  (r, w') \<Rightarrow>
                    (case decode_json lib (al_discovery al) r of
                       Inl e \<Rightarrow> (Inl e, w')
                     | Inr (auth_ep, token_ep) \<Rightarrow>
                         (case parse_url lib redirect_uri of
                            Inl e \<Rightarrow> (Inl e, w')
                          | Inr redirect \<Rightarrow>
                              (Inr \<lparr>oc_issuer_url = issuer_url, oc_client_id = client_id, oc_client_secret = client_secret,
                                    oc_redirect_uri = redirect, oc_authorization_endpoint = auth_ep, oc_token_endpoint = token_ep\<rparr>, w'))))))"

definition with_endpoints :: "libs \<Rightarrow> string \<Rightarrow> string \<Rightarrow> string option \<Rightarrow> string \<Rightarrow> string \<Rightarrow> string \<Rightarrow> OcisError + OidcConfig" where
  "with_endpoints lib issuer client_id client_secret redirect_uri authorization_endpoint token_endpoint =
     (case parse_url lib issuer of
        Inl e \<Rightarrow> Inl e
      | Inr issuer_url \<Rightarrow>
          (case parse_url lib redirect_uri of
             Inl e \<Rightarrow> Inl e
           | Inr redirect \<Rightarrow>
               (case parse_url lib authorization_endpoint of
                  Inl e \<Rightarrow> Inl e
                | Inr auth_ep \<Rightarrow>
                    (case parse_url lib token_endpoint of
                       Inl e \<Rightarrow> Inl e
                     | Inr token_ep \<Rightarrow>
                         Inr \<lparr>oc_issuer_url = issuer_url, oc_client_id = client_id, oc_client_secret = client_secret,
                              oc_redirect_uri = redirect, oc_authorization_endpoint = auth_ep, oc_token_endpoint = token_ep\<rparr>))))"

text \<open>\<open>start_pkce_flow\<close>: \<open>raw\<close> and \<open>raw_state\<close> are the results of the two calls of the random generator.\<close>

definition start_pkce_flow :: "auth_libs \<Rightarrow> string + string \<Rightarrow> string + string \<Rightarrow> OidcConfig \<Rightarrow> OcisError + url \<times> string" where
  "start_pkce_flow al raw raw_state cfg =
     (case raw of
        Inl e \<Rightarrow> Inl (Ocis_Auth (''RNG failure: '' @ e))
      | Inr bytes \<Rightarrow>
          (let verifier = al_base64 al bytes; challenge = al_base64 al (al_sha256 al verifier) in
           case raw_state of
             Inl e \<Rightarrow> Inl (Ocis_Auth (''RNG failure: '' @ e))
           | Inr sbytes \<Rightarrow>
               Inr (al_append_pairs al
                 [(''response_type'', ''code''), (''client_id'', oc_client_id cfg), (''redirect_uri'', show_url (oc_redirect_uri cfg)),
                  (''scope'', ''openid profile email offline_access''), (''code_challenge'', challenge),
                  (''code_challenge_method'', ''S256''), (''state'', al_base64 al sbytes)] (oc_authorization_endpoint cfg), verifier)))"

definition secret_param :: "OidcConfig \<Rightarrow> (string \<times> string) list" where
  "secret_param cfg = (case oc_client_secret cfg of Some s \<Rightarrow> [(''client_secret'', s)] | None \<Rightarrow> [])"

definition token_request :: "auth_libs \<Rightarrow> OidcConfig \<Rightarrow> (string \<times> string) list \<Rightarrow> request" where
  "token_request al cfg params =
     \<lparr>rq_method = ''POST'', rq_url = show_url (oc_token_endpoint cfg), rq_bearer = None, rq_headers = [],
      rq_body = al_form al (params @ secret_param cfg)\<rparr>"

definition exchange_params :: "OidcConfig \<Rightarrow> string \<Rightarrow> string \<Rightarrow> (string \<times> string) list" where
  "exchange_params cfg code verifier =
     [(''grant_type'', ''authorization_code''), (''code'', code), (''redirect_uri'', show_url (oc_redirect_uri cfg)),
      (''client_id'', oc_client_id cfg), (''code_verifier'', verifier)]"

definition refresh_params :: "OidcConfig \<Rightarrow> string \<Rightarrow> (string \<times> string) list" where
  "refresh_params cfg refresh_token =
     [(''grant_type'', ''refresh_token''), (''refresh_token'', refresh_token), (''client_id'', oc_client_id cfg)]"

text \<open>\<open>exchange_code\<close> and \<open>refresh\<close> differ in the parameters only; \<open>clock\<close> is the time after the answer.\<close>

definition request_token :: "libs \<Rightarrow> auth_libs \<Rightarrow> 'w net \<Rightarrow> ('w \<Rightarrow> i64) \<Rightarrow> OidcConfig \<Rightarrow> (string \<times> string) list \<Rightarrow> 'w
    \<Rightarrow> (OcisError + TokenSet) \<times> 'w" where
  "request_token lib al net clock cfg params w =
     (case net_send net (token_request al cfg params) w of
        (r, w') \<Rightarrow>
          (case decode_json lib (al_token al) r of
             Inl e \<Rightarrow> (Inl e, w')
           | Inr resp \<Rightarrow> (Inr (token_response_to_set (clock w') resp), w')))"

definition exchange_code :: "libs \<Rightarrow> auth_libs \<Rightarrow> 'w net \<Rightarrow> ('w \<Rightarrow> i64) \<Rightarrow> OidcConfig \<Rightarrow> string \<Rightarrow> string \<Rightarrow> 'w
    \<Rightarrow> (OcisError + TokenSet) \<times> 'w" where
  "exchange_code lib al net clock cfg code verifier = request_token lib al net clock cfg (exchange_params cfg code verifier)"

definition refresh :: "libs \<Rightarrow> auth_libs \<Rightarrow> 'w net \<Rightarrow> ('w \<Rightarrow> i64) \<Rightarrow> OidcConfig \<Rightarrow> string \<Rightarrow> 'w \<Rightarrow> (OcisError + TokenSet) \<times> 'w" where
  "refresh lib al net clock cfg refresh_token = request_token lib al net clock cfg (refresh_params cfg refresh_token)"

section \<open>The keychain (\<open>keychain.rs\<close>)\<close>

text \<open>
  The entries of the service by account id. \<open>kc_entry\<close> is the error of \<open>Entry::new\<close>, \<open>kc_fault\<close> that of
  reading, writing or removing the password; a missing entry is not one of them.
\<close>

type_synonym keychain = "string \<rightharpoonup> string"

record keychain_env =
  kc_entry :: "string \<Rightarrow> string option"
  kc_fault :: "string \<Rightarrow> string option"

definition keychain_save :: "auth_libs \<Rightarrow> keychain_env \<Rightarrow> string \<Rightarrow> TokenSet \<Rightarrow> keychain \<Rightarrow> (OcisError + unit) \<times> keychain" where
  "keychain_save al ke account_id token_set kc =
     (let json = al_token_to_json al token_set in
      case kc_entry ke account_id of
        Some e \<Rightarrow> (Inl (Ocis_Keychain e), kc)
      | None \<Rightarrow> (case kc_fault ke account_id of Some e \<Rightarrow> (Inl (Ocis_Keychain e), kc) | None \<Rightarrow> (Inr (), kc(account_id \<mapsto> json))))"

definition keychain_load :: "auth_libs \<Rightarrow> keychain_env \<Rightarrow> string \<Rightarrow> keychain \<Rightarrow> OcisError + TokenSet option" where
  "keychain_load al ke account_id kc =
     (case kc_entry ke account_id of
        Some e \<Rightarrow> Inl (Ocis_Keychain e)
      | None \<Rightarrow>
          (case kc_fault ke account_id of
             Some e \<Rightarrow> Inl (Ocis_Keychain e)
           | None \<Rightarrow>
               (case kc account_id of
                  None \<Rightarrow> Inr None
                | Some json \<Rightarrow> (case al_token_from_json al json of Inl e \<Rightarrow> Inl (Ocis_Json e) | Inr t \<Rightarrow> Inr (Some t)))))"

definition keychain_delete :: "keychain_env \<Rightarrow> string \<Rightarrow> keychain \<Rightarrow> (OcisError + unit) \<times> keychain" where
  "keychain_delete ke account_id kc =
     (case kc_entry ke account_id of
        Some e \<Rightarrow> (Inl (Ocis_Keychain e), kc)
      | None \<Rightarrow> (case kc_fault ke account_id of Some e \<Rightarrow> (Inl (Ocis_Keychain e), kc) | None \<Rightarrow> (Inr (), kc(account_id := None))))"

section \<open>The token manager (\<open>token_manager.rs\<close>)\<close>

text \<open>
  The state a token manager shares with its callers. \<open>aw_saves\<close> are the keychain writes that were handed
  to the blocking pool and have not run yet.
\<close>

record 'n auth_world =
  aw_token :: TokenSet
  aw_saves :: "(string \<times> TokenSet) list"
  aw_keychain :: keychain
  aw_net :: 'n

record 'n auth_env =
  ae_lib :: libs
  ae_al :: auth_libs
  ae_net :: "'n net"
  ae_clock :: "'n \<Rightarrow> i64"
  ae_keychain :: keychain_env
  ae_oidc :: OidcConfig
  ae_account_id :: string

type_synonym ('n, 'a) auth_prog = "('n auth_world, 'a) prog"

text \<open>Reading the token under a lock, together with the clock: the token, and whether it is expired now.\<close>

definition look_token :: "'n auth_env \<Rightarrow> 'n auth_world \<Rightarrow> (TokenSet \<times> bool) \<times> 'n auth_world" where
  "look_token env w = ((aw_token w, is_expired (ae_clock env (aw_net w)) (aw_token w)), w)"

definition send_refresh :: "'n auth_env \<Rightarrow> string \<Rightarrow> 'n auth_world \<Rightarrow> (OcisError + TokenSet) \<times> 'n auth_world" where
  "send_refresh env rt w =
     (case refresh (ae_lib env) (ae_al env) (ae_net env) (ae_clock env) (ae_oidc env) rt (aw_net w) of
        (r, n) \<Rightarrow> (r, w\<lparr>aw_net := n\<rparr>))"

definition store_token :: "'n auth_env \<Rightarrow> TokenSet \<Rightarrow> 'n auth_world \<Rightarrow> unit \<times> 'n auth_world" where
  "store_token env t w = ((), w\<lparr>aw_token := t\<rparr>)"

definition spawn_save :: "'n auth_env \<Rightarrow> TokenSet \<Rightarrow> 'n auth_world \<Rightarrow> unit \<times> 'n auth_world" where
  "spawn_save env t w = ((), w\<lparr>aw_saves := aw_saves w @ [(ae_account_id env, t)]\<rparr>)"

definition get_valid_token :: "'n auth_env \<Rightarrow> ('n, OcisError + string) auth_prog" where
  "get_valid_token env =
     call (look_token env)
       (\<lambda>(t, expired). if \<not> expired then Done (Inr (ts_access_token t)) else
          call (look_token env)
            (\<lambda>(t, expired). if \<not> expired then Done (Inr (ts_access_token t)) else
               (case ts_refresh_token t of
                  None \<Rightarrow> Done (Inl (Ocis_Auth ''token expired, no refresh token available''))
                | Some rt \<Rightarrow>
                    call (send_refresh env rt)
                      (\<lambda>r. case r of
                         Inl e \<Rightarrow> Done (Inl e)
                       | Inr new_token \<Rightarrow>
                           call (store_token env new_token)
                             (\<lambda>_. call (spawn_save env new_token)
                               (\<lambda>_. Done (Inr (ts_access_token new_token))))))))"

text \<open>The blocking pool runs the next pending keychain write; a failure is only logged.\<close>

definition persist_next :: "'n auth_env \<Rightarrow> 'n auth_world \<Rightarrow> 'n auth_world" where
  "persist_next env w =
     (case aw_saves w of
        [] \<Rightarrow> w
      | (a, t) # rest \<Rightarrow>
          w\<lparr>aw_saves := rest, aw_keychain := snd (keychain_save (ae_al env) (ae_keychain env) a t (aw_keychain w))\<rparr>)"

section \<open>Lemmas\<close>

lemma keychain_load_save:
  assumes "kc_entry ke a = None" "kc_fault ke a = None" "al_token_from_json al (al_token_to_json al t) = Inr t"
  shows "keychain_load al ke b (snd (keychain_save al ke a t kc)) =
    (if b = a then Inr (Some t) else keychain_load al ke b kc)"
  using assms by (simp add: keychain_load_def keychain_save_def Let_def split: option.split)

lemma is_expired_unsigned:
  assumes "0 \<le> sint now" "30 \<le> sint (ts_expires_at t)"
  shows "is_expired now t \<longleftrightarrow> sint (ts_expires_at t) \<le> sint now + 30"
proof -
  have "sint (ts_expires_at t - 30) = sint (ts_expires_at t) - 30"
    using assms(2) sint_less [of "ts_expires_at t"]
    by (simp add: sint_word_diff signed_take_bit_int_eq_self_iff)
  then show ?thesis by (auto simp: is_expired_def word_sle_eq)
qed

lemma get_valid_token_fresh:
  "\<not> is_expired (ae_clock env (aw_net w)) (aw_token w) \<Longrightarrow>
     run (get_valid_token env) w = (Inr (ts_access_token (aw_token w)), w)"
  by (simp add: get_valid_token_def look_token_def)

lemma get_valid_token_expired:
  assumes "is_expired (ae_clock env (aw_net w)) (aw_token w)"
  shows "run (get_valid_token env) w =
    (case ts_refresh_token (aw_token w) of
       None \<Rightarrow> (Inl (Ocis_Auth ''token expired, no refresh token available''), w)
     | Some rt \<Rightarrow>
         (case send_refresh env rt w of
            (Inl e, w1) \<Rightarrow> (Inl e, w1)
          | (Inr t, w1) \<Rightarrow> (Inr (ts_access_token t), w1\<lparr>aw_token := t, aw_saves := aw_saves w1 @ [(ae_account_id env, t)]\<rparr>)))"
  using assms
  by (simp add: get_valid_token_def look_token_def store_token_def spawn_save_def split: option.split sum.split prod.split)

lemma send_refresh_frame:
  "send_refresh env rt w = (r, w1) \<Longrightarrow> aw_token w1 = aw_token w \<and> aw_saves w1 = aw_saves w \<and> aw_keychain w1 = aw_keychain w"
  by (auto simp: send_refresh_def split: prod.splits)

lemma send_refresh_token:
  "send_refresh env rt w = (Inr t, w1) \<Longrightarrow> \<exists>s r. al_token (ae_al env) s = Inr r \<and> ts_refresh_token t = tr_refresh_token r"
  by (auto simp: send_refresh_def refresh_def request_token_def decode_json_def status_checked_def token_response_to_set_def
      split: prod.splits sum.splits if_splits) metis

text \<open>A server that hands out a token once, and refuses to exchange the same refresh token again.\<close>

definition one_shot_net :: "request list net" where
  "one_shot_net = \<lparr>net_send = (\<lambda>rq log. (Inr \<lparr>rs_status = (if log = [] then 200 else 400), rs_headers = [], rs_body = Inr ''t''\<rparr>, log @ [rq])),
     net_elapsed = \<lambda>_. 1\<rparr>"

definition sample_al :: "string option \<Rightarrow> auth_libs" where
  "sample_al rt = \<lparr>al_form = (\<lambda>ps. concat (map snd ps)), al_discovery = \<lambda>_. Inl [],
     al_token = (\<lambda>_. Inr \<lparr>tr_access_token = ''new'', tr_refresh_token = rt, tr_expires_in = Some 60\<rparr>),
     al_sha256 = id, al_base64 = id, al_append_pairs = (\<lambda>_ u. u), al_token_to_json = ts_access_token,
     al_token_from_json = (\<lambda>s. Inr \<lparr>ts_access_token = s, ts_refresh_token = rt, ts_expires_at = 1060\<rparr>)\<rparr>"

definition sample_auth_env :: "string option \<Rightarrow> request list auth_env" where
  "sample_auth_env rt = \<lparr>ae_lib = id_lib, ae_al = sample_al rt, ae_net = one_shot_net, ae_clock = \<lambda>_. 1000,
     ae_keychain = \<lparr>kc_entry = \<lambda>_. None, kc_fault = \<lambda>_. None\<rparr>,
     ae_oidc = \<lparr>oc_issuer_url = sample_root, oc_client_id = ''c'', oc_client_secret = None, oc_redirect_uri = sample_root,
       oc_authorization_endpoint = sample_root, oc_token_endpoint = sample_root\<rparr>, ae_account_id = ''a''\<rparr>"

definition sample_auth_world :: "request list auth_world" where
  "sample_auth_world = \<lparr>aw_token = \<lparr>ts_access_token = ''old'', ts_refresh_token = Some ''r'', ts_expires_at = 900\<rparr>,
     aw_saves = [], aw_keychain = Map.empty, aw_net = []\<rparr>"

fun task_value :: "('s, 'a) task \<Rightarrow> 'a option" where
  "task_value (Finished a) = Some a"
| "task_value _ = None"

section \<open>Properties\<close>

text \<open>
  C29: A token that was refreshed is used again and survives a restart. If an expired token was
  refreshed successfully and no keychain write was pending, the manager holds the token whose access token it returned;
  while that token is not expired, asking again returns it without a request and without any change; and once the
  pending write has run on a working keychain, loading the account gives exactly this token.
\<close>

theorem refreshed_token_reused_and_saved:
  assumes "run (get_valid_token env) w = (Inr tok, w')" "is_expired (ae_clock env (aw_net w)) (aw_token w)" "aw_saves w = []"
    and "\<not> is_expired (ae_clock env (aw_net w')) (aw_token w')"
    and "kc_entry (ae_keychain env) (ae_account_id env) = None" "kc_fault (ae_keychain env) (ae_account_id env) = None"
    and "al_token_from_json (ae_al env) (al_token_to_json (ae_al env) (aw_token w')) = Inr (aw_token w')"
  shows "ts_access_token (aw_token w') = tok \<and> run (get_valid_token env) w' = (Inr tok, w') \<and>
    keychain_load (ae_al env) (ae_keychain env) (ae_account_id env) (aw_keychain (persist_next env w')) = Inr (Some (aw_token w'))"
proof -
  obtain rt where rt: "ts_refresh_token (aw_token w) = Some rt"
    using assms(1) get_valid_token_expired [OF assms(2)] by (auto split: option.splits)
  obtain t w1 where s: "send_refresh env rt w = (Inr t, w1)" "tok = ts_access_token t"
      "w' = w1\<lparr>aw_token := t, aw_saves := aw_saves w1 @ [(ae_account_id env, t)]\<rparr>"
    using assms(1) get_valid_token_expired [OF assms(2)] rt by (auto split: prod.splits sum.splits)
  note f = send_refresh_frame [OF s(1)]
  have "persist_next env w' = w'\<lparr>aw_saves := [],
      aw_keychain := snd (keychain_save (ae_al env) (ae_keychain env) (ae_account_id env) t (aw_keychain w1))\<rparr>"
    using s(3) f assms(3) by (simp add: persist_next_def)
  then have "keychain_load (ae_al env) (ae_keychain env) (ae_account_id env) (aw_keychain (persist_next env w')) = Inr (Some t)"
    using keychain_load_save [OF assms(5,6)] assms(7) s(3) by simp
  then show ?thesis using s get_valid_token_fresh [OF assms(4)] by simp
qed

theorem refreshed_token_reused_and_saved_witness:
  "let env = sample_auth_env (Some ''r2''); w' = snd (run (get_valid_token env) sample_auth_world)
   in run (get_valid_token env) w' = (Inr ''new'', w') \<and>
      keychain_load (ae_al env) (ae_keychain env) ''a'' (aw_keychain (persist_next env w')) = Inr (Some (aw_token w'))"
proof -
  let ?env = "sample_auth_env (Some ''r2'')"
  let ?r = "run (get_valid_token ?env) sample_auth_world"
  have "fst ?r = Inr ''new''" by code_simp
  then have run: "?r = (Inr ''new'', snd ?r)" by (metis prod.collapse)
  have ex: "is_expired (ae_clock ?env (aw_net sample_auth_world)) (aw_token sample_auth_world)" "aw_saves sample_auth_world = []"
      "\<not> is_expired (ae_clock ?env (aw_net (snd ?r))) (aw_token (snd ?r))"
      "al_token_from_json (ae_al ?env) (al_token_to_json (ae_al ?env) (aw_token (snd ?r))) = Inr (aw_token (snd ?r))"
    by code_simp+
  from refreshed_token_reused_and_saved [OF run ex(1,2,3) _ _ ex(4)] show ?thesis
    by (simp add: sample_auth_env_def Let_def)
qed

text \<open>
  Two callers that find the token expired at the same time both refresh it, although the code
  looks a second time to prevent that: the lock is released before the request is sent. With a server that accepts a refresh token once,
  there is an interleaving of two calls in which both requests are sent and one of the calls fails although the other got a valid token.
\<close>

theorem concurrent_refresh_sent_twice:
  "\<exists>ts js w'. pool_run 2 (spawn [get_valid_token (sample_auth_env (Some ''r2'')), get_valid_token (sample_auth_env (Some ''r2''))]
       sample_auth_world) (ts, js, w') \<and>
     map task_value ts = [Some (Inr ''new''), Some (Inl (Ocis_Http []))] \<and>
     map rq_body (aw_net w') = [''refresh_tokenrc'', ''refresh_tokenrc'']"
proof -
  let ?p = "get_valid_token (sample_auth_env (Some ''r2''))"
  let ?q = "run_schedule 2 [0, 1, 0, 0, 1, 1, 0, 1, 0, 0, 0, 1] (spawn [?p, ?p] sample_auth_world)"
  have "map task_value (fst ?q) = [Some (Inr ''new''), Some (Inl (Ocis_Http []))]"
      "map rq_body (aw_net (snd (snd ?q))) = [''refresh_tokenrc'', ''refresh_tokenrc'']"
    by code_simp+
  then show ?thesis
    using run_schedule_pool_run [of 2 "spawn [?p, ?p] sample_auth_world" "[0, 1, 0, 0, 1, 1, 0, 1, 0, 0, 0, 1]"]
    by (intro exI [of _ "fst ?q"] exI [of _ "fst (snd ?q)"] exI [of _ "snd (snd ?q)"]) simp
qed

text \<open>
  A refresh whose answer has no refresh token loses the session. OAuth lets a server omit the
  refresh token when the old one stays valid; the manager then forgets the old one: as soon as the new token is expired, every later
  call fails without asking the server, and changes nothing, whatever the time.
\<close>

theorem refresh_forgets_refresh_token:
  assumes "run (get_valid_token env) w = (Inr tok, w')" "is_expired (ae_clock env (aw_net w)) (aw_token w)"
    and "\<And>s r. al_token (ae_al env) s = Inr r \<Longrightarrow> tr_refresh_token r = None"
    and "w'' = w'\<lparr>aw_net := n\<rparr>" "is_expired (ae_clock env n) (aw_token w')"
  shows "run (get_valid_token env) w'' = (Inl (Ocis_Auth ''token expired, no refresh token available''), w'')"
proof -
  obtain rt t w1 where s: "send_refresh env rt w = (Inr t, w1)" "aw_token w' = t"
    using assms(1) get_valid_token_expired [OF assms(2)] by (auto split: option.splits prod.splits sum.splits)
  have "ts_refresh_token t = None" using send_refresh_token [OF s(1)] assms(3) by fastforce
  then show ?thesis using get_valid_token_expired [of env w''] assms(4,5) s(2) by simp
qed

theorem refresh_forgets_refresh_token_witness:
  "let env = (sample_auth_env None)\<lparr>ae_clock := \<lambda>log. 1000 + of_nat (length log) * 40\<rparr>; w' = snd (run (get_valid_token env) sample_auth_world);
       w'' = w'\<lparr>aw_net := []\<rparr>\<lparr>aw_net := aw_net w' @ aw_net w'\<rparr>
   in fst (run (get_valid_token env) sample_auth_world) = Inr ''new'' \<and>
      run (get_valid_token env) w'' = (Inl (Ocis_Auth ''token expired, no refresh token available''), w'')"
proof -
  let ?env = "(sample_auth_env None)\<lparr>ae_clock := \<lambda>log :: request list. 1000 + of_nat (length log) * 40\<rparr>"
  let ?r = "run (get_valid_token ?env) sample_auth_world"
  have r: "fst ?r = Inr ''new''" by code_simp
  then have run: "?r = (Inr ''new'', snd ?r)" by (metis prod.collapse)
  have ex: "is_expired (ae_clock ?env (aw_net sample_auth_world)) (aw_token sample_auth_world)"
      "is_expired (ae_clock ?env (aw_net (snd ?r) @ aw_net (snd ?r))) (aw_token (snd ?r))"
    by code_simp+
  have "tr_refresh_token x = None" if "al_token (ae_al ?env) s = Inr x" for s x
    using that by (auto simp: sample_auth_env_def sample_al_def)
  from refresh_forgets_refresh_token [OF run ex(1) this refl ex(2)] r show ?thesis by (simp add: Let_def)
qed

end
