(* ===== verification/OcisApi.thy ===== *)
theory OcisApi
  imports Auth
begin

text \<open>
  The other clients of \<open>crates/ocis-client/src\<close>: the OCS capabilities (\<open>capabilities.rs\<close>), the Graph
  API (\<open>graph/mod.rs\<close>), resumable uploads (\<open>tus/mod.rs\<close>) and WebDAV (\<open>webdav/mod.rs\<close>, \<open>webdav/propfind.rs\<close>).
  The JSON decoders are parameters that map a body to the fields the code reads; the shared access token is an argument, read when the request is built.
\<close>

section \<open>Server type and identity (\<open>capabilities.rs\<close>)\<close>

datatype ServerType = Ocis | Classic

record StatusPhp =
  sp_installed :: bool
  sp_productname :: string

record OcsUserData =
  ou_id :: string
  ou_display_name :: string

definition get_json_request :: "string \<Rightarrow> (string \<times> string) list \<Rightarrow> string option \<Rightarrow> request" where
  "get_json_request u hs bearer = \<lparr>rq_method = ''GET'', rq_url = u, rq_bearer = bearer, rq_headers = hs, rq_body = []\<rparr>"

text \<open>\<open>get_ocs_json\<close> and \<open>GraphClient::get_json\<close>: join the path, send, check the status, decode.\<close>

definition get_json :: "libs \<Rightarrow> 'w net \<Rightarrow> (string \<Rightarrow> string + 'a) \<Rightarrow> (string \<times> string) list \<Rightarrow> url \<Rightarrow> string option \<Rightarrow> string \<Rightarrow> 'w
    \<Rightarrow> (OcisError + 'a) \<times> 'w" where
  "get_json lib net dec hs base bearer path w =
     (case lib_url_join lib base path of
        Inl e \<Rightarrow> (Inl (Ocis_Url e), w)
      | Inr u \<Rightarrow> (case net_send net (get_json_request (show_url u) hs bearer) w of (r, w') \<Rightarrow> (decode_json lib dec r, w')))"

definition get_ocs_json :: "libs \<Rightarrow> 'w net \<Rightarrow> (string \<Rightarrow> string + 'a) \<Rightarrow> url \<Rightarrow> string \<Rightarrow> string \<Rightarrow> 'w \<Rightarrow> (OcisError + 'a) \<times> 'w" where
  "get_ocs_json lib net dec base token path w =
     get_json lib net dec [(''accept'', ''application/json'')] base (Some token) path w"

text \<open>\<open>client\<close> is the error of building the HTTP client, if any; \<open>dbg\<close> prints a string with \<open>{:?}\<close>.\<close>

definition probe_owncloud_status :: "libs \<Rightarrow> 'w net \<Rightarrow> (string \<Rightarrow> string + StatusPhp) \<Rightarrow> (string \<Rightarrow> string) \<Rightarrow> string option \<Rightarrow> url \<Rightarrow> 'w
    \<Rightarrow> (OcisError + unit) \<times> 'w" where
  "probe_owncloud_status lib net dec dbg client base w =
     (case lib_url_join lib base ''status.php'' of
        Inl e \<Rightarrow> (Inl (Ocis_Url e), w)
      | Inr u \<Rightarrow>
          (case client of
             Some e \<Rightarrow> (Inl (Ocis_Http e), w)
           | None \<Rightarrow>
               (case net_send net (get_json_request (show_url u) [(''accept'', ''application/json'')] None) w of
                  (r, w') \<Rightarrow>
                    (case decode_json lib dec r of
                       Inl e \<Rightarrow> (Inl e, w')
                     | Inr status \<Rightarrow>
                         (if sp_installed status then (Inr (), w')
                          else (Inl (Ocis_Auth (''server at '' @ show_url base @ '' is not a usable ownCloud instance (productname='' @
                                 dbg (sp_productname status) @ '')'')), w'))))))"

text \<open>The decoder gives \<open>spaces.enabled\<close>, where a missing \<open>spaces\<close> is \<open>None\<close>.\<close>

definition detect_server_type :: "libs \<Rightarrow> 'w net \<Rightarrow> (string \<Rightarrow> string + bool option) \<Rightarrow> url \<Rightarrow> string \<Rightarrow> 'w \<Rightarrow> (OcisError + ServerType) \<times> 'w" where
  "detect_server_type lib net dec base token w =
     (case get_ocs_json lib net dec base token ''ocs/v1.php/cloud/capabilities?format=json'' w of
        (Inl e, w') \<Rightarrow> (Inl e, w')
      | (Inr spaces, w') \<Rightarrow> (Inr (if (case spaces of Some b \<Rightarrow> b | None \<Rightarrow> False) then Ocis else Classic), w'))"

definition ocs_user :: "libs \<Rightarrow> 'w net \<Rightarrow> (string \<Rightarrow> string + OcsUserData) \<Rightarrow> url \<Rightarrow> string \<Rightarrow> 'w \<Rightarrow> (OcisError + string \<times> string) \<times> 'w" where
  "ocs_user lib net dec base token w =
     (case get_ocs_json lib net dec base token ''ocs/v1.php/cloud/user?format=json'' w of
        (Inl e, w') \<Rightarrow> (Inl e, w')
      | (Inr d, w') \<Rightarrow> (Inr (ou_id d, if ou_display_name d = [] then ou_id d else ou_display_name d), w'))"

section \<open>Spaces (\<open>graph/mod.rs\<close>)\<close>

record SpaceQuota =
  sq_total :: i64
  sq_used :: i64
  sq_remaining :: i64

record Space =
  sp_id :: string
  sp_name :: string
  sp_drive_type :: string
  sp_web_url :: string
  sp_quota :: "SpaceQuota option"

record QuotaJson =
  qj_total :: "i64 option"
  qj_used :: "i64 option"
  qj_remaining :: "i64 option"

record DriveJson =
  dj_id :: string
  dj_name :: string
  dj_drive_type :: string
  dj_web_url :: string
  dj_quota :: "QuotaJson option"

abbreviation or_zero :: "i64 option \<Rightarrow> i64" where
  "or_zero x \<equiv> (case x of Some n \<Rightarrow> n | None \<Rightarrow> 0)"

definition space_of_drive :: "DriveJson \<Rightarrow> Space" where
  "space_of_drive d =
     \<lparr>sp_id = dj_id d, sp_name = dj_name d, sp_drive_type = dj_drive_type d, sp_web_url = dj_web_url d,
      sp_quota = map_option (\<lambda>q. \<lparr>sq_total = or_zero (qj_total q), sq_used = or_zero (qj_used q), sq_remaining = or_zero (qj_remaining q)\<rparr>) (dj_quota d)\<rparr>"

definition list_spaces :: "libs \<Rightarrow> 'w net \<Rightarrow> (string \<Rightarrow> string + DriveJson list) \<Rightarrow> url \<Rightarrow> string \<Rightarrow> 'w \<Rightarrow> (OcisError + Space list) \<times> 'w" where
  "list_spaces lib net dec base token w =
     (case get_json lib net dec [] base (Some token) ''graph/v1.0/me/drives'' w of
        (Inl e, w') \<Rightarrow> (Inl e, w')
      | (Inr ds, w') \<Rightarrow> (Inr (map space_of_drive ds), w'))"

definition get_space :: "libs \<Rightarrow> 'w net \<Rightarrow> (string \<Rightarrow> string + DriveJson) \<Rightarrow> url \<Rightarrow> string \<Rightarrow> string \<Rightarrow> 'w \<Rightarrow> (OcisError + Space) \<times> 'w" where
  "get_space lib net dec base token drive_id w =
     (case get_json lib net dec [] base (Some token) (''graph/v1.0/drives/'' @ drive_id) w of
        (Inl e, w') \<Rightarrow> (Inl e, w')
      | (Inr d, w') \<Rightarrow> (Inr (space_of_drive d), w'))"

definition get_me :: "libs \<Rightarrow> 'w net \<Rightarrow> (string \<Rightarrow> string + string \<times> string) \<Rightarrow> url \<Rightarrow> string \<Rightarrow> 'w \<Rightarrow> (OcisError + string \<times> string) \<times> 'w" where
  "get_me lib net dec base token w = get_json lib net dec [] base (Some token) ''graph/v1.0/me'' w"

definition webdav_url_for_space :: "libs \<Rightarrow> url \<Rightarrow> string \<Rightarrow> OcisError + url" where
  "webdav_url_for_space lib server_url space_id =
     (case lib_url_join lib server_url (''dav/spaces/'' @ space_id @ ''/'') of Inl e \<Rightarrow> Inl (Ocis_Url e) | Inr u \<Rightarrow> Inr u)"

definition webdav_root :: "libs \<Rightarrow> url \<Rightarrow> ServerType \<Rightarrow> string \<Rightarrow> string \<Rightarrow> OcisError + url" where
  "webdav_root lib server_url server_type space_id user_id =
     (let base = with_trailing_slash server_url in
      case lib_url_join lib base (case server_type of
             Ocis \<Rightarrow> ''dav/spaces/'' @ space_id @ ''/''
           | Classic \<Rightarrow> ''remote.php/dav/files/'' @ user_id @ ''/'') of
        Inl e \<Rightarrow> Inl (Ocis_Url e)
      | Inr u \<Rightarrow> Inr u)"

section \<open>Resumable uploads (\<open>tus/mod.rs\<close>)\<close>

record TusUpload =
  tus_upload_url :: url
  tus_offset :: u64
  tus_total_size :: u64

abbreviation show_word64 :: "u64 \<Rightarrow> string" where
  "show_word64 x \<equiv> show_nat (unat x)"

text \<open>\<open>metadata\<close> are the entries of the map in its iteration order.\<close>

definition tus_metadata :: "(string \<Rightarrow> string) \<Rightarrow> (string \<times> string) list \<Rightarrow> string \<Rightarrow> string" where
  "tus_metadata base64 metadata path =
     join_on '', '' (map (\<lambda>(k, v). k @ '' '' @ base64 v) metadata @ [''filename '' @ base64 path])"

definition tus_create :: "libs \<Rightarrow> auth_libs \<Rightarrow> 'w net \<Rightarrow> string \<Rightarrow> url \<Rightarrow> string \<Rightarrow> u64 \<Rightarrow> (string \<times> string) list \<Rightarrow> 'w
    \<Rightarrow> (OcisError + TusUpload) \<times> 'w" where
  "tus_create lib al net token endpoint path sz metadata w =
     (case net_send net \<lparr>rq_method = ''POST'', rq_url = show_url endpoint, rq_bearer = Some token,
             rq_headers = [(''Tus-Resumable'', ''1.0.0''), (''Upload-Length'', show_word64 sz),
               (''Upload-Metadata'', tus_metadata (al_base64 al) metadata path), (''content-length'', ''0'')], rq_body = []\<rparr> w of
        (Inl e, w') \<Rightarrow> (Inl (Ocis_Http e), w')
      | (Inr resp, w') \<Rightarrow>
          (if rs_status resp \<noteq> 201 then (Inl (Ocis_WebDav (''TUS create failed: '' @ lib_status_text lib (rs_status resp))), w')
           else (case header_str ''Location'' resp of
                   None \<Rightarrow> (Inl (Ocis_WebDav ''TUS create: missing Location header''), w')
                 | Some location \<Rightarrow>
                     (case lib_url_parse lib location of
                        None \<Rightarrow> (Inl (Ocis_WebDav (lib_url_error lib location)), w')
                      | Some u \<Rightarrow> (Inr \<lparr>tus_upload_url = u, tus_offset = 0, tus_total_size = sz\<rparr>, w')))))"

definition header_u64 :: "string \<Rightarrow> response \<Rightarrow> u64 option" where
  "header_u64 n resp = (case header_str n resp of None \<Rightarrow> None | Some v \<Rightarrow> map_option of_nat (parse_unsigned (2 ^ 64 - 1) v))"

text \<open>The offset after a chunk is the one the server reports, or the old one and the length, with wrap-around.\<close>

definition upload_chunk :: "libs \<Rightarrow> 'w net \<Rightarrow> string \<Rightarrow> TusUpload \<Rightarrow> string \<Rightarrow> 'w \<Rightarrow> ((OcisError + unit) \<times> TusUpload) \<times> 'w" where
  "upload_chunk lib net token upload data w =
     (case net_send net \<lparr>rq_method = ''PATCH'', rq_url = show_url (tus_upload_url upload), rq_bearer = Some token,
             rq_headers = [(''Tus-Resumable'', ''1.0.0''), (''Content-Type'', ''application/offset+octet-stream''),
               (''Upload-Offset'', show_word64 (tus_offset upload)), (''content-length'', show_nat (length data))], rq_body = data\<rparr> w of
        (Inl e, w') \<Rightarrow> ((Inl (Ocis_Http e), upload), w')
      | (Inr resp, w') \<Rightarrow>
          (if rs_status resp \<noteq> 204 then ((Inl (Ocis_WebDav (''TUS upload_chunk failed: '' @ lib_status_text lib (rs_status resp))), upload), w')
           else ((Inr (), upload\<lparr>tus_offset := (case header_u64 ''Upload-Offset'' resp of
                     Some n \<Rightarrow> n | None \<Rightarrow> tus_offset upload + of_nat (length data))\<rparr>), w')))"

definition tus_resume :: "libs \<Rightarrow> 'w net \<Rightarrow> string \<Rightarrow> url \<Rightarrow> 'w \<Rightarrow> (OcisError + TusUpload) \<times> 'w" where
  "tus_resume lib net token upload_url w =
     (case net_send net \<lparr>rq_method = ''HEAD'', rq_url = show_url upload_url, rq_bearer = Some token,
             rq_headers = [(''Tus-Resumable'', ''1.0.0'')], rq_body = []\<rparr> w of
        (r, w') \<Rightarrow>
          (case status_checked lib r of
             Inl e \<Rightarrow> (Inl e, w')
           | Inr resp \<Rightarrow>
               (case header_u64 ''Upload-Offset'' resp of
                  None \<Rightarrow> (Inl (Ocis_WebDav ''TUS resume: missing Upload-Offset header''), w')
                | Some offset \<Rightarrow>
                    (Inr \<lparr>tus_upload_url = upload_url, tus_offset = offset,
                          tus_total_size = (case header_u64 ''Upload-Length'' resp of Some n \<Rightarrow> n | None \<Rightarrow> 0)\<rparr>, w'))))"

section \<open>WebDAV (\<open>webdav/mod.rs\<close>)\<close>

text \<open>The token is shared and may have been replaced by the time of the second request: \<open>tok\<close> reads it from the world.\<close>

definition request_with_retry :: "'w net \<Rightarrow> ('w \<Rightarrow> string) \<Rightarrow> request \<Rightarrow> 'w \<Rightarrow> (OcisError + response) \<times> 'w" where
  "request_with_retry net tok rq w =
     (case net_send net (rq\<lparr>rq_bearer := Some (tok w)\<rparr>) w of
        (Inl e, w1) \<Rightarrow> (Inl (Ocis_Http e), w1)
      | (Inr resp, w1) \<Rightarrow>
          (if rs_status resp = 401 then
             (case net_send net (rq\<lparr>rq_bearer := Some (tok w1)\<rparr>) w1 of
                (Inl e, w2) \<Rightarrow> (Inl (Ocis_Http e), w2)
              | (Inr resp', w2) \<Rightarrow> (Inr resp', w2))
           else (Inr resp, w1)))"

definition dav_request :: "string \<Rightarrow> url \<Rightarrow> (string \<times> string) list \<Rightarrow> string \<Rightarrow> request" where
  "dav_request meth u hs body = \<lparr>rq_method = meth, rq_url = show_url u, rq_bearer = None, rq_headers = hs, rq_body = body\<rparr>"

definition dav_send :: "libs \<Rightarrow> 'w net \<Rightarrow> ('w \<Rightarrow> string) \<Rightarrow> url \<Rightarrow> string \<Rightarrow> string \<Rightarrow> (string \<times> string) list \<Rightarrow> string \<Rightarrow> 'w
    \<Rightarrow> (OcisError + response) \<times> 'w" where
  "dav_send lib net tok base path meth hs body w =
     (case lib_url_join lib base path of
        Inl e \<Rightarrow> (Inl (Ocis_Url e), w)
      | Inr u \<Rightarrow> request_with_retry net tok (dav_request meth u hs body) w)"

definition dav_checked :: "libs \<Rightarrow> (OcisError + response) \<times> 'w \<Rightarrow> (OcisError + response) \<times> 'w" where
  "dav_checked lib out = (case out of (Inl e, w) \<Rightarrow> (Inl e, w) | (Inr resp, w) \<Rightarrow> (status_checked lib (Inr resp), w))"

definition dav_unit :: "(OcisError + response) \<times> 'w \<Rightarrow> (OcisError + unit) \<times> 'w" where
  "dav_unit out = (case out of (Inl e, w) \<Rightarrow> (Inl e, w) | (Inr _, w) \<Rightarrow> (Inr (), w))"

definition dav_get :: "libs \<Rightarrow> 'w net \<Rightarrow> ('w \<Rightarrow> string) \<Rightarrow> url \<Rightarrow> string \<Rightarrow> 'w \<Rightarrow> (OcisError + string) \<times> 'w" where
  "dav_get lib net tok base path w =
     (case dav_checked lib (dav_send lib net tok base path ''GET'' [] [] w) of
        (Inl e, w') \<Rightarrow> (Inl e, w')
      | (Inr resp, w') \<Rightarrow> ((case rs_body resp of Inl e \<Rightarrow> Inl (Ocis_Http e) | Inr b \<Rightarrow> Inr b), w'))"

definition dav_put :: "libs \<Rightarrow> 'w net \<Rightarrow> ('w \<Rightarrow> string) \<Rightarrow> url \<Rightarrow> string \<Rightarrow> string \<Rightarrow> string \<Rightarrow> 'w \<Rightarrow> (OcisError + unit) \<times> 'w" where
  "dav_put lib net tok base path body content_type w =
     dav_unit (dav_checked lib (dav_send lib net tok base path ''PUT''
       [(''content-type'', content_type), (''content-length'', show_nat (length body))] body w))"

definition dav_delete :: "libs \<Rightarrow> 'w net \<Rightarrow> ('w \<Rightarrow> string) \<Rightarrow> url \<Rightarrow> string \<Rightarrow> 'w \<Rightarrow> (OcisError + unit) \<times> 'w" where
  "dav_delete lib net tok base path w = dav_unit (dav_checked lib (dav_send lib net tok base path ''DELETE'' [] [] w))"

definition dav_mkcol :: "libs \<Rightarrow> 'w net \<Rightarrow> ('w \<Rightarrow> string) \<Rightarrow> url \<Rightarrow> string \<Rightarrow> 'w \<Rightarrow> (OcisError + unit) \<times> 'w" where
  "dav_mkcol lib net tok base path w = dav_unit (dav_checked lib (dav_send lib net tok base path ''MKCOL'' [] [] w))"

definition dav_move :: "libs \<Rightarrow> 'w net \<Rightarrow> ('w \<Rightarrow> string) \<Rightarrow> url \<Rightarrow> string \<Rightarrow> string \<Rightarrow> bool \<Rightarrow> 'w \<Rightarrow> (OcisError + unit) \<times> 'w" where
  "dav_move lib net tok base source destination overwrite w =
     (case lib_url_join lib base source of
        Inl e \<Rightarrow> (Inl (Ocis_Url e), w)
      | Inr u \<Rightarrow>
          (case lib_url_join lib base destination of
             Inl e \<Rightarrow> (Inl (Ocis_Url e), w)
           | Inr dest_url \<Rightarrow>
               (case request_with_retry net tok (dav_request ''MOVE'' u
                  [(''Destination'', show_url dest_url), (''Overwrite'', if overwrite then ''T'' else ''F'')] []) w of
                  out \<Rightarrow> dav_unit (dav_checked lib out))))"

end
