(* ===== verification/Ipc.thy ===== *)
theory Ipc
  imports SyncTypes
begin

text \<open>
  The connection between daemon and GUI (\<open>crates/daemon/src/gui_ipc/protocol.rs\<close> and \<open>mod.rs\<close>): the
  commands and events, the framing of a message as a big-endian length and its JSON text, the broadcast
  channel, and the loop that serves one connection. Serialisation to JSON (\<open>serde_json\<close>) is a parameter.
\<close>

section \<open>Messages\<close>

record FolderSnapshot =
  fsn_folder_id :: uuid
  fsn_space_id :: string
  fsn_display_name :: string
  fsn_local_path :: string
  fsn_status :: string

record AccountSnapshot =
  asn_account_id :: uuid
  asn_url :: string
  asn_display_name :: string
  asn_folders :: "FolderSnapshot list"

record SpaceSelection =
  sel_space_id :: string
  sel_display_name :: string

record SpaceInfo =
  si_id :: string
  si_name :: string
  si_drive_type :: string

datatype DaemonCommand =
    Subscribe
  | TriggerSync uuid
  | PauseFolder uuid
  | ResumeFolder uuid
  | AddAccount string
  | RemoveAccount uuid
  | ListSpaces uuid
  | SetAccountFolders uuid string "SpaceSelection list"
  | AddAccountSpace uuid string string
  | DismissSpace uuid string
  | Quit

datatype DaemonEvent =
    Ready
  | SyncStarted uuid
  | SyncProgress uuid u64 u64
  | SyncFinished uuid "string list" "SyncReport option"
  | FileStatusChanged string string
  | AccountStateChanged uuid string
  | AccountAddStarted uuid
  | AccountAddFailed uuid string
  | AccountAddCompleted uuid string string string  \<comment> \<open>account, user id, display name, url\<close>
  | AccountFolderAdded uuid uuid string string string  \<comment> \<open>account, folder, space id, local path, display name\<close>
  | AccountSpaceFailed uuid string
  | SpacesListed uuid "SpaceInfo list"
  | SpaceDiscovered uuid string string string  \<comment> \<open>account, space id, space name, suggested path\<close>
  | SpaceRemoved uuid uuid string string  \<comment> \<open>account, folder, space name, local path\<close>
  | Snapshot_Event "AccountSnapshot list"

section \<open>Framing\<close>

definition to_be_bytes :: "u32 \<Rightarrow> string" where
  "to_be_bytes w = map (\<lambda>k. char_of (unat (drop_bit k w) mod 256)) [24, 16, 8, 0]"

definition from_be_bytes :: "string \<Rightarrow> u32" where
  "from_be_bytes bs = of_nat (foldl (\<lambda>acc b. acc * 256 + of_char b) 0 bs)"

definition max_frame :: nat where
  "max_frame = 4 * 1024 * 1024"

text \<open>
  The four functions share their bodies: \<open>write_frame\<close> is \<open>write_message\<close> and \<open>write_command\<close>,
  \<open>read_frame\<close> is \<open>read_message\<close> and \<open>read_event\<close>. The argument of \<open>read_frame\<close> is what the peer has
  sent; \<open>Frame_Wait\<close> says that \<open>read_exact\<close> needs more bytes (at the end of the stream: that it fails).
\<close>

definition write_frame :: "('m \<Rightarrow> string) \<Rightarrow> 'm \<Rightarrow> string" where
  "write_frame to_json msg = (let json = to_json msg in to_be_bytes (of_nat (length json)) @ json)"

datatype 'm frame = Frame_Wait | Frame_Too_Large nat | Frame_Bad_Json string | Frame 'm string

definition read_frame :: "(string \<Rightarrow> string + 'm) \<Rightarrow> string \<Rightarrow> 'm frame" where
  "read_frame from_json input =
     (if length input < 4 then Frame_Wait
      else
        (let len = unat (from_be_bytes (take 4 input)); body = drop 4 input in
         if max_frame < len then Frame_Too_Large len
         else if length body < len then Frame_Wait
         else (case from_json (take len body) of
                 Inl e \<Rightarrow> Frame_Bad_Json e
               | Inr msg \<Rightarrow> Frame msg (drop len body))))"

lemma read_frame_code [code]:
  "read_frame from_json input =
     (if length input < 4 then Frame_Wait
      else
        (let w = from_be_bytes (take 4 input); body = drop 4 input in
         if (0x400000 :: u32) < w then Frame_Too_Large (unat w)
         else if length body < unat w then Frame_Wait
         else (case from_json (take (unat w) body) of
                 Inl e \<Rightarrow> Frame_Bad_Json e
               | Inr msg \<Rightarrow> Frame msg (drop (unat w) body))))"
  by (simp add: read_frame_def Let_def max_frame_def word_less_nat_alt)

lemma read_frame_shrinks: "read_frame from_json input = Frame msg rest \<Longrightarrow> length rest < length input"
  by (auto simp: read_frame_def Let_def split: if_splits sum.splits)

text \<open>Reading until more bytes are needed or the connection has to be given up.\<close>

function read_frames :: "(string \<Rightarrow> string + 'm) \<Rightarrow> string \<Rightarrow> 'm list \<times> 'm frame \<times> string" where
  "read_frames from_json input =
     (case read_frame from_json input of
        Frame msg rest \<Rightarrow> (case read_frames from_json rest of (ms, out) \<Rightarrow> (msg # ms, out))
      | other \<Rightarrow> ([], other, input))"
  by auto
termination
  by (relation "measure (\<lambda>(_, input). length input)") (auto dest: read_frame_shrinks)

declare read_frames.simps [simp del]

section \<open>The broadcast channel (\<open>tokio::sync::broadcast\<close>)\<close>

text \<open>
  A channel keeps the last \<open>cap\<close> messages. A receiver is a position in the sequence of all messages
  sent; one that has fallen further behind is moved to the oldest message kept and told how many it missed.
\<close>

definition BROADCAST_CAPACITY :: nat where
  "BROADCAST_CAPACITY = 256"

datatype 'e recv = Recv_Empty | Recv_Lagged nat | Recv 'e

definition broadcast_recv :: "nat \<Rightarrow> 'e list \<Rightarrow> nat \<Rightarrow> 'e recv \<times> nat" where
  "broadcast_recv cap log pos =
     (if length log \<le> pos then (Recv_Empty, pos)
      else if cap < length log - pos then (Recv_Lagged (length log - cap - pos), length log - cap)
      else (Recv (log ! pos), Suc pos))"

section \<open>Serving one connection (\<open>handle_connection_inner\<close>)\<close>

text \<open>
  \<open>co_partial\<close> are the bytes that the pending \<open>read_message\<close> has taken from the socket, \<open>co_unread\<close> those that have
  arrived behind a \<open>Subscribe\<close> and are not looked at while the task waits for the snapshot. \<open>co_waiting\<close> is the receiver it holds
  meanwhile, \<open>co_rx\<close> the receiver once the snapshot is written. Commands go to the daemon's queue, events to the socket.
\<close>

record conn =
  co_partial :: string
  co_unread :: string
  co_waiting :: "nat option"
  co_rx :: "nat option"
  co_commands :: "DaemonCommand list"
  co_written :: "DaemonEvent list"
  co_open :: bool

definition new_conn :: conn where
  "new_conn = \<lparr>co_partial = [], co_unread = [], co_waiting = None, co_rx = None, co_commands = [], co_written = [], co_open = True\<rparr>"

text \<open>
  One command that was read. At the first \<open>Subscribe\<close> of a connection its task creates a receiver and then waits for the
  snapshot, which needs the locks of the configuration and the scheduler; any other command, a second \<open>Subscribe\<close> included, is passed on.
\<close>

definition on_command :: "DaemonEvent list \<Rightarrow> DaemonCommand \<Rightarrow> conn \<Rightarrow> conn" where
  "on_command log cmd c =
     (if cmd = Subscribe \<and> co_rx c = None then c\<lparr>co_waiting := Some (length log)\<rparr>
      else c\<lparr>co_commands := co_commands c @ [cmd]\<rparr>)"

text \<open>
  The messages of the input are handled one after the other, until more bytes are needed, the snapshot has to be waited for, or a message
  that cannot be read ends the connection.
\<close>

function read_loop :: "(string \<Rightarrow> string + DaemonCommand) \<Rightarrow> DaemonEvent list \<Rightarrow> string \<Rightarrow> conn \<Rightarrow> conn" where
  "read_loop from_json log input c =
     (case read_frame from_json input of
        Frame cmd rest \<Rightarrow>
          (let c' = on_command log cmd c in
           if co_waiting c' \<noteq> None then c'\<lparr>co_partial := [], co_unread := rest\<rparr> else read_loop from_json log rest c')
      | Frame_Wait \<Rightarrow> c\<lparr>co_partial := input, co_unread := []\<rparr>
      | _ \<Rightarrow> c\<lparr>co_partial := input, co_unread := [], co_open := False\<rparr>)"
  by auto
termination
  by (relation "measure (\<lambda>(_, _, input, _). length input)") (auto dest: read_frame_shrinks)

declare read_loop.simps [simp del]

text \<open>Bytes arrive; while the task waits for the snapshot they stay where they are.\<close>

definition on_bytes :: "(string \<Rightarrow> string + DaemonCommand) \<Rightarrow> DaemonEvent list \<Rightarrow> string \<Rightarrow> conn \<Rightarrow> conn" where
  "on_bytes from_json log bytes c =
     (if co_waiting c \<noteq> None then c\<lparr>co_unread := co_unread c @ bytes\<rparr>
      else read_loop from_json log (co_partial c @ co_unread c @ bytes) c)"

text \<open>The snapshot is there: it is written, and from now on events are taken from the receiver that was created before.\<close>

definition on_snapshot :: "DaemonEvent \<Rightarrow> conn \<Rightarrow> conn" where
  "on_snapshot snapshot c =
     (case co_waiting c of
        None \<Rightarrow> c
      | Some rx \<Rightarrow> c\<lparr>co_waiting := None, co_rx := Some rx, co_written := co_written c @ [snapshot]\<rparr>)"

text \<open>
  The receiver branch of the \<open>select!\<close> is taken: the future of \<open>read_message\<close> is dropped, and the
  bytes it has taken are lost with it.
\<close>

definition on_event :: "DaemonEvent list \<Rightarrow> conn \<Rightarrow> conn" where
  "on_event log c =
     (case co_rx c of
        None \<Rightarrow> c
      | Some pos \<Rightarrow>
          (case broadcast_recv BROADCAST_CAPACITY log pos of
             (Recv_Empty, _) \<Rightarrow> c
           | (Recv_Lagged n, pos') \<Rightarrow> c\<lparr>co_rx := Some pos', co_partial := []\<rparr>
           | (Recv evt, pos') \<Rightarrow> c\<lparr>co_rx := Some pos', co_partial := [], co_written := co_written c @ [evt]\<rparr>))"

text \<open>
  What happens around a connection: the client sends bytes, the daemon broadcasts an event, the snapshot that the task waits for is made, the
  connection's task gets to take an event, or it ends because reading or writing fails. \<open>snap\<close> is the snapshot the provider would give after a log.
\<close>

datatype conn_event = Client_Bytes string | Broadcast DaemonEvent | Snapshot_Ready | Deliver | Hang_Up

fun conn_step :: "(string \<Rightarrow> string + DaemonCommand) \<Rightarrow> (DaemonEvent list \<Rightarrow> DaemonEvent) \<Rightarrow> conn_event
    \<Rightarrow> conn \<times> DaemonEvent list \<Rightarrow> conn \<times> DaemonEvent list" where
  "conn_step from_json snap (Broadcast e) (c, log) = (c, log @ [e])"
| "conn_step from_json snap (Client_Bytes s) (c, log) = (if co_open c then on_bytes from_json log s c else c, log)"
| "conn_step from_json snap Snapshot_Ready (c, log) = (if co_open c then on_snapshot (snap log) c else c, log)"
| "conn_step from_json snap Deliver (c, log) = (if co_open c then on_event log c else c, log)"
| "conn_step from_json snap Hang_Up (c, log) = (c\<lparr>co_open := False\<rparr>, log)"

definition conn_run :: "(string \<Rightarrow> string + DaemonCommand) \<Rightarrow> (DaemonEvent list \<Rightarrow> DaemonEvent) \<Rightarrow> conn_event list
    \<Rightarrow> conn \<times> DaemonEvent list" where
  "conn_run from_json snap evs = fold (conn_step from_json snap) evs (new_conn, [])"

section \<open>Lemmas\<close>

lemma byte_decomposition:
  fixes n :: nat
  assumes "n < 2 ^ 32"
  shows "((n div 2 ^ 24 mod 256 * 256 + n div 2 ^ 16 mod 256) * 256 + n div 2 ^ 8 mod 256) * 256 + n mod 256 = n"
proof -
  have "n div 2 ^ 24 mod 256 = n div 2 ^ 24" using assms by (simp add: div_less_iff_less_mult)
  moreover have "n div 2 ^ 24 * 256 + n div 2 ^ 16 mod 256 = n div 2 ^ 16"
    using div_mult_mod_eq [of "n div 2 ^ 16" 256] by (simp add: div_mult2_eq [symmetric])
  moreover have "n div 2 ^ 16 * 256 + n div 2 ^ 8 mod 256 = n div 2 ^ 8"
    using div_mult_mod_eq [of "n div 2 ^ 8" 256] by (simp add: div_mult2_eq [symmetric])
  moreover have "n div 2 ^ 8 * 256 + n mod 256 = n" using div_mult_mod_eq [of n 256] by simp
  ultimately show ?thesis by simp
qed

lemma length_to_be_bytes [simp]: "length (to_be_bytes w) = 4"
  by (simp add: to_be_bytes_def)

lemma from_to_be_bytes [simp]: "from_be_bytes (to_be_bytes w) = w"
proof -
  have "unat w < 2 ^ 32" using unsigned_less [of w] by simp
  from byte_decomposition [OF this]
  have "foldl (\<lambda>acc b. acc * 256 + of_char b) 0 (to_be_bytes w) = unat w"
    using div_less_iff_less_mult [of "2 ^ 24" "unat w" 256] \<open>unat w < 2 ^ 32\<close>
    by (simp add: to_be_bytes_def drop_bit_eq_div unat_div)
  then show ?thesis by (simp add: from_be_bytes_def)
qed

lemma length_write_frame [simp]: "length (write_frame to_json m) = 4 + length (to_json m)"
  by (simp add: write_frame_def Let_def)

lemma frame_length:
  "from_be_bytes (take 4 (write_frame to_json m @ rest)) = of_nat (length (to_json m))"
  "drop 4 (write_frame to_json m @ rest) = to_json m @ rest"
  by (simp_all add: write_frame_def Let_def)

lemma unat_frame_length: "unat (of_nat n :: u32) = n mod 2 ^ 32"
  by (simp add: unat_of_nat)

lemma max_frame_less: "n \<le> max_frame \<Longrightarrow> n mod 2 ^ 32 = n"
  by (simp add: max_frame_def)

lemma read_write_frame [simp]:
  assumes "length (to_json m) \<le> max_frame" "from_json (to_json m) = Inr m"
  shows "read_frame from_json (write_frame to_json m @ rest) = Frame m rest"
  unfolding read_frame_def frame_length Let_def unat_frame_length max_frame_less [OF assms(1)]
  using assms by simp

lemma read_frame_partial:
  assumes "length (to_json m) \<le> max_frame" "k < 4 + length (to_json m)"
  shows "read_frame from_json (take k (write_frame to_json m)) = Frame_Wait"
proof (cases "k < 4")
  case False
  have "take 4 (take k (write_frame to_json m)) = take 4 (write_frame to_json m @ [])" using False by (simp add: min_def)
  moreover have "length (drop 4 (take k (write_frame to_json m))) < length (to_json m)" using False assms(2) by simp
  ultimately show ?thesis
    unfolding read_frame_def using False assms max_frame_less [OF assms(1)]
    by (simp add: frame_length(1) [of to_json m "[]", simplified] Let_def unat_frame_length del: take_take)
qed (simp add: read_frame_def assms)

lemma read_frames_Frame:
  "read_frame from_json input = Frame msg rest \<Longrightarrow>
     read_frames from_json input = (msg # fst (read_frames from_json rest), snd (read_frames from_json rest))"
  by (subst read_frames.simps) (simp add: split_beta)

lemma read_frames_stop:
  "(\<And>msg rest. read_frame from_json input \<noteq> Frame msg rest) \<Longrightarrow> read_frames from_json input = ([], read_frame from_json input, input)"
  by (subst read_frames.simps) (auto split: frame.split)

lemma read_frame_append:
  "read_frame from_json a = Frame msg rest \<Longrightarrow> read_frame from_json (a @ b) = Frame msg (rest @ b)"
  by (auto simp: read_frame_def Let_def split: if_splits sum.splits)

text \<open>Reading in portions gives the same messages as reading all at once.\<close>

lemma read_frames_append:
  "read_frames from_json a = (ms, Frame_Wait, rest) \<Longrightarrow>
     read_frames from_json (a @ b) = (ms @ fst (read_frames from_json (rest @ b)), snd (read_frames from_json (rest @ b)))"
proof (induction "length a" arbitrary: a ms rule: less_induct)
  case less
  show ?case
  proof (cases "\<exists>m r. read_frame from_json a = Frame m r")
    case True
    then obtain m r where f: "read_frame from_json a = Frame m r" by blast
    with less.prems obtain ms' where "ms = m # ms'" "read_frames from_json r = (ms', Frame_Wait, rest)"
      by (auto simp: read_frames_Frame prod_eq_iff)
    with less.hyps [OF read_frame_shrinks [OF f]] show ?thesis
      by (simp add: read_frames_Frame [OF read_frame_append [OF f]])
  next
    case False
    then have "read_frames from_json a = ([], read_frame from_json a, a)" by (intro read_frames_stop) blast
    with less.prems show ?thesis by simp
  qed
qed

lemma read_frames_written:
  assumes "\<forall>m \<in> set ms. length (to_json m) \<le> max_frame \<and> from_json (to_json m) = Inr m"
    and "read_frame from_json rest = Frame_Wait"
  shows "read_frames from_json (concat (map (write_frame to_json) ms) @ rest) = (ms, Frame_Wait, rest)"
  using assms(1)
proof (induction ms)
  case Nil
  then show ?case using read_frames_stop [of from_json rest] assms(2) by simp
next
  case (Cons m ms)
  then show ?case
    using read_frames_Frame [OF read_write_frame [of to_json m from_json "concat (map (write_frame to_json) ms) @ rest"]] by simp
qed

lemma read_frames_Wait:
  "read_frames from_json a = (ms, Frame_Wait, rest) \<Longrightarrow> read_frame from_json rest = Frame_Wait"
proof (induction "length a" arbitrary: a ms rule: less_induct)
  case less
  show ?case
  proof (cases "\<exists>m r. read_frame from_json a = Frame m r")
    case True
    then obtain m r where f: "read_frame from_json a = Frame m r" by blast
    with less.prems less.hyps [OF read_frame_shrinks [OF f]] show ?thesis by (auto simp: read_frames_Frame prod_eq_iff)
  next
    case False
    then have "read_frames from_json a = ([], read_frame from_json a, a)" by (intro read_frames_stop) blast
    with less.prems show ?thesis by auto
  qed
qed

text \<open>A prefix of a stream that reads well reads well.\<close>

lemma read_frames_prefix:
  "read_frames from_json (a @ b) = (ms, Frame_Wait, rest) \<Longrightarrow> \<exists>ms1 rest1. read_frames from_json a = (ms1, Frame_Wait, rest1)"
proof (induction "length a" arbitrary: a ms rule: less_induct)
  case less
  show ?case
  proof (cases "read_frame from_json a")
    case (Frame m r)
    then have "read_frames from_json (r @ b) = (tl ms, Frame_Wait, rest)"
      using less.prems read_frames_Frame [OF read_frame_append [OF Frame]] by (auto simp: prod_eq_iff)
    with less.hyps [OF read_frame_shrinks [OF Frame]] show ?thesis by (auto simp: read_frames_Frame [OF Frame])
  next
    case Frame_Wait
    then show ?thesis using read_frames_stop [of from_json a] by simp
  next
    case (Frame_Too_Large n)
    then have "read_frame from_json (a @ b) = Frame_Too_Large n"
      by (auto simp: read_frame_def Let_def split: if_splits sum.splits)
    then show ?thesis using less.prems read_frames_stop [of from_json "a @ b"] by simp
  next
    case (Frame_Bad_Json e)
    then have "read_frame from_json (a @ b) = Frame_Bad_Json e"
      by (auto simp: read_frame_def Let_def split: if_splits sum.splits)
    then show ?thesis using less.prems read_frames_stop [of from_json "a @ b"] by simp
  qed
qed

text \<open>The bytes that a connection reads, whatever the portions they come in, as long as no event interrupts.\<close>

lemma read_loop_frames:
  assumes "read_frames from_json input = (cmds, Frame_Wait, rest)" "co_rx c \<noteq> None \<or> Subscribe \<notin> set cmds" "co_waiting c = None"
  shows "read_loop from_json log input c = c\<lparr>co_commands := co_commands c @ cmds, co_partial := rest, co_unread := []\<rparr>"
  using assms
proof (induction "length input" arbitrary: input cmds c rule: less_induct)
  case less
  show ?case
  proof (cases "\<exists>m r. read_frame from_json input = Frame m r")
    case True
    then obtain m r where f: "read_frame from_json input = Frame m r" by blast
    with less.prems(1) obtain ms where ms: "cmds = m # ms" "read_frames from_json r = (ms, Frame_Wait, rest)"
      by (auto simp: read_frames_Frame prod_eq_iff)
    have c: "on_command log m c = c\<lparr>co_commands := co_commands c @ [m]\<rparr>"
      using less.prems(2) ms(1) by (auto simp: on_command_def)
    then show ?thesis
      using less.hyps [OF read_frame_shrinks [OF f] ms(2), of "c\<lparr>co_commands := co_commands c @ [m]\<rparr>"] less.prems(2,3) ms(1) f
      by (subst read_loop.simps) (auto simp: Let_def)
  next
    case False
    then have "read_frames from_json input = ([], read_frame from_json input, input)" by (intro read_frames_stop) blast
    then have "cmds = []" "read_frame from_json input = Frame_Wait" "rest = input" using less.prems(1) by simp_all
    then show ?thesis by (subst read_loop.simps) simp
  qed
qed

text \<open>At the first \<open>Subscribe\<close> it stops.\<close>

lemma read_loop_subscribe:
  assumes "read_frames from_json input = (cmds @ Subscribe # cmds', Frame_Wait, rest)" "Subscribe \<notin> set cmds" "co_rx c = None" "co_waiting c = None"
  shows "\<exists>unread. read_loop from_json log input c = c\<lparr>co_commands := co_commands c @ cmds, co_waiting := Some (length log), co_partial := [], co_unread := unread\<rparr> \<and>
    read_frames from_json unread = (cmds', Frame_Wait, rest)"
  using assms
proof (induction "length input" arbitrary: input cmds c rule: less_induct)
  case less
  have "\<exists>m r. read_frame from_json input = Frame m r"
  proof (rule ccontr)
    assume "\<not> ?thesis"
    then have "read_frames from_json input = ([], read_frame from_json input, input)" by (intro read_frames_stop) blast
    with less.prems(1) show False by simp
  qed
  then obtain m r where f: "read_frame from_json input = Frame m r" by blast
  show ?case
  proof (cases cmds)
    case Nil
    with f less.prems have "m = Subscribe" "read_frames from_json r = (cmds', Frame_Wait, rest)"
      by (auto simp: read_frames_Frame prod_eq_iff)
    with Nil f less.prems show ?thesis by (subst read_loop.simps) (auto simp: on_command_def)
  next
    case (Cons x ms)
    with f less.prems have m: "x = m" "read_frames from_json r = (ms @ Subscribe # cmds', Frame_Wait, rest)" "m \<noteq> Subscribe"
      by (auto simp: read_frames_Frame prod_eq_iff)
    then have c: "on_command log m c = c\<lparr>co_commands := co_commands c @ [m]\<rparr>" by (simp add: on_command_def)
    show ?thesis
      using less.hyps [OF read_frame_shrinks [OF f] m(2), of "c\<lparr>co_commands := co_commands c @ [m]\<rparr>"] less.prems(2-4) Cons m(1) f c
      by (subst read_loop.simps) (auto simp: Let_def)
  qed
qed

lemma on_bytes_chunks:
  assumes "read_frames from_json (co_partial c @ concat chunks) = (cmds, Frame_Wait, rest)" "Subscribe \<notin> set cmds"
    and "read_frame from_json (co_partial c) = Frame_Wait" "co_waiting c = None" "co_unread c = []"
  shows "fold (on_bytes from_json log) chunks c =
    c\<lparr>co_partial := rest, co_commands := co_commands c @ cmds\<rparr>"
  using assms
proof (induction chunks arbitrary: c cmds)
  case Nil
  then show ?case using read_frames_stop [of from_json "co_partial c"] by simp
next
  case (Cons s chunks)
  obtain ms1 rest1 where r1: "read_frames from_json (co_partial c @ s) = (ms1, Frame_Wait, rest1)"
    using Cons.prems(1) read_frames_prefix [of from_json "co_partial c @ s" "concat chunks"] by auto
  from read_frames_append [OF r1, of "concat chunks"] Cons.prems(1)
  obtain ms2 where r2: "cmds = ms1 @ ms2" "read_frames from_json (rest1 @ concat chunks) = (ms2, Frame_Wait, rest)"
    by (cases "read_frames from_json (rest1 @ concat chunks)") auto
  let ?c = "c\<lparr>co_commands := co_commands c @ ms1, co_partial := rest1, co_unread := []\<rparr>"
  have step: "on_bytes from_json log s c = ?c"
    using read_loop_frames [OF r1, of c log] r2(1) Cons.prems by (simp add: on_bytes_def)
  have "fold (on_bytes from_json log) chunks ?c = ?c\<lparr>co_partial := rest, co_commands := co_commands ?c @ ms2\<rparr>"
    using Cons.prems r2 read_frames_Wait [OF r1] by (intro Cons.IH) simp_all
  then show ?case using step r2(1) Cons.prems(5) by simp
qed

text \<open>Reading changes nothing about what is written and delivered, but for the beginning of a subscription.\<close>

definition reads_only :: "DaemonEvent list \<Rightarrow> conn \<Rightarrow> conn \<Rightarrow> bool" where
  "reads_only log c c' \<longleftrightarrow>
     co_rx c' = co_rx c \<and> co_written c' = co_written c \<and> prefix (co_commands c) (co_commands c') \<and>
     (co_waiting c' = co_waiting c \<or> co_rx c = None \<and> co_waiting c' = Some (length log))"

lemma reads_only_command: "reads_only log c (on_command log cmd c)"
  by (simp add: reads_only_def on_command_def)

lemma reads_only_loop: "reads_only log c (read_loop from_json log input c)"
proof (induction from_json log input c rule: read_loop.induct)
  case (1 from_json log input c)
  show ?case
  proof (cases "read_frame from_json input")
    case (Frame cmd rest)
    let ?c = "on_command log cmd c"
    show ?thesis
    proof (cases "co_waiting ?c = None")
      case True
      have "reads_only log ?c (read_loop from_json log rest ?c)" using 1 [OF Frame refl] True by blast
      moreover have "read_loop from_json log input c = read_loop from_json log rest ?c"
        using Frame True by (subst read_loop.simps) (simp add: Let_def)
      ultimately show ?thesis
        using reads_only_command [of log c cmd] unfolding reads_only_def by (auto intro: prefix_order.order_trans)
    next
      case False
      then have "read_loop from_json log input c = ?c\<lparr>co_partial := [], co_unread := rest\<rparr>"
        using Frame by (subst read_loop.simps) (simp add: Let_def)
      then show ?thesis using reads_only_command [of log c cmd] by (simp add: reads_only_def)
    qed
  qed (subst read_loop.simps, simp add: reads_only_def)+
qed

lemma reads_only_bytes: "reads_only log c (on_bytes from_json log s c)"
  using reads_only_loop [of log c from_json "co_partial c @ co_unread c @ s"] by (auto simp: on_bytes_def reads_only_def)

text \<open>
  The state of a subscriber: where it subscribed, at which later point its snapshot was made, and that what was written since is the snapshot and
  then events from the log since the subscription, all of them unless more than the capacity was sent.
\<close>

definition delivered_since :: "nat \<Rightarrow> nat \<Rightarrow> DaemonEvent list \<Rightarrow> DaemonEvent list \<Rightarrow> bool" where
  "delivered_since start pos log es \<longleftrightarrow>
     start \<le> pos \<and> pos \<le> length log \<and> subseq es (take (pos - start) (drop start log)) \<and>
     (length log - start \<le> BROADCAST_CAPACITY \<longrightarrow> es = take (pos - start) (drop start log))"

definition delivery :: "(DaemonEvent list \<Rightarrow> DaemonEvent) \<Rightarrow> conn \<Rightarrow> DaemonEvent list \<Rightarrow> bool" where
  "delivery snap c log \<longleftrightarrow>
     (case co_rx c of
        None \<Rightarrow> co_written c = [] \<and> (\<forall>start. co_waiting c = Some start \<longrightarrow> start \<le> length log)
      | Some pos \<Rightarrow> co_waiting c = None \<and>
          (\<exists>start k es. start \<le> k \<and> k \<le> length log \<and> co_written c = snap (take k log) # es \<and> delivered_since start pos log es))"

lemma delivery_on_bytes: "delivery snap c log \<Longrightarrow> delivery snap (on_bytes from_json log s c) log"
  using reads_only_bytes [of log c from_json s] by (cases "co_rx c") (auto simp: delivery_def reads_only_def)

lemma delivery_on_snapshot:
  assumes "delivery snap c log" shows "delivery snap (on_snapshot (snap log) c) log"
proof (cases "co_waiting c")
  case (Some start)
  with assms have "co_rx c = None" "co_written c = []" "start \<le> length log" by (auto simp: delivery_def split: option.splits)
  then have "start \<le> length log \<and> length log \<le> length log \<and> co_written (on_snapshot (snap log) c) = snap (take (length log) log) # [] \<and>
      delivered_since start start log []"
    using Some by (simp add: on_snapshot_def delivered_since_def)
  then show ?thesis using Some unfolding delivery_def on_snapshot_def by (simp del: take_all) blast
qed (use assms in \<open>simp add: on_snapshot_def\<close>)

lemma delivery_closed [simp]: "delivery snap (c\<lparr>co_open := b\<rparr>) log = delivery snap c log"
  by (simp add: delivery_def split: option.split)

lemma delivered_since_broadcast: "delivered_since start pos log es \<Longrightarrow> delivered_since start pos (log @ [e]) es"
  by (auto simp: delivered_since_def)

lemma delivery_broadcast:
  assumes "delivery snap c log" shows "delivery snap c (log @ [e])"
proof (cases "co_rx c")
  case (Some pos)
  with assms obtain start k es where "co_waiting c = None" "start \<le> k" "k \<le> length log" "co_written c = snap (take k log) # es"
      "delivered_since start pos log es"
    by (auto simp: delivery_def)
  then have "start \<le> k \<and> k \<le> length (log @ [e]) \<and> co_written c = snap (take k (log @ [e])) # es \<and> delivered_since start pos (log @ [e]) es"
    using delivered_since_broadcast [of start pos log es e] by simp
  then show ?thesis using Some \<open>co_waiting c = None\<close> unfolding delivery_def by simp blast
qed (use assms in \<open>auto simp: delivery_def\<close>)

lemma take_drop_Suc:
  "start \<le> pos \<Longrightarrow> pos < length log \<Longrightarrow> take (Suc pos - start) (drop start log) = take (pos - start) (drop start log) @ [log ! pos]"
  by (simp add: Suc_diff_le take_Suc_conv_app_nth)

lemma subseq_take_mono: "m \<le> n \<Longrightarrow> subseq (take m xs) (take n xs)"
  by (metis le_add_diff_inverse subseq_order.order_refl take_add subseq_rev_drop_many)

lemma delivered_since_recv:
  assumes "delivered_since start pos log es" "broadcast_recv BROADCAST_CAPACITY log pos = (r, pos')"
  shows "delivered_since start pos' log (es @ (case r of Recv e \<Rightarrow> [e] | _ \<Rightarrow> []))"
proof -
  consider "length log \<le> pos" | "pos < length log" "BROADCAST_CAPACITY < length log - pos"
    | "pos < length log" "length log - pos \<le> BROADCAST_CAPACITY" by linarith
  then show ?thesis
  proof cases
    case 2
    then have "pos \<le> length log - BROADCAST_CAPACITY" by linarith
    then have "subseq es (take (length log - BROADCAST_CAPACITY - start) (drop start log))"
      using assms(1) subseq_take_mono [of "pos - start" "length log - BROADCAST_CAPACITY - start" "drop start log"]
      unfolding delivered_since_def by (meson diff_le_mono subseq_order.order_trans)
    then show ?thesis using 2 assms by (auto simp: broadcast_recv_def delivered_since_def)
  next
    case 3
    then show ?thesis using assms by (auto simp: broadcast_recv_def delivered_since_def take_drop_Suc)
  qed (use assms in \<open>auto simp: broadcast_recv_def\<close>)
qed

lemma delivery_on_event:
  assumes "delivery snap c log" shows "delivery snap (on_event log c) log"
proof (cases "co_rx c")
  case (Some pos)
  with assms obtain start k es where d: "co_waiting c = None" "start \<le> k" "k \<le> length log" "co_written c = snap (take k log) # es"
      "delivered_since start pos log es"
    by (auto simp: delivery_def)
  obtain r pos' where r: "broadcast_recv BROADCAST_CAPACITY log pos = (r, pos')" by fastforce
  from delivered_since_recv [OF d(5) r] d Some r show ?thesis
    by (cases r) (auto simp: on_event_def delivery_def broadcast_recv_def split: if_splits)
qed (use assms in \<open>simp add: on_event_def\<close>)

lemma delivery_step: "delivery snap c log \<Longrightarrow> conn_step from_json snap e (c, log) = (c', log') \<Longrightarrow> delivery snap c' log'"
  by (cases e) (auto simp: delivery_on_bytes delivery_on_snapshot delivery_broadcast delivery_on_event split: if_splits)

lemma delivery_run: "conn_run from_json snap evs = (c, log) \<Longrightarrow> delivery snap c log"
  unfolding conn_run_def
proof (induction evs arbitrary: c log rule: rev_induct)
  case Nil
  then show ?case by (auto simp: new_conn_def delivery_def)
next
  case (snoc e evs)
  then show ?case by (cases "fold (conn_step from_json snap) evs (new_conn, [])") (auto intro: delivery_step)
qed

section \<open>Properties\<close>


text \<open>A JSON stand-in on which the parameters can be evaluated.\<close>

fun tiny_to_json :: "DaemonCommand \<Rightarrow> string" where
  "tiny_to_json Subscribe = ''S''"
| "tiny_to_json Quit = ''Q''"
| "tiny_to_json _ = []"

definition tiny_from_json :: "string \<Rightarrow> string + DaemonCommand" where
  "tiny_from_json s = (if s = ''S'' then Inr Subscribe else if s = ''Q'' then Inr Quit else Inl ''bad'')"


text \<open>
  The writer does not know the reader's limit. The length in front of a message is its length
  modulo \<open>2 ^ 32\<close>; whenever that is more than 4 MiB the reader refuses the frame, so an event that is too
  large (a snapshot of many folders, a report of many requests) is written and ends the connection of its reader.
\<close>

theorem ipc_oversized_frame_refused:
  "unat (from_be_bytes (take 4 (write_frame to_json m @ rest))) = length (to_json m) mod 2 ^ 32 \<and>
   (max_frame < length (to_json m) mod 2 ^ 32 \<longrightarrow>
      read_frame from_json (write_frame to_json m @ rest) = Frame_Too_Large (length (to_json m) mod 2 ^ 32))"
  unfolding read_frame_def frame_length Let_def by (simp add: unat_frame_length)

theorem ipc_oversized_frame_refused_witness:
  "read_frame tiny_from_json (write_frame (\<lambda>_. replicate (4 * 1024 * 1024 + 1) CHR ''x'') Ready) = Frame_Too_Large (4 * 1024 * 1024 + 1)"
  using ipc_oversized_frame_refused [of "\<lambda>_. replicate (4 * 1024 * 1024 + 1) CHR ''x''" Ready "[]" tiny_from_json]
  by (simp add: max_frame_def)


text \<open>The sync of folder 7 starts after the client has subscribed and before its snapshot is made, which reflects it; the event comes as well.\<close>

definition overlapping_subscription :: "conn_event list" where
  "overlapping_subscription = [Broadcast Ready, Client_Bytes (write_frame tiny_to_json Subscribe), Broadcast (SyncStarted 7), Snapshot_Ready,
     Broadcast (SyncStarted 8), Deliver, Deliver]"


text \<open>
  An event that is delivered while a command is half read destroys the command. A subscribed
  client sends one \<open>Quit\<close> in two portions. Without an event in between it is passed on; with one, the bytes
  read so far are gone, the rest is taken for the start of the next frame, and no command arrives.
\<close>

theorem event_destroys_half_read_command:
  "let f = write_frame tiny_to_json Quit;
       sub = Client_Bytes (write_frame tiny_to_json Subscribe);
       run = (\<lambda>evs. fst (conn_run tiny_from_json (\<lambda>_. Snapshot_Event []) (sub # Snapshot_Ready # evs)))
   in co_commands (run [Broadcast Ready, Client_Bytes (take 3 f), Client_Bytes (drop 3 f), Deliver]) = [Quit] \<and>
      co_commands (run [Broadcast Ready, Client_Bytes (take 3 f), Deliver, Client_Bytes (drop 3 f)]) = [] \<and>
      co_partial (run [Broadcast Ready, Client_Bytes (take 3 f), Deliver, Client_Bytes (drop 3 f)]) = drop 3 f"
  by code_simp

end
