(* ===== verification/DaemonState.thy ===== *)
theory DaemonState
  imports Scheduler Engine OcisApi Ipc
begin

text \<open>
  The state of the daemon (\<open>crates/daemon/src\<close>): the configuration file (\<open>config.rs\<close>), the managed
  folders with their engines (\<open>folder_manager.rs\<close>, \<open>vfs_factory.rs\<close>), the token managers built at start (\<open>main.rs\<close>), and the
  record of everything the main loop owns. TOML, the file system calls and the other system services are given by
  an environment that tells the outcome of each call.
\<close>

section \<open>Configuration (\<open>config.rs\<close>)\<close>

definition CLASSIC_SPACE_ID :: string where
  "CLASSIC_SPACE_ID = ''00000000-0000-0000-0000-000000000000''"

record GeneralConfig =
  gc_log_level :: string
  gc_notification_enabled :: bool
  gc_poll_interval_secs :: u64
  gc_space_poll_interval_secs :: u64
  gc_insecure :: bool

definition default_general :: GeneralConfig where
  "default_general = \<lparr>gc_log_level = ''info'', gc_notification_enabled = True, gc_poll_interval_secs = 30,
     gc_space_poll_interval_secs = 300, gc_insecure = False\<rparr>"

record FolderConfig =
  fc_id :: uuid
  fc_local_path :: string
  fc_space_id :: string
  fc_display_name :: string
  fc_selective_sync_excluded :: "string list"
  fc_vfs_mode :: string
  fc_paused :: bool

record AccountConfig =
  ac_id :: uuid
  ac_url :: string
  ac_user_id :: string
  ac_username :: string
  ac_display_name :: string
  ac_server_type :: ServerType
  ac_folder :: "FolderConfig list"
  ac_dismissed_spaces :: "string list"

record AppConfig =
  ap_general :: GeneralConfig
  ap_account :: "AccountConfig list"

text \<open>
  \<open>ce_mkdir\<close> is the error of creating the directory; \<open>ce_write\<close> that of writing, with what is left of
  the file.
\<close>

record config_env =
  ce_mkdir :: "string option"
  ce_print :: "AppConfig \<Rightarrow> string + string"
  ce_parse :: "string \<Rightarrow> string + AppConfig"
  ce_read :: "string option"
  ce_write :: "string \<Rightarrow> (string \<times> string option) option"

definition load_config :: "config_env \<Rightarrow> string option \<Rightarrow> string + AppConfig" where
  "load_config ce file =
     (case ce_read ce of
        Some e \<Rightarrow> Inl e
      | None \<Rightarrow> (case file of None \<Rightarrow> Inl ''No such file or directory (os error 2)'' | Some text \<Rightarrow> ce_parse ce text))"

definition load_or_default :: "config_env \<Rightarrow> string option \<Rightarrow> string + AppConfig" where
  "load_or_default ce file =
     (if file = None then Inr \<lparr>ap_general = default_general, ap_account = []\<rparr> else load_config ce file)"

definition save_config :: "config_env \<Rightarrow> AppConfig \<Rightarrow> string option \<Rightarrow> (string + unit) \<times> string option" where
  "save_config ce cfg file =
     (case ce_mkdir ce of
        Some e \<Rightarrow> (Inl e, file)
      | None \<Rightarrow>
          (case ce_print ce cfg of
             Inl e \<Rightarrow> (Inl e, file)
           | Inr text \<Rightarrow>
               (case ce_write ce text of Some (e, left) \<Rightarrow> (Inl e, left) | None \<Rightarrow> (Inr (), Some text))))"

section \<open>Virtual files (\<open>vfs_factory.rs\<close>)\<close>

datatype vfs_kind = Vfs_Off | Vfs_Windows | Vfs_MacOs

datatype DaemonError = VfsNotSupported string | UnknownVfsMode string | VfsInit string

fun show_DaemonError :: "DaemonError \<Rightarrow> string" where
  "show_DaemonError (VfsNotSupported m) = ''VFS mode '' @ [CHR 0x27] @ m @ [CHR 0x27] @ '' is not supported on this platform''"
| "show_DaemonError (UnknownVfsMode m) = ''unknown VFS mode: '' @ [CHR 0x27] @ m @ [CHR 0x27]"
| "show_DaemonError (VfsInit m) = ''VFS initialisation error: '' @ m"

datatype platform = Linux | Windows | MacOs

definition create_vfs :: "platform \<Rightarrow> (string \<Rightarrow> string option) \<Rightarrow> string \<Rightarrow> string \<Rightarrow> DaemonError + vfs_kind" where
  "create_vfs pf init mode root =
     (if mode = ''off'' then Inr Vfs_Off
      else if mode = ''windows_cf'' then
        (if pf = Windows then (case init root of Some e \<Rightarrow> Inl (VfsInit e) | None \<Rightarrow> Inr Vfs_Windows)
         else Inl (VfsNotSupported ''windows_cf requires Windows''))
      else if mode = ''macos_fp'' then
        (if pf = MacOs then (case init root of Some e \<Rightarrow> Inl (VfsInit e) | None \<Rightarrow> Inr Vfs_MacOs)
         else Inl (VfsNotSupported ''macos_fp requires macOS''))
      else Inl (UnknownVfsMode mode))"

section \<open>Managed folders (\<open>folder_manager.rs\<close>)\<close>

record TokenManager =
  tm_oidc :: OidcConfig
  tm_token :: TokenSet
  tm_account_id :: string

definition tus_threshold_for :: "ServerType \<Rightarrow> u64" where
  "tus_threshold_for t = (case t of Ocis \<Rightarrow> 5 * 1024 * 1024 | Classic \<Rightarrow> 18446744073709551615)"

definition fallback_root :: url where
  "fallback_root = \<lparr>url_scheme = ''http'', url_host = Some ''localhost'', url_port = None,
     url_segments = Some [''dav'', ''spaces'', ''unknown'', []], url_query = None, url_fragment = None\<rparr>"

definition build_space_root :: "libs \<Rightarrow> AccountConfig option \<Rightarrow> ServerType \<Rightarrow> string \<Rightarrow> string \<Rightarrow> url" where
  "build_space_root lib account server_type space_id user_id =
     (case account of
        None \<Rightarrow> fallback_root
      | Some a \<Rightarrow>
          (case lib_url_parse lib (trim_end_matches CHR ''/'' (ac_url a)) of
             None \<Rightarrow> fallback_root
           | Some server_url \<Rightarrow>
               (case webdav_root lib server_url server_type space_id user_id of Inl _ \<Rightarrow> fallback_root | Inr u \<Rightarrow> u)))"

record ManagedFolder =
  mf_config :: FolderConfig
  mf_engine :: EngineConfig
  mf_token_manager :: TokenManager
  mf_vfs :: vfs_kind
  mf_watcher :: bool

record FolderManager =
  fm_folders :: "uuid \<rightharpoonup> ManagedFolder"
  fm_sync_states :: "uuid \<rightharpoonup> SyncState"

definition empty_fm :: FolderManager where
  "empty_fm = \<lparr>fm_folders = Map.empty, fm_sync_states = Map.empty\<rparr>"

text \<open>
  The system calls that bring a folder up: whether the configuration directory cannot be created and the
  journal of a folder not be opened, and the messages of the other failures.
\<close>

record folder_env =
  fe_platform :: platform
  fe_lib :: libs
  fe_show_id :: "uuid \<Rightarrow> string"
  fe_config_dir :: string
  fe_mkdir_fails :: bool
  fe_vfs_init :: "string \<Rightarrow> string option"
  fe_db_fails :: "uuid \<Rightarrow> bool"
  fe_watch :: "string \<Rightarrow> string option"

text \<open>The engine configuration both \<open>init_sync\<close> and \<open>add_folder\<close> build.\<close>

definition engine_config :: "folder_env \<Rightarrow> FolderConfig \<Rightarrow> AccountConfig \<Rightarrow> EngineConfig" where
  "engine_config fe fc a =
     \<lparr>cfg_folder_id = fc_id fc, cfg_local_root = fc_local_path fc,
      cfg_space_root = build_space_root (fe_lib fe) (Some a) (ac_server_type a) (fc_space_id fc) (ac_user_id a),
      cfg_conflict_strategy = KeepBoth, cfg_max_parallel_transfers = 4, cfg_tus_threshold = tus_threshold_for (ac_server_type a)\<rparr>"

text \<open>Bringing one folder up: virtual files, journal, watcher, in this order.\<close>

definition open_folder :: "folder_env \<Rightarrow> FolderConfig \<Rightarrow> AccountConfig \<Rightarrow> TokenManager \<Rightarrow> string + ManagedFolder" where
  "open_folder fe fc a tm =
     (case create_vfs (fe_platform fe) (fe_vfs_init fe) (fc_vfs_mode fc) (fc_local_path fc) of
        Inl e \<Rightarrow> Inl (''vfs init for folder '' @ fe_show_id fe (fc_id fc) @ '': '' @ show_DaemonError e)
      | Inr vfs \<Rightarrow>
          (if fe_db_fails fe (fc_id fc) then Inl (''open sync journal for folder '' @ fe_show_id fe (fc_id fc))
           else
               (case fe_watch fe (fc_local_path fc) of
                  Some e \<Rightarrow> Inl e
                | None \<Rightarrow>
                    Inr \<lparr>mf_config = fc, mf_engine = engine_config fe fc a, mf_token_manager = tm, mf_vfs = vfs, mf_watcher = True\<rparr>)))"

definition insert_folder :: "FolderConfig \<Rightarrow> ManagedFolder \<Rightarrow> FolderManager \<Rightarrow> FolderManager" where
  "insert_folder fc mf fm =
     \<lparr>fm_folders = (fm_folders fm)(fc_id fc \<mapsto> mf), fm_sync_states = (fm_sync_states fm)(fc_id fc \<mapsto> new_SyncState (fc_id fc))\<rparr>"

fun init_folders :: "folder_env \<Rightarrow> AccountConfig list \<Rightarrow> (uuid \<rightharpoonup> TokenManager) \<Rightarrow> FolderConfig list \<Rightarrow> FolderManager \<Rightarrow> string + FolderManager" where
  "init_folders fe accounts tms [] fm = Inr fm"
| "init_folders fe accounts tms (fc # fcs) fm =
     (case find (\<lambda>a. list_ex (\<lambda>f. fc_id f = fc_id fc) (ac_folder a)) accounts of
        None \<Rightarrow> init_folders fe accounts tms fcs fm
      | Some a \<Rightarrow>
          (case tms (ac_id a) of
             None \<Rightarrow> init_folders fe accounts tms fcs fm
           | Some tm \<Rightarrow>
               (case open_folder fe fc a tm of
                  Inl e \<Rightarrow> Inl e
                | Inr mf \<Rightarrow> init_folders fe accounts tms fcs (insert_folder fc mf fm))))"

definition init_sync :: "folder_env \<Rightarrow> FolderConfig list \<Rightarrow> AccountConfig list \<Rightarrow> (uuid \<rightharpoonup> TokenManager) \<Rightarrow> string + FolderManager" where
  "init_sync fe fcs accounts tms =
     (if fe_mkdir_fails fe then Inl (''create config dir '' @ fe_config_dir fe) else init_folders fe accounts tms fcs empty_fm)"

definition fm_add_folder :: "folder_env \<Rightarrow> FolderConfig \<Rightarrow> AccountConfig \<Rightarrow> TokenManager \<Rightarrow> FolderManager \<Rightarrow> (string + unit) \<times> FolderManager" where
  "fm_add_folder fe fc a tm fm =
     (if fe_mkdir_fails fe then (Inl (''create config dir '' @ fe_config_dir fe), fm)
      else (case open_folder fe fc a tm of Inl e \<Rightarrow> (Inl e, fm) | Inr mf \<Rightarrow> (Inr (), insert_folder fc mf fm)))"

definition take_watcher :: "uuid \<Rightarrow> FolderManager \<Rightarrow> bool \<times> FolderManager" where
  "take_watcher i fm =
     (case fm_folders fm i of
        None \<Rightarrow> (False, fm)
      | Some mf \<Rightarrow> (mf_watcher mf, fm\<lparr>fm_folders := (fm_folders fm)(i \<mapsto> mf\<lparr>mf_watcher := False\<rparr>)\<rparr>))"

definition get_engine :: "uuid \<Rightarrow> FolderManager \<Rightarrow> EngineConfig option" where
  "get_engine i fm = map_option mf_engine (fm_folders fm i)"

text \<open>\<open>order\<close> is the iteration order of the map.\<close>

definition folder_roots :: "uuid list \<Rightarrow> FolderManager \<Rightarrow> (string \<times> uuid) list" where
  "folder_roots order fm = List.map_filter (\<lambda>i. map_option (\<lambda>mf. (fc_local_path (mf_config mf), i)) (fm_folders fm i)) order"

definition shared_vfs :: "uuid list \<Rightarrow> FolderManager \<Rightarrow> vfs_kind" where
  "shared_vfs order fm =
     (case List.map_filter (\<lambda>i. map_option mf_vfs (fm_folders fm i)) order of [] \<Rightarrow> Vfs_Off | v # _ \<Rightarrow> v)"

section \<open>Token managers at start (\<open>main.rs\<close>)\<close>

text \<open>
  \<open>build_token_managers\<close>: an account without a keychain entry or whose server cannot be discovered is
  left out. \<open>load\<close> gives the result of the blocking task that reads the keychain, \<open>discover\<close> that of \<open>OidcAuth::discover\<close>.
\<close>

fun build_token_managers :: "(uuid \<Rightarrow> string) \<Rightarrow> (string \<Rightarrow> OcisError + TokenSet option) \<Rightarrow> (string \<Rightarrow> 'w \<Rightarrow> (OcisError + OidcConfig) \<times> 'w)
    \<Rightarrow> AccountConfig list \<Rightarrow> (uuid \<rightharpoonup> TokenManager) \<Rightarrow> 'w \<Rightarrow> (uuid \<rightharpoonup> TokenManager) \<times> 'w" where
  "build_token_managers show_id load disc [] m w = (m, w)"
| "build_token_managers show_id load disc (a # as) m w =
     (case load (show_id (ac_id a)) of
        Inr (Some t) \<Rightarrow>
          (case disc (ac_url a) w of
             (Inl _, w') \<Rightarrow> build_token_managers show_id load disc as m w'
           | (Inr oidc, w') \<Rightarrow>
               build_token_managers show_id load disc as
                 (m(ac_id a \<mapsto> \<lparr>tm_oidc = oidc, tm_token = t, tm_account_id = show_id (ac_id a)\<rparr>)) w')
      | _ \<Rightarrow> build_token_managers show_id load disc as m w)"

section \<open>The daemon\<close>

datatype spawned =
    Setup_Account uuid string u16  \<comment> \<open>account, url, port of the callback listener\<close>
  | Listing_Spaces uuid string TokenManager

text \<open>
  A spawned sync task: while the engine runs, and after it has released the scheduler's flag but not yet
  told the GUI.
\<close>

datatype sync_task = Engine_Run uuid EngineConfig | Announce uuid "string list" "SyncReport option"

text \<open>
  Everything the main loop and its tasks share. \<open>d_events\<close> is the sequence of events broadcast so far, \<open>d_watching\<close>
  the folders whose watcher is being forwarded, \<open>d_poll\<close> the channel of the poll task, \<open>d_uuids\<close> the
  number of identifiers drawn.
\<close>

record daemon =
  d_sched :: SyncScheduler
  d_fm :: FolderManager
  d_events :: "DaemonEvent list"
  d_config :: AppConfig
  d_file :: "string option"
  d_live :: "uuid list"
  d_tms :: "uuid \<rightharpoonup> TokenManager"
  d_watching :: "uuid list"
  d_spawned :: "spawned list"
  d_debounce :: "uuid \<rightharpoonup> nat"
  d_runs :: "sync_task list"
  d_poll :: "uuid list"
  d_uuids :: nat

definition broadcast :: "DaemonEvent \<Rightarrow> daemon \<Rightarrow> daemon" where
  "broadcast e d = d\<lparr>d_events := d_events d @ [e]\<rparr>"

lemma broadcast_simps [simp]:
  "d_events (broadcast e d) = d_events d @ [e]" "d_config (broadcast e d) = d_config d" "d_file (broadcast e d) = d_file d"
  "d_tms (broadcast e d) = d_tms d" "d_sched (broadcast e d) = d_sched d" "d_fm (broadcast e d) = d_fm d" "d_live (broadcast e d) = d_live d"
  "d_runs (broadcast e d) = d_runs d" "d_poll (broadcast e d) = d_poll d" "d_debounce (broadcast e d) = d_debounce d"
  "d_watching (broadcast e d) = d_watching d" "d_spawned (broadcast e d) = d_spawned d" "d_uuids (broadcast e d) = d_uuids d"
  by (simp_all add: broadcast_def)

text \<open>The snapshot provider.\<close>

definition snapshot_of :: "AppConfig \<Rightarrow> SyncScheduler \<Rightarrow> DaemonEvent" where
  "snapshot_of cfg sched =
     Snapshot_Event (map (\<lambda>a.
       \<lparr>asn_account_id = ac_id a, asn_url = ac_url a, asn_display_name = ac_display_name a,
        asn_folders = map (\<lambda>f.
          \<lparr>fsn_folder_id = fc_id f, fsn_space_id = fc_space_id f, fsn_display_name = fc_display_name f, fsn_local_path = fc_local_path f,
           fsn_status = (case folder_status (fc_id f) sched of Some s \<Rightarrow> s | None \<Rightarrow> ''idle'')\<rparr>) (ac_folder a)\<rparr>) (ap_account cfg))"

text \<open>
  The state in which \<open>main\<close> enters its loop: \<open>order\<close> is the iteration order of the managed folders, and
  the forwarding task of each watcher has been started.
\<close>

definition init_daemon :: "AppConfig \<Rightarrow> string option \<Rightarrow> (uuid \<rightharpoonup> TokenManager) \<Rightarrow> FolderManager \<Rightarrow> uuid list \<Rightarrow> daemon" where
  "init_daemon cfg file tms fm order =
     \<lparr>d_sched = new_scheduler order, d_fm = fold (\<lambda>i fm. snd (take_watcher i fm)) order fm, d_events = [Ready],
      d_config = cfg, d_file = file, d_live = order, d_tms = tms,
      d_watching = filter (\<lambda>i. fst (take_watcher i fm)) order, d_spawned = [], d_debounce = Map.empty, d_runs = [], d_poll = [], d_uuids = 0\<rparr>"

section \<open>A concrete instance\<close>

text \<open>A disk that can be written or is full.\<close>

definition sample_config_env :: "bool \<Rightarrow> config_env" where
  "sample_config_env ok = \<lparr>ce_mkdir = None, ce_print = (\<lambda>_. Inr ''cfg''), ce_parse = (\<lambda>_. Inl []), ce_read = None,
     ce_write = (\<lambda>text. if ok then None else Some (''disk full'', None))\<rparr>"

definition sample_oidc :: OidcConfig where
  "sample_oidc = \<lparr>oc_issuer_url = sample_root, oc_client_id = ''c'', oc_client_secret = None, oc_redirect_uri = sample_root,
     oc_authorization_endpoint = sample_root, oc_token_endpoint = sample_root\<rparr>"

definition sample_tm :: TokenManager where
  "sample_tm = \<lparr>tm_oidc = sample_oidc, tm_token = \<lparr>ts_access_token = ''t'', ts_refresh_token = None, ts_expires_at = 0\<rparr>, tm_account_id = ''1''\<rparr>"

end
