(* ===== verification/DaemonHandler.thy ===== *)
theory DaemonHandler
  imports DaemonState
begin

text \<open>
  The commands of the GUI (\<open>crates/daemon/src/gui_ipc/handler.rs\<close>): \<open>handle_command\<close>, one definition per
  arm that does more than one thing. What a command leaves to a spawned task is recorded in \<open>d_spawned\<close>; the task that
  lists spaces is modelled here, the one that sets up an account in the theory of account setup.

  The main loop handles one command at a time. A handler releases the locks of the configuration and of the scheduler between its phases, and what
  runs beside it (polls, sign-ins, the ends of sync tasks, snapshots for a new subscriber) can take its turn there. \<open>handle_command\<close> is one
  step: such turns come before or after it. The phases work on a folder with a fresh identifier, which the copy of a poll that is under way does not contain and
  which no sync task has, so what is left out are a poll that begins and ends between two phases, and a snapshot that is taken after
  the new folder is in the configuration and before it is announced. For the latter the phases are definitions of their own, and the theory of the GUI
  has what such a snapshot leads to.
\<close>

section \<open>Endpoints of ownCloud Classic\<close>

definition oc10_oauth2_endpoints :: "string \<Rightarrow> string \<times> string" where
  "oc10_oauth2_endpoints server_url =
     (let base = trim_end_matches CHR ''/'' server_url
      in (base @ ''/index.php/apps/oauth2/authorize'', base @ ''/index.php/apps/oauth2/api/v1/token''))"

definition oc10_callback_uri :: "u16 \<Rightarrow> string" where
  "oc10_callback_uri port = ''http://localhost:'' @ show_nat (unat port) @ ''/''"

datatype ShouldQuit = Yes | No

text \<open>
  The outcomes of the calls a command makes: \<open>hx_bind\<close> is the error of binding the callback port, or
  what \<open>local_addr\<close> gives then; \<open>hx_uuid n\<close> is the \<open>n\<close>-th identifier drawn; the calls of the loop over the
  selected spaces are numbered by the round.
\<close>

record handler_env =
  hx_bind :: "string + (string + u16)"
  hx_uuid :: "nat \<Rightarrow> uuid"
  hx_mkdir :: "nat \<Rightarrow> string \<Rightarrow> string option"
  hx_folder :: "nat \<Rightarrow> folder_env"
  hx_config :: "nat \<Rightarrow> config_env"

definition fresh_uuid :: "handler_env \<Rightarrow> daemon \<Rightarrow> uuid \<times> daemon" where
  "fresh_uuid hx d = (hx_uuid hx (d_uuids d), d\<lparr>d_uuids := Suc (d_uuids d)\<rparr>)"

section \<open>Accounts\<close>

definition find_account :: "uuid \<Rightarrow> AppConfig \<Rightarrow> AccountConfig option" where
  "find_account i cfg = find (\<lambda>a. ac_id a = i) (ap_account cfg)"

text \<open>\<open>if let Some(acc) = cfg.account.iter_mut().find(...)\<close>: the first account with the identifier is changed.\<close>

fun update_first :: "('a \<Rightarrow> bool) \<Rightarrow> ('a \<Rightarrow> 'a) \<Rightarrow> 'a list \<Rightarrow> 'a list" where
  "update_first P f [] = []"
| "update_first P f (x # xs) = (if P x then f x # xs else x # update_first P f xs)"

definition update_account :: "uuid \<Rightarrow> (AccountConfig \<Rightarrow> AccountConfig) \<Rightarrow> AppConfig \<Rightarrow> AppConfig" where
  "update_account i f cfg = cfg\<lparr>ap_account := update_first (\<lambda>a. ac_id a = i) f (ap_account cfg)\<rparr>"

definition account_url :: "string \<Rightarrow> string" where
  "account_url u =
     (let bare = (case strip_prefix_str ''https://'' u of
                    Some r \<Rightarrow> r
                  | None \<Rightarrow> (case strip_prefix_str ''http://'' u of Some r \<Rightarrow> r | None \<Rightarrow> u))
      in ''https://'' @ bare)"

definition add_account :: "handler_env \<Rightarrow> string \<Rightarrow> daemon \<Rightarrow> (string + ShouldQuit) \<times> daemon" where
  "add_account hx u d =
     (case fresh_uuid hx d of
        (account_id, d) \<Rightarrow>
          (case hx_bind hx of
             Inl e \<Rightarrow> (Inr No, broadcast (AccountAddFailed account_id (''failed to bind callback port: '' @ e)) d)
           | Inr (Inl e) \<Rightarrow> (Inl e, d)
           | Inr (Inr port) \<Rightarrow>
               (Inr No, broadcast (AccountAddStarted account_id)
                  (d\<lparr>d_spawned := d_spawned d @ [Setup_Account account_id (account_url u) port]\<rparr>))))"

definition remove_account :: "config_env \<Rightarrow> uuid \<Rightarrow> daemon \<Rightarrow> (string + ShouldQuit) \<times> daemon" where
  "remove_account ce i d =
     (let cfg = (d_config d)\<lparr>ap_account := filter (\<lambda>a. ac_id a \<noteq> i) (ap_account (d_config d))\<rparr>
      in case save_config ce cfg (d_file d) of
           (Inl e, file) \<Rightarrow> (Inl e, d\<lparr>d_config := cfg, d_file := file\<rparr>)
         | (Inr _, file) \<Rightarrow> (Inr No, broadcast (AccountStateChanged i ''removed'') (d\<lparr>d_config := cfg, d_file := file\<rparr>)))"

section \<open>Spaces\<close>

definition space_failed :: "uuid \<Rightarrow> string \<Rightarrow> daemon \<Rightarrow> (string + ShouldQuit) \<times> daemon" where
  "space_failed i reason d = (Inr No, broadcast (AccountSpaceFailed i reason) d)"

definition handle_list_spaces :: "uuid \<Rightarrow> daemon \<Rightarrow> (string + ShouldQuit) \<times> daemon" where
  "handle_list_spaces i d =
     (case find_account i (d_config d) of
        None \<Rightarrow> space_failed i ''account not found'' d
      | Some a \<Rightarrow>
          (if ac_server_type a = Classic then
             (Inr No, broadcast (SpacesListed i [\<lparr>si_id = CLASSIC_SPACE_ID, si_name = ac_display_name a, si_drive_type = ''personal''\<rparr>]) d)
           else
             (case d_tms d i of
                None \<Rightarrow> space_failed i ''no credentials found for account'' d
              | Some tm \<Rightarrow> (Inr No, d\<lparr>d_spawned := d_spawned d @ [Listing_Spaces i (ac_url a) tm]\<rparr>))))"

definition space_info :: "Space \<Rightarrow> SpaceInfo" where
  "space_info s = \<lparr>si_id = sp_id s, si_name = sp_name s, si_drive_type = sp_drive_type s\<rparr>"

text \<open>The spawned task of \<open>ListSpaces\<close> ends with one event.\<close>

definition list_spaces_task :: "libs \<Rightarrow> 'w net \<Rightarrow> (string \<Rightarrow> string + DriveJson list) \<Rightarrow> uuid \<Rightarrow> string \<Rightarrow> TokenManager \<Rightarrow> 'w \<Rightarrow> DaemonEvent \<times> 'w" where
  "list_spaces_task lib net dec i u tm w =
     (case lib_url_parse lib u of
        None \<Rightarrow> (AccountSpaceFailed i (''invalid server URL: '' @ lib_url_error lib u), w)
      | Some base \<Rightarrow>
          (case list_spaces lib net dec base (ts_access_token (tm_token tm)) w of
             (Inr ss, w') \<Rightarrow> (SpacesListed i (map space_info ss), w')
           | (Inl e, w') \<Rightarrow> (AccountSpaceFailed i (''failed to list spaces: '' @ show_OcisError e), w')))"

text \<open>The folder that \<open>SetAccountFolders\<close> and \<open>AddAccountSpace\<close> configure.\<close>

definition new_folder :: "uuid \<Rightarrow> string \<Rightarrow> string \<Rightarrow> string \<Rightarrow> FolderConfig" where
  "new_folder i local_path space_id display_name =
     \<lparr>fc_id = i, fc_local_path = local_path, fc_space_id = space_id, fc_display_name = display_name,
      fc_selective_sync_excluded = [], fc_vfs_mode = ''off'', fc_paused = False\<rparr>"

text \<open>
  What both commands do with it: bring it up, write it to the configuration (under the lock of the configuration), schedule it (under
  that of the scheduler), and then add it to the polled folders, forward its watcher, and tell the GUI. A failure to save the configuration is only logged.
\<close>

definition configure_folder :: "config_env \<Rightarrow> uuid \<Rightarrow> FolderConfig \<Rightarrow> daemon \<Rightarrow> daemon" where
  "configure_folder ce account_id fc d =
     (let cfg = update_account account_id (\<lambda>a. a\<lparr>ac_folder := ac_folder a @ [fc]\<rparr>) (d_config d)
      in d\<lparr>d_config := cfg, d_file := snd (save_config ce cfg (d_file d))\<rparr>)"

definition schedule_folder :: "uuid \<Rightarrow> daemon \<Rightarrow> daemon" where
  "schedule_folder folder_id d = d\<lparr>d_sched := request_sync folder_id (add_folder folder_id (d_sched d))\<rparr>"

definition folder_added_event :: "uuid \<Rightarrow> FolderConfig \<Rightarrow> DaemonEvent" where
  "folder_added_event account_id fc = AccountFolderAdded account_id (fc_id fc) (fc_space_id fc) (fc_local_path fc) (fc_display_name fc)"

definition announce_folder :: "uuid \<Rightarrow> FolderConfig \<Rightarrow> daemon \<Rightarrow> daemon" where
  "announce_folder account_id fc d =
     (let watcher = take_watcher (fc_id fc) (d_fm d)
      in broadcast (folder_added_event account_id fc)
           (d\<lparr>d_live := d_live d @ [fc_id fc], d_fm := snd watcher,
              d_watching := d_watching d @ (if fst watcher then [fc_id fc] else [])\<rparr>))"

definition register_folder :: "folder_env \<Rightarrow> config_env \<Rightarrow> uuid \<Rightarrow> FolderConfig \<Rightarrow> TokenManager \<Rightarrow> daemon \<Rightarrow> daemon" where
  "register_folder fe ce account_id fc tm d =
     (case find_account account_id (d_config d) of
        None \<Rightarrow> d
      | Some account \<Rightarrow>
          (case fm_add_folder fe fc account tm (d_fm d) of
             (Inl e, fm) \<Rightarrow> broadcast (AccountSpaceFailed account_id (''failed to register folder: '' @ e)) (d\<lparr>d_fm := fm\<rparr>)
           | (Inr _, fm) \<Rightarrow>
               announce_folder account_id fc (schedule_folder (fc_id fc) (configure_folder ce account_id fc (d\<lparr>d_fm := fm\<rparr>)))))"

lemmas register_folder_defs = register_folder_def configure_folder_def schedule_folder_def announce_folder_def folder_added_event_def

fun set_folders :: "handler_env \<Rightarrow> uuid \<Rightarrow> string \<Rightarrow> TokenManager \<Rightarrow> nat \<Rightarrow> SpaceSelection list \<Rightarrow> daemon \<Rightarrow> daemon" where
  "set_folders hx account_id root_path tm k [] d = d"
| "set_folders hx account_id root_path tm k (sel # sels) d =
     (let sub_path = path_join root_path (sel_display_name sel)
      in case hx_mkdir hx k sub_path of
           Some e \<Rightarrow>
             set_folders hx account_id root_path tm (Suc k) sels
               (broadcast (AccountSpaceFailed account_id (''failed to create folder '' @ [CHR 0x27] @ sub_path @ [CHR 0x27] @ '': '' @ e)) d)
         | None \<Rightarrow>
             (case fresh_uuid hx d of
                (folder_id, d) \<Rightarrow>
                  set_folders hx account_id root_path tm (Suc k) sels
                    (register_folder (hx_folder hx k) (hx_config hx k) account_id
                       (new_folder folder_id sub_path (sel_space_id sel) (sel_display_name sel)) tm d)))"

definition set_account_folders :: "handler_env \<Rightarrow> uuid \<Rightarrow> string \<Rightarrow> SpaceSelection list \<Rightarrow> daemon \<Rightarrow> (string + ShouldQuit) \<times> daemon" where
  "set_account_folders hx account_id root_path spaces d =
     (if find_account account_id (d_config d) = None then space_failed account_id ''account not found'' d
      else (case d_tms d account_id of
              None \<Rightarrow> space_failed account_id ''no credentials found for account'' d
            | Some tm \<Rightarrow> (Inr No, set_folders hx account_id root_path tm 0 spaces d)))"

definition add_account_space :: "handler_env \<Rightarrow> uuid \<Rightarrow> string \<Rightarrow> string \<Rightarrow> daemon \<Rightarrow> (string + ShouldQuit) \<times> daemon" where
  "add_account_space hx account_id space_id local_path d =
     (if find_account account_id (d_config d) = None then space_failed account_id ''account not found'' d
      else (case d_tms d account_id of
              None \<Rightarrow> space_failed account_id ''no credentials found for account'' d
            | Some tm \<Rightarrow>
                (case hx_mkdir hx 0 local_path of
                   Some e \<Rightarrow> space_failed account_id (''failed to create folder '' @ [CHR 0x27] @ local_path @ [CHR 0x27] @ '': '' @ e) d
                 | None \<Rightarrow>
                     (let display_name = (case file_name local_path of Some n \<Rightarrow> n | None \<Rightarrow> space_id)
                      in case fresh_uuid hx d of
                           (folder_id, d) \<Rightarrow>
                             (Inr No, register_folder (hx_folder hx 0) (hx_config hx 0) account_id
                                (new_folder folder_id local_path space_id display_name) tm d)))))"

definition dismiss_space :: "config_env \<Rightarrow> uuid \<Rightarrow> string \<Rightarrow> daemon \<Rightarrow> daemon" where
  "dismiss_space ce account_id space_id d =
     (case find_account account_id (d_config d) of
        None \<Rightarrow> d
      | Some _ \<Rightarrow>
          (let cfg = update_account account_id
                 (\<lambda>a. if space_id \<in> set (ac_dismissed_spaces a) then a
                      else a\<lparr>ac_dismissed_spaces := ac_dismissed_spaces a @ [space_id]\<rparr>) (d_config d)
           in d\<lparr>d_config := cfg, d_file := snd (save_config ce cfg (d_file d))\<rparr>))"

section \<open>\<open>handle_command\<close>\<close>

fun handle_command :: "handler_env \<Rightarrow> DaemonCommand \<Rightarrow> daemon \<Rightarrow> (string + ShouldQuit) \<times> daemon" where
  "handle_command hx Subscribe d = (Inr No, d)"
| "handle_command hx (TriggerSync i) d =
     (Inr No, broadcast (SyncStarted i) (d\<lparr>d_sched := force_request_sync i (d_sched d)\<rparr>))"
| "handle_command hx (PauseFolder i) d =
     (Inr No, broadcast (AccountStateChanged i ''paused'') (d\<lparr>d_sched := pause i (d_sched d)\<rparr>))"
| "handle_command hx (ResumeFolder i) d =
     (Inr No, broadcast (AccountStateChanged i ''active'') (d\<lparr>d_sched := resume i (d_sched d)\<rparr>))"
| "handle_command hx (AddAccount u) d = add_account hx u d"
| "handle_command hx (RemoveAccount i) d = remove_account (hx_config hx 0) i d"
| "handle_command hx (ListSpaces i) d = handle_list_spaces i d"
| "handle_command hx (SetAccountFolders i root_path spaces) d = set_account_folders hx i root_path spaces d"
| "handle_command hx (AddAccountSpace i space_id local_path) d = add_account_space hx i space_id local_path d"
| "handle_command hx (DismissSpace i space_id) d = (Inr No, dismiss_space (hx_config hx 0) i space_id d)"
| "handle_command hx Quit d = (Inr Yes, d)"

end
