(* ===== verification/Webfinger.thy ===== *)
theory Webfinger
  imports Auth
begin

text \<open>
  WebFinger resolution (\<open>crates/ocis-client/src/webfinger.rs\<close>): from the URL the user entered to the URL
  of the server instance, with the check that keeps a WebFinger host from sending the login elsewhere.
\<close>

section \<open>The descriptor\<close>

record JrdLink =
  jl_rel :: string
  jl_href :: "string option"

type_synonym Jrd = "JrdLink list"

definition REL_SERVER_INSTANCE :: string where
  "REL_SERVER_INSTANCE = ''http://webfinger.owncloud/rel/server-instance''"

section \<open>Trust\<close>

definition registrable_domain :: "string \<Rightarrow> string" where
  "registrable_domain host =
     (let host = to_ascii_lowercase host; labels = split_on CHR ''.'' host
      in if length labels \<le> 2 then host else join_on ''.'' (drop (length labels - 2) labels))"

definition instance_host_is_trusted :: "string \<Rightarrow> url \<Rightarrow> bool" where
  "instance_host_is_trusted base_host inst =
     (case url_host inst of
        None \<Rightarrow> False
      | Some inst_host \<Rightarrow>
          if eq_ignore_ascii_case inst_host base_host then True
          else
            (let base_domain = registrable_domain base_host; inst_lower = to_ascii_lowercase inst_host
             in inst_lower = base_domain \<or> ends_with_str inst_lower (''.'' @ base_domain)))"

definition select_server_instance :: "libs \<Rightarrow> url \<Rightarrow> Jrd \<Rightarrow> url option" where
  "select_server_instance lib base jrd =
     (case url_host base of
        None \<Rightarrow> None
      | Some base_host \<Rightarrow>
          find (\<lambda>u. url_scheme u = ''https'' \<and> instance_host_is_trusted base_host u)
            (List.map_filter (lib_url_parse lib)
              (List.map_filter jl_href (filter (\<lambda>l. jl_rel l = REL_SERVER_INSTANCE) jrd))))"

definition parse_server_instance :: "libs \<Rightarrow> (string \<Rightarrow> Jrd option) \<Rightarrow> url \<Rightarrow> string \<Rightarrow> url option" where
  "parse_server_instance lib js base body =
     (case js body of None \<Rightarrow> None | Some jrd \<Rightarrow> select_server_instance lib base jrd)"

section \<open>The request\<close>

definition webfinger_endpoint :: "url \<Rightarrow> url" where
  "webfinger_endpoint base =
     base\<lparr>url_segments := Some [''.well-known'', ''webfinger''], url_query := None, url_fragment := None\<rparr>"

definition webfinger_request :: "auth_libs \<Rightarrow> url \<Rightarrow> request" where
  "webfinger_request al base =
     \<lparr>rq_method = ''GET'', rq_url = show_url (al_append_pairs al [(''resource'', show_url base)] (webfinger_endpoint base)),
      rq_bearer = None, rq_headers = [(''accept'', ''application/jrd+json'')], rq_body = []\<rparr>"

definition resolve_with_client :: "libs \<Rightarrow> auth_libs \<Rightarrow> (string \<Rightarrow> Jrd option) \<Rightarrow> 'w net \<Rightarrow> url \<Rightarrow> 'w
    \<Rightarrow> (OcisError + url option) \<times> 'w" where
  "resolve_with_client lib al js net base w =
     (case net_send net (webfinger_request al base) w of
        (Inl e, w') \<Rightarrow> (Inl (Ocis_Http e), w')
      | (Inr resp, w') \<Rightarrow>
          (if \<not> success_status (rs_status resp) then (Inr None, w')
           else (case rs_body resp of
                   Inl e \<Rightarrow> (Inl (Ocis_Http e), w')
                 | Inr body \<Rightarrow> (Inr (parse_server_instance lib js base body), w'))))"

text \<open>\<open>client\<close> is the outcome of building the HTTP client.\<close>

definition resolve_server_instance :: "libs \<Rightarrow> auth_libs \<Rightarrow> (string \<Rightarrow> Jrd option) \<Rightarrow> 'w net \<Rightarrow> string option \<Rightarrow> url \<Rightarrow> 'w
    \<Rightarrow> (OcisError + url option) \<times> 'w" where
  "resolve_server_instance lib al js net client base w =
     (case client of Some e \<Rightarrow> (Inl (Ocis_Http e), w) | None \<Rightarrow> resolve_with_client lib al js net base w)"

section \<open>Lemmas\<close>

text \<open>The labels of a host, and those that make up its registrable domain.\<close>

definition labels :: "string \<Rightarrow> string list" where
  "labels host = split_on CHR ''.'' (to_ascii_lowercase host)"

definition domain_labels :: "string \<Rightarrow> string list" where
  "domain_labels host = drop (length (labels host) - 2) (labels host)"

lemma split_registrable_domain: "split_on CHR ''.'' (registrable_domain host) = domain_labels host"
proof -
  have "\<forall>l \<in> set (domain_labels host). CHR ''.'' \<notin> set l"
    by (auto simp: domain_labels_def labels_def dest!: in_set_dropD split_on_parts_absent)
  moreover have "domain_labels host \<noteq> []"
    by (cases "split_on CHR ''.'' (to_ascii_lowercase host)") (simp_all add: domain_labels_def labels_def)
  ultimately show ?thesis
    using split_join_on [of "domain_labels host" "CHR ''.''"]
    by (auto simp: registrable_domain_def Let_def domain_labels_def labels_def)
qed

lemma suffix_split_on:
  assumes "ends_with_str s (c # d)" shows "suffix (split_on c d) (split_on c s)"
proof -
  obtain a where "s = a @ c # d" using assms by (auto simp: ends_with_str_def suffix_def)
  then show ?thesis by (simp add: split_on_append suffix_def)
qed

lemma trusted_host_labels:
  assumes "instance_host_is_trusted base_host u"
  shows "\<exists>h. url_host u = Some h \<and> (labels h = labels base_host \<or> suffix (domain_labels base_host) (labels h))"
  using assms suffix_split_on [of "to_ascii_lowercase (the (url_host u))" "CHR ''.''" "registrable_domain base_host"]
    split_registrable_domain [of base_host]
  by (auto simp: instance_host_is_trusted_def labels_def eq_ignore_ascii_case_def Let_def split: option.splits if_splits)

text \<open>A resolver for the public suffix \<open>co.uk\<close>.\<close>

definition uk_url :: "string \<Rightarrow> url" where
  "uk_url h = sample_root\<lparr>url_host := Some h\<rparr>"

definition uk_lib :: libs where
  "uk_lib = id_lib\<lparr>lib_url_parse := \<lambda>s. Some (uk_url s)\<rparr>"

section \<open>Properties\<close>

text \<open>
  C32: Where a WebFinger answer may lead. A resolved instance is always \<open>https\<close>, and its host either
  is the entered host or ends with the last two labels of the entered host, compared label by label and without case, so \<open>evilexample.org\<close> does not pass
  for \<open>example.org\<close>. Two labels are not always a domain: for a host under a public suffix of two labels every other host
  under the suffix passes, as the concrete case shows for \<open>alice.co.uk\<close> and \<open>evil.co.uk\<close>.
\<close>

theorem webfinger_stays_in_domain:
  assumes "resolve_with_client lib al js net base w = (Inr (Some u), w')"
  shows "url_scheme u = ''https'' \<and>
    (\<exists>bh h. url_host base = Some bh \<and> url_host u = Some h \<and> (labels h = labels bh \<or> suffix (domain_labels bh) (labels h)))"
proof -
  obtain body where "parse_server_instance lib js base body = Some u"
    using assms by (auto simp: resolve_with_client_def split: prod.splits sum.splits if_splits)
  then obtain bh where "url_host base = Some bh" "url_scheme u = ''https''" "instance_host_is_trusted bh u"
    by (auto simp: parse_server_instance_def select_server_instance_def find_Some_iff split: option.splits)
  then show ?thesis using trusted_host_labels by blast
qed

theorem webfinger_stays_in_domain_witness:
  "fst (resolve_with_client uk_lib (sample_al None) (\<lambda>h. Some [\<lparr>jl_rel = REL_SERVER_INSTANCE, jl_href = Some h\<rparr>])
      (const_net 200 ''evil.co.uk'') (uk_url ''alice.co.uk'') ()) = Inr (Some (uk_url ''evil.co.uk'')) \<and>
   suffix (domain_labels ''alice.co.uk'') (labels ''evil.co.uk'')"
proof -
  let ?r = "resolve_with_client uk_lib (sample_al None) (\<lambda>h. Some [\<lparr>jl_rel = REL_SERVER_INSTANCE, jl_href = Some h\<rparr>])
      (const_net 200 ''evil.co.uk'') (uk_url ''alice.co.uk'') ()"
  have res: "fst ?r = Inr (Some (uk_url ''evil.co.uk''))" by code_simp
  then have run: "?r = (Inr (Some (uk_url ''evil.co.uk'')), snd ?r)" by (metis prod.collapse)
  have "labels ''evil.co.uk'' \<noteq> labels ''alice.co.uk''" by code_simp
  with webfinger_stays_in_domain [OF run] res show ?thesis by (simp add: uk_url_def)
qed

end
