(* ===== verification/StdStr.thy ===== *)
theory StdStr
  imports Prelude
begin

text \<open>
  More of Rust's \<open>str\<close>, which only the parsers of requests need: replacing, lines, white space and the
  validity of UTF-8, all on the bytes of the text.
\<close>

text \<open>\<open>str::replace\<close> with a pattern that is not empty.\<close>

fun replace_str :: "string \<Rightarrow> string \<Rightarrow> string \<Rightarrow> string" where
  "replace_str pat new [] = []"
| "replace_str pat new (c # s) =
     (if pat \<noteq> [] \<and> prefix pat (c # s) then new @ replace_str pat new (drop (length pat - 1) s)
      else c # replace_str pat new s)"

text \<open>The length of the character with \<open>White_Space\<close> at the start of a string, 0 if there is none.\<close>

definition ws_len :: "string \<Rightarrow> nat" where
  "ws_len s =
     (case map of_char (take 3 s) :: nat list of
        [] \<Rightarrow> 0
      | a # r \<Rightarrow>
          if a = 32 \<or> 9 \<le> a \<and> a \<le> 13 then 1
          else if a = 0xC2 \<and> take 1 r \<in> {[0x85], [0xA0]} then 2
          else if a = 0xE1 \<and> r = [0x9A, 0x80] then 3
          else if a = 0xE2 \<and> (\<exists>x \<in> {0x80 .. 0x8A} \<union> {0xA8, 0xA9, 0xAF}. r = [0x80, x]) then 3
          else if a = 0xE2 \<and> r = [0x81, 0x9F] then 3
          else if a = 0xE3 \<and> r = [0x80, 0x80] then 3
          else 0)"

function split_whitespace_from :: "string \<Rightarrow> string \<Rightarrow> string list" where
  "split_whitespace_from word s =
     (if s = [] then (if word = [] then [] else [word])
      else if ws_len s = 0 then split_whitespace_from (word @ [hd s]) (tl s)
      else (if word = [] then [] else [word]) @ split_whitespace_from [] (drop (ws_len s) s))"
  by pat_completeness auto
termination by (relation "measure (\<lambda>(_, s). length s)") auto

declare split_whitespace_from.simps [simp del]

definition split_whitespace :: "string \<Rightarrow> string list" where
  "split_whitespace = split_whitespace_from []"

text \<open>\<open>lines().next()\<close>: the text before the first line feed, without a carriage return before it.\<close>

definition first_line :: "string \<Rightarrow> string option" where
  "first_line s =
     (if s = [] then None
      else (case split_once (CHR 0x0A) s of
              None \<Rightarrow> Some s
            | Some (l, _) \<Rightarrow> Some (if ends_with_str l [CHR 0x0D] then butlast l else l)))"

text \<open>The sequence lengths \<open>std::str::from_utf8\<close> accepts at the start of a string (0: not valid).\<close>

definition utf8_len :: "string \<Rightarrow> nat" where
  "utf8_len s =
     (let tail = (\<lambda>x :: nat. 0x80 \<le> x \<and> x \<le> 0xBF) in
      case map of_char (take 4 s) :: nat list of
        [] \<Rightarrow> 0
      | a # r \<Rightarrow>
          if a < 0x80 then 1
          else if 0xC2 \<le> a \<and> a \<le> 0xDF \<and> 1 \<le> length r \<and> tail (r ! 0) then 2
          else if 0xE0 \<le> a \<and> a \<le> 0xEF \<and> 2 \<le> length r \<and> tail (r ! 0) \<and> tail (r ! 1) \<and>
                  (a = 0xE0 \<longrightarrow> 0xA0 \<le> r ! 0) \<and> (a = 0xED \<longrightarrow> r ! 0 \<le> 0x9F) then 3
          else if 0xF0 \<le> a \<and> a \<le> 0xF4 \<and> 3 \<le> length r \<and> tail (r ! 0) \<and> tail (r ! 1) \<and> tail (r ! 2) \<and>
                  (a = 0xF0 \<longrightarrow> 0x90 \<le> r ! 0) \<and> (a = 0xF4 \<longrightarrow> r ! 0 \<le> 0x8F) then 4
          else 0)"

function valid_utf8 :: "string \<Rightarrow> bool" where
  "valid_utf8 s = (if s = [] then True else if utf8_len s = 0 then False else valid_utf8 (drop (utf8_len s) s))"
  by pat_completeness auto
termination by (relation "measure length") auto

declare valid_utf8.simps [simp del]

text \<open>\<open>str::trim\<close>: a suffix of a text is a white space character exactly if its bytes are those of one.\<close>

function trim_start_ws :: "string \<Rightarrow> string" where
  "trim_start_ws s = (if s = [] then [] else if ws_len s = 0 then s else trim_start_ws (drop (ws_len s) s))"
  by pat_completeness auto
termination by (relation "measure length") auto

declare trim_start_ws.simps [simp del]

definition ws_suffix_len :: "string \<Rightarrow> nat" where
  "ws_suffix_len s =
     (case find (\<lambda>n. n \<le> length s \<and> ws_len (drop (length s - n) s) = n) [1, 2, 3] of Some n \<Rightarrow> n | None \<Rightarrow> 0)"

function trim_end_ws :: "string \<Rightarrow> string" where
  "trim_end_ws s = (if s = [] then [] else if ws_suffix_len s = 0 then s else trim_end_ws (take (length s - ws_suffix_len s) s))"
  by pat_completeness auto
termination by (relation "measure length") auto

declare trim_end_ws.simps [simp del]

definition trim_str :: "string \<Rightarrow> string" where
  "trim_str s = trim_end_ws (trim_start_ws s)"

text \<open>\<open>splitn\<close>: at most \<open>n\<close> pieces, the last one with what is left.\<close>

fun splitn :: "nat \<Rightarrow> char \<Rightarrow> string \<Rightarrow> string list" where
  "splitn 0 c s = []"
| "splitn (Suc 0) c s = [s]"
| "splitn (Suc (Suc n)) c s = (case split_once c s of None \<Rightarrow> [s] | Some (a, b) \<Rightarrow> a # splitn (Suc n) c b)"

section \<open>Lemmas on trimming and UTF-8\<close>

text \<open>The visible ASCII characters, of which keywords, tags and separators consist.\<close>

definition graphic :: "char \<Rightarrow> bool" where
  "graphic c \<longleftrightarrow> 33 \<le> (of_char c :: nat) \<and> (of_char c :: nat) < 127"

lemma ws_len_graphic [simp]: "graphic c \<Longrightarrow> ws_len (c # s) = 0"
  by (auto simp: ws_len_def graphic_def)

lemma ws_suffix_len_le: "ws_suffix_len s \<le> length s"
  by (auto simp: ws_suffix_len_def split: option.split dest!: find_Some_mem)

lemma ws_suffix_len_0_iff:
  "ws_suffix_len s = 0 \<longleftrightarrow> (\<forall>n \<in> {1, 2, 3}. n \<le> length s \<longrightarrow> ws_len (drop (length s - n) s) \<noteq> n)"
  by (auto simp: ws_suffix_len_def split: option.split dest!: find_Some_mem simp: find_None_iff)

lemma trim_end_ws_le: "length (trim_end_ws s) \<le> length s"
  by (induction s rule: trim_end_ws.induct) (subst trim_end_ws.simps, auto)

lemma trim_start_ws_le: "length (trim_start_ws s) \<le> length s"
  by (induction s rule: trim_start_ws.induct) (subst trim_start_ws.simps, auto)

lemma trim_str_fixed:
  assumes "trim_str s = s" "s \<noteq> []" shows "ws_len s = 0" "ws_suffix_len s = 0"
proof -
  have "length s \<le> length (trim_start_ws s)" using assms(1) trim_end_ws_le [of "trim_start_ws s"] by (simp add: trim_str_def)
  moreover have "length (trim_start_ws s) < length s" if "ws_len s \<noteq> 0"
    using that assms(2) trim_start_ws_le [of "drop (ws_len s) s"]
    by (subst trim_start_ws.simps) (simp add: le_less_trans [OF _ diff_less])
  ultimately show z: "ws_len s = 0" by linarith
  then have "trim_end_ws s = s" using assms by (simp add: trim_str_def trim_start_ws.simps [of s])
  moreover have "length (trim_end_ws s) < length s" if "ws_suffix_len s \<noteq> 0"
    using that assms(2) trim_end_ws_le [of "take (length s - ws_suffix_len s) s"]
    by (subst trim_end_ws.simps) (simp add: le_less_trans [OF _ diff_less])
  ultimately show "ws_suffix_len s = 0" by fastforce
qed

lemma ws_suffix_len_append:
  assumes "list_all graphic p" shows "ws_suffix_len (p @ s) = ws_suffix_len s"
proof -
  have "ws_len (drop (length (p @ s) - n) (p @ s)) = n \<longleftrightarrow> n \<le> length s \<and> ws_len (drop (length s - n) s) = n"
    if n: "0 < n" "n \<le> length (p @ s)" for n
  proof (cases "n \<le> length s")
    case False
    let ?k = "length (p @ s) - n"
    have "?k < length p" using False n by auto
    then have "drop ?k (p @ s) = p ! ?k # drop (Suc ?k) (p @ s)" using Cons_nth_drop_Suc [of ?k "p @ s"] by (simp add: nth_append)
    moreover have "graphic (p ! ?k)" using assms \<open>?k < length p\<close> by (simp add: list_all_length)
    ultimately show ?thesis using n(1) False by auto
  qed simp
  then have "find (\<lambda>n. n \<le> length (p @ s) \<and> ws_len (drop (length (p @ s) - n) (p @ s)) = n) [1, 2, 3] =
      find (\<lambda>n. n \<le> length s \<and> ws_len (drop (length s - n) s) = n) [1, 2, 3]"
    by (intro find_cong) auto
  then show ?thesis by (simp add: ws_suffix_len_def)
qed

lemma trim_end_ws_append: "list_all graphic p \<Longrightarrow> trim_end_ws (p @ s) = p @ trim_end_ws s"
proof (induction s rule: trim_end_ws.induct)
  case (1 s)
  show ?case
  proof (cases "s = [] \<or> ws_suffix_len s = 0")
    case True
    moreover have "ws_suffix_len [] = 0" by (simp add: ws_suffix_len_def)
    ultimately have "ws_suffix_len (p @ s) = 0" using ws_suffix_len_append [OF 1(2), of s] by metis
    moreover have "trim_end_ws s = s" using True by (subst trim_end_ws.simps) auto
    ultimately show ?thesis by (subst trim_end_ws.simps) simp
  next
    case False
    have "trim_end_ws (p @ s) = trim_end_ws (p @ take (length s - ws_suffix_len s) s)"
      using False ws_suffix_len_append [OF 1(2), of s] ws_suffix_len_le [of s] by (subst trim_end_ws.simps) simp
    also have "\<dots> = p @ trim_end_ws (take (length s - ws_suffix_len s) s)" using 1 False by blast
    also have "trim_end_ws (take (length s - ws_suffix_len s) s) = trim_end_ws s" using False by (subst (2) trim_end_ws.simps) simp
    finally show ?thesis .
  qed
qed

text \<open>Trimming a line that starts with a keyword.\<close>

lemma trim_keyword: "list_all graphic p \<Longrightarrow> p \<noteq> [] \<Longrightarrow> trim_str (p @ s) = p @ trim_end_ws s"
proof -
  assume p: "list_all graphic p" "p \<noteq> []"
  then have "trim_start_ws (p @ s) = p @ s" by (cases p) (simp_all add: trim_start_ws.simps [of "a # b" for a b])
  then show ?thesis using trim_end_ws_append [OF p(1)] by (simp add: trim_str_def)
qed

lemma trim_end_ws_nl [simp]: "trim_end_ws (s @ [CHR 0x0A]) = trim_end_ws s"
proof -
  have "ws_suffix_len (s @ [CHR 0x0A]) = 1" by (simp add: ws_suffix_len_def ws_len_def)
  then show ?thesis by (subst trim_end_ws.simps) simp
qed

lemma trim_str_fixed_end: "trim_str s = s \<Longrightarrow> trim_end_ws s = s"
  using trim_str_fixed(2) [of s] by (subst trim_end_ws.simps) auto

lemma set_trim_end_ws: "set (trim_end_ws s) \<subseteq> set s"
proof (induction s rule: trim_end_ws.induct)
  case (1 s)
  then show ?case by (subst trim_end_ws.simps) (auto dest: in_set_takeD)
qed

lemma utf8_len_append: "utf8_len a \<noteq> 0 \<Longrightarrow> utf8_len (a @ b) = utf8_len a"
proof -
  assume a: "utf8_len a \<noteq> 0"
  consider "a = []" | c where "a = [c]" | c x where "a = [c, x]" | c x y where "a = [c, x, y]" | c x y z r where "a = c # x # y # z # r"
    by (cases a rule: list.exhaust; cases "tl a"; cases "tl (tl a)"; cases "tl (tl (tl a))") auto
  then show ?thesis using a
    by cases (simp_all add: utf8_len_def Let_def split: if_splits)
qed

lemma utf8_len_le: "utf8_len a \<le> length a"
  by (cases a) (auto simp: utf8_len_def Let_def)

lemma valid_utf8_append: "valid_utf8 a \<Longrightarrow> valid_utf8 b \<Longrightarrow> valid_utf8 (a @ b)"
proof (induction a rule: valid_utf8.induct)
  case (1 a)
  show ?case
  proof (cases "a = []")
    case False
    then have a: "utf8_len a \<noteq> 0" "valid_utf8 (drop (utf8_len a) a)" using 1(2) by (subst (asm) valid_utf8.simps, simp split: if_splits)+
    then have "valid_utf8 (drop (utf8_len a) a @ b)" using 1 False by blast
    then show ?thesis using a(1) False utf8_len_append [OF a(1), of b] utf8_len_le [of a] by (subst valid_utf8.simps) simp
  qed (simp add: 1)
qed

lemma valid_utf8_ascii [simp]: "list_all (\<lambda>c. (of_char c :: nat) < 128) s \<Longrightarrow> valid_utf8 s"
proof (induction s)
  case (Cons c s)
  then have "utf8_len (c # s) = 1" by (simp add: utf8_len_def)
  then show ?case using Cons by (subst valid_utf8.simps) simp
qed (simp add: valid_utf8.simps)

lemma list_all_graphic_ascii: "list_all graphic s \<Longrightarrow> list_all (\<lambda>c. (of_char c :: nat) < 128) s"
  by (auto simp: list_all_iff graphic_def)

lemma valid_utf8_message: "list_all graphic p \<Longrightarrow> valid_utf8 s \<Longrightarrow> valid_utf8 (p @ s @ [CHR 0x0A])"
  by (intro valid_utf8_append) (simp_all add: list_all_graphic_ascii)

end
