(* ===== verification/AccountSetup.thy ===== *)
theory AccountSetup
  imports DaemonHandler Webfinger StdStr
begin

text \<open>
  Adding an account: the task that \<open>AddAccount\<close> spawns (\<open>crates/daemon/src/gui_ipc/handler.rs\<close>) and the
  callback the browser makes at the end of the sign-in (\<open>crates/daemon/src/oidc_callback.rs\<close>). The task is a
  program of atomic actions, one per \<open>await\<close>, on the daemon, the keychain, the pages sent to the browser and the network.
\<close>

section \<open>The request of the browser\<close>

definition decode_query_value :: "string \<Rightarrow> string" where
  "decode_query_value s = map (\<lambda>c. if c = CHR ''+'' then CHR '' '' else c) s"

fun find_param :: "string \<Rightarrow> string list \<Rightarrow> string option" where
  "find_param param [] = None"
| "find_param param (pair # pairs) =
     (case split_once CHR ''='' pair of
        Some (k, v) \<Rightarrow> if k = param then Some (decode_query_value v) else find_param param pairs
      | None \<Rightarrow> find_param param pairs)"

definition extract_query_param :: "string \<Rightarrow> string \<Rightarrow> string option" where
  "extract_query_param request param =
     (case first_line request of
        None \<Rightarrow> None
      | Some l \<Rightarrow>
          (case split_whitespace l of
             _ # path # _ \<Rightarrow>
               (case split_once CHR ''?'' path of
                  None \<Rightarrow> None
                | Some (_, query) \<Rightarrow> find_param param (split_on CHR ''&'' query))
           | _ \<Rightarrow> None))"

text \<open>
  The loop that reads the request. The argument are the results of the calls of \<open>read\<close>; no bytes mean
  that the peer has closed the connection.
\<close>

fun has_crlf :: "string \<Rightarrow> bool" where
  "has_crlf (a # b # s) \<longleftrightarrow> a = CHR 0x0D \<and> b = CHR 0x0A \<or> has_crlf (b # s)"
| "has_crlf _ \<longleftrightarrow> False"

fun read_request :: "(string + string) list \<Rightarrow> string \<Rightarrow> string + string" where
  "read_request [] buf = Inl ''connection closed before request received''"
| "read_request (Inl e # rest) buf = Inl e"
| "read_request (Inr bytes # rest) buf =
     (if bytes = [] then Inl ''connection closed before request received''
      else if has_crlf (buf @ bytes) then Inr (buf @ bytes)
      else if 8192 < length (buf @ bytes) then Inl ''request too large''
      else read_request rest (buf @ bytes))"

section \<open>The pages sent back\<close>

text \<open>\<open>escape\<close> is \<open>html_escape::encode_text\<close>.\<close>

definition render :: "(string \<Rightarrow> string) \<Rightarrow> string \<Rightarrow> string \<Rightarrow> string \<Rightarrow> string" where
  "render escape template title message =
     replace_str ''{{MESSAGE}}'' (escape message) (replace_str ''{{TITLE}}'' (escape title) template)"

definition html_response :: "string \<Rightarrow> string \<Rightarrow> string" where
  "html_response status html =
     (let eol = [CHR 0x0D, CHR 0x0A] in
      ''HTTP/1.1 '' @ status @ eol @ ''Content-Type: text/html; charset=utf-8'' @ eol @ ''Content-Length: '' @ show_nat (length html) @ eol @
      ''Connection: close'' @ eol @ eol @ html)"

section \<open>State and environment of the task\<close>

record 'n setup_world =
  sw_daemon :: daemon
  sw_keychain :: keychain
  sw_pages :: "string list"
  sw_net :: 'n

text \<open>
  The libraries, and the outcome of every call that can fail outside the model: building the two HTTP
  clients, the random generator, accepting the connection, reading from it, decoding it, the task that writes the keychain. \<open>su_timeout\<close> is the number of actions
  of the callback that are completed before the sign-in times out.
\<close>

record 'n setup_env =
  su_lib :: libs
  su_al :: auth_libs
  su_jrd :: "string \<Rightarrow> Jrd option"
  su_status :: "string \<Rightarrow> string + StatusPhp"
  su_caps :: "string \<Rightarrow> string + bool option"
  su_me :: "string \<Rightarrow> string + string \<times> string"
  su_user :: "string \<Rightarrow> string + OcsUserData"
  su_debug :: "string \<Rightarrow> string"
  su_net :: "'n net"
  su_clock :: "'n \<Rightarrow> i64"
  su_keychain :: keychain_env
  su_config :: config_env
  su_show_id :: "uuid \<Rightarrow> string"
  su_escape :: "string \<Rightarrow> string"
  su_success_html :: string
  su_error_html :: string
  su_finger_client :: "string option"
  su_probe_client :: "string option"
  su_raw :: "string + string"
  su_raw_state :: "string + string"
  su_accept :: "string option"
  su_reads :: "(string + string) list"
  su_utf8_error :: "string \<Rightarrow> string"
  su_join :: "string option"
  su_timeout :: nat

type_synonym ('n, 'a) setup_prog = "('n setup_world, 'a) prog"

text \<open>One call that goes over the network.\<close>

definition on_net :: "('n \<Rightarrow> 'r \<times> 'n) \<Rightarrow> 'n setup_world \<Rightarrow> 'r \<times> 'n setup_world" where
  "on_net f w = (case f (sw_net w) of (r, n) \<Rightarrow> (r, w\<lparr>sw_net := n\<rparr>))"

definition send_html_response :: "string \<Rightarrow> string \<Rightarrow> 'n setup_world \<Rightarrow> unit \<times> 'n setup_world" where
  "send_html_response status html w = ((), w\<lparr>sw_pages := sw_pages w @ [html_response status html]\<rparr>)"

definition emit :: "DaemonEvent \<Rightarrow> 'n setup_world \<Rightarrow> unit \<times> 'n setup_world" where
  "emit e w = ((), w\<lparr>sw_daemon := broadcast e (sw_daemon w)\<rparr>)"

section \<open>The callback\<close>

text \<open>The cleanup of a failed sign-in: an error page, then the token manager and the keychain entry are removed.\<close>

definition forget_credentials :: "'n setup_env \<Rightarrow> uuid \<Rightarrow> 'n setup_world \<Rightarrow> unit \<times> 'n setup_world" where
  "forget_credentials env i w =
     ((), w\<lparr>sw_daemon := (sw_daemon w)\<lparr>d_tms := (d_tms (sw_daemon w))(i := None)\<rparr>,
            sw_keychain := snd (keychain_delete (su_keychain env) (su_show_id env i) (sw_keychain w))\<rparr>)"

definition abort_sign_in :: "'n setup_env \<Rightarrow> uuid \<Rightarrow> string \<Rightarrow> ('n, string + unit) setup_prog" where
  "abort_sign_in env i msg =
     call (send_html_response ''400 Bad Request'' (render (su_escape env) (su_error_html env) ''Sign-in failed'' msg))
       (\<lambda>_. call (forget_credentials env i) (\<lambda>_. Done (Inl msg)))"

definition resolve_identity :: "'n setup_env \<Rightarrow> url \<Rightarrow> string \<Rightarrow> ((string + string \<times> string \<times> ServerType) \<Rightarrow> ('n, 'a) setup_prog)
    \<Rightarrow> ('n, 'a) setup_prog" where
  "resolve_identity env base token k =
     call (on_net (detect_server_type (su_lib env) (su_net env) (su_caps env) base token))
       (\<lambda>r. case r of
          Inl e \<Rightarrow> k (Inl (''server-type detection failed: '' @ show_OcisError e))
        | Inr Ocis \<Rightarrow>
            call (on_net (get_me (su_lib env) (su_net env) (su_me env) base token))
              (\<lambda>r. case r of
                 Inl e \<Rightarrow> k (Inl (''GET /me failed: '' @ show_OcisError e))
               | Inr (user, name) \<Rightarrow> k (Inr (user, name, Ocis)))
        | Inr Classic \<Rightarrow>
            call (on_net (ocs_user (su_lib env) (su_net env) (su_user env) base token))
              (\<lambda>r. case r of
                 Inl e \<Rightarrow> k (Inl (''OCS cloud/user failed: '' @ show_OcisError e))
               | Inr (user, name) \<Rightarrow> k (Inr (user, name, Classic))))"

text \<open>The keychain write in the blocking pool: the join error, or the error of the write.\<close>

definition save_tokens :: "'n setup_env \<Rightarrow> uuid \<Rightarrow> TokenSet \<Rightarrow> 'n setup_world \<Rightarrow> (string + unit) \<times> 'n setup_world" where
  "save_tokens env i tokens w =
     (case su_join env of
        Some e \<Rightarrow> (Inl (''keychain task panicked: '' @ e), w)
      | None \<Rightarrow>
          (case keychain_save (su_al env) (su_keychain env) (su_show_id env i) tokens (sw_keychain w) of
             (Inl e, kc) \<Rightarrow> (Inl (''keychain save failed: '' @ show_OcisError e), w\<lparr>sw_keychain := kc\<rparr>)
           | (Inr _, kc) \<Rightarrow> (Inr (), w\<lparr>sw_keychain := kc\<rparr>)))"

definition add_token_manager :: "'n setup_env \<Rightarrow> uuid \<Rightarrow> OidcConfig \<Rightarrow> TokenSet \<Rightarrow> daemon \<Rightarrow> daemon" where
  "add_token_manager env i oidc tokens d =
     d\<lparr>d_tms := (d_tms d)(i \<mapsto> \<lparr>tm_oidc = oidc, tm_token = tokens, tm_account_id = su_show_id env i\<rparr>)\<rparr>"

definition new_account :: "uuid \<Rightarrow> string \<Rightarrow> string \<Rightarrow> string \<Rightarrow> ServerType \<Rightarrow> AccountConfig" where
  "new_account i u user_id display_name t =
     \<lparr>ac_id = i, ac_url = u, ac_user_id = user_id, ac_username = [], ac_display_name = display_name, ac_server_type = t,
      ac_folder = [], ac_dismissed_spaces = []\<rparr>"

text \<open>Under one lock: the check for a duplicate, the new account in the configuration in memory, and the write of the file.\<close>

definition save_account :: "'n setup_env \<Rightarrow> AccountConfig \<Rightarrow> 'n setup_world \<Rightarrow> (string + unit) \<times> 'n setup_world" where
  "save_account env a w =
     (let d = sw_daemon w in
      if list_ex (\<lambda>b. ac_url b = ac_url a \<and> ac_user_id b = ac_user_id a) (ap_account (d_config d)) then
        (Inl (''account already exists for user '' @ [CHR 0x27] @ ac_user_id a @ [CHR 0x27] @ '' on '' @ ac_url a), w)
      else
        (let cfg = (d_config d)\<lparr>ap_account := ap_account (d_config d) @ [a]\<rparr>
         in case save_config (su_config env) cfg (d_file d) of
              (Inl e, file) \<Rightarrow> (Inl (''failed to save config: '' @ e), w\<lparr>sw_daemon := d\<lparr>d_config := cfg, d_file := file\<rparr>\<rparr>)
            | (Inr _, file) \<Rightarrow> (Inr (), w\<lparr>sw_daemon := d\<lparr>d_config := cfg, d_file := file\<rparr>\<rparr>)))"

text \<open>From the identity on: save, then answer and report.\<close>

definition finish_sign_in :: "'n setup_env \<Rightarrow> uuid \<Rightarrow> string \<Rightarrow> string \<times> string \<times> ServerType \<Rightarrow> ('n, string + unit) setup_prog" where
  "finish_sign_in env i u identity =
     (case identity of
        (user_id, display_name, server_type) \<Rightarrow>
          call (save_account env (new_account i u user_id display_name server_type))
            (\<lambda>r. case r of
               Inl e \<Rightarrow> abort_sign_in env i e
             | Inr _ \<Rightarrow>
                 call (emit (AccountAddCompleted i user_id display_name u))
                   (\<lambda>_. call (send_html_response ''200 OK''
                          (render (su_escape env) (su_success_html env) ''Successfully signed in'' ''Now, explore ownCloud on desktop.''))
                     (\<lambda>_. Done (Inr ())))))"

text \<open>The code of the callback, from what was read.\<close>

definition callback_code :: "'n setup_env \<Rightarrow> string + string" where
  "callback_code env =
     (case su_accept env of
        Some e \<Rightarrow> Inl e
      | None \<Rightarrow>
          (case read_request (su_reads env) [] of
             Inl e \<Rightarrow> Inl e
           | Inr buf \<Rightarrow>
               (if \<not> valid_utf8 buf then Inl (su_utf8_error env buf)
                else (case extract_query_param buf ''code'' of
                        None \<Rightarrow> Inl (''no '' @ [CHR 0x27] @ ''code'' @ [CHR 0x27] @ '' parameter in callback'')
                      | Some code \<Rightarrow> Inr code))))"

definition handle_callback :: "'n setup_env \<Rightarrow> OidcConfig \<Rightarrow> string \<Rightarrow> uuid \<Rightarrow> string \<Rightarrow> ('n, string + unit) setup_prog" where
  "handle_callback env oidc verifier i u =
     call (Pair (callback_code env))
       (\<lambda>r. case r of
          Inl e \<Rightarrow> Done (Inl e)
        | Inr code \<Rightarrow>
            call (on_net (exchange_code (su_lib env) (su_al env) (su_net env) (su_clock env) oidc code verifier))
              (\<lambda>r. case r of
                 Inl e \<Rightarrow> Done (Inl (''token exchange failed: '' @ show_OcisError e))
               | Inr tokens \<Rightarrow>
                   call (save_tokens env i tokens)
                     (\<lambda>r. case r of
                        Inl e \<Rightarrow> Done (Inl e)
                      | Inr _ \<Rightarrow>
                          call (\<lambda>w. ((), w\<lparr>sw_daemon := add_token_manager env i oidc tokens (sw_daemon w)\<rparr>))
                            (\<lambda>_. case lib_url_parse (su_lib env) u of
                               None \<Rightarrow> abort_sign_in env i (''invalid server URL: '' @ lib_url_error (su_lib env) u)
                             | Some base \<Rightarrow>
                                 resolve_identity env base (ts_access_token tokens)
                                   (\<lambda>r. case r of
                                      Inl e \<Rightarrow> abort_sign_in env i (''identity lookup failed: '' @ e)
                                    | Inr identity \<Rightarrow> finish_sign_in env i u identity)))))"

text \<open>\<open>tokio::time::timeout\<close> drops the future at an \<open>await\<close>: the first \<open>n\<close> actions have been performed, the rest is lost.\<close>

primrec timeout :: "nat \<Rightarrow> ('s, 'a) prog \<Rightarrow> ('s, 'a option) prog" where
  "timeout 0 p = (case p of Done a \<Rightarrow> Done (Some a) | Act _ \<Rightarrow> Done None)"
| "timeout (Suc n) p = (case p of Done a \<Rightarrow> Done (Some a) | Act f \<Rightarrow> Act (\<lambda>s. case f s of (p', s') \<Rightarrow> (timeout n p', s')))"

definition run_callback :: "'n setup_env \<Rightarrow> OidcConfig \<Rightarrow> string \<Rightarrow> uuid \<Rightarrow> string \<Rightarrow> ('n, unit) setup_prog" where
  "run_callback env oidc verifier i u =
     prog_bind (timeout (su_timeout env) (handle_callback env oidc verifier i u))
       (\<lambda>r. case r of
          Some (Inr _) \<Rightarrow> Done ()
        | Some (Inl e) \<Rightarrow> call (emit (AccountAddFailed i e)) Done
        | None \<Rightarrow> call (emit (AccountAddFailed i ''sign-in timed out'')) Done)"

section \<open>The task of \<open>AddAccount\<close>\<close>

definition OCIS_CLIENT_ID :: string where
  "OCIS_CLIENT_ID = ''xdXOt13JKxym1B1QcEncf2XDkLAexMBFwiT9j6EfhhHFJhs2KM9jbjTmf8JBXE69''"

definition OCIS_CLIENT_SECRET :: string where
  "OCIS_CLIENT_SECRET = ''UBntmLjC2yYCeHwsyj73Uwo9TAaecAetRwMw0xYcvNL9yRdLSUi0hUAHfvCHFeFh''"

definition setup_failed :: "uuid \<Rightarrow> string \<Rightarrow> ('n, unit) setup_prog" where
  "setup_failed i reason = call (emit (AccountAddFailed i reason)) Done"

definition start_sign_in :: "'n setup_env \<Rightarrow> uuid \<Rightarrow> string \<Rightarrow> OidcConfig \<Rightarrow> ('n, unit) setup_prog" where
  "start_sign_in env i u oidc =
     (case start_pkce_flow (su_al env) (su_raw env) (su_raw_state env) oidc of
        Inl e \<Rightarrow> setup_failed i (''PKCE setup failed: '' @ show_OcisError e)
      | Inr (auth_url, verifier) \<Rightarrow> run_callback env oidc verifier i u)"

text \<open>Without a discovery document the server may still be a Classic one with the OAuth2 app.\<close>

definition classic_fallback :: "'n setup_env \<Rightarrow> uuid \<Rightarrow> string \<Rightarrow> u16 \<Rightarrow> OcisError \<Rightarrow> ('n, unit) setup_prog" where
  "classic_fallback env i u port discovery_err =
     (case lib_url_parse (su_lib env) u of
        None \<Rightarrow> setup_failed i (''invalid server URL: '' @ lib_url_error (su_lib env) u)
      | Some base \<Rightarrow>
          call (on_net (probe_owncloud_status (su_lib env) (su_net env) (su_status env) (su_debug env) (su_probe_client env) base))
            (\<lambda>r. case r of
               Inl probe_err \<Rightarrow>
                 setup_failed i (''OIDC discovery failed: '' @ show_OcisError discovery_err @
                   ''; server is not a reachable ownCloud instance: '' @ show_OcisError probe_err)
             | Inr _ \<Rightarrow>
                 (case oc10_oauth2_endpoints u of
                    (auth_ep, token_ep) \<Rightarrow>
                      (case with_endpoints (su_lib env) u OCIS_CLIENT_ID (Some OCIS_CLIENT_SECRET) (oc10_callback_uri port) auth_ep token_ep of
                         Inl e \<Rightarrow> setup_failed i (''oc10 OAuth2 setup failed: '' @ show_OcisError e)
                       | Inr oidc \<Rightarrow> start_sign_in env i u oidc))))"

definition discover_and_sign_in :: "'n setup_env \<Rightarrow> uuid \<Rightarrow> string \<Rightarrow> u16 \<Rightarrow> ('n, unit) setup_prog" where
  "discover_and_sign_in env i u port =
     call (on_net (oidc_discover (su_lib env) (su_al env) (su_net env) u OCIS_CLIENT_ID (Some OCIS_CLIENT_SECRET)
         (''http://127.0.0.1:'' @ show_nat (unat port) @ ''/callback'')))
       (\<lambda>r. case r of Inr oidc \<Rightarrow> start_sign_in env i u oidc | Inl e \<Rightarrow> classic_fallback env i u port e)"

definition setup_account :: "'n setup_env \<Rightarrow> uuid \<Rightarrow> string \<Rightarrow> u16 \<Rightarrow> ('n, unit) setup_prog" where
  "setup_account env i u port =
     (case lib_url_parse (su_lib env) u of
        None \<Rightarrow> setup_failed i (''invalid server URL: '' @ lib_url_error (su_lib env) u)
      | Some parsed_base \<Rightarrow>
          call (on_net (resolve_server_instance (su_lib env) (su_al env) (su_jrd env) (su_net env) (su_finger_client env) parsed_base))
            (\<lambda>r. case r of
               Inr (Some inst) \<Rightarrow> discover_and_sign_in env i (show_url inst) port
             | Inr None \<Rightarrow> discover_and_sign_in env i u port
             | Inl e \<Rightarrow> setup_failed i (''could not reach server '' @ u @ '': '' @ show_OcisError e)))"

section \<open>Lemmas\<close>

text \<open>\<open>within n p\<close>: the program ends after at most \<open>n\<close> actions.\<close>

primrec within :: "nat \<Rightarrow> ('s, 'a) prog \<Rightarrow> bool" where
  "within 0 p = (case p of Done _ \<Rightarrow> True | Act _ \<Rightarrow> False)"
| "within (Suc n) p = (case p of Done _ \<Rightarrow> True | Act f \<Rightarrow> \<forall>s. within n (fst (f s)))"

lemma within_Done [simp]: "within n (Done a)"
  by (cases n) simp_all

lemma within_call [simp]: "within (Suc n) (call f k) \<longleftrightarrow> (\<forall>s. within n (k (fst (f s))))"
  by (simp add: call_def split_beta)

lemma run_timeout: "within n p \<Longrightarrow> run (timeout n p) s = (case run p s of (a, s') \<Rightarrow> (Some a, s'))"
proof (induction n arbitrary: p s)
  case 0
  then show ?case by (cases p) auto
next
  case (Suc n)
  then show ?case by (cases p) (auto simp: split_beta)
qed

lemma within_mono: "within m p \<Longrightarrow> m \<le> n \<Longrightarrow> within n p"
proof (induction m arbitrary: n p)
  case 0
  then show ?case by (cases p) auto
next
  case (Suc m)
  then obtain n' where "n = Suc n'" "m \<le> n'" by (cases n) auto
  with Suc show ?case by (cases p) auto
qed

declare within.simps(2) [simp del]

lemma within_abort [simp]: "within (Suc (Suc n)) (abort_sign_in env i msg)"
  by (simp add: abort_sign_in_def)

lemma within_finish [simp]: "within (Suc (Suc (Suc n))) (finish_sign_in env i u identity)"
  by (simp add: finish_sign_in_def split: prod.split sum.split)

lemma within_identity:
  assumes "\<And>r. within n (k r)" shows "within (Suc (Suc n)) (resolve_identity env base token k)"
proof -
  have "within (Suc n) (k r)" for r using within_mono [OF assms] by simp
  then show ?thesis using assms by (simp add: resolve_identity_def split: sum.split ServerType.split prod.split)
qed

lemma within_handle_callback:
  assumes "\<And>msg. within n (abort_sign_in env i msg)"
    and "\<And>base token. within n (resolve_identity env base token
      (\<lambda>r. case r of Inl e \<Rightarrow> abort_sign_in env i (''identity lookup failed: '' @ e) | Inr x \<Rightarrow> finish_sign_in env i u x))"
  shows "within (Suc (Suc (Suc (Suc n)))) (handle_callback env oidc verifier i u)"
  unfolding handle_callback_def using assms by (simp del: append.simps split: sum.split option.split)

lemma within_callback: "within 9 (handle_callback env oidc verifier i u)"
proof -
  let ?k = "\<lambda>r. case r of Inl e \<Rightarrow> abort_sign_in env i (''identity lookup failed: '' @ e) | Inr x \<Rightarrow> finish_sign_in env i u x"
  have "within (Suc (Suc (Suc 0))) (?k r)" for r by (simp split: sum.split)
  from within_handle_callback [OF within_abort within_identity [OF this]] show ?thesis by (simp add: eval_nat_numeral)
qed

lemma resolve_identity_run: "\<exists>r n. run (resolve_identity env base token k) w = run (k r) (w\<lparr>sw_net := n\<rparr>)"
proof (cases "detect_server_type (su_lib env) (su_net env) (su_caps env) base token (sw_net w)")
  case (Pair r n)
  then show ?thesis
    by (auto simp: resolve_identity_def on_net_def split: sum.split ServerType.split prod.split)
qed

text \<open>A keychain that works for the entry of the account, which does not exist yet.\<close>

definition keychain_ready :: "'n setup_env \<Rightarrow> uuid \<Rightarrow> keychain \<Rightarrow> bool" where
  "keychain_ready env i kc \<longleftrightarrow>
     kc_entry (su_keychain env) (su_show_id env i) = None \<and> kc_fault (su_keychain env) (su_show_id env i) = None \<and> kc (su_show_id env i) = None"

text \<open>What a completed and a failed sign-in leave behind.\<close>

definition signed_in :: "'n setup_env \<Rightarrow> OidcConfig \<Rightarrow> uuid \<Rightarrow> string \<Rightarrow> 'n setup_world \<Rightarrow> 'n setup_world \<Rightarrow> bool" where
  "signed_in env oidc i u w w' \<longleftrightarrow>
     (\<exists>user name t tok.
        let d = sw_daemon w; d' = sw_daemon w' in
        d_events d' = d_events d @ [AccountAddCompleted i user name u] \<and>
        ap_account (d_config d') = ap_account (d_config d) @ [new_account i u user name t] \<and>
        \<not> (\<exists>a \<in> set (ap_account (d_config d)). ac_url a = u \<and> ac_user_id a = user) \<and>
        save_config (su_config env) (d_config d') (d_file d) = (Inr (), d_file d') \<and>
        d_tms d' = (d_tms d)(i \<mapsto> \<lparr>tm_oidc = oidc, tm_token = tok, tm_account_id = su_show_id env i\<rparr>) \<and>
        sw_keychain w' = (sw_keychain w)(su_show_id env i \<mapsto> al_token_to_json (su_al env) tok))"

definition not_signed_in :: "'n setup_world \<Rightarrow> 'n setup_world \<Rightarrow> bool" where
  "not_signed_in w w' \<longleftrightarrow> d_events (sw_daemon w') = d_events (sw_daemon w) \<and> d_tms (sw_daemon w') = d_tms (sw_daemon w) \<and>
     sw_keychain w' = sw_keychain w"

lemma abort_run:
  "run (abort_sign_in env i msg) w = (Inl msg, snd (forget_credentials env i (snd (send_html_response ''400 Bad Request''
     (render (su_escape env) (su_error_html env) ''Sign-in failed'' msg) w))))"
  by (simp add: abort_sign_in_def split_beta)

text \<open>The credentials of the account have been stored in \<open>x\<close>, and nothing has been reported.\<close>

definition credentials_stored :: "'n setup_env \<Rightarrow> OidcConfig \<Rightarrow> uuid \<Rightarrow> TokenSet \<Rightarrow> 'n setup_world \<Rightarrow> 'n setup_world \<Rightarrow> bool" where
  "credentials_stored env oidc i tok w x \<longleftrightarrow>
     sw_keychain x = (sw_keychain w)(su_show_id env i \<mapsto> al_token_to_json (su_al env) tok) \<and>
     d_tms (sw_daemon x) = (d_tms (sw_daemon w))(i \<mapsto> \<lparr>tm_oidc = oidc, tm_token = tok, tm_account_id = su_show_id env i\<rparr>) \<and>
     d_events (sw_daemon x) = d_events (sw_daemon w)"

definition same_config :: "'n setup_world \<Rightarrow> 'n setup_world \<Rightarrow> bool" where
  "same_config w x \<longleftrightarrow> d_config (sw_daemon x) = d_config (sw_daemon w) \<and> d_file (sw_daemon x) = d_file (sw_daemon w)"

lemma abort_undoes:
  assumes "keychain_ready env i (sw_keychain w)" "d_tms (sw_daemon w) i = None" "credentials_stored env oidc i tok w x"
    and "run (abort_sign_in env i msg) x = (r, w')"
  shows "r = Inl msg \<and> not_signed_in w w'"
  using assms by (auto simp: abort_run forget_credentials_def send_html_response_def credentials_stored_def
      keychain_ready_def keychain_delete_def not_signed_in_def fun_upd_idem)

lemma save_account_frame:
  "save_account env a x = (r, x') \<Longrightarrow> credentials_stored env oidc i tok w x \<Longrightarrow> credentials_stored env oidc i tok w x'"
  by (auto simp: save_account_def credentials_stored_def Let_def split: if_splits prod.splits sum.splits)

lemma save_account_Inr:
  assumes "save_account env a x = (Inr y, x')"
  shows "ap_account (d_config (sw_daemon x')) = ap_account (d_config (sw_daemon x)) @ [a] \<and>
    \<not> (\<exists>b \<in> set (ap_account (d_config (sw_daemon x))). ac_url b = ac_url a \<and> ac_user_id b = ac_user_id a) \<and>
    save_config (su_config env) (d_config (sw_daemon x')) (d_file (sw_daemon x)) = (Inr (), d_file (sw_daemon x'))"
  using assms by (auto simp: save_account_def Let_def list_ex_iff split: if_splits prod.splits sum.splits)

lemma finish_outcome:
  assumes "keychain_ready env i (sw_keychain w)" "d_tms (sw_daemon w) i = None"
    and "credentials_stored env oidc i tok w x" "same_config w x"
    and "run (finish_sign_in env i u identity) x = (r, w')"
  shows "case r of Inr _ \<Rightarrow> signed_in env oidc i u w w' | Inl _ \<Rightarrow> not_signed_in w w'"
proof -
  obtain user name t where ident: "identity = (user, name, t)" by (cases identity)
  let ?a = "new_account i u user name t"
  obtain s x' where s: "save_account env ?a x = (s, x')" by (cases "save_account env ?a x")
  note c = save_account_frame [OF s assms(3)]
  show ?thesis
  proof (cases s)
    case (Inl e)
    then have "run (abort_sign_in env i e) x' = (r, w')"
      using assms(5) s ident by (simp add: finish_sign_in_def)
    from abort_undoes [OF assms(1,2) c this] show ?thesis by simp
  next
    case (Inr y)
    then have r: "r = Inr ()" "sw_keychain w' = sw_keychain x'"
        "sw_daemon w' = broadcast (AccountAddCompleted i user name u) (sw_daemon x')"
      using assms(5) s ident by (auto simp: finish_sign_in_def emit_def send_html_response_def)
    have "signed_in env oidc i u w w'"
      unfolding signed_in_def Let_def
      using r c assms(4) save_account_Inr [OF s [unfolded Inr]]
      by (intro exI [of _ user] exI [of _ name] exI [of _ t] exI [of _ tok])
        (simp add: credentials_stored_def same_config_def new_account_def)
    then show ?thesis by (simp add: r)
  qed
qed

lemma handle_callback_outcome:
  assumes "keychain_ready env i (sw_keychain w)" "d_tms (sw_daemon w) i = None"
    and "run (handle_callback env oidc verifier i u) w = (r, w')"
  shows "case r of Inr _ \<Rightarrow> signed_in env oidc i u w w' | Inl _ \<Rightarrow> not_signed_in w w'"
proof (cases "callback_code env")
  case (Inl e)
  then show ?thesis using assms(3) by (auto simp: handle_callback_def not_signed_in_def)
next
  case (Inr code)
  obtain ex n where ex: "exchange_code (su_lib env) (su_al env) (su_net env) (su_clock env) oidc code verifier (sw_net w) = (ex, n)"
    by (meson surj_pair)
  show ?thesis
  proof (cases "\<exists>tok. ex = Inr tok \<and> su_join env = None")
    case False
    then show ?thesis
      using assms(3) Inr ex
      by (cases ex) (auto simp: handle_callback_def on_net_def save_tokens_def not_signed_in_def split: option.splits)
  next
    case True
    then obtain tok where tok: "ex = Inr tok" "su_join env = None" by blast
    let ?x = "\<lambda>n. w\<lparr>sw_net := n, sw_keychain := (sw_keychain w)(su_show_id env i \<mapsto> al_token_to_json (su_al env) tok),
        sw_daemon := add_token_manager env i oidc tok (sw_daemon w)\<rparr>"
    have x: "credentials_stored env oidc i tok w (?x n)" "same_config w (?x n)" for n
      by (simp_all add: credentials_stored_def same_config_def add_token_manager_def)
    define k where "k = (\<lambda>r. case r of Inl e \<Rightarrow> abort_sign_in env i (''identity lookup failed: '' @ e) | Inr x \<Rightarrow> finish_sign_in env i u x)"
    have rest: "(case lib_url_parse (su_lib env) u of
        None \<Rightarrow> run (abort_sign_in env i (''invalid server URL: '' @ lib_url_error (su_lib env) u)) (?x n)
      | Some base \<Rightarrow> run (resolve_identity env base (ts_access_token tok) k) (?x n)) = (r, w')"
      using assms(1,3) Inr ex tok
      unfolding k_def
      by (simp add: handle_callback_def on_net_def save_tokens_def keychain_ready_def keychain_save_def Let_def split: option.splits)
    show ?thesis
    proof (cases "lib_url_parse (su_lib env) u")
      case None
      with rest abort_undoes [OF assms(1,2) x(1)] show ?thesis by fastforce
    next
      case (Some base)
      obtain q n' where "run (resolve_identity env base (ts_access_token tok) k) (?x n) = run (k q) ((?x n)\<lparr>sw_net := n'\<rparr>)"
        using resolve_identity_run [of env base "ts_access_token tok" k "?x n"] by blast
      moreover have "(?x n)\<lparr>sw_net := n'\<rparr> = ?x n'" by (cases w) simp
      ultimately have q: "run (k q) (?x n') = (r, w')" using rest Some by (simp only: option.case)
      show ?thesis
      proof (cases q)
        case (Inl e)
        then show ?thesis using q abort_undoes [OF assms(1,2) x(1)] unfolding k_def by fastforce
      next
        case (Inr identity)
        then show ?thesis using q finish_outcome [OF assms(1,2) x] unfolding k_def by fastforce
      qed
    qed
  qed
qed

text \<open>A server that answers every request, and a browser whose request arrives in two parts.\<close>

definition sample_setup_env :: "bool \<Rightarrow> unit setup_env" where
  "sample_setup_env ok = \<lparr>su_lib = id_lib\<lparr>lib_url_parse := \<lambda>_. Some sample_root\<rparr>, su_al = sample_al (Some ''r2''), su_jrd = \<lambda>_. None,
     su_status = \<lambda>_. Inl [], su_caps = \<lambda>_. Inr (Some True), su_me = \<lambda>_. Inr (''u1'', ''User''), su_user = \<lambda>_. Inl [], su_debug = id,
     su_net = const_net 200 ''x'', su_clock = \<lambda>_. 1000, su_keychain = \<lparr>kc_entry = \<lambda>_. None, kc_fault = \<lambda>_. None\<rparr>,
     su_config = sample_config_env ok, su_show_id = (\<lambda>i. if i = 7 then ''seven'' else ''other''), su_escape = id,
     su_success_html = ''<h1>{{TITLE}}</h1>'', su_error_html = ''<h2>{{MESSAGE}}</h2>'', su_finger_client = None, su_probe_client = None,
     su_raw = Inr ''raw'', su_raw_state = Inr ''state'', su_accept = None,
     su_reads = [Inr ''GET /callback?code=abc&state='', Inr (''x HTTP/1.1'' @ [CHR 0x0D, CHR 0x0A])], su_utf8_error = id, su_join = None, su_timeout = 9\<rparr>"

definition sample_setup_world :: "unit setup_world" where
  "sample_setup_world = \<lparr>sw_daemon = init_daemon \<lparr>ap_general = default_general, ap_account = []\<rparr> None Map.empty empty_fm [],
     sw_keychain = Map.empty, sw_pages = [], sw_net = ()\<rparr>"

section \<open>Properties\<close>

text \<open>
  C34: A sign-in ends in one of two ways. If the callback of the browser is served in time (it needs at
  most nine actions) with a working keychain, exactly one event is reported for the account. Either it is \<open>AccountAddCompleted\<close>: then the configuration has one
  more account, with the entered URL and the identity the server gave, no account for the same user at the same URL existed before, the configuration
  was written to disk, and the token manager and the keychain entry hold the tokens. Or it is \<open>AccountAddFailed\<close>: then the
  token managers and the keychain are as they were.
\<close>

theorem sign_in_outcome:
  assumes "9 \<le> su_timeout env" "keychain_ready env i (sw_keychain w)" "d_tms (sw_daemon w) i = None"
    and "run (run_callback env oidc verifier i u) w = ((), w')"
  shows "signed_in env oidc i u w w' \<or>
    (\<exists>reason. d_events (sw_daemon w') = d_events (sw_daemon w) @ [AccountAddFailed i reason] \<and>
       d_tms (sw_daemon w') = d_tms (sw_daemon w) \<and> sw_keychain w' = sw_keychain w)"
proof -
  obtain r x where r: "run (handle_callback env oidc verifier i u) w = (r, x)" by (meson surj_pair)
  have "run (timeout (su_timeout env) (handle_callback env oidc verifier i u)) w = (Some r, x)"
    using run_timeout [OF within_mono [OF within_callback [of env oidc verifier i u] assms(1)], of w] r by simp
  then have w': "w' = (case r of Inl e \<Rightarrow> snd (emit (AccountAddFailed i e) x) | Inr _ \<Rightarrow> x)"
    using assms(4) by (auto simp: run_callback_def split_beta split: sum.splits)
  from handle_callback_outcome [OF assms(2,3) r] w' show ?thesis
    by (cases r) (auto simp: not_signed_in_def emit_def)
qed

theorem sign_in_outcome_witness:
  "let w' = snd (run (run_callback (sample_setup_env True) sample_oidc ''v'' 7 ''https://h'') sample_setup_world)
   in d_events (sw_daemon w') = [Ready, AccountAddCompleted 7 ''u1'' ''User'' ''https://h''] \<and>
      signed_in (sample_setup_env True) sample_oidc 7 ''https://h'' sample_setup_world w'"
proof -
  let ?r = "run (run_callback (sample_setup_env True) sample_oidc ''v'' 7 ''https://h'') sample_setup_world"
  have run: "?r = ((), snd ?r)" by (simp add: prod_eq_iff)
  have ev: "d_events (sw_daemon (snd ?r)) = [Ready, AccountAddCompleted 7 ''u1'' ''User'' ''https://h'']" by code_simp
  have pre: "9 \<le> su_timeout (sample_setup_env True)" "keychain_ready (sample_setup_env True) 7 (sw_keychain sample_setup_world)"
      "d_tms (sw_daemon sample_setup_world) 7 = None"
    by code_simp+
  from sign_in_outcome [OF pre run] ev show ?thesis
    by (auto simp: Let_def sample_setup_world_def init_daemon_def)
qed

text \<open>
  A sign-in that fails because the configuration cannot be written leaves the account behind. The
  account stays in the configuration in memory, without a token manager; and from then on every sign-in of the same user at
  the same URL is refused as a duplicate, also once writing works again.
\<close>

theorem failed_save_leaves_account:
  assumes "run (finish_sign_in env i u (user, name, t)) w = (Inl e, w')"
    and "\<not> (\<exists>a \<in> set (ap_account (d_config (sw_daemon w))). ac_url a = u \<and> ac_user_id a = user)"
  shows "new_account i u user name t \<in> set (ap_account (d_config (sw_daemon w'))) \<and> d_tms (sw_daemon w') i = None \<and>
    fst (run (finish_sign_in env' j u (user, name', t')) w') =
      Inl (''account already exists for user '' @ [CHR 0x27] @ user @ [CHR 0x27] @ '' on '' @ u)"
proof -
  let ?a = "new_account i u user name t"
  obtain s x where s: "save_account env ?a w = (s, x)" by (meson surj_pair)
  have dup: "save_account env' b w'' = (Inl (''account already exists for user '' @ [CHR 0x27] @ user @ [CHR 0x27] @ '' on '' @ u), w'')"
    if "?a \<in> set (ap_account (d_config (sw_daemon w'')))" "ac_url b = u" "ac_user_id b = user" for b w''
    using that by (auto simp: save_account_def Let_def list_ex_iff new_account_def)
  obtain e' where "s = Inl e'" and w': "w' = snd (run (abort_sign_in env i e') x)"
    using assms(1) s by (cases s) (auto simp: finish_sign_in_def split_beta)
  moreover have "?a \<in> set (ap_account (d_config (sw_daemon x)))"
    using s \<open>s = Inl e'\<close> assms(2)
    by (auto simp: save_account_def Let_def list_ex_iff new_account_def split: if_splits prod.splits sum.splits)
  ultimately have a: "?a \<in> set (ap_account (d_config (sw_daemon w')))" "d_tms (sw_daemon w') i = None"
    by (simp_all add: abort_run forget_credentials_def send_html_response_def)
  have "save_account env' (new_account j u user name' t') w' =
      (Inl (''account already exists for user '' @ [CHR 0x27] @ user @ [CHR 0x27] @ '' on '' @ u), w')"
    using dup [OF a(1)] by (simp add: new_account_def)
  then have "fst (run (finish_sign_in env' j u (user, name', t')) w') =
      Inl (''account already exists for user '' @ [CHR 0x27] @ user @ [CHR 0x27] @ '' on '' @ u)"
    by (simp only: finish_sign_in_def prod.case run_call sum.case abort_run fst_conv)
  with a show ?thesis by blast
qed

theorem failed_save_leaves_account_witness:
  "let w' = snd (run (finish_sign_in (sample_setup_env False) 7 ''https://h'' (''u1'', ''User'', Ocis)) sample_setup_world)
   in ap_account (d_config (sw_daemon w')) \<noteq> [] \<and>
      fst (run (finish_sign_in (sample_setup_env True) 8 ''https://h'' (''u1'', ''User'', Ocis)) w') \<noteq> Inr ()"
proof -
  let ?r = "run (finish_sign_in (sample_setup_env False) 7 ''https://h'' (''u1'', ''User'', Ocis)) sample_setup_world"
  have "fst ?r = Inl ''failed to save config: disk full''" by code_simp
  then have run: "?r = (Inl ''failed to save config: disk full'', snd ?r)" by (metis prod.collapse)
  have "\<not> (\<exists>a \<in> set (ap_account (d_config (sw_daemon sample_setup_world))). ac_url a = ''https://h'' \<and> ac_user_id a = ''u1'')"
    by (simp add: sample_setup_world_def init_daemon_def)
  from failed_save_leaves_account [OF run this] show ?thesis by (auto simp: Let_def)
qed

end
