(* ===== verification/SpacePoller.thy ===== *)
theory SpacePoller
  imports DaemonHandler
begin

text \<open>
  The task that watches the spaces of one account (\<open>crates/daemon/src/space_poller.rs\<close>). The
  configuration is locked twice, before and after the request, and may have changed in between: a poll is a first
  part that takes a copy of the account and a second part that works on whatever the configuration is then.
\<close>

section \<open>State and operations\<close>

record SpacePoller =
  sp_account_id :: uuid
  sp_token_manager :: TokenManager
  sp_emitted :: "string set"

record poll_snapshot =
  ps_url :: string
  ps_folders :: "FolderConfig list"
  ps_dismissed :: "string list"

definition new_poller :: "uuid \<Rightarrow> TokenManager \<Rightarrow> SpacePoller" where
  "new_poller i tm = \<lparr>sp_account_id = i, sp_token_manager = tm, sp_emitted = {}\<rparr>"

definition take_snapshot :: "SpacePoller \<Rightarrow> AppConfig \<Rightarrow> poll_snapshot option" where
  "take_snapshot p cfg =
     map_option (\<lambda>a. \<lparr>ps_url = ac_url a, ps_folders = ac_folder a, ps_dismissed = ac_dismissed_spaces a\<rparr>)
       (find_account (sp_account_id p) cfg)"

text \<open>The request; \<open>None\<close> when the URL is not valid or the request fails, both of which are only logged.\<close>

definition fetch_spaces :: "libs \<Rightarrow> 'w net \<Rightarrow> (string \<Rightarrow> string + DriveJson list) \<Rightarrow> SpacePoller \<Rightarrow> poll_snapshot \<Rightarrow> 'w \<Rightarrow> Space list option \<times> 'w" where
  "fetch_spaces lib net dec p ps w =
     (case lib_url_parse lib (ps_url ps) of
        None \<Rightarrow> (None, w)
      | Some base \<Rightarrow>
          (case list_spaces lib net dec base (ts_access_token (tm_token (sp_token_manager p))) w of
             (Inl _, w') \<Rightarrow> (None, w')
           | (Inr ss, w') \<Rightarrow> (Some ss, w')))"

definition suggested_path :: "string option \<Rightarrow> FolderConfig list \<Rightarrow> string \<Rightarrow> string" where
  "suggested_path home folders name =
     (case (case folders of [] \<Rightarrow> None | f # _ \<Rightarrow> path_parent (fc_local_path f)) of
        Some p \<Rightarrow> p
      | None \<Rightarrow> (case home of Some h \<Rightarrow> h | None \<Rightarrow> [])) @ ''/'' @ name"

abbreviation local_ids :: "poll_snapshot \<Rightarrow> string set" where
  "local_ids ps \<equiv> set (map fc_space_id (ps_folders ps))"

fun announce_new :: "string option \<Rightarrow> poll_snapshot \<Rightarrow> Space list \<Rightarrow> SpacePoller \<Rightarrow> daemon \<Rightarrow> SpacePoller \<times> daemon" where
  "announce_new home ps [] p d = (p, d)"
| "announce_new home ps (s # ss) p d =
     (if sp_id s \<notin> local_ids ps \<and> sp_id s \<notin> set (ps_dismissed ps) \<and> sp_id s \<notin> sp_emitted p then
        announce_new home ps ss (p\<lparr>sp_emitted := insert (sp_id s) (sp_emitted p)\<rparr>)
          (broadcast (SpaceDiscovered (sp_account_id p) (sp_id s) (sp_name s) (suggested_path home (ps_folders ps) (sp_name s))) d)
      else announce_new home ps ss p d)"

definition removed_folder_ids :: "poll_snapshot \<Rightarrow> Space list \<Rightarrow> uuid set" where
  "removed_folder_ids ps ss = set (map fc_id (filter (\<lambda>f. fc_space_id f \<notin> set (map sp_id ss)) (ps_folders ps)))"

definition removed_event :: "uuid \<Rightarrow> FolderConfig \<Rightarrow> DaemonEvent" where
  "removed_event i f = SpaceRemoved i (fc_id f) (fc_display_name f) (fc_local_path f)"

text \<open>The removal, under the second lock: on the account as it is now, if it is still there; the file is written in any case.\<close>

definition remove_folders :: "config_env \<Rightarrow> uuid \<Rightarrow> uuid set \<Rightarrow> daemon \<Rightarrow> daemon" where
  "remove_folders ce i gone d =
     (let cfg = update_account i (\<lambda>a. a\<lparr>ac_folder := filter (\<lambda>f. fc_id f \<notin> gone) (ac_folder a)\<rparr>) (d_config d);
          to_remove = (case find_account i (d_config d) of None \<Rightarrow> [] | Some a \<Rightarrow> filter (\<lambda>f. fc_id f \<in> gone) (ac_folder a))
      in (fold (\<lambda>f. broadcast (removed_event i f)) to_remove d)
           \<lparr>d_config := cfg, d_file := snd (save_config ce cfg (d_file d))\<rparr>)"

text \<open>
  The rest of a poll once the answer is there. It announces what is new and then waits for the lock of the configuration to remove what is gone. Between the two it
  reads and changes nothing that is shared, and it announces from its own copy: so what another task does there has the same effect as if it came before the announcements,
  but for the order of the two tasks' events. The two are one step here, on the state in which the lock is got.
\<close>

definition finish_poll :: "config_env \<Rightarrow> string option \<Rightarrow> poll_snapshot \<Rightarrow> Space list \<Rightarrow> SpacePoller \<Rightarrow> daemon \<Rightarrow> SpacePoller \<times> daemon" where
  "finish_poll ce home ps ss p d =
     (case announce_new home ps ss p d of
        (p, d) \<Rightarrow>
          (let p = p\<lparr>sp_emitted := {i \<in> sp_emitted p. i \<notin> local_ids ps \<and> i \<notin> set (ps_dismissed ps)}\<rparr>;
               gone = removed_folder_ids ps ss
           in (p, if gone = {} then d else remove_folders ce (sp_account_id p) gone d)))"

text \<open>A poll during which nothing else touches the configuration.\<close>

definition poll_once :: "libs \<Rightarrow> 'w net \<Rightarrow> (string \<Rightarrow> string + DriveJson list) \<Rightarrow> config_env \<Rightarrow> string option \<Rightarrow> SpacePoller \<Rightarrow> daemon \<Rightarrow> 'w
    \<Rightarrow> (SpacePoller \<times> daemon) \<times> 'w" where
  "poll_once lib net dec ce home p d w =
     (case take_snapshot p (d_config d) of
        None \<Rightarrow> ((p, d), w)
      | Some ps \<Rightarrow>
          (case fetch_spaces lib net dec p ps w of
             (None, w') \<Rightarrow> ((p, d), w')
           | (Some ss, w') \<Rightarrow> (finish_poll ce home ps ss p d, w')))"

section \<open>Lemmas\<close>

text \<open>The spaces a poll announces: each once, in the order of the server's list.\<close>

fun to_announce :: "string set \<Rightarrow> Space list \<Rightarrow> Space list" where
  "to_announce known [] = []"
| "to_announce known (s # ss) =
     (if sp_id s \<in> known then to_announce known ss else s # to_announce (insert (sp_id s) known) ss)"

definition discovered_event :: "string option \<Rightarrow> poll_snapshot \<Rightarrow> uuid \<Rightarrow> Space \<Rightarrow> DaemonEvent" where
  "discovered_event home ps i s = SpaceDiscovered i (sp_id s) (sp_name s) (suggested_path home (ps_folders ps) (sp_name s))"

abbreviation known_ids :: "poll_snapshot \<Rightarrow> SpacePoller \<Rightarrow> string set" where
  "known_ids ps p \<equiv> local_ids ps \<union> set (ps_dismissed ps) \<union> sp_emitted p"

lemma to_announce_ids:
  "distinct (map sp_id (to_announce known ss)) \<and> sp_id ` set (to_announce known ss) = sp_id ` set ss - known"
  by (induction known ss rule: to_announce.induct) auto

lemma announce_new_is:
  "announce_new home ps ss p d =
     (p\<lparr>sp_emitted := sp_emitted p \<union> sp_id ` set (to_announce (known_ids ps p) ss)\<rparr>,
      d\<lparr>d_events := d_events d @ map (discovered_event home ps (sp_account_id p)) (to_announce (known_ids ps p) ss)\<rparr>)"
proof (induction home ps ss p d rule: announce_new.induct)
  case (2 home ps s ss p d)
  show ?case
  proof (cases "sp_id s \<in> known_ids ps p")
    case True
    then show ?thesis using 2(2) by auto
  next
    case False
    then have "insert (sp_id s) (known_ids ps p) = known_ids ps (p\<lparr>sp_emitted := insert (sp_id s) (sp_emitted p)\<rparr>)" by auto
    then show ?thesis using False 2(1) by (simp add: broadcast_def discovered_event_def Un_assoc)
  qed
qed simp

lemma find_update_first:
  assumes "\<And>x. P (f x) = P x"
  shows "find P (update_first P f xs) = map_option f (find P xs)"
  using assms by (induction xs) auto

lemma find_account_update:
  assumes "\<And>a. ac_id (f a) = ac_id a"
  shows "find_account i (update_account i f cfg) = map_option f (find_account i cfg)"
  using assms by (simp add: find_account_def update_account_def find_update_first)

lemma fold_broadcast: "fold (\<lambda>x. broadcast (g x)) xs d = d\<lparr>d_events := d_events d @ map g xs\<rparr>"
  by (induction xs arbitrary: d) (simp_all add: broadcast_def)

lemma remove_folders_is:
  assumes "find_account i (d_config d) = Some a"
  shows "find_account i (d_config (remove_folders ce i gone d)) = Some (a\<lparr>ac_folder := filter (\<lambda>f. fc_id f \<notin> gone) (ac_folder a)\<rparr>) \<and>
    d_events (remove_folders ce i gone d) = d_events d @ map (removed_event i) (filter (\<lambda>f. fc_id f \<in> gone) (ac_folder a))"
  using assms by (simp add: remove_folders_def Let_def fold_broadcast find_account_update)

text \<open>An account whose space \<open>lost\<close> is gone and which got the folder of \<open>later\<close> during the poll.\<close>

definition sample_space_folder :: "uuid \<Rightarrow> string \<Rightarrow> FolderConfig" where
  "sample_space_folder i s = new_folder i (''/home/u/'' @ s) s s"

definition sample_space_account :: AccountConfig where
  "sample_space_account = \<lparr>ac_id = 1, ac_url = ''https://h'', ac_user_id = ''u'', ac_username = [], ac_display_name = ''U'', ac_server_type = Ocis,
     ac_folder = [sample_space_folder 5 ''lost'', sample_space_folder 6 ''kept'', sample_space_folder 7 ''later''], ac_dismissed_spaces = []\<rparr>"

definition sample_poll_daemon :: daemon where
  "sample_poll_daemon = init_daemon \<lparr>ap_general = default_general, ap_account = [sample_space_account]\<rparr> None Map.empty empty_fm []"

definition sample_snapshot :: poll_snapshot where
  "sample_snapshot = \<lparr>ps_url = ''https://h'', ps_folders = [sample_space_folder 5 ''lost'', sample_space_folder 6 ''kept''], ps_dismissed = [''no'']\<rparr>"

definition sample_spaces :: "Space list" where
  "sample_spaces = map (\<lambda>s. \<lparr>sp_id = s, sp_name = s, sp_drive_type = ''project'', sp_web_url = [], sp_quota = None\<rparr>) [''kept'', ''no'', ''new'']"

definition sample_poller :: SpacePoller where
  "sample_poller = new_poller 1 sample_tm"

definition sample_poll :: "SpacePoller \<times> daemon" where
  "sample_poll = finish_poll (sample_config_env True) None sample_snapshot sample_spaces sample_poller sample_poll_daemon"

section \<open>Properties\<close>

text \<open>
  C36: What a poll announces and removes. Whatever the account looks like when the answer has come: the
  poll announces exactly the spaces of the answer that have no folder in the copy taken before the request, are not dismissed and have not been
  announced before, each once; it remembers them as announced except those that got a folder or were dismissed; and it removes from the account
  exactly those folders that were in the copy and whose space is missing in the answer, reporting each: a folder added in the meantime stays.
\<close>

theorem poll_announces_and_removes:
  assumes "finish_poll ce home ps ss p d = (p', d')" "find_account (sp_account_id p) (d_config d) = Some a"
  shows "\<exists>new gone.
    distinct (map sp_id new) \<and> sp_id ` set new = sp_id ` set ss - local_ids ps - set (ps_dismissed ps) - sp_emitted p \<and>
    gone = filter (\<lambda>f. \<exists>g \<in> set (ps_folders ps). fc_id g = fc_id f \<and> fc_space_id g \<notin> sp_id ` set ss) (ac_folder a) \<and>
    d_events d' = d_events d @ map (discovered_event home ps (sp_account_id p)) new @ map (removed_event (sp_account_id p)) gone \<and>
    sp_emitted p' = (sp_emitted p \<union> sp_id ` set new) - local_ids ps - set (ps_dismissed ps) \<and>
    find_account (sp_account_id p) (d_config d') = Some (a\<lparr>ac_folder := filter (\<lambda>f. f \<notin> set gone) (ac_folder a)\<rparr>)"
proof -
  define N where "N = to_announce (known_ids ps p) ss"
  let ?ids = "removed_folder_ids ps ss"
  let ?i = "sp_account_id p"
  let ?d = "d\<lparr>d_events := d_events d @ map (discovered_event home ps ?i) N\<rparr>"
  have "announce_new home ps ss p d = (p\<lparr>sp_emitted := sp_emitted p \<union> sp_id ` set N\<rparr>, ?d)"
    unfolding N_def by (rule announce_new_is)
  then have "finish_poll ce home ps ss p d =
      (p\<lparr>sp_emitted := {i \<in> sp_emitted p \<union> sp_id ` set N. i \<notin> local_ids ps \<and> i \<notin> set (ps_dismissed ps)}\<rparr>,
       if ?ids = {} then ?d else remove_folders ce ?i ?ids ?d)"
    by (simp add: finish_poll_def Let_def cong: if_cong)
  then have p': "sp_emitted p' = (sp_emitted p \<union> sp_id ` set N) - local_ids ps - set (ps_dismissed ps)"
    and d': "d' = (if ?ids = {} then ?d else remove_folders ce ?i ?ids ?d)"
    using assms(1) by auto
  have gone: "fc_id f \<in> ?ids \<longleftrightarrow> (\<exists>g \<in> set (ps_folders ps). fc_id g = fc_id f \<and> fc_space_id g \<notin> sp_id ` set ss)" for f
    by (force simp: removed_folder_ids_def image_iff)
  have ids: "distinct (map sp_id N)" "sp_id ` set N = sp_id ` set ss - local_ids ps - set (ps_dismissed ps) - sp_emitted p"
    using to_announce_ids [of "known_ids ps p" ss] by (auto simp: N_def)
  have out: "find_account ?i (d_config d') = Some (a\<lparr>ac_folder := filter (\<lambda>f. fc_id f \<notin> ?ids) (ac_folder a)\<rparr>)"
      "d_events d' = d_events ?d @ map (removed_event ?i) (filter (\<lambda>f. fc_id f \<in> ?ids) (ac_folder a))"
    using remove_folders_is [of ?i ?d a ce ?ids] assms(2) d' by simp_all
  have rest: "filter (\<lambda>f. f \<notin> set (filter (\<lambda>f. fc_id f \<in> ?ids) (ac_folder a))) (ac_folder a) = filter (\<lambda>f. fc_id f \<notin> ?ids) (ac_folder a)"
    by (rule filter_cong) auto
  show ?thesis
    unfolding gone [symmetric] using ids p' out rest
    by (intro exI [of _ N] exI [of _ "filter (\<lambda>f. fc_id f \<in> ?ids) (ac_folder a)"]) simp
qed

theorem poll_announces_and_removes_witness:
  "\<exists>a'. find_account 1 (d_config (snd sample_poll)) = Some a' \<and> map fc_space_id (ac_folder a') = [''kept'', ''later'']"
proof -
  have find: "find_account (sp_account_id sample_poller) (d_config sample_poll_daemon) = Some sample_space_account" by code_simp
  have "sp_account_id sample_poller = 1" by code_simp
  moreover have "filter (\<lambda>f. f \<notin> set (filter (\<lambda>f. \<exists>g \<in> set (ps_folders sample_snapshot). fc_id g = fc_id f \<and>
      fc_space_id g \<notin> sp_id ` set sample_spaces) (ac_folder sample_space_account))) (ac_folder sample_space_account) =
      [sample_space_folder 6 ''kept'', sample_space_folder 7 ''later'']"
    by code_simp
  ultimately show ?thesis
    using poll_announces_and_removes [OF prod.collapse [symmetric, of sample_poll, unfolded sample_poll_def] find]
    by (auto simp: sample_poll_def sample_space_folder_def new_folder_def)
qed

end
