(* ===== verification/DaemonLoop.thy ===== *)
theory DaemonLoop
  imports AccountSetup SpacePoller
begin

text \<open>
  The main loop of the daemon (\<open>crates/daemon/src/main.rs\<close>) and the tasks it runs beside: one definition
  per branch of the loop, and a step relation in which the branches, the sync tasks, the account setups, the space listings and the
  space pollers take turns in any order.
\<close>

section \<open>The branches of the loop\<close>

text \<open>The poll task puts a trigger for every live folder into its channel; the loop takes one out.\<close>

definition poll_tick :: "daemon \<Rightarrow> daemon" where
  "poll_tick d = d\<lparr>d_poll := d_poll d @ d_live d\<rparr>"

definition on_poll :: "daemon \<Rightarrow> daemon" where
  "on_poll d = (case d_poll d of [] \<Rightarrow> d | i # q \<Rightarrow> d\<lparr>d_poll := q, d_sched := request_sync i (d_sched d)\<rparr>)"

text \<open>A file system event starts or prolongs the debounce of the folder, in milliseconds.\<close>

definition on_watch :: "uuid \<Rightarrow> nat \<Rightarrow> daemon \<Rightarrow> daemon" where
  "on_watch i now d = d\<lparr>d_debounce := (d_debounce d)(i \<mapsto> now + 500)\<rparr>"

text \<open>The task of a folder that was started ends at once if there is no engine for it.\<close>

definition start_run :: "uuid \<Rightarrow> daemon \<Rightarrow> daemon" where
  "start_run i d =
     (let d = broadcast (SyncStarted i) d
      in case get_engine i (d_fm d) of None \<Rightarrow> d | Some cfg \<Rightarrow> d\<lparr>d_runs := d_runs d @ [Engine_Run i cfg]\<rparr>)"

definition release_debounce :: "uuid \<Rightarrow> daemon \<Rightarrow> daemon" where
  "release_debounce i d = d\<lparr>d_debounce := (d_debounce d)(i := None), d_sched := request_sync i (d_sched d)\<rparr>"

text \<open>\<open>order\<close> and \<open>debs\<close> are the iteration orders of the scheduler's map and of the debounce map.\<close>

definition scheduler_tick :: "uuid list \<Rightarrow> uuid list \<Rightarrow> nat \<Rightarrow> daemon \<Rightarrow> daemon" where
  "scheduler_tick order debs now d =
     (case tick_start order (d_sched d) of
        (ready, sched) \<Rightarrow>
          (let d = fold start_run ready (d\<lparr>d_sched := sched\<rparr>);
               due = filter (\<lambda>i. case d_debounce d i of Some deadline \<Rightarrow> deadline \<le> now | None \<Rightarrow> False) debs
           in fold release_debounce due d))"

text \<open>The end of a sync task, first the scheduler, then the event.\<close>

definition run_outcome :: "uuid \<Rightarrow> (SyncError \<Rightarrow> string) \<Rightarrow> u64 \<Rightarrow> SyncError + SyncReport \<Rightarrow> string list \<times> SyncReport option" where
  "run_outcome i show_error ms result =
     (case result of
        Inr r \<Rightarrow> ([], Some r)
      | Inl e \<Rightarrow>
          ([show_error e], Some \<lparr>rep_folder_id = i, rep_remote_entries = 0, rep_local_entries = 0, rep_downloads = 0, rep_uploads = 0,
             rep_conflicts = 0, rep_deletes_local = 0, rep_deletes_remote = 0, rep_ignored = 0, rep_errors = [show_error e],
             rep_http_events = [], rep_duration_ms = ms\<rparr>))"

definition finish_run :: "nat \<Rightarrow> uuid \<Rightarrow> string list \<times> SyncReport option \<Rightarrow> system_time \<Rightarrow> daemon \<Rightarrow> daemon" where
  "finish_run k i out now d =
     d\<lparr>d_sched := finish_sync now i (d_sched d), d_runs := (d_runs d)[k := Announce i (fst out) (snd out)]\<rparr>"

definition announce_run :: "nat \<Rightarrow> uuid \<Rightarrow> string list \<Rightarrow> SyncReport option \<Rightarrow> daemon \<Rightarrow> daemon" where
  "announce_run k i errors rep d =
     broadcast (SyncFinished i errors rep) (d\<lparr>d_runs := take k (d_runs d) @ drop (Suc k) (d_runs d)\<rparr>)"

section \<open>The system\<close>

text \<open>
  The daemon with its keychain and network, the account setups in progress, and the pollers with the copy
  of their account while they wait for the server.
\<close>

record 'n system =
  sy_world :: "'n setup_world"
  sy_setups :: "('n, unit) setup_prog list"
  sy_pollers :: "(SpacePoller \<times> poll_snapshot option) list"

abbreviation sy_daemon :: "'n system \<Rightarrow> daemon" where
  "sy_daemon s \<equiv> sw_daemon (sy_world s)"

abbreviation with_daemon :: "daemon \<Rightarrow> 'n system \<Rightarrow> 'n system" where
  "with_daemon d s \<equiv> s\<lparr>sy_world := (sy_world s)\<lparr>sw_daemon := d\<rparr>\<rparr>"

text \<open>The pollers \<open>main\<close> launches: one per account that has credentials and is not a Classic one.\<close>

definition launch_pollers :: "AppConfig \<Rightarrow> (uuid \<rightharpoonup> TokenManager) \<Rightarrow> (SpacePoller \<times> poll_snapshot option) list" where
  "launch_pollers cfg tms =
     List.map_filter (\<lambda>a. if ac_server_type a = Classic then None
        else map_option (\<lambda>tm. (new_poller (ac_id a) tm, None)) (tms (ac_id a))) (ap_account cfg)"

definition start_system :: "daemon \<Rightarrow> keychain \<Rightarrow> 'n \<Rightarrow> 'n system" where
  "start_system d kc n =
     \<lparr>sy_world = \<lparr>sw_daemon = d, sw_keychain = kc, sw_pages = [], sw_net = n\<rparr>, sy_setups = [],
      sy_pollers = launch_pollers (d_config d) (d_tms d)\<rparr>"

inductive daemon_step :: "'n system \<Rightarrow> 'n system \<Rightarrow> bool" where
  command: "handle_command hx cmd (sy_daemon s) = (r, d) \<Longrightarrow> r \<noteq> Inr Yes \<Longrightarrow> daemon_step s (with_daemon d s)"
| poll_tick: "daemon_step s (with_daemon (poll_tick (sy_daemon s)) s)"
| poll: "daemon_step s (with_daemon (on_poll (sy_daemon s)) s)"
| watch: "i \<in> set (d_watching (sy_daemon s)) \<Longrightarrow> daemon_step s (with_daemon (on_watch i now (sy_daemon s)) s)"
| tick: "iteration_order order (d_sched (sy_daemon s)) \<Longrightarrow> distinct debs \<Longrightarrow> set debs = dom (d_debounce (sy_daemon s)) \<Longrightarrow>
    daemon_step s (with_daemon (scheduler_tick order debs now (sy_daemon s)) s)"
| run_ends: "k < length (d_runs (sy_daemon s)) \<Longrightarrow> d_runs (sy_daemon s) ! k = Engine_Run i cfg \<Longrightarrow>
    daemon_step s (with_daemon (finish_run k i (run_outcome i show_error ms result) now (sy_daemon s)) s)"
| run_announced: "k < length (d_runs (sy_daemon s)) \<Longrightarrow> d_runs (sy_daemon s) ! k = Announce i errors rep \<Longrightarrow>
    daemon_step s (with_daemon (announce_run k i errors rep (sy_daemon s)) s)"
| spaces_listed: "d_spawned (sy_daemon s) = t1 @ Listing_Spaces i u tm # t2 \<Longrightarrow>
    list_spaces_task lib net dec i u tm (sw_net (sy_world s)) = (e, n) \<Longrightarrow>
    daemon_step s (s\<lparr>sy_world := (sy_world s)\<lparr>sw_daemon := broadcast e ((sy_daemon s)\<lparr>d_spawned := t1 @ t2\<rparr>), sw_net := n\<rparr>\<rparr>)"
| setup_starts: "d_spawned (sy_daemon s) = t1 @ Setup_Account i u port # t2 \<Longrightarrow>
    daemon_step s ((with_daemon ((sy_daemon s)\<lparr>d_spawned := t1 @ t2\<rparr>) s)\<lparr>sy_setups := sy_setups s @ [setup_account env i u port]\<rparr>)"
| setup_acts: "k < length (sy_setups s) \<Longrightarrow> sy_setups s ! k = Act f \<Longrightarrow> f (sy_world s) = (p, w) \<Longrightarrow>
    daemon_step s (s\<lparr>sy_world := w, sy_setups := (sy_setups s)[k := p]\<rparr>)"
| poller_starts: "k < length (sy_pollers s) \<Longrightarrow> sy_pollers s ! k = (p, None) \<Longrightarrow>
    daemon_step s (s\<lparr>sy_pollers := (sy_pollers s)[k := (p, take_snapshot p (d_config (sy_daemon s)))]\<rparr>)"
| poller_fails: "k < length (sy_pollers s) \<Longrightarrow> sy_pollers s ! k = (p, Some ps) \<Longrightarrow>
    fetch_spaces lib net dec p ps (sw_net (sy_world s)) = (None, n) \<Longrightarrow>
    daemon_step s (s\<lparr>sy_world := (sy_world s)\<lparr>sw_net := n\<rparr>, sy_pollers := (sy_pollers s)[k := (p, None)]\<rparr>)"
| poller_ends: "k < length (sy_pollers s) \<Longrightarrow> sy_pollers s ! k = (p, Some ps) \<Longrightarrow>
    fetch_spaces lib net dec p ps (sw_net (sy_world s)) = (Some ss, n) \<Longrightarrow> finish_poll ce home ps ss p (sy_daemon s) = (p', d) \<Longrightarrow>
    daemon_step s (s\<lparr>sy_world := (sy_world s)\<lparr>sw_daemon := d, sw_net := n\<rparr>, sy_pollers := (sy_pollers s)[k := (p', None)]\<rparr>)"

text \<open>The states the daemon can be in after \<open>main\<close> has started it with the folders that could be brought up.\<close>

inductive reachable :: "'n system \<Rightarrow> bool" where
  start: "init_sync fe fcs accounts tms = Inr fm \<Longrightarrow> distinct order \<Longrightarrow> set order = dom (fm_folders fm) \<Longrightarrow>
    reachable (start_system (init_daemon cfg file tms fm order) kc n)"
| step: "reachable s \<Longrightarrow> daemon_step s s' \<Longrightarrow> reachable s'"

section \<open>The invariant\<close>

definition engine_runs :: "sync_task list \<Rightarrow> uuid list" where
  "engine_runs ts = List.map_filter (\<lambda>t. case t of Engine_Run i _ \<Rightarrow> Some i | Announce _ _ _ \<Rightarrow> None) ts"

definition running_in :: "uuid \<Rightarrow> SyncScheduler \<Rightarrow> bool" where
  "running_in i m \<longleftrightarrow> (\<exists>s. m i = Some s \<and> running s)"

text \<open>
  The scheduler, the folder manager and the list of live folders know the same folders; the sync tasks
  that run are distinct, are those of the folders marked as running, and work for the folder they were started for; and the
  shared status of a folder is the one it was created with.
\<close>

definition daemon_inv :: "daemon \<Rightarrow> bool" where
  "daemon_inv d \<longleftrightarrow>
     dom (d_sched d) = dom (fm_folders (d_fm d)) \<and> set (d_live d) = dom (d_sched d) \<and>
     distinct (engine_runs (d_runs d)) \<and> (\<forall>i. i \<in> set (engine_runs (d_runs d)) \<longleftrightarrow> running_in i (d_sched d)) \<and>
     (\<forall>i mf. fm_folders (d_fm d) i = Some mf \<longrightarrow> cfg_folder_id (mf_engine mf) = i) \<and>
     (\<forall>i cfg. Engine_Run i cfg \<in> set (d_runs d) \<longrightarrow> cfg_folder_id cfg = i) \<and>
     (\<forall>i st. fm_sync_states (d_fm d) i = Some st \<longrightarrow> st = new_SyncState i)"

context folder_update
begin

lemma upd_running: "(\<And>s. running (f s) = running s) \<Longrightarrow> running_in j (upd i m) = running_in j m"
  by (cases "j = i") (auto simp: running_in_def upd_same upd_other)

end

text \<open>The operations that leave the running flags and the known folders alone.\<close>

lemma sched_running_kept [simp]:
  "running_in j (request_sync i m) = running_in j m" "running_in j (force_request_sync i m) = running_in j m"
  "running_in j (pause i m) = running_in j m" "running_in j (resume i m) = running_in j m"
  by (rule req.upd_running force.upd_running pause.upd_running resume.upd_running; simp)+

lemmas sched_dom [simp] = req.upd_dom force.upd_dom pause.upd_dom resume.upd_dom start.upd_dom finish.upd_dom

lemma add_folder_dom [simp]: "dom (add_folder i m) = insert i (dom m)"
  by (auto simp: add_folder_def split: option.splits)

lemma add_folder_running [simp]: "running_in j (add_folder i m) = running_in j m"
  by (cases "j = i") (auto simp: running_in_def add_folder_same add_folder_other default_schedule_def split: option.splits)

text \<open>The part of the daemon the invariant speaks about.\<close>

definition core :: "daemon \<Rightarrow> SyncScheduler \<times> FolderManager \<times> uuid list \<times> sync_task list" where
  "core d = (d_sched d, d_fm d, d_live d, d_runs d)"

lemma daemon_inv_core: "core d' = core d \<Longrightarrow> daemon_inv d \<Longrightarrow> daemon_inv d'"
  by (simp add: core_def daemon_inv_def)

lemma core_broadcast [simp]: "core (broadcast e d) = core d"
  by (simp add: core_def)

lemma daemon_inv_broadcast [simp]: "daemon_inv (broadcast e d) \<longleftrightarrow> daemon_inv d"
  by (simp add: daemon_inv_def)

lemma engine_runs_append [simp]: "engine_runs (xs @ ys) = engine_runs xs @ engine_runs ys"
  by (simp add: engine_runs_def List.map_filter_def)

lemma engine_runs_simps [simp]:
  "engine_runs [] = []" "engine_runs (Engine_Run i cfg # ts) = i # engine_runs ts" "engine_runs (Announce i es rep # ts) = engine_runs ts"
  by (simp_all add: engine_runs_def List.map_filter_def)

lemma runs_split: "k < length ts \<Longrightarrow> ts ! k = t \<Longrightarrow> ts = take k ts @ t # drop (Suc k) ts"
  using id_take_nth_drop [of k ts] by simp

subsection \<open>Commands\<close>

lemma take_watcher_dom [simp]: "dom (fm_folders (snd (take_watcher i fm))) = dom (fm_folders fm)"
  by (auto simp: take_watcher_def split: option.splits)

lemma take_watcher_engine: "get_engine j (snd (take_watcher i fm)) = get_engine j fm"
  by (simp add: take_watcher_def get_engine_def split: option.split)

text \<open>The engines of the folder manager, as the invariant needs them.\<close>

lemma engines_iff:
  "(\<forall>i mf. fm_folders fm i = Some mf \<longrightarrow> cfg_folder_id (mf_engine mf) = i) \<longleftrightarrow> (\<forall>i cfg. get_engine i fm = Some cfg \<longrightarrow> cfg_folder_id cfg = i)"
  by (auto simp: get_engine_def)

lemma open_folder_engine: "open_folder fe fc a tm = Inr mf \<Longrightarrow> cfg_folder_id (mf_engine mf) = fc_id fc"
  by (auto simp: open_folder_def engine_config_def split: sum.splits option.splits if_splits)

lemma fm_add_folder_cases:
  assumes "fm_add_folder fe fc a tm fm = (r, fm')"
  obtains (refused) e where "r = Inl e" "fm' = fm"
  | (added) mf where "r = Inr ()" "fm' = insert_folder fc mf fm" "cfg_folder_id (mf_engine mf) = fc_id fc"
  using assms by (auto simp: fm_add_folder_def dest: open_folder_engine split: if_splits sum.splits)

lemma daemon_invI:
  assumes "core d = (m, fm, l, ts)" "dom m = dom (fm_folders fm)" "set l = dom m" "distinct (engine_runs ts)"
    and "\<And>i. i \<in> set (engine_runs ts) \<longleftrightarrow> running_in i m"
    and "\<And>i cfg. get_engine i fm = Some cfg \<Longrightarrow> cfg_folder_id cfg = i" "\<And>i cfg. Engine_Run i cfg \<in> set ts \<Longrightarrow> cfg_folder_id cfg = i"
    and "\<And>i st. fm_sync_states fm i = Some st \<Longrightarrow> st = new_SyncState i"
  shows "daemon_inv d"
  using assms unfolding daemon_inv_def engines_iff core_def by simp

lemma daemon_invD:
  assumes "daemon_inv d"
  shows "dom (d_sched d) = dom (fm_folders (d_fm d))" "set (d_live d) = dom (d_sched d)" "distinct (engine_runs (d_runs d))"
    and "i \<in> set (engine_runs (d_runs d)) \<longleftrightarrow> running_in i (d_sched d)"
    and "get_engine i (d_fm d) = Some cfg \<Longrightarrow> cfg_folder_id cfg = i" "Engine_Run i cfg \<in> set (d_runs d) \<Longrightarrow> cfg_folder_id cfg = i"
    and "fm_sync_states (d_fm d) i = Some st \<Longrightarrow> st = new_SyncState i"
  using assms unfolding daemon_inv_def engines_iff by blast+

lemma daemon_inv_sched:
  assumes "daemon_inv d" "core d' = (m, d_fm d, d_live d, d_runs d)" "dom m = dom (d_sched d)" "\<And>i. running_in i m = running_in i (d_sched d)"
  shows "daemon_inv d'"
  by (rule daemon_invI [OF assms(2)]) (use daemon_invD [OF assms(1)] assms(3,4) in \<open>simp_all\<close>)

lemma get_engine_insert_folder: "get_engine j (insert_folder fc mf fm) = (if j = fc_id fc then Some (mf_engine mf) else get_engine j fm)"
  by (simp add: get_engine_def insert_folder_def)

lemma dom_insert_folder [simp]: "dom (fm_folders (insert_folder fc mf fm)) = insert (fc_id fc) (dom (fm_folders fm))"
  by (simp add: insert_folder_def)

lemma take_watcher_states [simp]: "fm_sync_states (snd (take_watcher i fm)) = fm_sync_states fm"
  by (simp add: take_watcher_def split: option.split)

lemma insert_folder_states: "fm_sync_states (insert_folder fc mf fm) = (fm_sync_states fm)(fc_id fc \<mapsto> new_SyncState (fc_id fc))"
  by (simp add: insert_folder_def)

lemma daemon_inv_register:
  assumes "daemon_inv d" shows "daemon_inv (register_folder fe ce account_id fc tm d)"
proof (cases "find_account account_id (d_config d)")
  case None
  then show ?thesis using assms by (simp add: register_folder_defs)
next
  case (Some a)
  obtain r fm where add: "fm_add_folder fe fc a tm (d_fm d) = (r, fm)" by (meson surj_pair)
  then show ?thesis
  proof (cases rule: fm_add_folder_cases)
    case (refused e)
    then have "core (register_folder fe ce account_id fc tm d) = core d"
      using Some add by (simp add: register_folder_defs core_def)
    then show ?thesis using assms by (rule daemon_inv_core)
  next
    case (added mf)
    let ?i = "fc_id fc"
    have c: "core (register_folder fe ce account_id fc tm d) =
        (request_sync ?i (add_folder ?i (d_sched d)), snd (take_watcher ?i (insert_folder fc mf (d_fm d))), d_live d @ [?i], d_runs d)"
      using Some add added by (simp add: register_folder_defs core_def Let_def)
    note d = daemon_invD [OF assms]
    show ?thesis
      by (rule daemon_invI [OF c])
        (use d(1-4) d(5) added(3) in \<open>auto simp: take_watcher_engine get_engine_insert_folder insert_folder_states split: if_splits dest: d(6,7)\<close>)
  qed
qed

lemma daemon_inv_set_folders:
  "daemon_inv d \<Longrightarrow> daemon_inv (set_folders hx account_id root_path tm k sels d)"
proof (induction hx account_id root_path tm k sels d rule: set_folders.induct)
  case (2 hx account_id root_path tm k sel sels d)
  have "daemon_inv (d\<lparr>d_uuids := n\<rparr>)" for n using 2(3) by (rule daemon_inv_core [rotated]) (simp add: core_def)
  then show ?case using 2 by (simp add: Let_def fresh_uuid_def daemon_inv_register split: option.split)
qed simp

lemma daemon_inv_command:
  assumes "daemon_inv d" "handle_command hx cmd d = (r, d')"
  shows "daemon_inv d'"
proof (cases cmd)
  case (TriggerSync i)
  then show ?thesis using assms(2) by (intro daemon_inv_sched [OF assms(1), of _ "force_request_sync i (d_sched d)"]) (auto simp: core_def)
next
  case (PauseFolder i)
  then show ?thesis using assms(2) by (intro daemon_inv_sched [OF assms(1), of _ "pause i (d_sched d)"]) (auto simp: core_def)
next
  case (ResumeFolder i)
  then show ?thesis using assms(2) by (intro daemon_inv_sched [OF assms(1), of _ "resume i (d_sched d)"]) (auto simp: core_def)
next
  case (SetAccountFolders i root_path sels)
  then show ?thesis using assms daemon_inv_set_folders
    by (auto simp: set_account_folders_def space_failed_def split: if_splits option.splits)
next
  case (AddAccountSpace i space_id local_path)
  have "daemon_inv (d\<lparr>d_uuids := n\<rparr>)" for n using assms(1) by (rule daemon_inv_core [rotated]) (simp add: core_def)
  then show ?thesis using AddAccountSpace assms
    by (auto simp: add_account_space_def space_failed_def fresh_uuid_def Let_def intro!: daemon_inv_register split: if_splits option.splits)
next
  case (AddAccount u)
  then have "core d' = core d"
    using assms(2) by (auto simp: add_account_def fresh_uuid_def core_def split: sum.splits)
  then show ?thesis using assms(1) by (rule daemon_inv_core)
next
  case (RemoveAccount i)
  then have "core d' = core d"
    using assms(2) by (auto simp: remove_account_def core_def Let_def split: sum.splits prod.splits)
  then show ?thesis using assms(1) by (rule daemon_inv_core)
next
  case (ListSpaces i)
  then have "core d' = core d"
    using assms(2) by (auto simp: handle_list_spaces_def space_failed_def core_def split: option.splits if_splits)
  then show ?thesis using assms(1) by (rule daemon_inv_core)
next
  case (DismissSpace i space_id)
  then have "core d' = core d"
    using assms(2) by (auto simp: dismiss_space_def core_def Let_def split: option.splits)
  then show ?thesis using assms(1) by (rule daemon_inv_core)
qed (use assms in auto)

subsection \<open>Ticks and sync tasks\<close>

definition engine_tasks :: "FolderManager \<Rightarrow> uuid list \<Rightarrow> sync_task list" where
  "engine_tasks fm is = List.map_filter (\<lambda>i. map_option (Engine_Run i) (get_engine i fm)) is"

lemma fold_start_run:
  "core (fold start_run is d) = (d_sched d, d_fm d, d_live d, d_runs d @ engine_tasks (d_fm d) is) \<and> d_debounce (fold start_run is d) = d_debounce d"
proof (induction "is" arbitrary: d)
  case Nil
  then show ?case by (simp add: core_def engine_tasks_def List.map_filter_def)
next
  case (Cons i "is")
  have "core (start_run i d) = (d_sched d, d_fm d, d_live d, d_runs d @ engine_tasks (d_fm d) [i]) \<and> d_debounce (start_run i d) = d_debounce d"
    by (simp add: start_run_def core_def engine_tasks_def List.map_filter_def Let_def split: option.split)
  with Cons [of "start_run i d"] show ?case
    by (auto simp: core_def engine_tasks_def List.map_filter_def)
qed

lemma engine_runs_engine_tasks: "set is \<subseteq> dom (fm_folders fm) \<Longrightarrow> engine_runs (engine_tasks fm is) = is"
  by (induction "is") (auto simp: engine_tasks_def List.map_filter_def get_engine_def dom_def split: option.splits)

lemma engine_tasks_mem: "Engine_Run i cfg \<in> set (engine_tasks fm is) \<longleftrightarrow> i \<in> set is \<and> get_engine i fm = Some cfg"
  by (induction "is") (auto simp: engine_tasks_def List.map_filter_def)

lemma core_release: "\<exists>m. core (fold release_debounce is d) = (m, d_fm d, d_live d, d_runs d) \<and> dom m = dom (d_sched d) \<and>
    (\<forall>i. running_in i m = running_in i (d_sched d))"
proof (induction "is" arbitrary: d)
  case (Cons i "is")
  from Cons [of "release_debounce i d"] show ?case by (simp add: release_debounce_def)
qed (simp add: core_def)

lemma tick_start_running:
  assumes "iteration_order order m" "tick_start order m = (ids, m')"
  shows "running_in i m' \<longleftrightarrow> i \<in> set ids \<or> running_in i m" "dom m' = dom m" "distinct ids" "set ids \<subseteq> dom m"
    and "i \<in> set ids \<Longrightarrow> \<not> running_in i m"
proof -
  have ids: "ids = ready_to_run order m" "m' = fold start_sync ids m"
    using assms(2) by (auto simp: tick_start_def Let_def)
  have d: "distinct ids" and r: "i \<in> set ids \<longleftrightarrow> (\<exists>s. m i = Some s \<and> is_ready s)" for i
    using ready_to_run_iff [OF assms(1)] ids by auto
  have l: "m' i = (if i \<in> set ids then map_option (\<lambda>s. s\<lparr>running := True, pending := False\<rparr>) (m i) else m i)" for i
    using fold_start_lookup [OF d] ids by simp
  show "running_in i m' \<longleftrightarrow> i \<in> set ids \<or> running_in i m" using r [of i] l [of i] by (auto simp: running_in_def)
  show "dom m' = dom m" by (auto simp: dom_def l split: if_splits)
  show "distinct ids" by (rule d)
  show "set ids \<subseteq> dom m" using r by auto
  show "i \<in> set ids \<Longrightarrow> \<not> running_in i m" using r by (auto simp: running_in_def is_ready_def)
qed

lemma daemon_inv_tick:
  assumes "daemon_inv d" "iteration_order order (d_sched d)"
  shows "daemon_inv (scheduler_tick order debs now d)"
proof -
  obtain ids m where t: "tick_start order (d_sched d) = (ids, m)" by (meson surj_pair)
  note r = tick_start_running [OF assms(2) t] and d = daemon_invD [OF assms(1)]
  let ?d = "fold start_run ids (d\<lparr>d_sched := m\<rparr>)"
  have c: "core ?d = (m, d_fm d, d_live d, d_runs d @ engine_tasks (d_fm d) ids)"
    using fold_start_run [of ids "d\<lparr>d_sched := m\<rparr>"] by simp
  have runs: "engine_runs (engine_tasks (d_fm d) ids) = ids" using r(4) d(1) by (simp add: engine_runs_engine_tasks)
  have inv: "daemon_inv ?d"
  proof (rule daemon_invI [OF c])
    show "dom m = dom (fm_folders (d_fm d))" "set (d_live d) = dom m" using r(2) d(1,2) by simp_all
    show "distinct (engine_runs (d_runs d @ engine_tasks (d_fm d) ids))" using runs d(3,4) r(3,5) by auto
    show "i \<in> set (engine_runs (d_runs d @ engine_tasks (d_fm d) ids)) \<longleftrightarrow> running_in i m" for i using runs d(4) r(1) by auto
    show "cfg_folder_id cfg = i" if "Engine_Run i cfg \<in> set (d_runs d @ engine_tasks (d_fm d) ids)" for i cfg
      using that d(5,6) by (auto simp: engine_tasks_mem)
  qed (rule d(5), assumption, rule d(7))
  obtain due where s: "scheduler_tick order debs now d = fold release_debounce due ?d"
    by (simp add: scheduler_tick_def t Let_def)
  obtain m' where "core (fold release_debounce due ?d) = (m', d_fm ?d, d_live ?d, d_runs ?d)" "dom m' = dom (d_sched ?d)"
      "\<And>i. running_in i m' = running_in i (d_sched ?d)"
    using core_release by blast
  from daemon_inv_sched [OF inv this] show ?thesis by (simp add: s)
qed

lemma daemon_inv_finish_run:
  assumes "daemon_inv d" "k < length (d_runs d)" "d_runs d ! k = Engine_Run i cfg"
  shows "daemon_inv (finish_run k i out now d)"
proof -
  note d = daemon_invD [OF assms(1)]
  let ?pre = "take k (d_runs d)" and ?post = "drop (Suc k) (d_runs d)"
  have runs: "d_runs d = ?pre @ Engine_Run i cfg # ?post" using runs_split [OF assms(2,3)] .
  have c: "core (finish_run k i out now d) = (finish_sync now i (d_sched d), d_fm d, d_live d, ?pre @ Announce i (fst out) (snd out) # ?post)"
    using assms(2) by (simp add: finish_run_def core_def upd_conv_take_nth_drop)
  have e: "engine_runs (d_runs d) = engine_runs ?pre @ i # engine_runs ?post" by (subst runs) simp
  have flag: "running_in j (finish_sync now i m) \<longleftrightarrow> j \<noteq> i \<and> running_in j m" for j m
    by (cases "j = i") (auto simp: running_in_def finish.upd_same finish.upd_other)
  show ?thesis
  proof (rule daemon_invI [OF c])
    show "distinct (engine_runs (?pre @ Announce i (fst out) (snd out) # ?post))" using d(3) e by simp
    show "j \<in> set (engine_runs (?pre @ Announce i (fst out) (snd out) # ?post)) \<longleftrightarrow> running_in j (finish_sync now i (d_sched d))" for j
      using d(3) d(4) [of j] e flag by auto
    show "cfg_folder_id cfg' = j" if "Engine_Run j cfg' \<in> set (?pre @ Announce i (fst out) (snd out) # ?post)" for j cfg'
      using that d(6) [of j cfg'] by (auto dest: in_set_takeD in_set_dropD)
  qed (use d(1,2,5,7) in simp_all)
qed

lemma daemon_inv_announce_run:
  assumes "daemon_inv d" "k < length (d_runs d)" "d_runs d ! k = Announce i errors rep"
  shows "daemon_inv (announce_run k i errors rep d)"
proof -
  note d = daemon_invD [OF assms(1)]
  let ?pre = "take k (d_runs d)" and ?post = "drop (Suc k) (d_runs d)"
  have "engine_runs (d_runs d) = engine_runs ?pre @ engine_runs ?post" by (subst runs_split [OF assms(2,3)]) simp
  then have e: "engine_runs (?pre @ ?post) = engine_runs (d_runs d)" by simp
  have c: "core (announce_run k i errors rep d) = (d_sched d, d_fm d, d_live d, ?pre @ ?post)"
    by (simp add: announce_run_def core_def)
  show ?thesis
    by (rule daemon_invI [OF c]) (use d e in \<open>auto dest: in_set_takeD in_set_dropD\<close>)
qed

subsection \<open>Account setups and pollers\<close>

definition keeps_core :: "'n setup_world \<Rightarrow> 'n setup_world \<Rightarrow> bool" where
  "keeps_core w w' \<longleftrightarrow> core (sw_daemon w') = core (sw_daemon w)"

lemma guarantee_timeout: "guarantee G p \<Longrightarrow> guarantee G (timeout n p)"
proof (induction n arbitrary: p)
  case 0
  then show ?case by (cases p) auto
next
  case (Suc n)
  then show ?case by (cases p) (auto simp: split_beta)
qed

lemma guarantee_Act: "guarantee G (Act f) \<Longrightarrow> G s (snd (f s)) \<and> guarantee G (fst (f s))"
  by simp

lemma keeps_core_actions [simp]:
  "keeps_core w (snd (on_net g w))" "keeps_core w (snd (emit e w))" "keeps_core w (snd (send_html_response st html w))"
  "keeps_core w (snd (forget_credentials env i w))" "keeps_core w (snd (save_tokens env i tok w))"
  "keeps_core w (snd (save_account env a w))" "keeps_core w (w\<lparr>sw_daemon := add_token_manager env i oidc tok (sw_daemon w)\<rparr>)" "keeps_core w w"
  by (auto simp: keeps_core_def core_def on_net_def emit_def send_html_response_def forget_credentials_def save_tokens_def
      save_account_def add_token_manager_def Let_def split: prod.split option.split sum.split)

lemma guarantee_finish_sign_in: "guarantee keeps_core (finish_sign_in env i u identity)"
  by (simp add: finish_sign_in_def abort_sign_in_def split: prod.split sum.split)

lemma guarantee_resolve_identity:
  "(\<And>r. guarantee keeps_core (k r)) \<Longrightarrow> guarantee keeps_core (resolve_identity env base token k)"
  by (simp add: resolve_identity_def split: sum.split ServerType.split prod.split)

lemma guarantee_handle_callback: "guarantee keeps_core (handle_callback env oidc verifier i u)"
proof -
  have "guarantee keeps_core (abort_sign_in env i msg)" for msg by (simp add: abort_sign_in_def)
  then show ?thesis
    by (auto simp: handle_callback_def guarantee_finish_sign_in intro!: guarantee_resolve_identity split: sum.split option.split)
qed

lemma guarantee_run_callback: "guarantee keeps_core (run_callback env oidc verifier i u)"
  by (auto simp: run_callback_def intro!: guarantee_bind guarantee_timeout guarantee_handle_callback split: option.split sum.split)

lemma guarantee_start_sign_in: "guarantee keeps_core (start_sign_in env i u oidc)"
  by (simp add: start_sign_in_def setup_failed_def guarantee_run_callback split: sum.split prod.split)

lemma guarantee_setup_account: "guarantee keeps_core (setup_account env i u port)"
proof -
  have "guarantee keeps_core (classic_fallback env i u port e)" for u e
    by (simp add: classic_fallback_def setup_failed_def guarantee_start_sign_in split: option.split sum.split prod.split)
  then have "guarantee keeps_core (discover_and_sign_in env i u port)" for u
    by (simp add: discover_and_sign_in_def guarantee_start_sign_in split: sum.split)
  then show ?thesis by (simp add: setup_account_def setup_failed_def split: option.split sum.split)
qed

lemma core_finish_poll: "finish_poll ce home ps ss p d = (p', d') \<Longrightarrow> core d' = core d"
  by (auto simp: finish_poll_def announce_new_is Let_def core_def remove_folders_def fold_broadcast split: if_splits)

subsection \<open>Every reachable state\<close>

definition system_inv :: "'n system \<Rightarrow> bool" where
  "system_inv s \<longleftrightarrow> daemon_inv (sy_daemon s) \<and> (\<forall>p \<in> set (sy_setups s). guarantee keeps_core p)"

lemma system_inv_core:
  "system_inv s \<Longrightarrow> core (sy_daemon s') = core (sy_daemon s) \<Longrightarrow> sy_setups s' = sy_setups s \<Longrightarrow> system_inv s'"
  by (auto simp: system_inv_def intro: daemon_inv_core)

lemma system_inv_step:
  assumes "daemon_step s s'" "system_inv s"
  shows "system_inv s'"
  using assms
proof (cases rule: daemon_step.cases)
  case (command hx cmd r d)
  then show ?thesis using assms(2) by (auto simp: system_inv_def intro: daemon_inv_command)
next
  case poll
  have "daemon_inv (on_poll d)" if "daemon_inv d" for d
    by (cases "d_poll d") (simp_all add: on_poll_def that daemon_inv_sched [OF that, of _ "request_sync _ (d_sched d)"] core_def)
  then show ?thesis using poll assms(2) by (simp add: system_inv_def)
next
  case (tick order debs now)
  then show ?thesis using assms(2) daemon_inv_tick by (auto simp: system_inv_def)
next
  case (run_ends k i cfg show_error ms result now)
  then show ?thesis using assms(2) daemon_inv_finish_run by (auto simp: system_inv_def)
next
  case (run_announced k i errors rep)
  then show ?thesis using assms(2) daemon_inv_announce_run by (auto simp: system_inv_def)
next
  case (setup_starts t1 i u port t2 env)
  have "daemon_inv (sy_daemon s')"
    by (rule daemon_inv_core [of _ "sy_daemon s"]) (use assms(2) setup_starts in \<open>auto simp: core_def system_inv_def\<close>)
  then show ?thesis using setup_starts assms(2) guarantee_setup_account by (auto simp: system_inv_def)
next
  case (setup_acts k f p w)
  then have g: "guarantee keeps_core (Act f)" using assms(2) by (metis system_inv_def nth_mem)
  have "core (sy_daemon s') = core (sy_daemon s)" "guarantee keeps_core p"
    using guarantee_Act [OF g, of "sy_world s"] setup_acts by (auto simp: keeps_core_def)
  moreover have "set (sy_setups s') \<subseteq> insert p (set (sy_setups s))" using setup_acts by (simp add: set_update_subset_insert)
  ultimately show ?thesis using assms(2) daemon_inv_core unfolding system_inv_def by blast
next
  case (poller_ends k p ps lib net dec ss n ce home p' d)
  then show ?thesis using assms(2) by (intro system_inv_core [OF assms(2)]) (auto dest: core_finish_poll)
qed (auto intro!: system_inv_core [OF assms(2)] simp: core_def poll_tick_def on_watch_def)

definition engines_ok :: "FolderManager \<Rightarrow> bool" where
  "engines_ok fm \<longleftrightarrow> (\<forall>i cfg. get_engine i fm = Some cfg \<longrightarrow> cfg_folder_id cfg = i) \<and>
     (\<forall>i st. fm_sync_states fm i = Some st \<longrightarrow> st = new_SyncState i)"

lemma init_folders_engines: "init_folders fe accounts tms fcs fm = Inr fm' \<Longrightarrow> engines_ok fm \<Longrightarrow> engines_ok fm'"
proof (induction fe accounts tms fcs fm rule: init_folders.induct)
  case (2 fe accounts tms fc fcs fm)
  have "engines_ok (insert_folder fc mf fm)" if "open_folder fe fc a tm = Inr mf" for a tm mf
    using 2(5) open_folder_engine [OF that] by (simp add: engines_ok_def get_engine_insert_folder insert_folder_states)
  with 2 show ?case by (simp split: option.splits sum.splits)
qed simp

lemma fold_take_watcher:
  "dom (fm_folders (fold (\<lambda>i fm. snd (take_watcher i fm)) is fm)) = dom (fm_folders fm) \<and>
   get_engine j (fold (\<lambda>i fm. snd (take_watcher i fm)) is fm) = get_engine j fm \<and>
   fm_sync_states (fold (\<lambda>i fm. snd (take_watcher i fm)) is fm) = fm_sync_states fm"
  by (induction "is" arbitrary: fm) (simp_all add: take_watcher_engine)

lemma system_inv_reachable: "reachable s \<Longrightarrow> system_inv s"
proof (induction rule: reachable.induct)
  case (start fe fcs accounts tms fm order cfg cf kc n)
  let ?d = "init_daemon cfg cf tms fm order"
  let ?fm = "fold (\<lambda>i fm. snd (take_watcher i fm)) order fm"
  have c: "core ?d = (new_scheduler order, ?fm, order, [])" by (simp add: init_daemon_def core_def)
  have "init_folders fe accounts tms fcs empty_fm = Inr fm" using start(1) by (simp add: init_sync_def split: if_splits)
  then have ok: "engines_ok fm" by (rule init_folders_engines) (simp add: engines_ok_def empty_fm_def get_engine_def)
  have "daemon_inv ?d"
  proof (rule daemon_invI [OF c])
    show "cfg_folder_id cfg = i" if "get_engine i ?fm = Some cfg" for i cfg
      using ok that fold_take_watcher by (simp add: engines_ok_def)
    show "st = new_SyncState i" if "fm_sync_states ?fm i = Some st" for i st
      using ok that fold_take_watcher [of order fm] by (simp add: engines_ok_def)
  qed (use start(2,3) fold_take_watcher [of order fm] in \<open>auto simp: running_in_def new_scheduler_lookup default_schedule_def split: if_splits\<close>)
  then show ?case by (simp add: start_system_def system_inv_def)
next
  case (step s s')
  then show ?case using system_inv_step by blast
qed

lemma tick_starts_engine:
  assumes "daemon_inv d" "iteration_order order (d_sched d)" "d_sched d i = Some st" "is_ready st"
  shows "\<exists>cfg. Engine_Run i cfg \<in> set (d_runs (scheduler_tick order debs now d)) \<and> get_engine i (d_fm d) = Some cfg"
proof -
  obtain ids m where t: "tick_start order (d_sched d) = (ids, m)" by (meson surj_pair)
  have i: "i \<in> set ids"
    using ready_to_run_iff [OF assms(2), of i] assms(3,4) t by (auto simp: tick_start_def Let_def)
  obtain cfg where cfg: "get_engine i (d_fm d) = Some cfg"
    using daemon_invD(1) [OF assms(1)] assms(3) by (force simp: get_engine_def dom_def)
  let ?d = "fold start_run ids (d\<lparr>d_sched := m\<rparr>)"
  have runs: "d_runs ?d = d_runs d @ engine_tasks (d_fm d) ids"
    using fold_start_run [of ids "d\<lparr>d_sched := m\<rparr>"] by (simp add: core_def)
  obtain due where "scheduler_tick order debs now d = fold release_debounce due ?d"
    by (simp add: scheduler_tick_def t Let_def)
  then have "d_runs (scheduler_tick order debs now d) = d_runs ?d" using core_release [of due ?d] by (auto simp: core_def)
  then show ?thesis using runs i cfg by (simp add: engine_tasks_mem)
qed

text \<open>A daemon that starts with one folder, and what a poll and a tick make of it.\<close>

definition sample_folder_env :: folder_env where
  "sample_folder_env = \<lparr>fe_platform = Linux, fe_lib = id_lib, fe_show_id = \<lambda>_. ''id'', fe_config_dir = ''/c'', fe_mkdir_fails = False,
     fe_vfs_init = \<lambda>_. None, fe_db_fails = \<lambda>_. False, fe_watch = \<lambda>_. None\<rparr>"

definition one_folder_account :: AccountConfig where
  "one_folder_account = sample_space_account\<lparr>ac_folder := [sample_space_folder 5 ''kept'']\<rparr>"

definition one_folder_fm :: FolderManager where
  "one_folder_fm = insert_folder (sample_space_folder 5 ''kept'')
     \<lparr>mf_config = sample_space_folder 5 ''kept'', mf_engine = engine_config sample_folder_env (sample_space_folder 5 ''kept'') one_folder_account,
      mf_token_manager = sample_tm, mf_vfs = Vfs_Off, mf_watcher = True\<rparr> empty_fm"

definition one_folder_system :: "unit system" where
  "one_folder_system = start_system (init_daemon \<lparr>ap_general = default_general, ap_account = [one_folder_account]\<rparr> None [1 \<mapsto> sample_tm] one_folder_fm [5]) Map.empty ()"

definition sample_handler_env :: handler_env where
  "sample_handler_env = \<lparr>hx_bind = Inr (Inr 4000), hx_uuid = of_nat, hx_mkdir = \<lambda>_ _. None, hx_folder = \<lambda>_. sample_folder_env,
     hx_config = \<lambda>_. sample_config_env True\<rparr>"

lemma one_folder_reachable: "reachable one_folder_system"
  unfolding one_folder_system_def
  by (rule reachable.start [of sample_folder_env "[sample_space_folder 5 ''kept'']" "[one_folder_account]"])
    (simp_all add: one_folder_fm_def one_folder_account_def sample_space_account_def init_sync_def sample_folder_env_def empty_fm_def
       open_folder_def create_vfs_def sample_space_folder_def new_folder_def insert_folder_def)

definition polled_system :: "unit system" where
  "polled_system = (let s = with_daemon (poll_tick (sy_daemon one_folder_system)) one_folder_system in with_daemon (on_poll (sy_daemon s)) s)"

lemma polled_reachable: "reachable polled_system"
  unfolding polled_system_def Let_def
  by (intro reachable.step [OF reachable.step [OF one_folder_reachable daemon_step.poll_tick] daemon_step.poll])

lemma polled_daemon:
  "iteration_order [5] (d_sched (sy_daemon polled_system)) \<and> d_debounce (sy_daemon polled_system) = Map.empty \<and>
   (\<exists>st. d_sched (sy_daemon polled_system) 5 = Some st \<and> is_ready st)"
  by (simp add: polled_system_def one_folder_system_def start_system_def init_daemon_def poll_tick_def on_poll_def iteration_order_def
      req.upd_same new_scheduler_lookup default_schedule_def is_ready_def)

section \<open>Properties\<close>

text \<open>
  C37: One sync per folder. In every state the daemon can reach, by commands, polls, file events, ticks,
  ends of sync tasks, account setups and space polls in any order: no two sync tasks run for the same folder; a folder is marked as running exactly while a task runs for
  it, so the mark is never left behind; every task works with the engine of its own folder; the scheduler, the folder manager and the list of polled folders
  agree on the folders; and a folder that a tick starts always has an engine.
\<close>

theorem one_sync_per_folder:
  assumes "reachable s" "d = sy_daemon s"
  shows "distinct (engine_runs (d_runs d)) \<and>
    (\<forall>i. i \<in> set (engine_runs (d_runs d)) \<longleftrightarrow> running_in i (d_sched d)) \<and>
    (\<forall>i cfg. Engine_Run i cfg \<in> set (d_runs d) \<longrightarrow> cfg_folder_id cfg = i) \<and>
    dom (d_sched d) = dom (fm_folders (d_fm d)) \<and> set (d_live d) = dom (d_sched d) \<and>
    (\<forall>order i. iteration_order order (d_sched d) \<longrightarrow> i \<in> set (fst (tick_start order (d_sched d))) \<longrightarrow> get_engine i (d_fm d) \<noteq> None)"
proof -
  have "daemon_inv d" using system_inv_reachable [OF assms(1)] assms(2) by (simp add: system_inv_def)
  note d = daemon_invD [OF this]
  have "get_engine i (d_fm d) \<noteq> None" if "iteration_order order (d_sched d)" "i \<in> set (fst (tick_start order (d_sched d)))" for order i
    using tick_start_running(4) [OF that(1) prod.collapse [symmetric]] that(2) d(1) by (auto simp: get_engine_def)
  then show ?thesis using d by blast
qed

theorem one_sync_per_folder_witness:
  "\<exists>s. reachable (s :: unit system) \<and> 5 \<in> set (engine_runs (d_runs (sy_daemon s))) \<and> running_in 5 (d_sched (sy_daemon s))"
proof -
  let ?d = "scheduler_tick [5] [] 0 (sy_daemon polled_system)"
  let ?s = "with_daemon ?d polled_system"
  have "reachable ?s"
    by (rule reachable.step [OF polled_reachable daemon_step.tick]) (use polled_daemon in simp_all)
  note inv = one_sync_per_folder [OF this refl]
  obtain st where st: "d_sched (sy_daemon polled_system) 5 = Some st" "is_ready st" using polled_daemon by blast
  have "daemon_inv (sy_daemon polled_system)" using system_inv_reachable [OF polled_reachable] by (simp add: system_inv_def)
  from tick_starts_engine [OF this _ st] polled_daemon obtain cfg where "Engine_Run 5 cfg \<in> set (d_runs ?d)" by blast
  then have "5 \<in> set (engine_runs (d_runs ?d))" by (force simp: engine_runs_def List.map_filter_def)
  then show ?thesis using \<open>reachable ?s\<close> inv by (intro exI [of _ ?s]) simp
qed

text \<open>
  Removing an account does not stop its folders. In every reachable state, when \<open>RemoveAccount\<close> has
  succeeded, the account is gone from the configuration, but each of its folders that the scheduler knows is still polled: its trigger is in
  the next round of the poll task, and when the loop takes it the next tick starts a sync of the folder with its engine and its
  credentials, unless the folder was paused or is running already.
\<close>

theorem removed_account_keeps_syncing:
  assumes "reachable s" "handle_command hx (RemoveAccount a) (sy_daemon s) = (Inr No, d)"
    and "find_account a (d_config (sy_daemon s)) = Some acc" "f \<in> set (ac_folder acc)"
    and "d_sched (sy_daemon s) (fc_id f) = Some st" "\<not> running st" "\<not> paused st" "iteration_order order (d_sched d)"
  shows "find_account a (d_config d) = None \<and> fc_id f \<in> set (d_poll (poll_tick d)) \<and>
    (\<exists>cfg. Engine_Run (fc_id f) cfg \<in> set (d_runs (scheduler_tick order debs now (on_poll (d\<lparr>d_poll := fc_id f # q\<rparr>)))) \<and>
       get_engine (fc_id f) (d_fm d) = Some cfg)"
proof -
  have c: "core d = core (sy_daemon s)" and none: "find_account a (d_config d) = None"
    using assms(2) by (auto simp: remove_account_def core_def Let_def find_account_def find_None_iff split: prod.splits sum.splits)
  have inv: "daemon_inv d"
    using system_inv_reachable [OF assms(1)] daemon_inv_core [OF c] by (simp add: system_inv_def)
  have st: "d_sched d (fc_id f) = Some st" using c assms(5) by (simp add: core_def)
  let ?d = "on_poll (d\<lparr>d_poll := fc_id f # q\<rparr>)"
  have "daemon_inv ?d"
    by (rule daemon_inv_sched [OF inv, of _ "request_sync (fc_id f) (d_sched d)"]) (simp_all add: on_poll_def core_def)
  moreover have "d_sched ?d (fc_id f) = Some (st\<lparr>pending := True\<rparr>)" "iteration_order order (d_sched ?d)" "d_fm ?d = d_fm d"
    using st assms(6-8) by (simp_all add: on_poll_def req.upd_same iteration_order_def)
  ultimately have "\<exists>cfg. Engine_Run (fc_id f) cfg \<in> set (d_runs (scheduler_tick order debs now ?d)) \<and> get_engine (fc_id f) (d_fm d) = Some cfg"
    using tick_starts_engine [of ?d order "fc_id f" "st\<lparr>pending := True\<rparr>"] assms(6,7) by (simp add: is_ready_def)
  moreover have "fc_id f \<in> set (d_poll (poll_tick d))"
    using daemon_invD(2) [OF inv] st by (auto simp: poll_tick_def)
  ultimately show ?thesis using none by blast
qed

theorem removed_account_keeps_syncing_witness:
  "let d = snd (handle_command sample_handler_env (RemoveAccount 1) (sy_daemon one_folder_system))
   in find_account 1 (d_config d) = None \<and>
      (\<exists>cfg. Engine_Run 5 cfg \<in> set (d_runs (scheduler_tick [5] [] 0 (on_poll (d\<lparr>d_poll := [5]\<rparr>)))))"
proof -
  let ?r = "handle_command sample_handler_env (RemoveAccount 1) (sy_daemon one_folder_system)"
  let ?f = "sample_space_folder 5 ''kept''"
  have cmd: "?r = (Inr No, snd ?r)" and "d_sched (snd ?r) = d_sched (sy_daemon one_folder_system)"
    by (simp_all add: remove_account_def sample_handler_env_def sample_config_env_def save_config_def Let_def)
  then have o: "iteration_order [5] (d_sched (snd ?r))"
    by (simp add: iteration_order_def one_folder_system_def start_system_def init_daemon_def)
  have acc: "find_account 1 (d_config (sy_daemon one_folder_system)) = Some one_folder_account" "?f \<in> set (ac_folder one_folder_account)"
    by (simp_all add: one_folder_system_def start_system_def init_daemon_def find_account_def one_folder_account_def sample_space_account_def)
  have id: "fc_id ?f = 5" by (simp add: sample_space_folder_def new_folder_def)
  have st: "d_sched (sy_daemon one_folder_system) (fc_id ?f) = Some default_schedule" "\<not> running default_schedule" "\<not> paused default_schedule"
    by (simp_all add: id one_folder_system_def start_system_def init_daemon_def new_scheduler_lookup default_schedule_def)
  from removed_account_keeps_syncing [OF one_folder_reachable cmd acc st o, of "[]" 0 "[]"] show ?thesis
    unfolding id Let_def by blast
qed

end
