(* ===== verification/Tray.thy ===== *)
theory Tray
  imports StdStr
begin

text \<open>
  The icon in the system tray (\<open>crates/gui/src/tray.rs\<close>): the labels, the menu, and the three ways a new
  state reaches the menu: through a channel that the GTK thread empties from time to time (Linux), at once
  (macOS), or not at all (the other platforms). What the tray library refuses is an argument.
\<close>

section \<open>States and menu items\<close>

record TrayState =
  ts_daemon_running :: bool
  ts_daemon_status :: string
  ts_open :: string
  ts_about :: string
  ts_quit :: string

record MenuItem =
  mi_id :: string
  mi_text :: string
  mi_enabled :: bool

record MenuItems =
  ms_daemon_status :: MenuItem
  ms_open :: MenuItem
  ms_about :: MenuItem
  ms_quit :: MenuItem

text \<open>\<open>tray_state\<close>; the translation is the one of the current locale, the markers are U+25CF and U+25CB.\<close>

definition tray_state :: "(string \<Rightarrow> string) \<Rightarrow> bool \<Rightarrow> TrayState" where
  "tray_state tr daemon_running =
     (case (if daemon_running then ([CHR 0xE2, CHR 0x97, CHR 0x8F], ''tray_daemon_running'')
            else ([CHR 0xE2, CHR 0x97, CHR 0x8B], ''tray_daemon_stopped'')) of
        (marker, status_key) \<Rightarrow>
          \<lparr>ts_daemon_running = daemon_running, ts_daemon_status = marker @ '' '' @ tr status_key,
           ts_open = tr ''tray_open'', ts_about = tr ''tray_about'', ts_quit = tr ''tray_quit''\<rparr>)"

definition set_text :: "string \<Rightarrow> MenuItem \<Rightarrow> MenuItem" where
  "set_text s i = i\<lparr>mi_text := s\<rparr>"

definition set_enabled :: "bool \<Rightarrow> MenuItem \<Rightarrow> MenuItem" where
  "set_enabled b i = i\<lparr>mi_enabled := b\<rparr>"

definition apply_state :: "TrayState \<Rightarrow> MenuItems \<Rightarrow> MenuItems" where
  "apply_state state items =
     items\<lparr>ms_daemon_status := set_enabled (\<not> ts_daemon_running state) (set_text (ts_daemon_status state) (ms_daemon_status items)),
           ms_open := set_text (ts_open state) (ms_open items),
           ms_about := set_text (ts_about state) (ms_about items),
           ms_quit := set_text (ts_quit state) (ms_quit items)\<rparr>"

text \<open>\<open>build_menu\<close>: the entries of the menu, \<open>None\<close> for the separator, and the items; appending may fail.\<close>

definition build_menu :: "(string option \<Rightarrow> string option) \<Rightarrow> TrayState \<Rightarrow> string + string option list \<times> MenuItems" where
  "build_menu append_error state =
     (let items = \<lparr>ms_daemon_status = \<lparr>mi_id = ''daemon_status'', mi_text = ts_daemon_status state, mi_enabled = \<not> ts_daemon_running state\<rparr>,
                   ms_open = \<lparr>mi_id = ''open'', mi_text = ts_open state, mi_enabled = True\<rparr>,
                   ms_about = \<lparr>mi_id = ''about'', mi_text = ts_about state, mi_enabled = True\<rparr>,
                   ms_quit = \<lparr>mi_id = ''quit'', mi_text = ts_quit state, mi_enabled = True\<rparr>\<rparr>;
          entries = [Some (mi_id (ms_daemon_status items)), None, Some (mi_id (ms_open items)), Some (mi_id (ms_about items)),
                     Some (mi_id (ms_quit items))]
      in case List.map_filter append_error entries of e # _ \<Rightarrow> Inl e | [] \<Rightarrow> Inr (entries, items))"

section \<open>The handle\<close>

text \<open>Which of the \<open>inner\<close> modules is compiled in.\<close>

datatype tray_platform = Tray_Linux | Tray_Mac | Tray_None

text \<open>The items as the user sees them, and the channel of capacity 1 to the GTK thread (always empty on macOS).\<close>

record TrayHandle =
  th_platform :: tray_platform
  th_items :: MenuItems
  th_channel :: "TrayState list"

record tray_env =
  te_platform :: tray_platform
  te_icon_error :: "string option"
  te_gtk_error :: "string option"
  te_append_error :: "string option \<Rightarrow> string option"
  te_build_error :: "string option"

definition no_items :: MenuItems where
  "no_items = (let i = \<lparr>mi_id = [], mi_text = [], mi_enabled = False\<rparr> in \<lparr>ms_daemon_status = i, ms_open = i, ms_about = i, ms_quit = i\<rparr>)"

text \<open>Building the icon with its menu, in the GTK thread on Linux and in place on macOS.\<close>

definition build_icon :: "tray_env \<Rightarrow> TrayState \<Rightarrow> string + MenuItems" where
  "build_icon env initial =
     (case build_menu (te_append_error env) initial of
        Inl e \<Rightarrow> Inl e
      | Inr (menu, items) \<Rightarrow> (case te_build_error env of Some e \<Rightarrow> Inl e | None \<Rightarrow> Inr items))"

definition build_tray :: "tray_env \<Rightarrow> (string \<Rightarrow> string) \<Rightarrow> string + TrayHandle" where
  "build_tray env tr =
     (if te_platform env = Tray_None then Inr \<lparr>th_platform = Tray_None, th_items = no_items, th_channel = []\<rparr>
      else case te_icon_error env of
        Some e \<Rightarrow> Inl e
      | None \<Rightarrow>
          (case (if te_platform env = Tray_Linux then te_gtk_error env else None) of
             Some e \<Rightarrow> Inl (''gtk::init failed: '' @ e)
           | None \<Rightarrow> map_sum id (\<lambda>items. \<lparr>th_platform = te_platform env, th_items = items, th_channel = []\<rparr>)
               (build_icon env (tray_state tr False))))"

text \<open>\<open>rebuild_menu\<close> on Linux is \<open>try_send\<close>, whose result is ignored; the 100 ms timer of the GTK thread takes all that is there.\<close>

definition linux_rebuild_menu :: "TrayState \<Rightarrow> TrayHandle \<Rightarrow> TrayHandle" where
  "linux_rebuild_menu state th = (if length (th_channel th) < 1 then th\<lparr>th_channel := th_channel th @ [state]\<rparr> else th)"

definition gtk_poll :: "TrayHandle \<Rightarrow> TrayHandle" where
  "gtk_poll th = th\<lparr>th_items := fold apply_state (th_channel th) (th_items th), th_channel := []\<rparr>"

definition mac_rebuild_menu :: "TrayState \<Rightarrow> TrayHandle \<Rightarrow> TrayHandle" where
  "mac_rebuild_menu state th = th\<lparr>th_items := apply_state state (th_items th)\<rparr>"

definition rebuild_menu :: "TrayState \<Rightarrow> TrayHandle \<Rightarrow> TrayHandle" where
  "rebuild_menu state th =
     (case th_platform th of
        Tray_Linux \<Rightarrow> linux_rebuild_menu state th
      | Tray_Mac \<Rightarrow> mac_rebuild_menu state th
      | Tray_None \<Rightarrow> th)"

section \<open>What the user sees\<close>

text \<open>The labels, and whether the status can be clicked.\<close>

definition shown :: "TrayHandle \<Rightarrow> string list \<times> bool" where
  "shown th = (let i = th_items th in
     (map mi_text [ms_daemon_status i, ms_open i, ms_about i, ms_quit i], mi_enabled (ms_daemon_status i)))"

definition tray_labels :: "TrayState \<Rightarrow> string list \<times> bool" where
  "tray_labels state = ([ts_daemon_status state, ts_open state, ts_about state, ts_quit state], \<not> ts_daemon_running state)"

lemma shown_apply:
  "shown (th\<lparr>th_items := apply_state state items\<rparr>) = tray_labels state"
  "shown (th\<lparr>th_items := apply_state state items, th_channel := c\<rparr>) = tray_labels state"
  by (simp_all add: shown_def tray_labels_def apply_state_def set_text_def set_enabled_def Let_def)

text \<open>
  The contract of a tray: a state that is given to a tray which has nothing left to do is shown after the
  tray has worked. Then states that are far enough apart are all shown.
\<close>

locale tray_display =
  fixes rebuild :: "'s \<Rightarrow> 't \<Rightarrow> 't" and work :: "'t \<Rightarrow> 't" and idle :: "'t \<Rightarrow> bool"
    and display :: "'t \<Rightarrow> 'm" and wanted :: "'s \<Rightarrow> 'm"
  assumes work_idle: "idle (work t)"
    and rebuild_shown: "idle t \<Longrightarrow> display (work (rebuild s t)) = wanted s"
begin

lemma paced_idle: "idle t \<Longrightarrow> idle (fold (\<lambda>s t. work (rebuild s t)) ss t)"
  by (induction ss arbitrary: t) (simp_all add: work_idle)

lemma paced_shown: "idle t \<Longrightarrow> ss \<noteq> [] \<Longrightarrow> display (fold (\<lambda>s t. work (rebuild s t)) ss t) = wanted (last ss)"
  by (induction ss rule: rev_induct) (simp_all add: rebuild_shown paced_idle)

end

interpretation linux_tray: tray_display linux_rebuild_menu gtk_poll "\<lambda>th. th_channel th = []" shown tray_labels
  by unfold_locales (simp_all add: gtk_poll_def linux_rebuild_menu_def shown_apply)

interpretation mac_tray: tray_display mac_rebuild_menu id "\<lambda>_. True" shown tray_labels
  by unfold_locales (simp_all add: mac_rebuild_menu_def shown_apply)

text \<open>Between two polls of the GTK thread only the first state gets through.\<close>

lemma linux_channel_full: "th_channel th \<noteq> [] \<Longrightarrow> fold linux_rebuild_menu ss th = th"
  by (induction ss) (simp_all add: linux_rebuild_menu_def)

lemma linux_first_shown: "th_channel th = [] \<Longrightarrow> shown (gtk_poll (fold linux_rebuild_menu (s # ss) th)) = tray_labels s"
  using linux_channel_full [of "linux_rebuild_menu s th" ss] linux_tray.rebuild_shown [of th s]
  by (simp add: linux_rebuild_menu_def)

lemma build_tray_shown:
  "build_tray env tr = Inr th \<Longrightarrow> th_platform th \<noteq> Tray_None \<Longrightarrow> shown th = tray_labels (tray_state tr False) \<and> th_channel th = []"
  by (auto simp: build_tray_def build_icon_def build_menu_def shown_def tray_labels_def Let_def split: if_splits option.splits sum.splits list.splits)

lemma rebuild_menu_platform [simp]: "th_platform (rebuild_menu s th) = th_platform th"
  by (simp add: rebuild_menu_def linux_rebuild_menu_def mac_rebuild_menu_def split: tray_platform.split)

end
