(* ===== verification/Gui.thy ===== *)
theory Gui
  imports DaemonLoop StdStr Tray
begin

text \<open>
  The state of the GUI and its reactions (\<open>crates/gui/src/model.rs\<close>, \<open>app.rs\<close> and the connection of
  \<open>daemon_conn.rs\<close>): one update per message of the user or the daemon. What an update leaves to the toolkit (windows, dialogs, the end of
  the process) is its result; texts come from the translation function.
\<close>

section \<open>The model (\<open>model.rs\<close>)\<close>

datatype GuiFolderStatus = Gui_Idle | Gui_Syncing | Gui_Error | Gui_Paused

record FolderView =
  fv_id :: uuid
  fv_space_id :: string
  fv_display_name :: string
  fv_local_path :: string
  fv_status :: GuiFolderStatus
  fv_progress :: "(u64 \<times> u64) option"
  fv_errors :: "string list"

record AccountView =
  av_id :: uuid
  av_url :: string
  av_display_name :: string
  av_folders :: "FolderView list"

datatype View =
    SyncStatus
  | AccountSettings uuid
  | View_AddAccount (va_url: string) (va_error: "string option")
  | AddAccountWaiting uuid string
  | PickSpaces uuid "SpaceInfo list" "string set" "string option"
  | PickRootFolder uuid "SpaceInfo list" "string option" "string option"
  | GeneralSettings
  | FolderErrors uuid uuid
  | About

datatype Language = En | De | Fr | Zh

fun as_locale :: "Language \<Rightarrow> string" where
  "as_locale En = ''en''"
| "as_locale De = ''de''"
| "as_locale Fr = ''fr''"
| "as_locale Zh = ''zh''"

section \<open>The connection (\<open>daemon_conn.rs\<close>)\<close>

text \<open>The channel to the task that writes commands: the number of the connection, the commands waiting
  in it, and whether the task is still there.\<close>

record DaemonConnection =
  dc_id :: "nat option"
  dc_open :: bool
  dc_queue :: "DaemonCommand list"

definition disconnected :: DaemonConnection where
  "disconnected = \<lparr>dc_id = None, dc_open = False, dc_queue = []\<rparr>"

definition send_command :: "DaemonCommand \<Rightarrow> DaemonConnection \<Rightarrow> bool \<times> DaemonConnection" where
  "send_command c dc =
     (if dc_open dc \<and> length (dc_queue dc) < 64 then (True, dc\<lparr>dc_queue := dc_queue dc @ [c]\<rparr>) else (False, dc))"

section \<open>The application (\<open>app.rs\<close>)\<close>

record App =
  ga_daemon :: DaemonConnection
  ga_accounts :: "AccountView list"
  ga_view :: View
  ga_tray :: "TrayHandle option"
  ga_window_visible :: bool
  ga_window_id :: "nat option"
  ga_daemon_running :: bool
  ga_daemon_connecting :: bool
  ga_language :: Language
  ga_gui_config_path :: string

definition default_app :: App where
  "default_app = \<lparr>ga_daemon = disconnected, ga_accounts = [], ga_view = SyncStatus, ga_tray = None, ga_window_visible = True,
     ga_window_id = None, ga_daemon_running = False, ga_daemon_connecting = False, ga_language = En, ga_gui_config_path = []\<rparr>"

datatype Message =
    Msg_DaemonEvent DaemonEvent
  | DaemonDisconnected
  | NavigateTo View
  | ToggleWindow
  | WindowOpened nat
  | WindowCloseRequested nat
  | AddAccountUrlChanged string
  | AddAccountSubmit
  | ToggleSpaceSelection uuid string bool
  | PickSpacesNext uuid
  | PickRootFolderBrowse
  | PickRootFolderPicked "string option"
  | PickRootFolderSubmit uuid
  | AddSpaceClicked uuid
  | AcceptDiscoveredSpace uuid string string
  | DismissDiscoveredSpace uuid string
  | Msg_PauseFolder uuid
  | Msg_ResumeFolder uuid
  | ForceSyncFolder uuid
  | Msg_RemoveAccount uuid
  | OpenFolder string
  | Msg_Quit
  | ShowAbout
  | StartDaemon
  | OpenUrl string
  | DaemonConnected "(DaemonConnection \<times> nat) option"
  | LanguageChanged Language

text \<open>What an update asks the toolkit to do.\<close>

datatype task = No_Task | Show_Window nat | Hide_Window nat | Exit | Browse | Open_External string | Save_Language string Language

definition send :: "DaemonCommand \<Rightarrow> App \<Rightarrow> App" where
  "send c app = app\<lparr>ga_daemon := snd (send_command c (ga_daemon app))\<rparr>"

definition sync_tray :: "(string \<Rightarrow> string) \<Rightarrow> App \<Rightarrow> App" where
  "sync_tray tr app = app\<lparr>ga_tray := map_option (rebuild_menu (tray_state tr (ga_daemon_running app))) (ga_tray app)\<rparr>"

definition set_window_visibility :: "nat option \<Rightarrow> bool \<Rightarrow> task" where
  "set_window_visibility window visible =
     (case window of Some i \<Rightarrow> if visible then Show_Window i else Hide_Window i | None \<Rightarrow> No_Task)"

text \<open>\<open>find_folder_mut\<close> and an assignment: the first folder with the identifier, in the order of the accounts.\<close>

fun update_folder :: "uuid \<Rightarrow> (FolderView \<Rightarrow> FolderView) \<Rightarrow> AccountView list \<Rightarrow> AccountView list" where
  "update_folder i f [] = []"
| "update_folder i f (a # as) =
     (if list_ex (\<lambda>v. fv_id v = i) (av_folders a) then a\<lparr>av_folders := update_first (\<lambda>v. fv_id v = i) f (av_folders a)\<rparr> # as
      else a # update_folder i f as)"

definition with_folder :: "uuid \<Rightarrow> (FolderView \<Rightarrow> FolderView) \<Rightarrow> App \<Rightarrow> App" where
  "with_folder i f app = app\<lparr>ga_accounts := update_folder i f (ga_accounts app)\<rparr>"

definition set_folder_status :: "uuid \<Rightarrow> GuiFolderStatus \<Rightarrow> App \<Rightarrow> App" where
  "set_folder_status i st = with_folder i (\<lambda>v. v\<lparr>fv_status := st\<rparr>)"

definition with_account :: "uuid \<Rightarrow> (AccountView \<Rightarrow> AccountView) \<Rightarrow> App \<Rightarrow> App" where
  "with_account i f app = app\<lparr>ga_accounts := update_first (\<lambda>a. av_id a = i) f (ga_accounts app)\<rparr>"

definition strip_url_schema :: "string \<Rightarrow> string" where
  "strip_url_schema s =
     (if 8 \<le> length s \<and> eq_ignore_ascii_case (take 8 s) ''https://'' then drop 8 s
      else if 7 \<le> length s \<and> eq_ignore_ascii_case (take 7 s) ''http://'' then drop 7 s
      else s)"

definition derive_root :: "string option \<Rightarrow> string list \<Rightarrow> string" where
  "derive_root home existing_paths =
     (case (case existing_paths of [] \<Rightarrow> None | p # _ \<Rightarrow> path_parent p) of
        Some p \<Rightarrow> p
      | None \<Rightarrow> (case home of Some h \<Rightarrow> path_join h ''ownCloud'' | None \<Rightarrow> ''/tmp/ownCloud''))"

definition find_view :: "uuid \<Rightarrow> App \<Rightarrow> AccountView option" where
  "find_view i app = find (\<lambda>a. av_id a = i) (ga_accounts app)"

section \<open>Events of the daemon\<close>

definition folder_of_snapshot :: "FolderSnapshot \<Rightarrow> FolderView" where
  "folder_of_snapshot f =
     \<lparr>fv_id = fsn_folder_id f, fv_space_id = fsn_space_id f, fv_display_name = fsn_display_name f, fv_local_path = fsn_local_path f,
      fv_status = (if fsn_status f = ''syncing'' then Gui_Syncing else if fsn_status f = ''paused'' then Gui_Paused else Gui_Idle),
      fv_progress = None, fv_errors = []\<rparr>"

definition account_of_snapshot :: "AccountSnapshot \<Rightarrow> AccountView" where
  "account_of_snapshot a =
     \<lparr>av_id = asn_account_id a, av_url = asn_url a, av_display_name = asn_display_name a, av_folders = map folder_of_snapshot (asn_folders a)\<rparr>"

definition on_spaces_listed :: "uuid \<Rightarrow> SpaceInfo list \<Rightarrow> App \<Rightarrow> App" where
  "on_spaces_listed i spaces app =
     (let is_setup = (case find_view i app of Some a \<Rightarrow> av_folders a = [] | None \<Rightarrow> True) in
      if is_setup then
        app\<lparr>ga_view := PickSpaces i spaces (set (map si_id (filter (\<lambda>s. si_drive_type s = ''personal'') spaces))) None\<rparr>
      else
        (let synced = (case find_view i app of Some a \<Rightarrow> set (map fv_space_id (av_folders a)) | None \<Rightarrow> {})
         in app\<lparr>ga_view := PickSpaces i (filter (\<lambda>s. si_id s \<notin> synced) spaces) {} None\<rparr>))"

definition on_space_failed :: "uuid \<Rightarrow> string \<Rightarrow> App \<Rightarrow> App" where
  "on_space_failed i reason app =
     (case ga_view app of
        PickSpaces j spaces selected e \<Rightarrow> if j = i then app\<lparr>ga_view := PickSpaces j spaces selected (Some reason)\<rparr> else app
      | PickRootFolder j spaces path e \<Rightarrow> if j = i then app\<lparr>ga_view := PickRootFolder j spaces path (Some reason)\<rparr> else app
      | _ \<Rightarrow> app)"

definition on_folder_added :: "uuid \<Rightarrow> uuid \<Rightarrow> string \<Rightarrow> string \<Rightarrow> string \<Rightarrow> App \<Rightarrow> App" where
  "on_folder_added account_id folder_id space_id local_path display_name app =
     (let v = \<lparr>fv_id = folder_id, fv_space_id = space_id, fv_display_name = display_name, fv_local_path = local_path, fv_status = Gui_Idle,
               fv_progress = None, fv_errors = []\<rparr>;
          app = with_account account_id (\<lambda>a. a\<lparr>av_folders := av_folders a @ [v]\<rparr>) app
      in case ga_view app of
           PickRootFolder j _ _ _ \<Rightarrow> if j = account_id then app\<lparr>ga_view := SyncStatus\<rparr> else app
         | _ \<Rightarrow> app)"

fun handle_daemon_event :: "DaemonEvent \<Rightarrow> App \<Rightarrow> App" where
  "handle_daemon_event Ready app = app"
| "handle_daemon_event (SyncStarted i) app = with_folder i (\<lambda>v. v\<lparr>fv_status := Gui_Syncing, fv_errors := []\<rparr>) app"
| "handle_daemon_event (SyncProgress i completed whole) app = with_folder i (\<lambda>v. v\<lparr>fv_progress := Some (completed, whole)\<rparr>) app"
| "handle_daemon_event (SyncFinished i errors rep) app =
     with_folder i (\<lambda>v. if errors = [] then v\<lparr>fv_progress := None, fv_status := Gui_Idle, fv_errors := []\<rparr>
                        else v\<lparr>fv_progress := None, fv_status := Gui_Error, fv_errors := errors\<rparr>) app"
| "handle_daemon_event (FileStatusChanged path status) app = app"
| "handle_daemon_event (AccountStateChanged i state) app = app"
| "handle_daemon_event (AccountAddStarted i) app =
     (case ga_view app of AddAccountWaiting _ u \<Rightarrow> app\<lparr>ga_view := AddAccountWaiting i u\<rparr> | _ \<Rightarrow> app)"
| "handle_daemon_event (AccountAddFailed i reason) app =
     (case ga_view app of AddAccountWaiting _ u \<Rightarrow> app\<lparr>ga_view := View_AddAccount u (Some reason)\<rparr> | _ \<Rightarrow> app)"
| "handle_daemon_event (AccountAddCompleted i user_id display_name u) app =
     send (ListSpaces i) (app\<lparr>ga_accounts := ga_accounts app @ [\<lparr>av_id = i, av_url = u, av_display_name = display_name, av_folders = []\<rparr>]\<rparr>)"
| "handle_daemon_event (SpacesListed i spaces) app = on_spaces_listed i spaces app"
| "handle_daemon_event (AccountSpaceFailed i reason) app = on_space_failed i reason app"
| "handle_daemon_event (AccountFolderAdded account_id folder_id space_id local_path display_name) app =
     on_folder_added account_id folder_id space_id local_path display_name app"
| "handle_daemon_event (SpaceDiscovered i space_id space_name suggested) app = app"
| "handle_daemon_event (SpaceRemoved account_id folder_id space_name local_path) app =
     with_account account_id (\<lambda>a. a\<lparr>av_folders := filter (\<lambda>v. fv_id v \<noteq> folder_id) (av_folders a)\<rparr>) app"
| "handle_daemon_event (Snapshot_Event accounts) app = app\<lparr>ga_accounts := map account_of_snapshot accounts\<rparr>"

section \<open>Messages\<close>

definition add_account_submit :: "(string \<Rightarrow> string) \<Rightarrow> App \<Rightarrow> App" where
  "add_account_submit tr app =
     (case ga_view app of
        View_AddAccount url_input e \<Rightarrow>
          (let normalized = strip_url_schema (trim_str url_input) in
           if normalized = [] then app\<lparr>ga_view := View_AddAccount normalized (Some (tr ''error_enter_url''))\<rparr>
           else (case send_command (AddAccount normalized) (ga_daemon app) of
                   (True, dc) \<Rightarrow> app\<lparr>ga_daemon := dc, ga_view := AddAccountWaiting 0 normalized\<rparr>
                 | (False, dc) \<Rightarrow> app\<lparr>ga_daemon := dc, ga_view := View_AddAccount normalized (Some (tr ''error_not_connected''))\<rparr>))
      | _ \<Rightarrow> app)"

definition pick_spaces_next :: "string option \<Rightarrow> uuid \<Rightarrow> App \<Rightarrow> App" where
  "pick_spaces_next home i app =
     (case ga_view app of
        PickSpaces _ spaces selected _ \<Rightarrow>
          (let chosen = filter (\<lambda>s. si_id s \<in> selected) spaces;
               folders = (case find_view i app of Some a \<Rightarrow> av_folders a | None \<Rightarrow> [])
           in if folders \<noteq> [] then
                (let root = derive_root home (map fv_local_path folders)
                 in (fold (\<lambda>s. send (AddAccountSpace i (si_id s) (trim_end_matches CHR ''/'' root @ ''/'' @ si_name s))) chosen app)
                      \<lparr>ga_view := AccountSettings i\<rparr>)
              else app\<lparr>ga_view := PickRootFolder i chosen None None\<rparr>)
      | _ \<Rightarrow> app)"

definition pick_root_folder_submit :: "uuid \<Rightarrow> App \<Rightarrow> App" where
  "pick_root_folder_submit i app =
     (case ga_view app of
        PickRootFolder _ spaces (Some root) _ \<Rightarrow>
          send (SetAccountFolders i root (map (\<lambda>s. \<lparr>sel_space_id = si_id s, sel_display_name = si_name s\<rparr>) spaces)) app
      | _ \<Rightarrow> app)"

fun update :: "(Language \<Rightarrow> string \<Rightarrow> string) \<Rightarrow> string option \<Rightarrow> Message \<Rightarrow> App \<Rightarrow> App \<times> task" where
  "update tr home (Msg_DaemonEvent e) app = (handle_daemon_event e app, No_Task)"
| "update tr home DaemonDisconnected app = (app, No_Task)"
| "update tr home (NavigateTo v) app = (app\<lparr>ga_view := v\<rparr>, No_Task)"
| "update tr home ToggleWindow app =
     (app\<lparr>ga_window_visible := \<not> ga_window_visible app\<rparr>, set_window_visibility (ga_window_id app) (\<not> ga_window_visible app))"
| "update tr home (WindowOpened i) app = (app\<lparr>ga_window_id := Some i\<rparr>, No_Task)"
| "update tr home (WindowCloseRequested i) app =
     (if ga_tray app \<noteq> None then (app\<lparr>ga_window_visible := False\<rparr>, Hide_Window i) else (app, Exit))"
| "update tr home (AddAccountUrlChanged u) app =
     ((case ga_view app of View_AddAccount _ e \<Rightarrow> app\<lparr>ga_view := View_AddAccount u e\<rparr> | _ \<Rightarrow> app), No_Task)"
| "update tr home AddAccountSubmit app = (add_account_submit (tr (ga_language app)) app, No_Task)"
| "update tr home (ToggleSpaceSelection i space_id sel) app =
     ((case ga_view app of
         PickSpaces j spaces selected e \<Rightarrow>
           app\<lparr>ga_view := PickSpaces j spaces (if sel then insert space_id selected else selected - {space_id}) e\<rparr>
       | _ \<Rightarrow> app), No_Task)"
| "update tr home (PickSpacesNext i) app = (pick_spaces_next home i app, No_Task)"
| "update tr home PickRootFolderBrowse app = (app, Browse)"
| "update tr home (PickRootFolderPicked maybe_path) app =
     ((case (ga_view app, maybe_path) of
         (PickRootFolder j spaces _ _, Some path) \<Rightarrow> app\<lparr>ga_view := PickRootFolder j spaces (Some path) None\<rparr>
       | _ \<Rightarrow> app), No_Task)"
| "update tr home (PickRootFolderSubmit i) app = (pick_root_folder_submit i app, No_Task)"
| "update tr home (AddSpaceClicked i) app = (send (ListSpaces i) app, No_Task)"
| "update tr home (AcceptDiscoveredSpace i space_id suggested) app = (send (AddAccountSpace i space_id suggested) app, No_Task)"
| "update tr home (DismissDiscoveredSpace i space_id) app = (send (DismissSpace i space_id) app, No_Task)"
| "update tr home (Msg_PauseFolder i) app = (set_folder_status i Gui_Paused (send (PauseFolder i) app), No_Task)"
| "update tr home (Msg_ResumeFolder i) app = (set_folder_status i Gui_Idle (send (ResumeFolder i) app), No_Task)"
| "update tr home (ForceSyncFolder i) app = (send (TriggerSync i) app, No_Task)"
| "update tr home (Msg_RemoveAccount i) app =
     ((send (RemoveAccount i) app)\<lparr>ga_accounts := filter (\<lambda>a. av_id a \<noteq> i) (ga_accounts app), ga_view := SyncStatus\<rparr>, No_Task)"
| "update tr home (OpenFolder path) app = (app, Open_External path)"
| "update tr home Msg_Quit app = (send Quit app, Exit)"
| "update tr home ShowAbout app = (app\<lparr>ga_window_visible := True, ga_view := About\<rparr>, set_window_visibility (ga_window_id app) True)"
| "update tr home StartDaemon app = (app, No_Task)"
| "update tr home (OpenUrl u) app = (app, Open_External u)"
| "update tr home (DaemonConnected payload) app = (app, No_Task)"
| "update tr home (LanguageChanged l) app = (sync_tray (tr l) (app\<lparr>ga_language := l\<rparr>), Save_Language (ga_gui_config_path app) l)"

section \<open>The GUI as a copy of the configuration\<close>

text \<open>What the GUI and the configuration say about an account and a folder in common.\<close>

type_synonym folder_key = "uuid \<times> string \<times> string \<times> string"
type_synonym account_key = "uuid \<times> string \<times> string \<times> folder_key list"

definition fv_key :: "FolderView \<Rightarrow> folder_key" where
  "fv_key v = (fv_id v, fv_space_id v, fv_display_name v, fv_local_path v)"

definition av_key :: "AccountView \<Rightarrow> account_key" where
  "av_key a = (av_id a, av_url a, av_display_name a, map fv_key (av_folders a))"

definition fc_key :: "FolderConfig \<Rightarrow> folder_key" where
  "fc_key f = (fc_id f, fc_space_id f, fc_display_name f, fc_local_path f)"

definition ac_key :: "AccountConfig \<Rightarrow> account_key" where
  "ac_key a = (ac_id a, ac_url a, ac_display_name a, map fc_key (ac_folder a))"

definition mirrors :: "App \<Rightarrow> AppConfig \<Rightarrow> bool" where
  "mirrors app cfg \<longleftrightarrow> map av_key (ga_accounts app) = map ac_key (ap_account cfg)"

text \<open>The daemon went from \<open>d\<close> to \<open>d'\<close>, and the events it sent keep a copy of the configuration a copy.\<close>

definition follows :: "daemon \<Rightarrow> daemon \<Rightarrow> bool" where
  "follows d d' \<longleftrightarrow> (\<exists>es. d_events d' = d_events d @ es \<and>
     (\<forall>app. mirrors app (d_config d) \<longrightarrow> mirrors (fold handle_daemon_event es app) (d_config d')))"

lemma followsI:
  "d_events d' = d_events d @ es \<Longrightarrow> (\<And>app. mirrors app (d_config d) \<Longrightarrow> mirrors (fold handle_daemon_event es app) (d_config d')) \<Longrightarrow> follows d d'"
  by (auto simp: follows_def)

lemma follows_same: "d_events d' = d_events d \<Longrightarrow> ap_account (d_config d') = ap_account (d_config d) \<Longrightarrow> follows d d'"
  by (rule followsI [of _ _ "[]"]) (simp_all add: mirrors_def)

lemma follows_trans:
  assumes "follows d d'" "follows d' d''" shows "follows d d''"
proof -
  obtain es es' where "d_events d' = d_events d @ es" "d_events d'' = d_events d' @ es'"
      "\<forall>app. mirrors app (d_config d) \<longrightarrow> mirrors (fold handle_daemon_event es app) (d_config d')"
      "\<forall>app. mirrors app (d_config d') \<longrightarrow> mirrors (fold handle_daemon_event es' app) (d_config d'')"
    using assms by (auto simp: follows_def)
  then show ?thesis by (intro followsI [of _ _ "es @ es'"]) simp_all
qed

subsection \<open>Events\<close>

lemma map_update_first:
  assumes "\<And>x. P x = P' (k x)" "\<And>x. P x \<Longrightarrow> k (f x) = g (k x)"
  shows "map k (update_first P f xs) = update_first P' g (map k xs)"
  using assms by (induction xs) auto

lemma map_update_first_same:
  "(\<And>x. k (f x) = k x) \<Longrightarrow> map k (update_first P f xs) = map k xs"
  by (induction xs) auto

lemma keys_update_folder: "(\<And>v. fv_key (f v) = fv_key v) \<Longrightarrow> map av_key (update_folder i f as) = map av_key as"
  by (induction as) (auto simp: av_key_def map_update_first_same)

lemma keys_with_folder [simp]:
  "(\<And>v. fv_key (f v) = fv_key v) \<Longrightarrow> map av_key (ga_accounts (with_folder i f app)) = map av_key (ga_accounts app)"
  by (simp add: with_folder_def keys_update_folder)

lemma send_accounts [simp]: "ga_accounts (send c app) = ga_accounts app"
  by (simp add: send_def)

text \<open>The events that are not about the accounts.\<close>

fun about_accounts :: "DaemonEvent \<Rightarrow> bool" where
  "about_accounts (AccountAddCompleted _ _ _ _) \<longleftrightarrow> True"
| "about_accounts (AccountFolderAdded _ _ _ _ _) \<longleftrightarrow> True"
| "about_accounts (SpaceRemoved _ _ _ _) \<longleftrightarrow> True"
| "about_accounts (Snapshot_Event _) \<longleftrightarrow> True"
| "about_accounts _ \<longleftrightarrow> False"

lemma other_event_keys: "\<not> about_accounts e \<Longrightarrow> map av_key (ga_accounts (handle_daemon_event e app)) = map av_key (ga_accounts app)"
  by (cases e) (simp_all add: fv_key_def on_spaces_listed_def on_space_failed_def Let_def split: View.split)

lemma follows_broadcast: "\<not> about_accounts e \<Longrightarrow> follows d (broadcast e d)"
  by (rule followsI [of _ _ "[e]"]) (simp_all add: mirrors_def other_event_keys)

definition on_key :: "uuid \<Rightarrow> (folder_key list \<Rightarrow> folder_key list) \<Rightarrow> account_key list \<Rightarrow> account_key list" where
  "on_key i g = update_first (\<lambda>k. fst k = i) (\<lambda>(j, u, n, fs). (j, u, n, g fs))"

lemma keys_with_account:
  assumes "\<And>fs. map fv_key (h fs) = g (map fv_key fs)"
  shows "map av_key (ga_accounts (with_account i (\<lambda>a. a\<lparr>av_folders := h (av_folders a)\<rparr>) app)) = on_key i g (map av_key (ga_accounts app))"
  unfolding with_account_def on_key_def by (simp, rule map_update_first) (simp_all add: av_key_def assms)

lemma keys_update_account:
  assumes "\<And>fs. map fc_key (h fs) = g (map fc_key fs)"
  shows "map ac_key (ap_account (update_account i (\<lambda>a. a\<lparr>ac_folder := h (ac_folder a)\<rparr>) cfg)) = on_key i g (map ac_key (ap_account cfg))"
  unfolding update_account_def on_key_def by (simp, rule map_update_first) (simp_all add: ac_key_def assms)

lemma folder_added_keys:
  "map av_key (ga_accounts (handle_daemon_event (AccountFolderAdded i (fc_id f) (fc_space_id f) (fc_local_path f) (fc_display_name f)) app)) =
     on_key i (\<lambda>fs. fs @ [fc_key f]) (map av_key (ga_accounts app))"
proof -
  let ?v = "\<lparr>fv_id = fc_id f, fv_space_id = fc_space_id f, fv_display_name = fc_display_name f, fv_local_path = fc_local_path f,
      fv_status = Gui_Idle, fv_progress = None, fv_errors = []\<rparr>"
  have "ga_accounts (handle_daemon_event (AccountFolderAdded i (fc_id f) (fc_space_id f) (fc_local_path f) (fc_display_name f)) app) =
      ga_accounts (with_account i (\<lambda>a. a\<lparr>av_folders := av_folders a @ [?v]\<rparr>) app)"
    by (simp add: on_folder_added_def Let_def split: View.split)
  then show ?thesis by (simp add: keys_with_account [where h = "\<lambda>fs. fs @ [?v]" and g = "\<lambda>fs. fs @ [fc_key f]"] fv_key_def fc_key_def)
qed

lemma space_removed_keys:
  "map av_key (ga_accounts (handle_daemon_event (SpaceRemoved i j n p) app)) =
     on_key i (filter (\<lambda>k. fst k \<noteq> j)) (map av_key (ga_accounts app))"
  by (simp add: keys_with_account [where h = "filter (\<lambda>v. fv_id v \<noteq> j)" and g = "filter (\<lambda>k. fst k \<noteq> j)"] filter_map comp_def fv_key_def)

subsection \<open>Commands and polls\<close>

lemma follows_register: "follows d (register_folder fe ce i fc tm d)"
proof (cases "find_account i (d_config d)")
  case None
  then show ?thesis by (simp add: register_folder_defs follows_same)
next
  case (Some a)
  obtain r fm where add: "fm_add_folder fe fc a tm (d_fm d) = (r, fm)" by (meson surj_pair)
  show ?thesis
  proof (cases r)
    case (Inl e)
    then have "register_folder fe ce i fc tm d = broadcast (AccountSpaceFailed i (''failed to register folder: '' @ e)) (d\<lparr>d_fm := fm\<rparr>)"
      using Some add by (simp add: register_folder_defs)
    moreover have "follows d (d\<lparr>d_fm := fm\<rparr>)" by (rule follows_same) simp_all
    ultimately show ?thesis
      using follows_trans [OF _ follows_broadcast [of "AccountSpaceFailed i (''failed to register folder: '' @ e)" "d\<lparr>d_fm := fm\<rparr>"]]
      by (metis about_accounts.simps)
  next
    case (Inr u)
    let ?e = "AccountFolderAdded i (fc_id fc) (fc_space_id fc) (fc_local_path fc) (fc_display_name fc)"
    have "d_events (register_folder fe ce i fc tm d) = d_events d @ [?e]"
        "d_config (register_folder fe ce i fc tm d) = update_account i (\<lambda>a. a\<lparr>ac_folder := ac_folder a @ [fc]\<rparr>) (d_config d)"
      using Some add Inr by (simp_all add: register_folder_defs Let_def)
    then show ?thesis
      by (intro followsI [of _ _ "[?e]"])
        (simp_all del: handle_daemon_event.simps add: mirrors_def folder_added_keys
          keys_update_account [where h = "\<lambda>fs. fs @ [fc]" and g = "\<lambda>fs. fs @ [fc_key fc]"])
  qed
qed

lemma follows_set_folders: "follows d (set_folders hx i root_path tm k sels d)"
proof (induction sels arbitrary: k d)
  case Nil
  then show ?case by (simp add: follows_same)
next
  case (Cons sel sels)
  have "follows d (d\<lparr>d_uuids := n\<rparr>)" for n by (rule follows_same) simp_all
  then have "follows d (register_folder fe ce i fc tm (d\<lparr>d_uuids := n\<rparr>))" for fe ce fc n
    using follows_register follows_trans by blast
  then have "follows d (set_folders hx i root_path tm (Suc k) sels (register_folder fe ce i fc tm (d\<lparr>d_uuids := n\<rparr>)))" for fe ce fc n
    using follows_trans Cons by blast
  moreover have "follows d (set_folders hx i root_path tm (Suc k) sels (broadcast (AccountSpaceFailed i reason) d))" for reason
    using follows_trans [OF follows_broadcast Cons] by simp
  ultimately show ?case by (simp del: append.simps add: Let_def fresh_uuid_def split: option.split)
qed

lemma follows_space_failed: "space_failed i reason d = (r, d') \<Longrightarrow> follows d d'"
  by (auto simp: space_failed_def intro: follows_broadcast)

lemma follows_upd_broadcast:
  assumes "d_events d1 = d_events d" "ap_account (d_config d1) = ap_account (d_config d)" "\<not> about_accounts e"
  shows "follows d (broadcast e d1)"
  using follows_trans [OF follows_same [OF assms(1,2)] follows_broadcast [OF assms(3)]] .

lemma follows_command:
  assumes "handle_command hx cmd d = (r, d')" "\<And>i. cmd \<noteq> RemoveAccount i"
  shows "follows d d'"
proof (cases cmd)
  case (AddAccountSpace i space_id local_path)
  have "follows d (d\<lparr>d_uuids := n\<rparr>)" for n by (rule follows_same) simp_all
  then have "follows d (register_folder fe ce i fc tm (d\<lparr>d_uuids := n\<rparr>))" for fe ce fc tm n
    using follows_register follows_trans by blast
  then show ?thesis using assms(1) AddAccountSpace
    by (auto simp: add_account_space_def fresh_uuid_def Let_def split: if_splits option.splits intro: follows_space_failed)
next
  case (AddAccount u)
  then show ?thesis using assms(1)
    by (auto simp: add_account_def fresh_uuid_def split: sum.splits intro!: follows_upd_broadcast intro: follows_same)
next
  case (SetAccountFolders i root_path sels)
  then show ?thesis using assms(1)
    by (auto simp: set_account_folders_def split: if_splits option.splits intro: follows_space_failed follows_set_folders)
next
  case (ListSpaces i)
  then show ?thesis using assms(1)
    by (auto simp: handle_list_spaces_def split: if_splits option.splits intro: follows_space_failed intro!: follows_broadcast intro: follows_same)
next
  case (DismissSpace i space_id)
  have "follows d (dismiss_space ce i space_id d)" for ce
  proof (rule followsI [of _ _ "[]"])
    show "mirrors (fold handle_daemon_event [] app) (d_config (dismiss_space ce i space_id d))" if "mirrors app (d_config d)" for app
      using that by (simp add: dismiss_space_def mirrors_def update_account_def Let_def map_update_first_same ac_key_def split: option.split)
  qed (simp add: dismiss_space_def Let_def split: option.split)
  then show ?thesis using assms(1) DismissSpace by auto
qed (use assms in \<open>auto intro!: follows_upd_broadcast intro: follows_same\<close>)

lemma find_map_key: "find P (map k xs) = map_option k (find (P \<circ> k) xs)"
  by (induction xs) auto

lemma update_first_cong: "(\<And>x. find P xs = Some x \<Longrightarrow> f x = g x) \<Longrightarrow> update_first P f xs = update_first P g xs"
  by (induction xs) auto

lemma on_key_on_key: "on_key i g (on_key i h ks) = on_key i (g \<circ> h) ks"
  by (induction ks) (auto simp: on_key_def split: prod.split)

lemma on_key_id: "(\<And>fs. g fs = fs) \<Longrightarrow> on_key i g ks = ks"
  by (induction ks) (auto simp: on_key_def)

lemma fold_removed_keys:
  "map av_key (ga_accounts (fold handle_daemon_event (map (removed_event i) fs) app)) =
     on_key i (filter (\<lambda>k. fst k \<notin> fc_id ` set fs)) (map av_key (ga_accounts app))"
proof (induction fs arbitrary: app)
  case Nil
  then show ?case by (simp add: on_key_id)
next
  case (Cons f fs)
  have "fold handle_daemon_event (map (removed_event i) (f # fs)) app =
      fold handle_daemon_event (map (removed_event i) fs) (handle_daemon_event (removed_event i f) app)" by simp
  also have "map av_key (ga_accounts \<dots>) = on_key i (filter (\<lambda>k. fst k \<notin> fc_id ` set fs) \<circ> filter (\<lambda>k. fst k \<noteq> fc_id f)) (map av_key (ga_accounts app))"
    unfolding Cons removed_event_def space_removed_keys on_key_on_key ..
  also have "filter (\<lambda>k. fst k \<notin> fc_id ` set fs) \<circ> filter (\<lambda>k. fst k \<noteq> fc_id f) = filter (\<lambda>k. fst k \<notin> fc_id ` set (f # fs))"
    by (auto simp: fun_eq_iff intro!: filter_cong)
  finally show ?case .
qed

lemma follows_remove_folders: "follows d (remove_folders ce i gone d)"
proof -
  define fs where "fs = (case find_account i (d_config d) of None \<Rightarrow> [] | Some a \<Rightarrow> filter (\<lambda>f. fc_id f \<in> gone) (ac_folder a))"
  let ?g = "filter (\<lambda>k. fst k \<notin> gone)" and ?g' = "filter (\<lambda>k. fst k \<notin> fc_id ` set fs)"
  have ev: "d_events (remove_folders ce i gone d) = d_events d @ map (removed_event i) fs"
    by (simp add: remove_folders_def Let_def fold_broadcast fs_def)
  have cfg: "map ac_key (ap_account (d_config (remove_folders ce i gone d))) = on_key i ?g (map ac_key (ap_account (d_config d)))"
    by (simp add: remove_folders_def Let_def keys_update_account [where h = "filter (\<lambda>f. fc_id f \<notin> gone)" and g = ?g] filter_map comp_def fc_key_def)
  have "on_key i ?g' (map ac_key (ap_account (d_config d))) = on_key i ?g (map ac_key (ap_account (d_config d)))"
    unfolding on_key_def
  proof (rule update_first_cong)
    fix k assume "find (\<lambda>k. fst k = i) (map ac_key (ap_account (d_config d))) = Some k"
    then obtain a where a: "find_account i (d_config d) = Some a" "k = ac_key a"
      by (auto simp: find_account_def find_map_key comp_def ac_key_def)
    have "?g' (map fc_key (ac_folder a)) = ?g (map fc_key (ac_folder a))"
      using a(1) by (intro filter_cong) (auto simp: fs_def fc_key_def)
    then show "(case k of (j, u, n, fs) \<Rightarrow> (j, u, n, ?g' fs)) = (case k of (j, u, n, fs) \<Rightarrow> (j, u, n, ?g fs))"
      by (simp add: a(2) ac_key_def)
  qed
  then show ?thesis by (intro followsI [OF ev]) (simp add: mirrors_def fold_removed_keys cfg)
qed

lemma follows_finish_poll:
  assumes "finish_poll ce home ps ss p d = (p', d')" shows "follows d d'"
proof -
  define N where "N = to_announce (known_ids ps p) ss"
  let ?es = "map (discovered_event home ps (sp_account_id p)) N"
  let ?d = "d\<lparr>d_events := d_events d @ ?es\<rparr>"
  have keep: "ga_accounts (fold handle_daemon_event (map (discovered_event home ps j) M) app) = ga_accounts app" for j M app
    by (induction M arbitrary: app) (simp_all add: discovered_event_def)
  have first: "follows d ?d" by (rule followsI [of _ _ ?es]) (simp_all add: mirrors_def keep)
  have "d' = ?d \<or> (\<exists>gone. d' = remove_folders ce (sp_account_id p) gone ?d)"
    using assms by (auto simp: finish_poll_def announce_new_is Let_def N_def split: if_splits)
  then show ?thesis using first follows_remove_folders follows_trans by blast
qed

lemma follows_signed_in: "signed_in env oidc i u w w' \<Longrightarrow> follows (sw_daemon w) (sw_daemon w')"
proof -
  assume "signed_in env oidc i u w w'"
  then obtain user name t where "d_events (sw_daemon w') = d_events (sw_daemon w) @ [AccountAddCompleted i user name u]"
      "ap_account (d_config (sw_daemon w')) = ap_account (d_config (sw_daemon w)) @ [new_account i u user name t]"
    by (auto simp: signed_in_def Let_def)
  then show ?thesis by (intro followsI [of _ _ "[AccountAddCompleted i user name u]"])
      (simp_all add: mirrors_def av_key_def ac_key_def new_account_def)
qed

lemma follows_mirrors: "follows d d' \<Longrightarrow> mirrors app (d_config d) \<Longrightarrow> d_events d' = d_events d @ es \<Longrightarrow> mirrors (fold handle_daemon_event es app) (d_config d')"
  by (auto simp: follows_def)

lemma mirrors_snapshot: "mirrors (handle_daemon_event (snapshot_of cfg sched) app) cfg"
  by (simp add: mirrors_def snapshot_of_def account_of_snapshot_def folder_of_snapshot_def av_key_def ac_key_def fv_key_def fc_key_def comp_def)

lemma mirrors_remove:
  assumes "mirrors app (d_config d)" "handle_command hx (RemoveAccount i) d = (r, d')" "d_events d' = d_events d @ es"
  shows "mirrors (fold handle_daemon_event es (fst (update tr home (Msg_RemoveAccount i) app))) (d_config d')"
proof -
  have "ap_account (d_config d') = filter (\<lambda>a. ac_id a \<noteq> i) (ap_account (d_config d))" "es = [] \<or> es = [AccountStateChanged i ''removed'']"
    using assms(2,3) by (auto simp: remove_account_def Let_def split: prod.splits sum.splits)
  moreover have "map av_key (filter (\<lambda>a. av_id a \<noteq> i) as) = filter (\<lambda>k. fst k \<noteq> i) (map av_key as)" for as
    by (simp add: filter_map comp_def av_key_def)
  moreover have "map ac_key (filter (\<lambda>a. ac_id a \<noteq> i) as) = filter (\<lambda>k. fst k \<noteq> i) (map ac_key as)" for as
    by (simp add: filter_map comp_def ac_key_def)
  ultimately show ?thesis using assms(1) by (auto simp: mirrors_def)
qed

text \<open>The event alone does not make a GUI drop the account.\<close>

lemma mirrors_removed_elsewhere:
  assumes "mirrors app (d_config d)" "handle_command hx (RemoveAccount i) d = (r, d')" "d_events d' = d_events d @ es"
  shows "mirrors (fold handle_daemon_event es app) (d_config d)"
proof -
  have "es = [] \<or> es = [AccountStateChanged i ''removed'']"
    using assms(2,3) by (auto simp: remove_account_def Let_def split: prod.splits sum.splits)
  then show ?thesis using assms(1) by (auto simp: mirrors_def)
qed

lemma on_key_changes:
  "\<exists>k \<in> set ks. fst k = i \<Longrightarrow> (\<And>fs. g fs \<noteq> fs) \<Longrightarrow> on_key i g ks \<noteq> ks"
  unfolding on_key_def by (induction ks) auto

subsection \<open>The shown folder\<close>

definition find_folder :: "uuid \<Rightarrow> App \<Rightarrow> FolderView option" where
  "find_folder i app = find (\<lambda>v. fv_id v = i) (concat (map av_folders (ga_accounts app)))"

lemma find_folder_with_folder:
  assumes "\<And>v. fv_id (f v) = fv_id v" shows "find_folder i (with_folder i f app) = map_option f (find_folder i app)"
proof -
  have "find (\<lambda>v. fv_id v = i) (concat (map av_folders (update_folder i f as))) =
      map_option f (find (\<lambda>v. fv_id v = i) (concat (map av_folders as)))" for as
  proof (induction as)
    case (Cons a as)
    have "find (\<lambda>v. fv_id v = i) (update_first (\<lambda>v. fv_id v = i) f vs) = map_option f (find (\<lambda>v. fv_id v = i) vs)" for vs
      using assms by (simp add: find_update_first)
    moreover have "list_ex (\<lambda>v. fv_id v = i) (av_folders a) \<longleftrightarrow> find (\<lambda>v. fv_id v = i) (av_folders a) \<noteq> None"
      by (auto simp: list_ex_iff find_None_iff)
    ultimately show ?case using Cons by (auto simp: find_append split: option.splits)
  qed simp
  then show ?thesis by (simp add: find_folder_def with_folder_def)
qed

definition sample_app :: App where
  "sample_app = handle_daemon_event (snapshot_of (d_config (sy_daemon one_folder_system)) (d_sched (sy_daemon one_folder_system))) default_app"

section \<open>Properties\<close>

text \<open>
  C14: The GUI shows the configuration of the daemon. Whatever it showed before, the snapshot it gets when
  it subscribes makes its accounts and folders those of the configuration. Let a GUI that has its snapshot show the configuration, and let the daemon handle a command other
  than \<open>RemoveAccount\<close>, end a poll of the
  spaces or complete a sign-in, one after the other: then the events the daemon sends for it keep the GUI in step, with every folder added or removed, including commands that fail.
  \<open>RemoveAccount\<close> is not announced in a way a GUI follows: the GUI that has sent the command is in step, as it has removed the account itself, and
  every other GUI goes on showing the old configuration.
\<close>

theorem gui_mirrors_config:
  assumes "mirrors app (d_config d)" "d_events d' = d_events d @ es"
  shows "(handle_command hx cmd d = (r, d') \<and> (\<forall>i. cmd \<noteq> RemoveAccount i) \<longrightarrow> mirrors (fold handle_daemon_event es app) (d_config d')) \<and>
    (handle_command hx (RemoveAccount i) d = (r, d') \<longrightarrow>
       mirrors (fold handle_daemon_event es (fst (update tr home (Msg_RemoveAccount i) app))) (d_config d') \<and>
       mirrors (fold handle_daemon_event es app) (d_config d)) \<and>
    (finish_poll ce home ps ss p d = (p', d') \<longrightarrow> mirrors (fold handle_daemon_event es app) (d_config d')) \<and>
    (signed_in env oidc i u w w' \<and> sw_daemon w = d \<and> sw_daemon w' = d' \<longrightarrow> mirrors (fold handle_daemon_event es app) (d_config d')) \<and>
    mirrors (handle_daemon_event (snapshot_of cfg sched) app) cfg"
proof (intro conjI impI)
  show "mirrors (fold handle_daemon_event es app) (d_config d')" if "handle_command hx cmd d = (r, d') \<and> (\<forall>i. cmd \<noteq> RemoveAccount i)"
    using follows_mirrors [OF follows_command assms] that by blast
  show "mirrors (fold handle_daemon_event es (fst (update tr home (Msg_RemoveAccount i) app))) (d_config d')"
    "mirrors (fold handle_daemon_event es app) (d_config d)" if "handle_command hx (RemoveAccount i) d = (r, d')"
    using mirrors_remove [OF assms(1) that assms(2)] mirrors_removed_elsewhere [OF assms(1) that assms(2)] by blast+
  show "mirrors (fold handle_daemon_event es app) (d_config d')" if "finish_poll ce home ps ss p d = (p', d')"
    using follows_mirrors [OF follows_finish_poll [OF that] assms] .
  show "mirrors (fold handle_daemon_event es app) (d_config d')"
    if "signed_in env oidc i u w w' \<and> sw_daemon w = d \<and> sw_daemon w' = d'"
    using follows_mirrors [OF _ assms] follows_signed_in that by blast
qed (rule mirrors_snapshot)

theorem gui_mirrors_config_witness:
  "let r = handle_command sample_handler_env (AddAccountSpace 1 ''new'' ''/home/u/new'') (sy_daemon one_folder_system);
       es = drop 1 (d_events (snd r))
   in length es = 1 \<and> mirrors (fold handle_daemon_event es sample_app) (d_config (snd r))"
proof -
  let ?d = "sy_daemon one_folder_system"
  let ?r = "handle_command sample_handler_env (AddAccountSpace 1 ''new'' ''/home/u/new'') ?d"
  let ?e = "AccountFolderAdded 1 0 ''new'' ''/home/u/new'' ''new''"
  have n: "file_name ''/home/u/new'' = Some ''new''" by code_simp
  have ev: "d_events (snd ?r) = d_events ?d @ [?e]" "d_events ?d = [Ready]"
    by (simp_all add: one_folder_system_def start_system_def init_daemon_def add_account_space_def find_account_def one_folder_account_def
        sample_space_account_def sample_handler_env_def fresh_uuid_def n register_folder_defs fm_add_folder_def sample_folder_env_def
        open_folder_def create_vfs_def new_folder_def Let_def)
  have app: "mirrors sample_app (d_config ?d)" unfolding sample_app_def by (rule mirrors_snapshot)
  have "mirrors (fold handle_daemon_event [?e] sample_app) (d_config (snd ?r))"
    by (rule gui_mirrors_config [OF app ev(1), where cmd = "AddAccountSpace 1 ''new'' ''/home/u/new''" and hx = sample_handler_env
      and r = "fst ?r", THEN conjunct1, THEN mp]) (simp del: handle_command.simps)
  then show ?thesis unfolding Let_def ev by simp
qed

text \<open>
  A GUI that subscribes while a folder is being added may show it twice. If its snapshot is made after the folder has been written to the
  configuration and before it is announced, then with the announcement it shows the folder a second time, and not the
  configuration.
\<close>

theorem late_subscriber_sees_folder_twice:
  assumes "find_account i (d_config d) \<noteq> None" "d1 = configure_folder ce i fc d"
    and "app' = fold handle_daemon_event [snapshot_of (d_config d1) sched, folder_added_event i fc] app"
  shows "mirrors app' (update_account i (\<lambda>a. a\<lparr>ac_folder := ac_folder a @ [fc]\<rparr>) (d_config d1)) \<and> \<not> mirrors app' (d_config d1)"
proof -
  let ?add = "\<lambda>fs. fs @ [fc_key fc]" and ?keys = "map ac_key (ap_account (d_config d1))"
  have "map av_key (ga_accounts (handle_daemon_event (snapshot_of (d_config d1) sched) app)) = ?keys"
    using mirrors_snapshot unfolding mirrors_def .
  then have app': "map av_key (ga_accounts app') = on_key i ?add ?keys"
    using assms(3) by (simp del: handle_daemon_event.simps add: folder_added_event_def folder_added_keys)
  have twice: "map ac_key (ap_account (update_account i (\<lambda>a. a\<lparr>ac_folder := ac_folder a @ [fc]\<rparr>) cfg)) = on_key i ?add (map ac_key (ap_account cfg))" for cfg
    by (simp add: keys_update_account [where h = "\<lambda>fs. fs @ [fc]" and g = ?add])
  have there: "\<exists>k \<in> set (map ac_key (ap_account (d_config d))). fst k = i"
    using assms(1) by (auto simp: find_account_def ac_key_def find_None_iff)
  have "\<exists>k \<in> set (on_key i ?add ks). fst k = i" if "\<exists>k \<in> set ks. fst k = i" for ks
    using that unfolding on_key_def by (induction ks) auto
  from this [OF there] have "\<exists>k \<in> set ?keys. fst k = i"
    using twice [of "d_config d"] assms(2) by (simp add: configure_folder_def Let_def)
  from on_key_changes [OF this, of ?add] show ?thesis
    using app' twice [of "d_config d1"] by (simp add: mirrors_def)
qed

theorem late_subscriber_sees_folder_twice_witness:
  "let d = sy_daemon one_folder_system; fc = new_folder 5 ''/home/u/new'' ''new'' ''new''; d1 = configure_folder (hx_config sample_handler_env 0) 1 fc d
   in \<not> mirrors (fold handle_daemon_event [snapshot_of (d_config d1) (d_sched d), folder_added_event 1 fc] sample_app) (d_config d1)"
proof -
  let ?d = "sy_daemon one_folder_system" and ?fc = "new_folder 5 ''/home/u/new'' ''new'' ''new''"
  have "find_account 1 (d_config ?d) \<noteq> None"
    by (simp add: one_folder_system_def start_system_def init_daemon_def find_account_def one_folder_account_def sample_space_account_def Let_def)
  from late_subscriber_sees_folder_twice [OF this refl refl, where sched = "d_sched ?d" and fc = ?fc and app = sample_app] show ?thesis
    by (simp add: Let_def)
qed

text \<open>
  A paused folder can be shown as syncing for good. If the user asks for a sync of a paused folder,
  the daemon announces that the sync has started, so the GUI shows the folder as syncing, but the scheduler ignores the request: nothing changes in it, the folder still
  counts as paused, and no tick starts it, so no end of a sync is ever announced.
\<close>

theorem paused_folder_shown_syncing:
  assumes "d_sched d i = Some st" "paused st" "handle_command hx (TriggerSync i) d = (r, d')" "find_folder i app = Some v"
  shows "d_events d' = d_events d @ [SyncStarted i] \<and>
    map_option fv_status (find_folder i (fst (update tr home (Msg_DaemonEvent (SyncStarted i)) app))) = Some Gui_Syncing \<and>
    d_sched d' = d_sched d \<and> folder_status i (d_sched d') = Some ''paused'' \<and>
    (\<forall>order. iteration_order order (d_sched d') \<longrightarrow> i \<notin> set (fst (tick_start order (d_sched d'))))"
proof -
  have d': "d_events d' = d_events d @ [SyncStarted i]" "d_sched d' = force_request_sync i (d_sched d)"
    using assms(3) by auto
  have same: "force_request_sync i (d_sched d) = d_sched d"
    using assms(1,2) by (auto simp: force_request_sync_def with_state_def fun_upd_idem)
  have "i \<notin> set (fst (tick_start order (d_sched d)))" if "iteration_order order (d_sched d)" for order
    using ready_to_run_iff [OF that, of i] assms(1,2) by (auto simp: tick_start_def Let_def is_ready_def)
  moreover have "map_option fv_status (find_folder i (fst (update tr home (Msg_DaemonEvent (SyncStarted i)) app))) = Some Gui_Syncing"
    using assms(4) by (simp add: find_folder_with_folder)
  ultimately show ?thesis using d' same assms(1,2) by (simp add: folder_status_def)
qed

theorem paused_folder_shown_syncing_witness:
  "let d = snd (handle_command sample_handler_env (PauseFolder 5) (sy_daemon one_folder_system));
       d' = snd (handle_command sample_handler_env (TriggerSync 5) d)
   in map_option fv_status (find_folder 5 (fst (update (\<lambda>_. id) None (Msg_DaemonEvent (SyncStarted 5)) sample_app))) = Some Gui_Syncing \<and>
      folder_status 5 (d_sched d') = Some ''paused''"
proof -
  let ?d = "snd (handle_command sample_handler_env (PauseFolder 5) (sy_daemon one_folder_system))"
  let ?r = "handle_command sample_handler_env (TriggerSync 5) ?d"
  have st: "d_sched ?d 5 = Some (default_schedule\<lparr>paused := True\<rparr>)" "paused (default_schedule\<lparr>paused := True\<rparr>)"
    by (simp_all add: one_folder_system_def start_system_def init_daemon_def pause.upd_same new_scheduler_lookup)
  have "find_folder 5 sample_app \<noteq> None"
    by (simp add: find_folder_def sample_app_def snapshot_of_def one_folder_system_def start_system_def init_daemon_def one_folder_account_def
        sample_space_account_def sample_space_folder_def new_folder_def account_of_snapshot_def folder_of_snapshot_def)
  then obtain v where v: "find_folder 5 sample_app = Some v" by blast
  from paused_folder_shown_syncing [OF st prod.collapse [symmetric, of ?r] v, of "\<lambda>_. id" None] show ?thesis unfolding Let_def by blast
qed

end
