(* ===== verification/Win32.thy ===== *)
theory Win32
  imports StdStr
begin

text \<open>
  What the sources use of Windows: handles, and texts as UTF-16 units. The outcome of a call that the
  operating system decides is an argument; the table of open handles is state, so that it can be counted.
\<close>

section \<open>Handles\<close>

record win =
  wn_open :: "nat list"
  wn_next :: nat

datatype open_outcome = Open_Error string | Open_Invalid | Open_Ok

text \<open>\<open>CreateFileW\<close> with its two ways to fail; the handle it returns is one that was not in use.\<close>

definition create_file :: "open_outcome \<Rightarrow> win \<Rightarrow> (string + nat option) \<times> win" where
  "create_file outcome w =
     (case outcome of
        Open_Error e \<Rightarrow> (Inl e, w)
      | Open_Invalid \<Rightarrow> (Inr None, w)
      | Open_Ok \<Rightarrow> (Inr (Some (wn_next w)), w\<lparr>wn_open := wn_next w # wn_open w, wn_next := Suc (wn_next w)\<rparr>))"

definition close_handle :: "nat \<Rightarrow> win \<Rightarrow> win" where
  "close_handle h w = w\<lparr>wn_open := remove1 h (wn_open w)\<rparr>"

lemma create_file_Some [simp]:
  "create_file o' w = (Inr (Some h), w') \<longleftrightarrow>
     o' = Open_Ok \<and> h = wn_next w \<and> w' = w\<lparr>wn_open := wn_next w # wn_open w, wn_next := Suc (wn_next w)\<rparr>"
  by (cases o') (auto simp: create_file_def)

lemma create_file_fail [simp]:
  "create_file o' w = (Inl e, w') \<longleftrightarrow> o' = Open_Error e \<and> w' = w"
  "create_file o' w = (Inr None, w') \<longleftrightarrow> o' = Open_Invalid \<and> w' = w"
  by (cases o'; auto simp: create_file_def)+

text \<open>
  The contract of an operation on files: it may open handles, but none is left open. Operations that keep
  it can be composed in any order without exhausting the table.
\<close>

locale handle_neutral =
  fixes handles :: "'s \<Rightarrow> nat list" and exec :: "'op \<Rightarrow> 's \<Rightarrow> 's"
  assumes neutral: "handles (exec p s) = handles s"
begin

lemma run_neutral: "handles (fold exec ps s) = handles s"
  by (induction ps arbitrary: s) (simp_all add: neutral)

lemma open_bounded: "length (handles (fold exec ps s)) = length (handles s)"
  by (simp add: run_neutral)

end

section \<open>Paths\<close>

text \<open>Joining a relative path to a directory.\<close>

definition win_join :: "string \<Rightarrow> string \<Rightarrow> string" where
  "win_join root p = (if root = [] \<or> last root \<in> {CHR ''/'', CHR 0x5C} then root @ p else root @ [CHR 0x5C] @ p)"

section \<open>UTF-16\<close>

text \<open>The code point at the start of a text, given the length of its encoding.\<close>

definition code_point :: "string \<Rightarrow> nat" where
  "code_point s =
     (case map of_char (take (utf8_len s) s) :: nat list of
        [a] \<Rightarrow> a
      | [a, b] \<Rightarrow> (a - 0xC0) * 64 + (b - 0x80)
      | [a, b, c] \<Rightarrow> ((a - 0xE0) * 64 + (b - 0x80)) * 64 + (c - 0x80)
      | [a, b, c, d] \<Rightarrow> (((a - 0xF0) * 64 + (b - 0x80)) * 64 + (c - 0x80)) * 64 + (d - 0x80)
      | _ \<Rightarrow> 0)"

definition utf16_units :: "nat \<Rightarrow> u16 list" where
  "utf16_units n =
     (if n < 0x10000 then [of_nat n]
      else [of_nat (0xD800 + (n - 0x10000) div 0x400), of_nat (0xDC00 + (n - 0x10000) mod 0x400)])"

function encode_utf16 :: "string \<Rightarrow> u16 list" where
  "encode_utf16 s =
     (if s = [] \<or> utf8_len s = 0 then [] else utf16_units (code_point s) @ encode_utf16 (drop (utf8_len s) s))"
  by pat_completeness auto
termination by (relation "measure length") auto

declare encode_utf16.simps [simp del]

lemma encode_utf16_Nil [simp]: "encode_utf16 [] = []"
  by (subst encode_utf16.simps) simp

lemma encode_utf16_ascii: "list_all (\<lambda>c. (of_char c :: nat) < 128) s \<Longrightarrow> encode_utf16 s = map (\<lambda>c. of_nat (of_char c)) s"
proof (induction s)
  case (Cons c s)
  then have "utf8_len (c # s) = 1" by (simp add: utf8_len_def)
  then show ?case using Cons by (subst encode_utf16.simps) (simp add: code_point_def utf16_units_def)
qed simp

text \<open>Writing a text and its terminator into a buffer of \<open>n\<close> units: the units that are written.\<close>

definition wide_write :: "nat \<Rightarrow> string \<Rightarrow> u16 list" where
  "wide_write n text = take n (encode_utf16 text @ [0])"

lemma wide_write_bounds:
  "length (wide_write n text) \<le> n"
  "length (encode_utf16 text) < n \<Longrightarrow> wide_write n text = encode_utf16 text @ [0]"
  "n \<le> length (encode_utf16 text) \<Longrightarrow> wide_write n text = take n (encode_utf16 text)"
  by (simp_all add: wide_write_def)

text \<open>\<open>String::from_utf16_lossy\<close> and back: surrogates without their partner are replaced.\<close>

definition is_high :: "u16 \<Rightarrow> bool" where
  "is_high u \<longleftrightarrow> 0xD800 \<le> u \<and> u \<le> 0xDBFF"

definition is_low :: "u16 \<Rightarrow> bool" where
  "is_low u \<longleftrightarrow> 0xDC00 \<le> u \<and> u \<le> 0xDFFF"

fun lossy_units :: "u16 list \<Rightarrow> u16 list" where
  "lossy_units (u # v # us) =
     (if is_high u \<and> is_low v then u # v # lossy_units us
      else (if is_high u \<or> is_low u then 0xFFFD else u) # lossy_units (v # us))"
| "lossy_units [u] = [if is_high u \<or> is_low u then 0xFFFD else u]"
| "lossy_units [] = []"

lemma length_lossy_units [simp]: "length (lossy_units us) = length us"
  by (induction us rule: lossy_units.induct) simp_all

end
