(* ===== verification/Platform.thy ===== *)
theory Platform
  imports Paths Win32
begin

text \<open>
  Where the program keeps its files and sockets (\<open>crates/daemon/src/paths.rs\<close>, the default paths of
  \<open>crates/socket-api/src/transport\<close>), on each of the three systems. Variables and the directories of the user are
  arguments; a missing one where the code says \<open>expect\<close> is \<open>None\<close>.
\<close>

datatype os = Windows | MacOs | Linux

record platform_env =
  pe_os :: os
  pe_config_dir :: "string option"
  pe_data_local_dir :: "string option"
  pe_var :: "string \<Rightarrow> string option"
  pe_temp_dir :: string

definition os_join :: "os \<Rightarrow> string \<Rightarrow> string \<Rightarrow> string" where
  "os_join os a b = (if os = Windows then win_join a b else path_join a b)"

definition var_or :: "platform_env \<Rightarrow> string \<Rightarrow> string \<Rightarrow> string" where
  "var_or env name alternative = (case pe_var env name of Some v \<Rightarrow> v | None \<Rightarrow> alternative)"

definition pipe_prefix :: string where
  "pipe_prefix = [CHR 0x5C, CHR 0x5C, CHR ''.'', CHR 0x5C] @ ''pipe'' @ [CHR 0x5C]"

section \<open>The daemon (\<open>paths.rs\<close>)\<close>

definition platform_config_dir :: "platform_env \<Rightarrow> string option" where
  "platform_config_dir env =
     map_option (\<lambda>d. os_join (pe_os env) d (if pe_os env = Linux then ''owncloud'' else ''ownCloud'')) (pe_config_dir env)"

definition platform_lock_path :: "platform_env \<Rightarrow> string option" where
  "platform_lock_path env =
     (case pe_os env of
        Windows \<Rightarrow> map_option (\<lambda>d. win_join (win_join d ''ownCloud'') ''ocsyncd.lock'') (pe_data_local_dir env)
      | MacOs \<Rightarrow> map_option (\<lambda>d. path_join (path_join d ''ownCloud'') ''ocsyncd.lock'') (pe_config_dir env)
      | Linux \<Rightarrow> Some (path_join (path_join (var_or env ''XDG_RUNTIME_DIR'' (pe_temp_dir env)) ''owncloud'') ''ocsyncd.lock''))"

definition platform_gui_socket_path :: "platform_env \<Rightarrow> string option" where
  "platform_gui_socket_path env =
     (case pe_os env of
        Windows \<Rightarrow> Some (pipe_prefix @ ''ownCloud-GUI-'' @ var_or env ''USERNAME'' ''default'')
      | MacOs \<Rightarrow> map_option (\<lambda>d. path_join (path_join d ''ownCloud'') ''daemon-gui.sock'') (pe_config_dir env)
      | Linux \<Rightarrow> Some (path_join (path_join (var_or env ''XDG_RUNTIME_DIR'' (pe_temp_dir env)) ''owncloud'') ''daemon-gui.sock''))"

section \<open>The socket of the file managers (\<open>transport/unix.rs\<close>, \<open>transport/windows.rs\<close>)\<close>

definition default_path :: "platform_env \<Rightarrow> string" where
  "default_path env =
     (if pe_os env = MacOs
      then path_join (path_join (var_or env ''HOME'' ''/tmp'') ''Library/Group Containers/owncloud.socketapi'') ''owncloud.sock''
      else path_join (path_join (var_or env ''XDG_RUNTIME_DIR'' ''/tmp'') ''owncloud'') ''socket'')"

definition windows_pipe_name :: "platform_env \<Rightarrow> string" where
  "windows_pipe_name env = pipe_prefix @ ''ownCloud-'' @ var_or env ''USERNAME'' ''ownCloud''"

section \<open>The files do not collide\<close>

lemma suffix_path_join: "b \<noteq> [] \<Longrightarrow> hd b \<noteq> CHR ''/'' \<Longrightarrow> suffix b (path_join a b)"
  by (auto simp: path_join_def is_absolute_def suffix_def)

lemma suffix_differ: "suffix a x \<Longrightarrow> suffix b y \<Longrightarrow> \<not> suffix a b \<Longrightarrow> \<not> suffix b a \<Longrightarrow> x \<noteq> y"
  using suffix_same_cases by blast

text \<open>The lock, the socket of the GUI and the socket of the file managers are three different files.\<close>

lemma files_distinct:
  assumes "pe_os env \<noteq> Windows" "platform_lock_path env = Some l" "platform_gui_socket_path env = Some g"
  shows "l \<noteq> g \<and> l \<noteq> default_path env \<and> g \<noteq> default_path env"
proof -
  let ?d = "if pe_os env = MacOs then ''owncloud.sock'' else ''socket''"
  have "suffix ''ocsyncd.lock'' l" "suffix ''daemon-gui.sock'' g" "suffix ?d (default_path env)"
    using assms by (auto simp: platform_lock_path_def platform_gui_socket_path_def default_path_def split: os.splits intro: suffix_path_join)
  moreover have "\<not> suffix ''ocsyncd.lock'' ''daemon-gui.sock''" "\<not> suffix ''daemon-gui.sock'' ''ocsyncd.lock''"
      "\<not> suffix ''ocsyncd.lock'' ?d" "\<not> suffix ?d ''ocsyncd.lock''" "\<not> suffix ''daemon-gui.sock'' ?d" "\<not> suffix ?d ''daemon-gui.sock''"
    by (simp_all add: suffix_to_prefix)
  ultimately show ?thesis using suffix_differ by blast
qed

end
