(* ===== verification/GuiShell.thy ===== *)
theory GuiShell
  imports Gui Platform
begin

text \<open>
  The GUI as a process (\<open>crates/gui/src\<close>): its own settings (\<open>gui_config.rs\<close>, \<open>i18n.rs\<close>), starting the daemon (\<open>spawn.rs\<close>),
  the connection with its two tasks (\<open>daemon_conn.rs\<close>), and the program around the application (\<open>main.rs\<close>, \<open>subscription.rs\<close>): connect attempts, the
  task that hands a new receiver to the subscription, the subscription itself and the queue of messages.
\<close>

section \<open>Settings (\<open>gui_config.rs\<close>, \<open>i18n.rs\<close>)\<close>

record GuiConfig =
  gc_language :: "Language option"

text \<open>The files of the user by path; TOML and what the file system refuses are arguments.\<close>

record settings_env =
  se_from_toml :: "string \<Rightarrow> string + GuiConfig"
  se_to_toml :: "GuiConfig \<Rightarrow> string + string"
  se_mkdir_error :: "string option"
  se_write_error :: "string option"
  se_locale :: "string option"

type_synonym files = "string \<rightharpoonup> string"

definition load_gui_config :: "settings_env \<Rightarrow> string \<Rightarrow> files \<Rightarrow> GuiConfig" where
  "load_gui_config env path files =
     (case files path of
        Some s \<Rightarrow> (case se_from_toml env s of Inr c \<Rightarrow> c | Inl _ \<Rightarrow> \<lparr>gc_language = None\<rparr>)
      | None \<Rightarrow> \<lparr>gc_language = None\<rparr>)"

definition save_gui_config :: "settings_env \<Rightarrow> GuiConfig \<Rightarrow> string \<Rightarrow> files \<Rightarrow> (string + unit) \<times> files" where
  "save_gui_config env c path files =
     (case (if path_parent path = None then None else se_mkdir_error env) of
        Some e \<Rightarrow> (Inl e, files)
      | None \<Rightarrow>
          (case se_to_toml env c of
             Inl e \<Rightarrow> (Inl e, files)
           | Inr toml \<Rightarrow>
               (case se_write_error env of
                  Some e \<Rightarrow> (Inl e, files)
                | None \<Rightarrow> (Inr (), files(path \<mapsto> toml)))))"

definition detect_system_language :: "settings_env \<Rightarrow> Language" where
  "detect_system_language env =
     (let tag = (case se_locale env of Some t \<Rightarrow> t | None \<Rightarrow> []) in
      if prefix ''de'' tag then De
      else if prefix ''fr'' tag then Fr
      else if prefix ''zh'' tag then Zh
      else En)"

section \<open>Starting the daemon (\<open>spawn.rs\<close>)\<close>

datatype SpawnError = NoBinary | Spawn_Failed string

fun show_SpawnError :: "SpawnError \<Rightarrow> string" where
  "show_SpawnError NoBinary = ''daemon binary '' @ [CHR 0x27] @ ''ocsyncd'' @ [CHR 0x27] @ '' not found alongside ocsync executable''"
| "show_SpawnError (Spawn_Failed e) = ''failed to connect to daemon: '' @ e"

text \<open>
  What the system answers: \<open>sp_refused n\<close> is the error of the n-th attempt to reach the socket, if it is refused. The world counts
  the attempts, the programs started and the milliseconds waited.
\<close>

record spawn_env =
  sp_refused :: "nat \<Rightarrow> string option"
  sp_exe :: "string + string"
  sp_exists :: "string \<Rightarrow> bool"
  sp_log_dir :: string
  sp_log_error :: "string option"
  sp_clone_error :: "string option"
  sp_child :: "string + nat"
  sp_renamed :: bool
  sp_connect_error :: "string option"
  sp_subscribe_error :: "string option"

record spawn_world =
  spw_attempts :: nat
  spw_started :: "string list"
  spw_slept :: nat
  spw_logs :: "string list"

definition try_connect :: "spawn_env \<Rightarrow> spawn_world \<Rightarrow> string option \<times> spawn_world" where
  "try_connect env w = (sp_refused env (spw_attempts w), w\<lparr>spw_attempts := Suc (spw_attempts w)\<rparr>)"

fun wait_loop :: "spawn_env \<Rightarrow> nat \<Rightarrow> nat \<Rightarrow> spawn_world \<Rightarrow> bool \<times> spawn_world" where
  "wait_loop env 0 delay_ms w = (False, w)"
| "wait_loop env (Suc retries) delay_ms w =
     (case try_connect env w of
        (None, w) \<Rightarrow> (True, w)
      | (Some e, w) \<Rightarrow> wait_loop env retries delay_ms (w\<lparr>spw_slept := spw_slept w + delay_ms\<rparr>))"

definition wait_for_socket :: "spawn_env \<Rightarrow> string \<Rightarrow> u32 \<Rightarrow> u64 \<Rightarrow> spawn_world \<Rightarrow> (SpawnError + unit) \<times> spawn_world" where
  "wait_for_socket env socket_path retries delay_ms w =
     (case wait_loop env (unat retries) (unat delay_ms) w of
        (True, w) \<Rightarrow> (Inr (), w)
      | (False, w) \<Rightarrow>
          (Inl (Spawn_Failed (''socket '' @ socket_path @ '' not reachable after '' @ show_nat (unat retries) @ '' attempts'')), w))"

definition find_daemon_binary :: "spawn_env \<Rightarrow> SpawnError + string" where
  "find_daemon_binary env =
     (case sp_exe env of
        Inl e \<Rightarrow> Inl (Spawn_Failed (''cannot determine current exe: '' @ e))
      | Inr exe \<Rightarrow>
          (case path_parent exe of
             None \<Rightarrow> Inl (Spawn_Failed ''exe has no parent directory'')
           | Some dir \<Rightarrow>
               let candidate = path_join dir ''ocsyncd''
               in if sp_exists env candidate then Inr candidate else Inl NoBinary))"

definition ensure_daemon_running :: "spawn_env \<Rightarrow> string \<Rightarrow> spawn_world \<Rightarrow> (SpawnError + unit) \<times> spawn_world" where
  "ensure_daemon_running env socket_path w =
     (case try_connect env w of
        (None, w) \<Rightarrow> (Inr (), w)
      | (Some _, w) \<Rightarrow>
          (case find_daemon_binary env of
             Inl e \<Rightarrow> (Inl e, w)
           | Inr daemon_path \<Rightarrow>
               (case sp_log_error env of
                  Some e \<Rightarrow> (Inl (Spawn_Failed (''failed to open log file: '' @ e)), w)
                | None \<Rightarrow>
                    let temp_log = path_join (sp_log_dir env) ''ocsyncd-starting.log'' in
                    (case sp_clone_error env of
                       Some e \<Rightarrow> (Inl (Spawn_Failed (''failed to clone log fd: '' @ e)), w\<lparr>spw_logs := temp_log # spw_logs w\<rparr>)
                     | None \<Rightarrow>
                         (case sp_child env of
                            Inl e \<Rightarrow> (Inl (Spawn_Failed (''failed to spawn daemon: '' @ e)), w\<lparr>spw_logs := temp_log # spw_logs w\<rparr>)
                          | Inr pid \<Rightarrow>
                              let final_log = path_join (sp_log_dir env) (''ocsyncd-'' @ show_nat pid @ ''.log'');
                                  w = w\<lparr>spw_started := daemon_path # spw_started w,
                                        spw_logs := (if sp_renamed env then final_log else temp_log) # spw_logs w\<rparr>
                              in wait_for_socket env socket_path 5 200 w)))))"

section \<open>The connection and its tasks (\<open>daemon_conn.rs\<close>)\<close>

text \<open>The \<open>i\<close>-th connection with its fresh channel; \<open>Subscribe\<close> is written before there are any tasks.\<close>

definition connect_daemon :: "spawn_env \<Rightarrow> nat \<Rightarrow> string + DaemonConnection \<times> nat" where
  "connect_daemon env i =
     (case sp_connect_error env of
        Some e \<Rightarrow> Inl (''I/O error: '' @ e)
      | None \<Rightarrow>
          (case sp_subscribe_error env of
             Some e \<Rightarrow> Inl (''I/O error: '' @ e)
           | None \<Rightarrow> Inr (\<lparr>dc_id = Some i, dc_open = True, dc_queue = []\<rparr>, i)))"

text \<open>One round of the task that writes: the first command waiting, and what has been written. If writing fails the task ends, and with it the channel.\<close>

definition writer_step :: "(DaemonCommand \<Rightarrow> string) \<Rightarrow> bool \<Rightarrow> DaemonConnection \<times> string \<Rightarrow> DaemonConnection \<times> string" where
  "writer_step to_json fails = (\<lambda>(dc, written).
     case dc_queue dc of
       [] \<Rightarrow> (dc, written)
     | cmd # rest \<Rightarrow>
         if fails then (dc\<lparr>dc_open := False, dc_queue := []\<rparr>, written)
         else (dc\<lparr>dc_queue := rest\<rparr>, written @ write_frame to_json cmd))"

text \<open>What the task that reads has passed on when it ends or has to wait: all frames up to the first that cannot be read.\<close>

definition reader_events :: "(string \<Rightarrow> string + DaemonEvent) \<Rightarrow> string \<Rightarrow> DaemonEvent list" where
  "reader_events from_json received = fst (read_frames from_json received)"

text \<open>The next item of the channel of events, \<open>None\<close> once it is closed (\<open>subscription.rs\<close>).\<close>

definition next_message :: "DaemonEvent option \<Rightarrow> Message" where
  "next_message item = (case item of Some event \<Rightarrow> Msg_DaemonEvent event | None \<Rightarrow> DaemonDisconnected)"

text \<open>\<open>spawn_and_connect\<close> of \<open>main.rs\<close>, after the backoff.\<close>

definition spawn_and_connect :: "spawn_env \<Rightarrow> string \<Rightarrow> nat \<Rightarrow> (DaemonConnection \<times> nat) option" where
  "spawn_and_connect env socket i =
     (case ensure_daemon_running env socket \<lparr>spw_attempts = 0, spw_started = [], spw_slept = 0, spw_logs = []\<rparr> of
        (Inl e, _) \<Rightarrow> None
      | (Inr _, _) \<Rightarrow> (case connect_daemon env i of Inr payload \<Rightarrow> Some payload | Inl e \<Rightarrow> None))"

section \<open>The program (\<open>main.rs\<close>)\<close>

record IcedApp =
  ia_app :: App
  ia_event_rx :: "nat option"

datatype shell_task = App_Task task | Move_Receiver nat | Connect_After nat

definition iced_init :: "settings_env \<Rightarrow> tray_env \<Rightarrow> (Language \<Rightarrow> string \<Rightarrow> string) \<Rightarrow> string \<Rightarrow> files \<Rightarrow> (IcedApp \<times> shell_task) \<times> files" where
  "iced_init env tenv tr config_dir files =
     (let gui_config_path = path_join config_dir ''gui-config.toml'';
          gui_config = load_gui_config env gui_config_path files;
          (language, files) = (case gc_language gui_config of
             Some lang \<Rightarrow> (lang, files)
           | None \<Rightarrow> (let detected = detect_system_language env
                      in (detected, snd (save_gui_config env (gui_config\<lparr>gc_language := Some detected\<rparr>) gui_config_path files))));
          tray = (case build_tray tenv (tr language) of Inr th \<Rightarrow> Some th | Inl e \<Rightarrow> None)
      in ((\<lparr>ia_app = default_app\<lparr>ga_tray := tray, ga_language := language, ga_gui_config_path := gui_config_path, ga_daemon_connecting := True\<rparr>,
            ia_event_rx = None\<rparr>, Connect_After 0), files))"

text \<open>\<open>IcedApp::update\<close>.\<close>

definition on_connected :: "(Language \<Rightarrow> string \<Rightarrow> string) \<Rightarrow> (DaemonConnection \<times> nat) option \<Rightarrow> App \<Rightarrow> App \<times> shell_task" where
  "on_connected tr payload app =
     (let app = app\<lparr>ga_daemon_connecting := False\<rparr> in
      case payload of
        Some (conn, carrier) \<Rightarrow>
          (sync_tray (tr (ga_language app)) (app\<lparr>ga_daemon := conn, ga_daemon_running := True\<rparr>), Move_Receiver carrier)
      | None \<Rightarrow> (sync_tray (tr (ga_language app)) (app\<lparr>ga_daemon_running := False\<rparr>), App_Task No_Task))"

definition on_disconnected :: "(Language \<Rightarrow> string \<Rightarrow> string) \<Rightarrow> App \<Rightarrow> App \<times> shell_task" where
  "on_disconnected tr app =
     (let app = sync_tray (tr (ga_language app)) (app\<lparr>ga_daemon_running := False\<rparr>) in
      if ga_daemon_connecting app then (app, App_Task No_Task)
      else (app\<lparr>ga_daemon_connecting := True\<rparr>, Connect_After 2000))"

definition on_start_daemon :: "App \<Rightarrow> App \<times> shell_task" where
  "on_start_daemon app =
     (if ga_daemon_connecting app then (app, App_Task No_Task)
      else (app\<lparr>ga_daemon_connecting := True\<rparr>, Connect_After 0))"

definition iced_update :: "(Language \<Rightarrow> string \<Rightarrow> string) \<Rightarrow> string option \<Rightarrow> Message \<Rightarrow> App \<Rightarrow> App \<times> shell_task" where
  "iced_update tr home m app =
     (case m of
        DaemonConnected payload \<Rightarrow> on_connected tr payload app
      | DaemonDisconnected \<Rightarrow> on_disconnected tr app
      | StartDaemon \<Rightarrow> on_start_daemon app
      | _ \<Rightarrow> apsnd App_Task (update tr home m app))"

text \<open>\<open>message_for_menu_id\<close> of \<open>tray.rs\<close>.\<close>

definition message_for_menu_id :: "string \<Rightarrow> Message" where
  "message_for_menu_id i =
     (if i = ''quit'' then Msg_Quit
      else if i = ''about'' then ShowAbout
      else if i = ''daemon_status'' then StartDaemon
      else ToggleWindow)"

section \<open>The process\<close>

text \<open>
  The state of the process: the program, whether the subscription holds the lock on the receiver (it does while it waits for an event), the
  connect attempts under way by their backoff, the tasks that wait to put a new receiver in place, the messages not yet handled, the connections that the daemon
  has not closed, and the number of the next connection.
\<close>

record gui_shell =
  sh_iced :: IcedApp
  sh_locked :: bool
  sh_attempts :: "nat list"
  sh_moves :: "nat list"
  sh_inbox :: "Message list"
  sh_open :: "nat list"
  sh_next :: nat
  sh_exited :: bool

text \<open>
  What can happen next. A message is handled; a connect attempt ends; the subscription takes the lock, gets an event or finds the channel closed; a waiting
  receiver is put in place; the daemon closes a connection on which nobody can send any more, or goes away; the user or the tray sends a message.
\<close>

datatype shell_label =
    Handle
  | Resolve spawn_env
  | Take_Lock
  | Next_Event DaemonEvent
  | End_Of_Events
  | Put_Receiver
  | Superseded nat
  | Connection_Lost nat
  | From_User Message
  | Tray_Poll

text \<open>The messages that views, dialogs, windows and the tray send.\<close>

fun user_message :: "Message \<Rightarrow> bool" where
  "user_message (Msg_DaemonEvent _) = False"
| "user_message DaemonDisconnected = False"
| "user_message (DaemonConnected _) = False"
| "user_message _ = True"

text \<open>What follows from the task that an update returns: tasks of the toolkit that end with a message send it.\<close>

fun launch :: "shell_task \<Rightarrow> gui_shell \<Rightarrow> gui_shell" where
  "launch (Move_Receiver i) s = s\<lparr>sh_moves := sh_moves s @ [i]\<rparr>"
| "launch (Connect_After backoff) s = s\<lparr>sh_attempts := sh_attempts s @ [backoff]\<rparr>"
| "launch (App_Task Exit) s = s\<lparr>sh_exited := True\<rparr>"
| "launch (App_Task (Save_Language path l)) s = s\<lparr>sh_inbox := sh_inbox s @ [NavigateTo GeneralSettings]\<rparr>"
| "launch (App_Task t) s = s"

text \<open>Somebody can still send on a connection: the application, or a message that is to hand it over.\<close>

definition has_sender :: "nat \<Rightarrow> gui_shell \<Rightarrow> bool" where
  "has_sender i s \<longleftrightarrow> dc_id (ga_daemon (ia_app (sh_iced s))) = Some i \<or>
     list_ex (\<lambda>m. case m of DaemonConnected (Some (_, j)) \<Rightarrow> j = i | _ \<Rightarrow> False) (sh_inbox s)"

fun shell_step :: "(Language \<Rightarrow> string \<Rightarrow> string) \<Rightarrow> string option \<Rightarrow> string \<Rightarrow> shell_label \<Rightarrow> gui_shell \<Rightarrow> gui_shell option" where
  "shell_step tr home sock Handle s =
     (case sh_inbox s of
        [] \<Rightarrow> None
      | m # ms \<Rightarrow> (case iced_update tr home m (ia_app (sh_iced s)) of
          (app, t) \<Rightarrow> Some (launch t (s\<lparr>sh_iced := (sh_iced s)\<lparr>ia_app := app\<rparr>, sh_inbox := ms\<rparr>))))"
| "shell_step tr home sock (Resolve env) s =
     (case sh_attempts s of
        [] \<Rightarrow> None
      | _ # as \<Rightarrow> (case spawn_and_connect env sock (sh_next s) of
          None \<Rightarrow> Some (s\<lparr>sh_attempts := as, sh_inbox := sh_inbox s @ [DaemonConnected None]\<rparr>)
        | Some payload \<Rightarrow> Some (s\<lparr>sh_attempts := as, sh_inbox := sh_inbox s @ [DaemonConnected (Some payload)],
            sh_open := sh_next s # sh_open s, sh_next := Suc (sh_next s)\<rparr>)))"
| "shell_step tr home sock Take_Lock s =
     (if \<not> sh_locked s \<and> ia_event_rx (sh_iced s) \<noteq> None then Some (s\<lparr>sh_locked := True\<rparr>) else None)"
| "shell_step tr home sock (Next_Event e) s =
     (case ia_event_rx (sh_iced s) of
        Some i \<Rightarrow> if sh_locked s \<and> i \<in> set (sh_open s)
          then Some (s\<lparr>sh_inbox := sh_inbox s @ [next_message (Some e)], sh_locked := False\<rparr>) else None
      | None \<Rightarrow> None)"
| "shell_step tr home sock End_Of_Events s =
     (case ia_event_rx (sh_iced s) of
        Some i \<Rightarrow> if sh_locked s \<and> i \<notin> set (sh_open s)
          then Some (s\<lparr>sh_inbox := sh_inbox s @ [next_message None], sh_iced := (sh_iced s)\<lparr>ia_event_rx := None\<rparr>, sh_locked := False\<rparr>) else None
      | None \<Rightarrow> None)"
| "shell_step tr home sock Put_Receiver s =
     (case sh_moves s of
        [] \<Rightarrow> None
      | i # is \<Rightarrow> if sh_locked s then None
          else Some (s\<lparr>sh_iced := (sh_iced s)\<lparr>ia_event_rx := Some i\<rparr>, sh_moves := is, sh_inbox := sh_inbox s @ [NavigateTo SyncStatus]\<rparr>))"
| "shell_step tr home sock (Superseded i) s =
     (if i \<in> set (sh_open s) \<and> \<not> has_sender i s then Some (s\<lparr>sh_open := removeAll i (sh_open s)\<rparr>) else None)"
| "shell_step tr home sock (Connection_Lost i) s =
     (if i \<in> set (sh_open s) then Some (s\<lparr>sh_open := removeAll i (sh_open s)\<rparr>) else None)"
| "shell_step tr home sock (From_User m) s = (if user_message m then Some (s\<lparr>sh_inbox := sh_inbox s @ [m]\<rparr>) else None)"
| "shell_step tr home sock Tray_Poll s =
     Some (s\<lparr>sh_iced := (sh_iced s)\<lparr>ia_app := (ia_app (sh_iced s))\<lparr>ga_tray := map_option gtk_poll (ga_tray (ia_app (sh_iced s)))\<rparr>\<rparr>\<rparr>)"

definition start_shell :: "IcedApp \<times> shell_task \<Rightarrow> gui_shell" where
  "start_shell = (\<lambda>(ia, t). launch t \<lparr>sh_iced = ia, sh_locked = False, sh_attempts = [], sh_moves = [], sh_inbox = [], sh_open = [],
     sh_next = 0, sh_exited = False\<rparr>)"

text \<open>Runs of the process until it exits, with a condition on what happens.\<close>

inductive gui_reachable :: "(Language \<Rightarrow> string \<Rightarrow> string) \<Rightarrow> string option \<Rightarrow> string \<Rightarrow> (shell_label \<Rightarrow> gui_shell \<Rightarrow> bool) \<Rightarrow> gui_shell \<Rightarrow> gui_shell \<Rightarrow> bool"
  for tr home sock ok s\<^sub>0 where
  gui_start: "gui_reachable tr home sock ok s\<^sub>0 s\<^sub>0"
| gui_next: "gui_reachable tr home sock ok s\<^sub>0 s \<Longrightarrow> \<not> sh_exited s \<Longrightarrow> ok l s \<Longrightarrow> shell_step tr home sock l s = Some s' \<Longrightarrow>
    gui_reachable tr home sock ok s\<^sub>0 s'"

section \<open>Lemmas\<close>

subsection \<open>Settings\<close>

lemma gc_language_upd [simp]: "c\<lparr>gc_language := l\<rparr> = \<lparr>gc_language = l\<rparr>" for c :: GuiConfig
  by (cases c) simp

text \<open>The language is detected once: what the first start saves, the next start reads.\<close>

lemma language_detected_once:
  assumes "\<And>c s. se_to_toml env c = Inr s \<Longrightarrow> se_from_toml env s = Inr c"
    and "fst (save_gui_config env \<lparr>gc_language = Some (detect_system_language env)\<rparr> (path_join dir ''gui-config.toml'') files) = Inr ()"
    and "gc_language (load_gui_config env (path_join dir ''gui-config.toml'') files) = None"
    and "iced_init env tenv tr dir files = ((ia, t), files')" "se_from_toml env' = se_from_toml env"
  shows "ga_language (ia_app ia) = detect_system_language env \<and>
    gc_language (load_gui_config env' (path_join dir ''gui-config.toml'') files') = Some (detect_system_language env)"
  using assms
  by (auto simp: iced_init_def save_gui_config_def load_gui_config_def Let_def split: option.splits sum.splits if_splits)

subsection \<open>Starting the daemon\<close>

lemma wait_loop_result:
  "wait_loop env n delay w = (r, w') \<Longrightarrow>
     r = (\<exists>k < n. sp_refused env (spw_attempts w + k) = None) \<and> spw_started w' = spw_started w \<and>
     spw_attempts w' \<le> spw_attempts w + n \<and> spw_slept w' \<le> spw_slept w + n * delay"
proof (induction n arbitrary: w)
  case (Suc n)
  show ?case
  proof (cases "sp_refused env (spw_attempts w)")
    case None
    with Suc.prems show ?thesis by (auto simp: try_connect_def intro: exI [of _ 0])
  next
    case (Some e)
    with Suc.prems Suc.IH [of "w\<lparr>spw_attempts := Suc (spw_attempts w), spw_slept := spw_slept w + delay\<rparr>"] show ?thesis
      by (auto simp: try_connect_def less_Suc_eq_0_disj)
  qed
qed simp

text \<open>
  The daemon is reported as running exactly if the socket was reached, at once or in one of five attempts after starting it; at most one
  program is started, and the waiting takes at most a second.
\<close>

lemma ensure_daemon_running_result:
  assumes "ensure_daemon_running env sock w = (r, w')"
  shows "isl r \<or> (\<exists>k \<le> 5. sp_refused env (spw_attempts w + k) = None)"
    and "length (spw_started w') \<le> Suc (length (spw_started w))"
    and "sp_refused env (spw_attempts w) = None \<Longrightarrow> r = Inr () \<and> spw_started w' = spw_started w"
    and "spw_slept w' \<le> spw_slept w + 1000"
proof -
  let ?w = "w\<lparr>spw_attempts := Suc (spw_attempts w)\<rparr>"
  consider "sp_refused env (spw_attempts w) = None" "r = Inr ()" "w' = ?w"
    | e where "sp_refused env (spw_attempts w) \<noteq> None" "r = Inl e" "spw_started w' = spw_started w" "spw_slept w' = spw_slept w"
    | p l where "sp_refused env (spw_attempts w) \<noteq> None"
        "wait_for_socket env sock 5 200 (?w\<lparr>spw_started := p # spw_started w, spw_logs := l\<rparr>) = (r, w')"
    using assms by (auto simp: ensure_daemon_running_def try_connect_def Let_def split: option.splits sum.splits)
  then have "(isl r \<or> (\<exists>k \<le> 5. sp_refused env (spw_attempts w + k) = None)) \<and> length (spw_started w') \<le> Suc (length (spw_started w)) \<and>
      (sp_refused env (spw_attempts w) = None \<longrightarrow> r = Inr () \<and> spw_started w' = spw_started w) \<and> spw_slept w' \<le> spw_slept w + 1000"
  proof cases
    case 1
    then show ?thesis by (auto intro: exI [of _ 0])
  next
    case (3 p l)
    then obtain b where "wait_loop env 5 200 (?w\<lparr>spw_started := p # spw_started w, spw_logs := l\<rparr>) = (b, w')" "b \<or> isl r"
      by (auto simp: wait_for_socket_def split: prod.splits bool.splits)
    note loop = wait_loop_result [OF this(1)] and b = this(2)
    have "isl r \<or> (\<exists>k \<le> 5. sp_refused env (spw_attempts w + k) = None)"
    proof (cases b)
      case True
      with loop obtain k where "k < 5" "sp_refused env (spw_attempts w + Suc k) = None" by auto
      then show ?thesis by (intro disjI2 exI [of _ "Suc k"]) simp
    qed (use b in simp)
    with loop 3(1) show ?thesis by simp
  qed auto
  then show "isl r \<or> (\<exists>k \<le> 5. sp_refused env (spw_attempts w + k) = None)"
      "length (spw_started w') \<le> Suc (length (spw_started w))"
      "sp_refused env (spw_attempts w) = None \<Longrightarrow> r = Inr () \<and> spw_started w' = spw_started w"
      "spw_slept w' \<le> spw_slept w + 1000"
    by blast+
qed

text \<open>The binary is looked for without the suffix of programs on Windows.\<close>

lemma find_daemon_binary_name: "find_daemon_binary env = Inr p \<Longrightarrow> \<exists>d. p = d @ ''ocsyncd''"
  by (auto simp: find_daemon_binary_def path_join_def is_absolute_def Let_def split: sum.splits option.splits if_splits)

subsection \<open>The tasks of the connection\<close>

lemma writer_step_ok:
  "dc_queue dc = cmd # rest \<Longrightarrow> writer_step to_json False (dc, out) = (dc\<lparr>dc_queue := rest\<rparr>, out @ write_frame to_json cmd)"
  by (simp add: writer_step_def)

lemma writer_run:
  "dc_queue dc = cmds \<Longrightarrow>
     fold (\<lambda>_. writer_step to_json False) cmds (dc, out) = (dc\<lparr>dc_queue := []\<rparr>, out @ concat (map (write_frame to_json) cmds))"
  by (induction cmds arbitrary: dc out) (simp_all add: writer_step_ok)

subsection \<open>Messages\<close>

lemma send_daemon [simp]:
  "dc_id (ga_daemon (send c app)) = dc_id (ga_daemon app)"
  "ga_daemon_running (send c app) = ga_daemon_running app" "ga_daemon_connecting (send c app) = ga_daemon_connecting app"
  by (simp_all add: send_def send_command_def)

lemma fold_send_daemon [simp]:
  "dc_id (ga_daemon (fold (\<lambda>x. send (f x)) xs app)) = dc_id (ga_daemon app)"
  "ga_daemon_running (fold (\<lambda>x. send (f x)) xs app) = ga_daemon_running app"
  "ga_daemon_connecting (fold (\<lambda>x. send (f x)) xs app) = ga_daemon_connecting app"
  by (induction xs arbitrary: app) simp_all

definition link :: "App \<Rightarrow> nat option \<times> bool \<times> bool" where
  "link app = (dc_id (ga_daemon app), ga_daemon_running app, ga_daemon_connecting app)"

lemma link_event [simp]: "link (handle_daemon_event e app) = link app"
  by (cases e) (simp_all add: link_def with_folder_def with_account_def on_spaces_listed_def on_space_failed_def on_folder_added_def Let_def
      split: View.split option.split)

lemma link_update: "link (fst (update tr home m app)) = link app"
proof (cases m)
  case AddAccountSubmit
  then show ?thesis
    by (auto simp: link_def add_account_submit_def Let_def send_command_def split: View.split)
next
  case (Msg_DaemonEvent e)
  then show ?thesis using link_event [of e app] by simp
next
  case (PickRootFolderPicked p)
  then show ?thesis by (simp add: link_def split: View.split option.split)
qed (simp_all add: link_def set_folder_status_def with_folder_def sync_tray_def pick_spaces_next_def pick_root_folder_submit_def Let_def
    split: View.split option.split)

fun is_connect_result :: "Message \<Rightarrow> bool" where
  "is_connect_result (DaemonConnected _) = True"
| "is_connect_result _ = False"

lemma iced_update_other:
  assumes "iced_update tr home m app = (app', t)" "m \<noteq> DaemonDisconnected" "m \<noteq> StartDaemon" "\<not> is_connect_result m"
  shows "link app' = link app \<and> (\<exists>t'. t = App_Task t')"
  using assms link_update [of tr home m app] by (cases m) (auto simp: iced_update_def apsnd_def map_prod_def split: prod.splits)

subsection \<open>Well-formed states of the process\<close>

abbreviation app_of :: "gui_shell \<Rightarrow> App" where
  "app_of s \<equiv> ia_app (sh_iced s)"

definition results_in :: "Message list \<Rightarrow> nat" where
  "results_in ms = length (filter is_connect_result ms)"

definition ends_in :: "Message list \<Rightarrow> nat" where
  "ends_in ms = length (filter (\<lambda>m. m = DaemonDisconnected) ms)"

lemma results_in_simps [simp]:
  "results_in [] = 0" "results_in (m # ms) = of_bool (is_connect_result m) + results_in ms" "results_in (ms @ ms') = results_in ms + results_in ms'"
  by (simp_all add: results_in_def)

lemma ends_in_simps [simp]:
  "ends_in [] = 0" "ends_in (m # ms) = of_bool (m = DaemonDisconnected) + ends_in ms" "ends_in (ms @ ms') = ends_in ms + ends_in ms'"
  by (simp_all add: ends_in_def)

text \<open>The connections whose events the program gets or will get, the attempts it still has to hear of, and the ends it still has to hear of.\<close>

definition listening :: "gui_shell \<Rightarrow> nat list" where
  "listening s = sh_moves s @ (case ia_event_rx (sh_iced s) of Some i \<Rightarrow> [i] | None \<Rightarrow> [])"

definition in_flight :: "gui_shell \<Rightarrow> nat" where
  "in_flight s = length (sh_attempts s) + results_in (sh_inbox s)"

definition ends_waiting :: "gui_shell \<Rightarrow> nat" where
  "ends_waiting s = ends_in (sh_inbox s)"

definition wf_attempts :: "gui_shell \<Rightarrow> bool" where
  "wf_attempts s \<longleftrightarrow> in_flight s = of_bool (ga_daemon_connecting (app_of s)) \<and>
     (\<forall>conn i. DaemonConnected (Some (conn, i)) \<in> set (sh_inbox s) \<longrightarrow> dc_id conn = Some i)"

definition wf_connection :: "gui_shell \<Rightarrow> bool" where
  "wf_connection s \<longleftrightarrow> length (listening s) + ends_waiting s = of_bool (ga_daemon_running (app_of s)) \<and>
     (ga_daemon_connecting (app_of s) \<longrightarrow> \<not> ga_daemon_running (app_of s)) \<and>
     (\<forall>i \<in> set (listening s). dc_id (ga_daemon (app_of s)) = Some i)"

text \<open>Starting the daemon is not asked for while it runs.\<close>

definition tame :: "shell_label \<Rightarrow> gui_shell \<Rightarrow> bool" where
  "tame l s \<longleftrightarrow> \<not> (l = Handle \<and> sh_inbox s \<noteq> [] \<and> hd (sh_inbox s) = StartDaemon \<and> ga_daemon_running (app_of s) \<and> \<not> ga_daemon_connecting (app_of s))"

text \<open>What launching a task does, in the terms of the invariant.\<close>

lemma launch_counts [simp]:
  "sh_iced (launch t s) = sh_iced s"
  "results_in (sh_inbox (launch t s)) = results_in (sh_inbox s)" "ends_in (sh_inbox (launch t s)) = ends_in (sh_inbox s)"
  "sh_attempts (launch t s) = sh_attempts s @ (case t of Connect_After n \<Rightarrow> [n] | _ \<Rightarrow> [])"
  "sh_moves (launch t s) = sh_moves s @ (case t of Move_Receiver i \<Rightarrow> [i] | _ \<Rightarrow> [])"
  by (cases "(t, s)" rule: launch.cases; simp)+

lemmas wf_shell_defs = wf_attempts_def wf_connection_def in_flight_def listening_def ends_waiting_def

lemma spawn_and_connect_id: "spawn_and_connect env sock i = Some (conn, j) \<Longrightarrow> j = i \<and> dc_id conn = Some i"
  by (auto simp: spawn_and_connect_def connect_daemon_def split: prod.splits sum.splits option.splits)

lemma sync_tray_link [simp]: "link (sync_tray tr app) = link app"
  by (simp add: sync_tray_def link_def)

lemma on_messages:
  "on_connected tr payload app = (app', t) \<Longrightarrow>
     (case payload of
        Some (conn, i) \<Rightarrow> link app' = (dc_id conn, True, False) \<and> t = Move_Receiver i
      | None \<Rightarrow> link app' = (dc_id (ga_daemon app), False, False) \<and> t = App_Task No_Task)"
  "on_disconnected tr app = (app', t) \<Longrightarrow>
     link app' = (dc_id (ga_daemon app), False, True) \<and> t = (if ga_daemon_connecting app then App_Task No_Task else Connect_After 2000)"
  "on_start_daemon app = (app', t) \<Longrightarrow>
     link app' = (dc_id (ga_daemon app), ga_daemon_running app, True) \<and> t = (if ga_daemon_connecting app then App_Task No_Task else Connect_After 0)"
  by (auto simp: on_connected_def on_disconnected_def on_start_daemon_def link_def sync_tray_def Let_def split: option.splits if_splits)

text \<open>What handling a message does to the connection, by the kind of the message.\<close>

lemma handle_cases:
  assumes "shell_step tr home sock Handle s = Some s'"
  obtains m ms t app where "sh_inbox s = m # ms" "iced_update tr home m (app_of s) = (app, t)"
    "s' = launch t (s\<lparr>sh_iced := (sh_iced s)\<lparr>ia_app := app\<rparr>, sh_inbox := ms\<rparr>)"
  using assms by (auto split: list.splits prod.splits)

lemma connect_payload_launch:
  "DaemonConnected p \<in> set (sh_inbox (launch t s)) \<Longrightarrow> DaemonConnected p \<in> set (sh_inbox s)"
  by (cases "(t, s)" rule: launch.cases) auto

lemma wf_handle_attempts:
  assumes "shell_step tr home sock Handle s = Some s'" "wf_attempts s"
  shows "wf_attempts s'"
proof -
  obtain m ms t app where h: "sh_inbox s = m # ms" "iced_update tr home m (app_of s) = (app, t)"
      "s' = launch t (s\<lparr>sh_iced := (sh_iced s)\<lparr>ia_app := app\<rparr>, sh_inbox := ms\<rparr>)"
    using handle_cases [OF assms(1)] by metis
  have payload: "dc_id conn = Some i" if "DaemonConnected (Some (conn, i)) \<in> set (sh_inbox s')" for conn i
    using assms(2) h(1,3) that by (auto simp: wf_attempts_def dest!: connect_payload_launch)
  have count: "length (sh_attempts s) + of_bool (is_connect_result m) + results_in ms = of_bool (ga_daemon_connecting (app_of s))"
    using assms(2) h(1) by (simp add: wf_shell_defs)
  have "length (sh_attempts s) + length (case t of Connect_After n \<Rightarrow> [n] | _ \<Rightarrow> []) + results_in ms = of_bool (ga_daemon_connecting app)"
  proof (cases m)
    case (DaemonConnected payload)
    with h(2) have "\<not> ga_daemon_connecting app \<and> (case t of Connect_After n \<Rightarrow> [n] | _ \<Rightarrow> []) = []"
      using on_messages(1) [of tr payload "app_of s" app t] by (auto simp: iced_update_def link_def split: option.splits)
    then show ?thesis using count DaemonConnected by (simp add: of_bool_def split: if_splits)
  next
    case DaemonDisconnected
    with h(2) show ?thesis
      using on_messages(2) [of tr "app_of s" app t] count by (simp add: iced_update_def link_def split: if_splits)
  next
    case StartDaemon
    with h(2) show ?thesis
      using on_messages(3) [of "app_of s" app t] count by (simp add: iced_update_def link_def split: if_splits)
  qed (use iced_update_other [OF h(2)] count in \<open>auto simp: link_def\<close>)
  with h(3) payload show ?thesis by (simp add: wf_shell_defs)
qed

lemma wf_handle_connection:
  assumes "shell_step tr home sock Handle s = Some s'" "wf_attempts s" "wf_connection s" "tame Handle s"
  shows "wf_connection s'"
proof -
  obtain m ms t app where h: "sh_inbox s = m # ms" "iced_update tr home m (app_of s) = (app, t)"
      "s' = launch t (s\<lparr>sh_iced := (sh_iced s)\<lparr>ia_app := app\<rparr>, sh_inbox := ms\<rparr>)"
    using handle_cases [OF assms(1)] by metis
  have count: "length (listening s) + of_bool (m = DaemonDisconnected) + ends_in ms = of_bool (ga_daemon_running (app_of s))"
      "ga_daemon_connecting (app_of s) \<Longrightarrow> \<not> ga_daemon_running (app_of s)"
      "\<And>i. i \<in> set (listening s) \<Longrightarrow> dc_id (ga_daemon (app_of s)) = Some i"
    using assms(3) h(1) by (simp_all add: wf_connection_def ends_waiting_def)
  have s': "set (listening s') = set (case t of Move_Receiver i \<Rightarrow> [i] | _ \<Rightarrow> []) \<union> set (listening s)"
      "length (listening s') = length (case t of Move_Receiver i \<Rightarrow> [i] | _ \<Rightarrow> []) + length (listening s)"
      "ends_waiting s' = ends_in ms" "app_of s' = app"
    using h(3) by (auto simp: listening_def ends_waiting_def)
  show ?thesis
  proof (cases m)
    case (DaemonConnected payload)
    with assms(2) h(1) have conn: "ga_daemon_connecting (app_of s)" "\<And>c i. payload = Some (c, i) \<Longrightarrow> dc_id c = Some i"
      by (auto simp: wf_shell_defs of_bool_def split: if_splits)
    with count have "listening s = []" "ends_in ms = 0" by simp_all
    with DaemonConnected h(2) s' conn show ?thesis
      using on_messages(1) [of tr payload "app_of s" app t] by (auto simp: iced_update_def link_def wf_connection_def split: option.splits)
  next
    case DaemonDisconnected
    with count have "listening s = []" "ends_in ms = 0" by (auto simp: of_bool_def split: if_splits)
    with DaemonDisconnected h(2) s' show ?thesis
      using on_messages(2) [of tr "app_of s" app t] by (auto simp: iced_update_def link_def wf_connection_def split: if_splits)
  next
    case StartDaemon
    with h(1) assms(4) have "\<not> ga_daemon_running (app_of s)" using count(2) by (auto simp: tame_def)
    with StartDaemon h(2) s' count show ?thesis
      using on_messages(3) [of "app_of s" app t] by (auto simp: iced_update_def link_def wf_connection_def split: if_splits)
  qed (use iced_update_other [OF h(2)] s' count in \<open>auto simp: link_def wf_connection_def\<close>)
qed

lemma user_message_not: "user_message m \<Longrightarrow> \<not> is_connect_result m \<and> m \<noteq> DaemonDisconnected \<and> m \<noteq> DaemonConnected p"
  by (cases m) simp_all

lemma wf_step_attempts:
  assumes "shell_step tr home sock l s = Some s'" "wf_attempts s"
  shows "wf_attempts s'"
proof (cases l)
  case Handle
  with assms wf_handle_attempts show ?thesis by blast
next
  case (From_User m)
  with assms user_message_not [of m] show ?thesis by (auto simp: wf_shell_defs split: if_splits)
qed (use assms in \<open>auto simp: wf_shell_defs next_message_def of_bool_def dest: spawn_and_connect_id split: list.splits option.splits if_splits\<close>)

lemma listening_upd [simp]:
  "listening (s\<lparr>sh_inbox := x\<rparr>) = listening s" "listening (s\<lparr>sh_locked := b\<rparr>) = listening s" "listening (s\<lparr>sh_open := os\<rparr>) = listening s"
  "listening (s\<lparr>sh_attempts := as\<rparr>) = listening s" "listening (s\<lparr>sh_next := n\<rparr>) = listening s"
  "listening (s\<lparr>sh_iced := (sh_iced s)\<lparr>ia_app := a\<rparr>\<rparr>) = listening s"
  by (simp_all add: listening_def)

lemma wf_step_connection:
  assumes "shell_step tr home sock l s = Some s'" "wf_attempts s" "wf_connection s" "tame l s"
  shows "wf_connection s'"
proof (cases l)
  case Handle
  with assms wf_handle_connection show ?thesis by blast
next
  case (From_User m)
  with assms(1,3) user_message_not [of m] show ?thesis by (auto simp: wf_connection_def ends_waiting_def split: if_splits)
next
  case End_Of_Events
  then obtain i where i: "ia_event_rx (sh_iced s) = Some i"
      "s' = s\<lparr>sh_inbox := sh_inbox s @ [DaemonDisconnected], sh_iced := (sh_iced s)\<lparr>ia_event_rx := None\<rparr>, sh_locked := False\<rparr>"
    using assms(1) by (auto simp: next_message_def split: option.splits if_splits)
  with assms(3) show ?thesis by (auto simp: wf_shell_defs)
next
  case Tray_Poll
  with assms(1,3) show ?thesis by (auto simp: wf_connection_def ends_waiting_def)
next
  case Put_Receiver
  then obtain i rest where i: "sh_moves s = i # rest" "\<not> sh_locked s"
      "s' = s\<lparr>sh_iced := (sh_iced s)\<lparr>ia_event_rx := Some i\<rparr>, sh_moves := rest, sh_inbox := sh_inbox s @ [NavigateTo SyncStatus]\<rparr>"
    using assms(1) by (auto split: list.splits if_splits)
  with assms(3) have "rest = []" "ia_event_rx (sh_iced s) = None"
    by (auto simp: wf_shell_defs of_bool_def split: if_splits option.splits)
  with i assms(3) show ?thesis by (auto simp: wf_shell_defs)
qed (use assms(1,3) in \<open>auto simp: wf_connection_def ends_waiting_def next_message_def split: list.splits option.splits if_splits\<close>)

lemma gui_reachable_wf:
  assumes "gui_reachable tr home sock ok s\<^sub>0 s" "wf_attempts s\<^sub>0"
  shows "wf_attempts s \<and> ((\<forall>l s. ok l s \<longrightarrow> tame l s) \<longrightarrow> wf_connection s\<^sub>0 \<longrightarrow> wf_connection s)"
  using assms by induction (use wf_step_attempts wf_step_connection in blast)+

lemma start_shell_wf:
  assumes "iced_init env tenv tr dir files = (start, files')"
  shows "wf_attempts (start_shell start)" "wf_connection (start_shell start)"
  using assms by (auto simp: iced_init_def start_shell_def wf_shell_defs default_app_def disconnected_def Let_def split: prod.splits)

subsection \<open>The part of the state that is about the connection\<close>

text \<open>
  Runs are followed on the part of the state that says how the program is connected; the views and accounts do not
  matter for it. A step of this part is a step of the process.
\<close>

record conn_state =
  cs_rx :: "nat option"
  cs_locked :: bool
  cs_attempts :: "nat list"
  cs_moves :: "nat list"
  cs_inbox :: "Message list"
  cs_open :: "nat list"
  cs_next :: nat
  cs_link :: "nat option \<times> bool \<times> bool"

definition conn_state :: "gui_shell \<Rightarrow> conn_state" where
  "conn_state s = \<lparr>cs_rx = ia_event_rx (sh_iced s), cs_locked = sh_locked s, cs_attempts = sh_attempts s, cs_moves = sh_moves s,
     cs_inbox = sh_inbox s, cs_open = sh_open s, cs_next = sh_next s, cs_link = link (app_of s)\<rparr>"

fun conn_handle :: "Message \<Rightarrow> conn_state \<Rightarrow> conn_state option" where
  "conn_handle (DaemonConnected (Some (conn, i))) c = Some (c\<lparr>cs_link := (dc_id conn, True, False), cs_moves := cs_moves c @ [i]\<rparr>)"
| "conn_handle DaemonDisconnected c =
     (case cs_link c of (d, r, b) \<Rightarrow> Some (c\<lparr>cs_link := (d, False, True), cs_attempts := cs_attempts c @ (if b then [] else [2000])\<rparr>))"
| "conn_handle StartDaemon c =
     (case cs_link c of (d, r, b) \<Rightarrow> Some (c\<lparr>cs_link := (d, r, True), cs_attempts := cs_attempts c @ (if b then [] else [0])\<rparr>))"
| "conn_handle (NavigateTo v) c = Some c"
| "conn_handle _ c = None"

fun conn_next :: "string \<Rightarrow> shell_label \<Rightarrow> conn_state \<Rightarrow> conn_state option" where
  "conn_next sock Handle c = (case cs_inbox c of [] \<Rightarrow> None | m # ms \<Rightarrow> conn_handle m (c\<lparr>cs_inbox := ms\<rparr>))"
| "conn_next sock (Resolve env) c =
     (case (cs_attempts c, spawn_and_connect env sock (cs_next c)) of
        (_ # as, Some payload) \<Rightarrow> Some (c\<lparr>cs_attempts := as, cs_inbox := cs_inbox c @ [DaemonConnected (Some payload)],
           cs_open := cs_next c # cs_open c, cs_next := Suc (cs_next c)\<rparr>)
      | _ \<Rightarrow> None)"
| "conn_next sock Take_Lock c = (if \<not> cs_locked c \<and> cs_rx c \<noteq> None then Some (c\<lparr>cs_locked := True\<rparr>) else None)"
| "conn_next sock End_Of_Events c =
     (case cs_rx c of
        Some i \<Rightarrow> if cs_locked c \<and> i \<notin> set (cs_open c)
          then Some (c\<lparr>cs_inbox := cs_inbox c @ [DaemonDisconnected], cs_rx := None, cs_locked := False\<rparr>) else None
      | None \<Rightarrow> None)"
| "conn_next sock Put_Receiver c =
     (case cs_moves c of
        [] \<Rightarrow> None
      | i # is \<Rightarrow> if cs_locked c then None else Some (c\<lparr>cs_rx := Some i, cs_moves := is, cs_inbox := cs_inbox c @ [NavigateTo SyncStatus]\<rparr>))"
| "conn_next sock (Superseded i) c =
     (if i \<in> set (cs_open c) \<and> fst (cs_link c) \<noteq> Some i \<and> cs_inbox c = [] then Some (c\<lparr>cs_open := removeAll i (cs_open c)\<rparr>) else None)"
| "conn_next sock (From_User m) c = (if user_message m then Some (c\<lparr>cs_inbox := cs_inbox c @ [m]\<rparr>) else None)"
| "conn_next sock _ c = None"

fun shell_run :: "(Language \<Rightarrow> string \<Rightarrow> string) \<Rightarrow> string option \<Rightarrow> string \<Rightarrow> shell_label list \<Rightarrow> gui_shell \<Rightarrow> gui_shell option" where
  "shell_run tr home sock [] s = Some s"
| "shell_run tr home sock (l # ls) s =
     (if sh_exited s then None else case shell_step tr home sock l s of None \<Rightarrow> None | Some s' \<Rightarrow> shell_run tr home sock ls s')"

fun conn_run_all :: "string \<Rightarrow> shell_label list \<Rightarrow> conn_state \<Rightarrow> conn_state option" where
  "conn_run_all sock [] c = Some c"
| "conn_run_all sock (l # ls) c = (case conn_next sock l c of None \<Rightarrow> None | Some c' \<Rightarrow> conn_run_all sock ls c')"

lemma shell_run_append:
  "shell_run tr home sock (ls @ ls') s = (case shell_run tr home sock ls s of None \<Rightarrow> None | Some s' \<Rightarrow> shell_run tr home sock ls' s')"
  by (induction ls arbitrary: s) (auto split: option.split)

lemma conn_handle_sim:
  assumes "sh_inbox s = m # ms" "conn_handle m ((conn_state s)\<lparr>cs_inbox := ms\<rparr>) = Some c'" "\<not> sh_exited s"
  shows "\<exists>s'. shell_step tr home sock Handle s = Some s' \<and> conn_state s' = c' \<and> \<not> sh_exited s'"
proof -
  obtain app t where u: "iced_update tr home m (app_of s) = (app, t)" by fastforce
  have "conn_state (launch t (s\<lparr>sh_iced := (sh_iced s)\<lparr>ia_app := app\<rparr>, sh_inbox := ms\<rparr>)) = c' \<and>
      \<not> sh_exited (launch t (s\<lparr>sh_iced := (sh_iced s)\<lparr>ia_app := app\<rparr>, sh_inbox := ms\<rparr>))"
    using assms(2,3) u
  proof (cases "(m, (conn_state s)\<lparr>cs_inbox := ms\<rparr>)" rule: conn_handle.cases)
    case (1 conn i c)
    with u assms(2,3) on_messages(1) [of tr "Some (conn, i)" "app_of s" app t] show ?thesis
      by (auto simp: iced_update_def conn_state_def)
  next
    case (2 c)
    with u assms(2,3) on_messages(2) [of tr "app_of s" app t] show ?thesis
      by (auto simp: iced_update_def conn_state_def link_def split: if_splits)
  next
    case (3 c)
    with u assms(2,3) on_messages(3) [of "app_of s" app t] show ?thesis
      by (auto simp: iced_update_def conn_state_def link_def split: if_splits)
  qed (auto simp: iced_update_def conn_state_def link_def)
  with assms(1) u show ?thesis by simp
qed

lemma conn_next_sim:
  assumes "conn_next sock l (conn_state s) = Some c'" "\<not> sh_exited s"
  shows "\<exists>s'. shell_step tr home sock l s = Some s' \<and> conn_state s' = c' \<and> \<not> sh_exited s'"
proof (cases l)
  case Handle
  with assms obtain m ms where "sh_inbox s = m # ms" "conn_handle m ((conn_state s)\<lparr>cs_inbox := ms\<rparr>) = Some c'"
    by (auto simp: conn_state_def split: list.splits)
  from conn_handle_sim [OF this assms(2)] Handle show ?thesis by blast
qed (use assms in \<open>auto simp: conn_state_def next_message_def has_sender_def link_def split: list.splits option.splits if_splits\<close>)

lemma conn_run_sim:
  "conn_run_all sock ls (conn_state s) = Some c' \<Longrightarrow> \<not> sh_exited s \<Longrightarrow>
     \<exists>s'. shell_run tr home sock ls s = Some s' \<and> conn_state s' = c' \<and> \<not> sh_exited s'"
proof (induction ls arbitrary: s)
  case (Cons l ls)
  then obtain c where c: "conn_next sock l (conn_state s) = Some c" "conn_run_all sock ls c = Some c'" by (auto split: option.splits)
  from conn_next_sim [OF c(1) Cons.prems(2)] obtain s1 where
      "shell_step tr home sock l s = Some s1" "conn_state s1 = c" "\<not> sh_exited s1" by blast
  with Cons.IH [of s1] Cons.prems(2) c(2) show ?case by auto
qed simp

text \<open>The daemon is there and answers during a connect attempt.\<close>

definition reachable_daemon :: "spawn_env \<Rightarrow> bool" where
  "reachable_daemon env \<longleftrightarrow> sp_refused env 0 = None \<and> sp_connect_error env = None \<and> sp_subscribe_error env = None"

lemma reachable_daemon_connects:
  "reachable_daemon env \<Longrightarrow> spawn_and_connect env sock i = Some (\<lparr>dc_id = Some i, dc_open = True, dc_queue = []\<rparr>, i)"
  by (simp add: reachable_daemon_def spawn_and_connect_def ensure_daemon_running_def try_connect_def connect_daemon_def)

text \<open>Nothing goes wrong and the user does nothing.\<close>

definition undisturbed :: "shell_label \<Rightarrow> bool" where
  "undisturbed l \<longleftrightarrow> (case l of Resolve env \<Rightarrow> reachable_daemon env | Connection_Lost _ \<Rightarrow> False | From_User _ \<Rightarrow> False | _ \<Rightarrow> True)"

text \<open>Connected, with another attempt under way: the program takes the connection it has for lost.\<close>

definition reconnecting :: "nat \<Rightarrow> conn_state" where
  "reconnecting i = \<lparr>cs_rx = Some i, cs_locked = True, cs_attempts = [2000], cs_moves = [], cs_inbox = [], cs_open = [i], cs_next = Suc i,
     cs_link = (Some i, False, True)\<rparr>"

definition reconnect_round :: "spawn_env \<Rightarrow> nat \<Rightarrow> shell_label list" where
  "reconnect_round env i = [Resolve env, Handle, Superseded i, End_Of_Events, Put_Receiver, Take_Lock, Handle, Handle]"

lemma reconnect_round_run:
  "reachable_daemon env \<Longrightarrow> conn_run_all sock (reconnect_round env i) (reconnecting i) = Some (reconnecting (Suc i))"
  by (simp add: reconnect_round_def reconnecting_def reachable_daemon_connects)

lemma reconnect_rounds:
  assumes "reachable_daemon env" "conn_state s = reconnecting i" "\<not> sh_exited s"
  shows "\<exists>ls s'. shell_run tr home sock ls s = Some s' \<and> conn_state s' = reconnecting (i + n) \<and> \<not> sh_exited s' \<and>
    list_all undisturbed ls \<and> length (filter (\<lambda>l. l = Resolve env) ls) = n"
proof (induction n)
  case 0
  show ?case by (intro exI [of _ "[]"] exI [of _ s]) (simp add: assms)
next
  case (Suc n)
  then obtain ls s' where s': "shell_run tr home sock ls s = Some s'" "conn_state s' = reconnecting (i + n)" "\<not> sh_exited s'"
      "list_all undisturbed ls" "length (filter (\<lambda>l. l = Resolve env) ls) = n"
    by blast
  have "conn_run_all sock (reconnect_round env (i + n)) (conn_state s') = Some (reconnecting (i + Suc n))"
    using reconnect_round_run [OF assms(1), of sock "i + n"] s'(2) by simp
  from conn_run_sim [OF this s'(3)] obtain s'' where
      "shell_run tr home sock (reconnect_round env (i + n)) s' = Some s''" "conn_state s'' = reconnecting (i + Suc n)" "\<not> sh_exited s''"
    by blast
  moreover have "list_all undisturbed (reconnect_round env (i + n))" "length (filter (\<lambda>l. l = Resolve env) (reconnect_round env (i + n))) = 1"
    by (simp_all add: reconnect_round_def undisturbed_def assms(1))
  ultimately show ?case
    using s' by (intro exI [of _ "ls @ reconnect_round env (i + n)"] exI [of _ s'']) (simp add: shell_run_append)
qed

definition second_start :: "spawn_env \<Rightarrow> shell_label list" where
  "second_start env = [Resolve env, Handle, Put_Receiver, Take_Lock, Handle, From_User (message_for_menu_id ''daemon_status''), Handle,
     Resolve env, Handle, Superseded 0, End_Of_Events, Put_Receiver, Take_Lock, Handle, Handle]"

lemma second_start_run:
  assumes "iced_init senv tenv tr dir files = (start, files')" "reachable_daemon env"
  shows "\<exists>s. shell_run tr home sock (second_start env) (start_shell start) = Some s \<and> conn_state s = reconnecting 1 \<and> \<not> sh_exited s"
proof -
  have c: "conn_state (start_shell start) = \<lparr>cs_rx = None, cs_locked = False, cs_attempts = [0], cs_moves = [], cs_inbox = [], cs_open = [], cs_next = 0,
      cs_link = (None, False, True)\<rparr>" "\<not> sh_exited (start_shell start)"
    using assms(1) by (auto simp: iced_init_def start_shell_def conn_state_def link_def default_app_def disconnected_def Let_def split: prod.splits)
  have "conn_run_all sock (second_start env) (conn_state (start_shell start)) = Some (reconnecting 1)"
    by (simp add: c second_start_def reachable_daemon_connects [OF assms(2)] reconnecting_def message_for_menu_id_def)
  from conn_run_sim [OF this c(2)] show ?thesis by blast
qed

subsection \<open>Giving up\<close>

text \<open>
  Not connected, nothing under way and nothing waiting that could change this. Only a click on the status item of the tray leads out of such a state, so
  where there is no tray the program stays without the daemon after one failed attempt.
\<close>

definition given_up :: "gui_shell \<Rightarrow> bool" where
  "given_up s \<longleftrightarrow> in_flight s = 0 \<and> listening s = [] \<and> ends_waiting s = 0 \<and> StartDaemon \<notin> set (sh_inbox s) \<and> \<not> ga_daemon_connecting (app_of s)"

lemma failed_attempt_gives_up:
  assumes "wf_attempts s" "wf_connection s" "sh_inbox s = [DaemonConnected None]" "shell_step tr home sock Handle s = Some s'"
  shows "given_up s' \<and> \<not> ga_daemon_running (app_of s')"
  using assms by (auto simp: given_up_def wf_shell_defs iced_update_def on_connected_def sync_tray_def of_bool_def Let_def split: if_splits option.splits)

lemma given_up_step:
  assumes "shell_step tr home sock l s = Some s'" "given_up s" "l \<noteq> From_User StartDaemon"
  shows "given_up s'"
proof (cases l)
  case Handle
  then obtain m ms t app where h: "sh_inbox s = m # ms" "iced_update tr home m (app_of s) = (app, t)"
      "s' = launch t (s\<lparr>sh_iced := (sh_iced s)\<lparr>ia_app := app\<rparr>, sh_inbox := ms\<rparr>)"
    using handle_cases assms(1) by metis
  with assms(2) have m: "\<not> is_connect_result m" "m \<noteq> DaemonDisconnected" "m \<noteq> StartDaemon"
    by (auto simp: given_up_def in_flight_def ends_waiting_def)
  obtain t' where t: "t = App_Task t'" "link app = link (app_of s)" using iced_update_other [OF h(2) m(2,3,1)] by blast
  moreover have "StartDaemon \<notin> set (sh_inbox s')" using assms(2) h(1,3) t(1) by (cases t') (auto simp: given_up_def)
  ultimately show ?thesis using assms(2) h by (simp add: given_up_def in_flight_def ends_waiting_def listening_def link_def)
next
  case (From_User m)
  with assms user_message_not [of m] show ?thesis by (auto simp: given_up_def in_flight_def ends_waiting_def split: if_splits)
qed (use assms in \<open>auto simp: given_up_def in_flight_def ends_waiting_def listening_def next_message_def split: list.splits option.splits if_splits\<close>)

theorem no_restart_without_tray:
  "gui_reachable tr home sock (\<lambda>l _. l \<noteq> From_User StartDaemon) s\<^sub>0 s \<Longrightarrow> given_up s\<^sub>0 \<Longrightarrow> given_up s"
  by (induction rule: gui_reachable.induct) (use given_up_step in blast)+

section \<open>Properties\<close>

text \<open>
  C18: The states of the process are well-formed. In every state the GUI can reach, whatever the user, the daemon and the system do, there is exactly one
  connect attempt whose result has not been handled if the program has marked one as being under way, and none otherwise. If starting the daemon is not asked for while it runs,
  the program listens to exactly one connection, or still has to hear of its end, while it counts the daemon as running, and to none otherwise; it
  is the connection on which the program sends its commands; and no attempt is under way while the daemon counts as running.
\<close>

theorem gui_connections_wellformed:
  assumes "iced_init env tenv tr dir files = (start, files')" "gui_reachable tr home sock ok (start_shell start) s"
  shows "let app = ia_app (sh_iced s) in
    in_flight s = of_bool (ga_daemon_connecting app) \<and>
    ((\<forall>l s. ok l s \<longrightarrow> tame l s) \<longrightarrow>
       length (listening s) + ends_waiting s = of_bool (ga_daemon_running app) \<and>
       (\<forall>i \<in> set (listening s). dc_id (ga_daemon app) = Some i) \<and>
       \<not> (ga_daemon_connecting app \<and> ga_daemon_running app))"
proof -
  have "wf_attempts s" "(\<forall>l s. ok l s \<longrightarrow> tame l s) \<longrightarrow> wf_connection s"
    using gui_reachable_wf [OF assms(2)] start_shell_wf [OF assms(1)] by blast+
  then show ?thesis unfolding Let_def wf_attempts_def wf_connection_def by blast
qed

definition sample_settings :: settings_env where
  "sample_settings = \<lparr>se_from_toml = \<lambda>_. Inl ''bad'', se_to_toml = \<lambda>_. Inr ''t'', se_mkdir_error = None, se_write_error = None, se_locale = Some ''de-AT''\<rparr>"

definition sample_tray :: tray_env where
  "sample_tray = \<lparr>te_platform = Tray_Linux, te_icon_error = None, te_gtk_error = None, te_append_error = \<lambda>_. None, te_build_error = None\<rparr>"

definition sample_spawn :: spawn_env where
  "sample_spawn = \<lparr>sp_refused = \<lambda>_. None, sp_exe = Inr ''/usr/bin/ocsync'', sp_exists = \<lambda>_. True, sp_log_dir = ''/c'', sp_log_error = None,
     sp_clone_error = None, sp_child = Inr 7, sp_renamed = True, sp_connect_error = None, sp_subscribe_error = None\<rparr>"

lemma reachable_sample_spawn: "reachable_daemon sample_spawn"
  by (simp add: reachable_daemon_def sample_spawn_def)

theorem gui_connections_wellformed_witness:
  "\<exists>s. gui_reachable (\<lambda>_. id) None ''/s'' tame (start_shell (fst (iced_init sample_settings sample_tray (\<lambda>_. id) ''/c'' Map.empty))) s \<and>
     length (sh_moves s) = 1 \<and> ga_daemon_running (ia_app (sh_iced s)) \<and> length (listening s) + ends_waiting s = 1 \<and> in_flight s = 0"
proof -
  let ?i = "iced_init sample_settings sample_tray (\<lambda>_. id) ''/c'' Map.empty"
  let ?s = "start_shell (fst ?i)"
  let ?st = "shell_step (\<lambda>_. id) None ''/s''"
  have c: "conn_state ?s = \<lparr>cs_rx = None, cs_locked = False, cs_attempts = [0], cs_moves = [], cs_inbox = [], cs_open = [], cs_next = 0,
      cs_link = (None, False, True)\<rparr>" "\<not> sh_exited ?s"
    by (simp_all add: iced_init_def start_shell_def conn_state_def link_def default_app_def disconnected_def Let_def split: prod.splits)
  have "conn_next ''/s'' (Resolve sample_spawn) (conn_state ?s) \<noteq> None"
    by (simp add: c(1) reachable_daemon_connects [OF reachable_sample_spawn])
  then obtain c1 where c1: "conn_next ''/s'' (Resolve sample_spawn) (conn_state ?s) = Some c1" by blast
  from conn_next_sim [OF c1 c(2)] obtain s1 where s1: "?st (Resolve sample_spawn) ?s = Some s1" "conn_state s1 = c1" "\<not> sh_exited s1" by blast
  have "conn_next ''/s'' Handle c1 \<noteq> None"
    using c1 by (auto simp: c(1) reachable_daemon_connects [OF reachable_sample_spawn])
  then obtain c2 where c2: "conn_next ''/s'' Handle c1 = Some c2" by blast
  from conn_next_sim [of "''/s''" Handle s1 c2] c2 s1(2,3) obtain s2 where s2: "?st Handle s1 = Some s2" "conn_state s2 = c2" by blast
  have m: "sh_inbox s1 = [DaemonConnected (Some (\<lparr>dc_id = Some 0, dc_open = True, dc_queue = []\<rparr>, 0))]"
    using arg_cong [OF s1(2), of cs_inbox] c1 unfolding c(1) by (auto simp: conn_state_def reachable_daemon_connects [OF reachable_sample_spawn])
  have c2': "cs_moves c2 = [0]" "cs_link c2 = (Some 0, True, False)"
    using c1 c2 unfolding c(1) by (auto simp: reachable_daemon_connects [OF reachable_sample_spawn])
  have r: "gui_reachable (\<lambda>_. id) None ''/s'' tame ?s s2"
    by (rule gui_next [OF gui_next [OF gui_start c(2) _ s1(1)] s1(3) _ s2(1)]) (simp_all add: tame_def m)
  from gui_connections_wellformed [OF prod.collapse [symmetric, of ?i] r] arg_cong [OF s2(2), of cs_moves] arg_cong [OF s2(2), of cs_link] c2' r show ?thesis
    by (intro exI [of _ s2]) (auto simp: Let_def conn_state_def link_def)
qed

text \<open>
  One click too many makes the GUI reconnect for ever. If the user asks to start the daemon right after the GUI has connected, while the tray still shows it as stopped, a
  second connection replaces the first; its end is then taken for the end of the daemon. With a daemon that runs and answers all the time, and no further act of
  the user, the GUI can then reconnect any number of times, each time replacing the connection it has, and at the end of each round it counts the daemon as stopped although it is connected.
\<close>

theorem endless_reconnect:
  assumes "iced_init senv tenv tr dir files = (start, files')" "reachable_daemon env"
  shows "\<exists>s. shell_run tr home sock (second_start env) (start_shell start) = Some s \<and>
    filter (\<lambda>l. \<not> undisturbed l) (second_start env) = [From_User StartDaemon] \<and>
    (\<forall>n. \<exists>ls s'. shell_run tr home sock ls s = Some s' \<and> list_all undisturbed ls \<and> length (filter (\<lambda>l. l = Resolve env) ls) = n \<and>
       sh_open s' = [n + 1] \<and> ia_event_rx (sh_iced s') = Some (n + 1) \<and> \<not> ga_daemon_running (ia_app (sh_iced s')) \<and> sh_attempts s' = [2000])"
proof -
  obtain s where s: "shell_run tr home sock (second_start env) (start_shell start) = Some s" "conn_state s = reconnecting 1" "\<not> sh_exited s"
    using second_start_run [OF assms] by blast
  have "\<exists>ls s'. shell_run tr home sock ls s = Some s' \<and> list_all undisturbed ls \<and> length (filter (\<lambda>l. l = Resolve env) ls) = n \<and>
       sh_open s' = [n + 1] \<and> ia_event_rx (sh_iced s') = Some (n + 1) \<and> \<not> ga_daemon_running (ia_app (sh_iced s')) \<and> sh_attempts s' = [2000]" for n
  proof -
    obtain ls s' where r: "shell_run tr home sock ls s = Some s'" "list_all undisturbed ls" "length (filter (\<lambda>l. l = Resolve env) ls) = n"
        "conn_state s' = reconnecting (1 + n)"
      using reconnect_rounds [OF assms(2) s(2,3)] by blast
    then show ?thesis
      by (intro exI [of _ ls] exI [of _ s']) (simp add: conn_state_def reconnecting_def link_def)
  qed
  moreover have "filter (\<lambda>l. \<not> undisturbed l) (second_start env) = [From_User StartDaemon]"
    using assms(2) by (simp add: second_start_def undisturbed_def message_for_menu_id_def)
  ultimately show ?thesis using s(1) by blast
qed

theorem endless_reconnect_witness:
  "\<exists>s ls s'. shell_run (\<lambda>_. id) None ''/s'' (second_start sample_spawn)
       (start_shell (fst (iced_init sample_settings sample_tray (\<lambda>_. id) ''/c'' Map.empty))) = Some s \<and>
     shell_run (\<lambda>_. id) None ''/s'' ls s = Some s' \<and> list_all undisturbed ls \<and> sh_open s' = [1001] \<and> \<not> ga_daemon_running (ia_app (sh_iced s'))"
proof -
  let ?i = "iced_init sample_settings sample_tray (\<lambda>_. id) ''/c'' Map.empty"
  from endless_reconnect [OF prod.collapse [symmetric, of ?i] reachable_sample_spawn, of None "''/s''"]
  obtain s where s: "shell_run (\<lambda>_. id) None ''/s'' (second_start sample_spawn) (start_shell (fst ?i)) = Some s"
      "\<exists>ls s'. shell_run (\<lambda>_. id) None ''/s'' ls s = Some s' \<and> list_all undisturbed ls \<and> length (filter (\<lambda>l. l = Resolve sample_spawn) ls) = 1000 \<and>
       sh_open s' = [1000 + 1] \<and> ia_event_rx (sh_iced s') = Some (1000 + 1) \<and> \<not> ga_daemon_running (ia_app (sh_iced s')) \<and> sh_attempts s' = [2000]"
    by meson
  then show ?thesis by auto
qed

end
