(* ===== verification/Vfs.thy ===== *)
theory Vfs
  imports SyncTypes
begin

text \<open>
  Virtual files: the interface (\<open>crates/vfs-core/src/lib.rs\<close>) and the backend that does nothing
  (\<open>crates/vfs-off/src/lib.rs\<close>). A backend is a record of its operations on a state of its own; the
  backends for Windows and macOS are in \<open>VfsWin\<close> and \<open>VfsMac\<close>.
\<close>

record VfsFileItem =
  vi_path :: string
  vi_size :: u64
  vi_etag :: string
  vi_file_id :: string
  vi_last_modified :: system_time

datatype VfsStatus = Full | Placeholder | Vfs_Syncing

datatype VfsError = Vfs_Io string | NotSupported | NotFound string | Backend string

fun show_VfsError :: "VfsError \<Rightarrow> string" where
  "show_VfsError (Vfs_Io e) = ''I/O error: '' @ e"
| "show_VfsError NotSupported = ''VFS operation not supported on this platform''"
| "show_VfsError (NotFound p) = ''Path not found: '' @ p"
| "show_VfsError (Backend e) = ''VFS backend error: '' @ e"

record 'v vfs =
  create_placeholder :: "VfsFileItem \<Rightarrow> 'v \<Rightarrow> (VfsError + unit) \<times> 'v"
  update_placeholder :: "VfsFileItem \<Rightarrow> 'v \<Rightarrow> (VfsError + unit) \<times> 'v"
  hydrate :: "string \<Rightarrow> 'v \<Rightarrow> (VfsError + unit) \<times> 'v"
  dehydrate :: "string \<Rightarrow> 'v \<Rightarrow> (VfsError + unit) \<times> 'v"
  is_virtual :: "string \<Rightarrow> 'v \<Rightarrow> (VfsError + bool) \<times> 'v"
  vfs_status :: "string \<Rightarrow> 'v \<Rightarrow> (VfsError + VfsStatus) \<times> 'v"
  set_pinned :: "string \<Rightarrow> bool \<Rightarrow> 'v \<Rightarrow> (VfsError + unit) \<times> 'v"

definition VfsOff :: "'v vfs" where
  "VfsOff = \<lparr>create_placeholder = \<lambda>_. Pair (Inr ()), update_placeholder = \<lambda>_. Pair (Inr ()), hydrate = \<lambda>_. Pair (Inr ()),
     dehydrate = \<lambda>_. Pair (Inr ()), is_virtual = \<lambda>_. Pair (Inr False), vfs_status = \<lambda>_. Pair (Inr Full), set_pinned = \<lambda>_ _. Pair (Inr ())\<rparr>"

text \<open>A call of the interface as a value, and the state of the backend after it.\<close>

datatype vfs_call =
    Call_Create VfsFileItem
  | Call_Update VfsFileItem
  | Call_Hydrate string
  | Call_Dehydrate string
  | Call_Is_Virtual string
  | Call_Status string
  | Call_Set_Pinned string bool

fun vfs_exec :: "'v vfs \<Rightarrow> vfs_call \<Rightarrow> 'v \<Rightarrow> 'v" where
  "vfs_exec b (Call_Create item) w = snd (create_placeholder b item w)"
| "vfs_exec b (Call_Update item) w = snd (update_placeholder b item w)"
| "vfs_exec b (Call_Hydrate path) w = snd (hydrate b path w)"
| "vfs_exec b (Call_Dehydrate path) w = snd (dehydrate b path w)"
| "vfs_exec b (Call_Is_Virtual path) w = snd (is_virtual b path w)"
| "vfs_exec b (Call_Status path) w = snd (vfs_status b path w)"
| "vfs_exec b (Call_Set_Pinned path pinned) w = snd (set_pinned b path pinned w)"

end
