(* ===== verification/SocketApi.thy ===== *)
theory SocketApi
  imports Vfs StdStr
begin

text \<open>
  The socket the file manager extensions talk to (\<open>crates/socket-api/src\<close>): the line protocol
  (\<open>protocol.rs\<close>), the status of files and folders (\<open>status_resolver.rs\<close>), the broadcasts (\<open>broadcast.rs\<close>), the commands
  (\<open>commands/\<close>) and the connection (\<open>server.rs\<close>).
\<close>

section \<open>The protocol (\<open>protocol.rs\<close>, \<open>error.rs\<close>)\<close>

definition FIELD_SEP :: char where
  "FIELD_SEP = CHR 0x1E"

datatype Command =
    Version
  | GetStrings
  | GetMenuItems string
  | RetrieveFileStatus string
  | RetrieveFolderStatus string
  | Share string
  | MakeAvailableLocally "string list"
  | MakeOnlineOnly "string list"
  | CopyPrivateLink string
  | V2 string string

datatype SocketApiError = Socket_Io string | Transport string | Protocol string | Socket_Vfs VfsError

text \<open>\<open>dbg\<close> prints a string with \<open>{:?}\<close>.\<close>

definition need_args :: "string \<Rightarrow> string \<Rightarrow> string \<Rightarrow> (string \<Rightarrow> Command) \<Rightarrow> SocketApiError + Command" where
  "need_args name what args c = (if args = [] then Inl (Protocol (name @ '' requires '' @ what)) else Inr (c args))"

definition parse_command :: "(string \<Rightarrow> string) \<Rightarrow> string \<Rightarrow> SocketApiError + Command" where
  "parse_command dbg line =
     (if line = [] then Inl (Protocol ''empty command line'')
      else case strip_prefix_str ''V2/'' line of
        Some rest \<Rightarrow> Inr (V2 rest [])
      | None \<Rightarrow>
          (let (cmd, args) = (case split_once CHR '':'' line of Some ca \<Rightarrow> ca | None \<Rightarrow> (line, []))
           in if cmd = ''VERSION'' then Inr Version
              else if cmd = ''GET_STRINGS'' then Inr GetStrings
              else if cmd = ''GET_MENU_ITEMS'' then need_args cmd ''a non-empty path argument'' args GetMenuItems
              else if cmd = ''RETRIEVE_FILE_STATUS'' then need_args cmd ''a path argument'' args RetrieveFileStatus
              else if cmd = ''RETRIEVE_FOLDER_STATUS'' then need_args cmd ''a path argument'' args RetrieveFolderStatus
              else if cmd = ''SHARE'' then need_args cmd ''a path argument'' args Share
              else if cmd = ''MAKE_AVAILABLE_LOCALLY'' then
                need_args cmd ''at least one path argument'' args (\<lambda>a. MakeAvailableLocally (split_on FIELD_SEP a))
              else if cmd = ''MAKE_ONLINE_ONLY'' then
                need_args cmd ''at least one path argument'' args (\<lambda>a. MakeOnlineOnly (split_on FIELD_SEP a))
              else if cmd = ''COPY_PRIVATE_LINK'' then need_args cmd ''a path argument'' args CopyPrivateLink
              else Inl (Protocol (''unknown command: '' @ dbg cmd))))"

abbreviation nl :: string where
  "nl \<equiv> [CHR 0x0A]"

definition format_response :: "string \<Rightarrow> string list \<Rightarrow> string" where
  "format_response cmd parts = (if parts = [] then cmd @ nl else cmd @ '':'' @ join_on '':'' parts @ nl)"

section \<open>Status of files and folders (\<open>status_resolver.rs\<close>)\<close>

record StatusResolver =
  sr_states :: "uuid \<rightharpoonup> SyncState"
  sr_roots :: "(string \<times> uuid) list"

text \<open>\<open>max_by_key\<close>: the last of the longest roots.\<close>

definition find_folder_for_path :: "string \<Rightarrow> StatusResolver \<Rightarrow> uuid option" where
  "find_folder_for_path path r =
     map_option snd (foldl (\<lambda>best e. case best of None \<Rightarrow> Some e | Some b \<Rightarrow> if length (fst b) \<le> length (fst e) then Some e else Some b) None
       (filter (\<lambda>(root, _). starts_with_path path root) (sr_roots r)))"

fun status_tag :: "FileStatus \<Rightarrow> string" where
  "status_tag File_Ok = ''OK''"
| "status_tag File_Syncing = ''SYNC''"
| "status_tag (File_Error _) = ''ERROR''"
| "status_tag File_Excluded = ''EXCLUDED''"

definition resolve_file :: "string \<Rightarrow> StatusResolver \<Rightarrow> string" where
  "resolve_file path r =
     (case find_folder_for_path path r of
        None \<Rightarrow> ''NONE''
      | Some folder_id \<Rightarrow>
          (case sr_states r folder_id of
             None \<Rightarrow> ''NONE''
           | Some state \<Rightarrow> (case st_file_statuses state (components path) of None \<Rightarrow> ''OK'' | Some s \<Rightarrow> status_tag s)))"

definition priority :: "string \<Rightarrow> nat" where
  "priority s = (if s = ''ERROR'' then 3 else if s = ''SYNC'' then 2 else if s = ''EXCLUDED'' then 1 else 0)"

definition worse_status :: "string \<Rightarrow> string \<Rightarrow> string" where
  "worse_status a b = (if priority a < priority b then b else a)"

text \<open>\<open>order\<close> is the iteration order of the status map.\<close>

definition resolve_folder :: "path_key list \<Rightarrow> string \<Rightarrow> StatusResolver \<Rightarrow> string" where
  "resolve_folder order path r =
     (case find_folder_for_path path r of
        None \<Rightarrow> ''NONE''
      | Some folder_id \<Rightarrow>
          (case sr_states r folder_id of
             None \<Rightarrow> ''NONE''
           | Some state \<Rightarrow>
               foldl (\<lambda>worst k. case st_file_statuses state k of
                        None \<Rightarrow> worst
                      | Some s \<Rightarrow> if prefix (components path) k then worse_status worst (status_tag s) else worst) ''OK'' order))"

section \<open>Broadcasts (\<open>broadcast.rs\<close>)\<close>

text \<open>
  A connection with the messages queued for its writer; \<open>ch_closed\<close> is set once the receiver is gone. A
  \<open>send\<close> waits for room in the queue and then appends.
\<close>

record ConnectionHandle =
  ch_id :: uuid
  ch_queue :: "string list"
  ch_closed :: bool

type_synonym BroadcastSender = "ConnectionHandle list"

definition add_connection :: "uuid \<Rightarrow> BroadcastSender \<Rightarrow> BroadcastSender" where
  "add_connection i cs = cs @ [\<lparr>ch_id = i, ch_queue = [], ch_closed = False\<rparr>]"

definition remove_connection :: "uuid \<Rightarrow> BroadcastSender \<Rightarrow> BroadcastSender" where
  "remove_connection i cs = filter (\<lambda>h. ch_id h \<noteq> i) cs"

definition send_all :: "string \<Rightarrow> BroadcastSender \<Rightarrow> BroadcastSender" where
  "send_all msg cs =
     (let dead_ids = map ch_id (filter ch_closed cs)
      in filter (\<lambda>h. ch_id h \<notin> set dead_ids) (map (\<lambda>h. if ch_closed h then h else h\<lparr>ch_queue := ch_queue h @ [msg]\<rparr>) cs))"

definition register_path :: "string \<Rightarrow> BroadcastSender \<Rightarrow> BroadcastSender" where
  "register_path path = send_all (''REGISTER_PATH:'' @ path @ nl)"

definition unregister_path :: "string \<Rightarrow> BroadcastSender \<Rightarrow> BroadcastSender" where
  "unregister_path path = send_all (''UNREGISTER_PATH:'' @ path @ nl)"

definition status_changed :: "string \<Rightarrow> string \<Rightarrow> BroadcastSender \<Rightarrow> BroadcastSender" where
  "status_changed tag path = send_all (''STATUS:'' @ tag @ '':'' @ path @ nl)"

definition update_view :: "string \<Rightarrow> BroadcastSender \<Rightarrow> BroadcastSender" where
  "update_view path = send_all (''UPDATE_VIEW:'' @ path @ nl)"

section \<open>Commands (\<open>commands/\<close>)\<close>

definition handle_get_strings :: string where
  "handle_get_strings = ''GET_STRINGS:'' @ join_on [FIELD_SEP] (map (\<lambda>(k, v). k @ '':'' @ v)
     [(''SHARE_MENU_TITLE'', ''Share''), (''COPY_LINK'', ''Copy link''), (''MAKE_AVAILABLE'', ''Make available locally''),
      (''MAKE_ONLINE_ONLY'', ''Make online only''), (''OPEN_PRIVATE_LINK'', ''Open in browser'')]) @ nl"

definition handle_get_menu_items :: "string \<Rightarrow> StatusResolver \<Rightarrow> string" where
  "handle_get_menu_items path r =
     (if find_folder_for_path path r = None then ''GET_MENU_ITEMS:'' @ path @ nl
      else ''GET_MENU_ITEMS:'' @ path @ concat (map (\<lambda>item. FIELD_SEP # item)
        [''Share:SHARE:enabled'', ''Copy link:COPY_PRIVATE_LINK:enabled'', ''Make available locally:MAKE_AVAILABLE_LOCALLY:enabled'',
         ''Make online only:MAKE_ONLINE_ONLY:enabled'']) @ nl)"

definition handle_retrieve_file_status :: "string \<Rightarrow> StatusResolver \<Rightarrow> string" where
  "handle_retrieve_file_status path r = format_response ''STATUS'' [resolve_file path r, path]"

definition handle_retrieve_folder_status :: "path_key list \<Rightarrow> string \<Rightarrow> StatusResolver \<Rightarrow> string" where
  "handle_retrieve_folder_status order path r = format_response ''STATUS'' [resolve_folder order path r, path]"

definition handle_share :: "string \<Rightarrow> string" where
  "handle_share path = ''SHARE:OK:'' @ path @ nl"

definition handle_copy_private_link :: "string \<Rightarrow> string" where
  "handle_copy_private_link path = ''COPY_PRIVATE_LINK:OK:'' @ path @ nl"

text \<open>
  The loop of \<open>handle_make_available_locally\<close> and \<open>handle_make_online_only\<close>, with the operation of the
  backend it calls for each path: whether an error occurred, and the state of backend and connections.
\<close>

fun vfs_each :: "(string \<Rightarrow> 'v \<Rightarrow> (VfsError + unit) \<times> 'v) \<Rightarrow> string list \<Rightarrow> bool \<Rightarrow> BroadcastSender \<times> 'v \<Rightarrow> bool \<times> BroadcastSender \<times> 'v" where
  "vfs_each f [] had_error (cs, v) = (had_error, cs, v)"
| "vfs_each f (path # paths) had_error (cs, v) =
     (case f path v of
        (Inr _, v') \<Rightarrow> vfs_each f paths had_error (status_changed ''OK'' path cs, v')
      | (Inl _, v') \<Rightarrow> vfs_each f paths True (status_changed ''ERROR'' path cs, v'))"

definition handle_make_available_locally :: "string list \<Rightarrow> 'v vfs \<Rightarrow> BroadcastSender \<times> 'v \<Rightarrow> string \<times> BroadcastSender \<times> 'v" where
  "handle_make_available_locally paths vf s =
     (case vfs_each (hydrate vf) paths False s of
        (had_error, s') \<Rightarrow> ((if had_error then ''MAKE_AVAILABLE_LOCALLY:ERROR'' else ''MAKE_AVAILABLE_LOCALLY:OK'') @ nl, s'))"

definition handle_make_online_only :: "string list \<Rightarrow> 'v vfs \<Rightarrow> BroadcastSender \<times> 'v \<Rightarrow> string \<times> BroadcastSender \<times> 'v" where
  "handle_make_online_only paths vf s =
     (case vfs_each (dehydrate vf) paths False s of
        (had_error, s') \<Rightarrow> ((if had_error then ''MAKE_ONLINE_ONLY:ERROR'' else ''MAKE_ONLINE_ONLY:OK'') @ nl, s'))"

text \<open>\<open>json_id\<close> is the string field \<open>id\<close> of a JSON text, if there is one, \<open>json_icon\<close> prints the answer.\<close>

definition handle_v2_get_client_icon :: "(string \<Rightarrow> string option) \<Rightarrow> (string \<Rightarrow> string) \<Rightarrow> string \<Rightarrow> string" where
  "handle_v2_get_client_icon json_id json_icon body =
     ''V2/GET_CLIENT_ICON'' @ nl @ json_icon (case json_id body of Some i \<Rightarrow> i | None \<Rightarrow> ''unknown'') @ nl"

section \<open>The connection (\<open>server.rs\<close>)\<close>

record 'v socket_env =
  se_debug :: "string \<Rightarrow> string"
  se_json_id :: "string \<Rightarrow> string option"
  se_json_icon :: "string \<Rightarrow> string"
  se_vfs :: "'v vfs"
  se_order :: "path_key list"

definition dispatch_line :: "'v socket_env \<Rightarrow> StatusResolver \<Rightarrow> string \<Rightarrow> BroadcastSender \<times> 'v \<Rightarrow> string option \<times> BroadcastSender \<times> 'v" where
  "dispatch_line env r line s =
     (case parse_command (se_debug env) line of
        Inl _ \<Rightarrow> (None, s)
      | Inr Version \<Rightarrow> (Some (''VERSION:1.1'' @ nl), s)
      | Inr GetStrings \<Rightarrow> (Some handle_get_strings, s)
      | Inr (GetMenuItems path) \<Rightarrow> (Some (handle_get_menu_items path r), s)
      | Inr (RetrieveFileStatus path) \<Rightarrow> (Some (handle_retrieve_file_status path r), s)
      | Inr (RetrieveFolderStatus path) \<Rightarrow> (Some (handle_retrieve_folder_status (se_order env) path r), s)
      | Inr (Share path) \<Rightarrow> (Some (handle_share path), s)
      | Inr (CopyPrivateLink path) \<Rightarrow> (Some (handle_copy_private_link path), s)
      | Inr (MakeAvailableLocally paths) \<Rightarrow> apfst Some (handle_make_available_locally paths (se_vfs env) s)
      | Inr (MakeOnlineOnly paths) \<Rightarrow> apfst Some (handle_make_online_only paths (se_vfs env) s)
      | Inr (V2 name body) \<Rightarrow>
          (if name = ''GET_CLIENT_ICON'' then (Some (handle_v2_get_client_icon (se_json_id env) (se_json_icon env) body), s) else (None, s)))"

text \<open>
  The read loop on what the peer sends until it closes: the lines, the answers in order. A line that is
  not valid UTF-8 ends the connection. \<open>ok\<close> tells for each answer whether it could be written.
\<close>

fun serve_lines :: "'v socket_env \<Rightarrow> StatusResolver \<Rightarrow> (nat \<Rightarrow> bool) \<Rightarrow> string list \<Rightarrow> string list \<Rightarrow> BroadcastSender \<times> 'v
    \<Rightarrow> string list \<times> BroadcastSender \<times> 'v" where
  "serve_lines env r ok [] out s = (out, s)"
| "serve_lines env r ok (line # rest) out s =
     (if \<not> valid_utf8 line then (out, s)
      else let trimmed = trim_end_matches (CHR 0x0D) line in
        if trimmed = [] then serve_lines env r ok rest out s
        else (case dispatch_line env r trimmed s of
                (None, s') \<Rightarrow> serve_lines env r ok rest out s'
              | (Some response, s') \<Rightarrow>
                  if ok (length out) then serve_lines env r ok rest (out @ [response]) s' else (out, s')))"

text \<open>
  A connection from its registration to its removal: the greeting, one line per root up to the first
  failure, and the answers. What is broadcast in the meantime is queued for the connection and written by its own task.
\<close>

definition register_msgs :: "StatusResolver \<Rightarrow> string list" where
  "register_msgs r = map (\<lambda>(root, _). ''REGISTER_PATH:'' @ root @ nl) (sr_roots r)"

definition handle_connection :: "'v socket_env \<Rightarrow> StatusResolver \<Rightarrow> uuid \<Rightarrow> (nat \<Rightarrow> bool) \<Rightarrow> string \<Rightarrow> BroadcastSender \<times> 'v
    \<Rightarrow> string list \<times> BroadcastSender \<times> 'v" where
  "handle_connection env r conn_id ok input s =
     (let greeting = take (length (takeWhile ok [0..<length (sr_roots r)])) (register_msgs r)
      in case serve_lines env r ok (split_on (CHR 0x0A) input) greeting (add_connection conn_id (fst s), snd s) of
           (out, cs, v) \<Rightarrow> (out, remove_connection conn_id cs, v))"

section \<open>Lemmas\<close>

text \<open>The line that asks for a command, and the commands that can be asked for.\<close>

fun print_command :: "Command \<Rightarrow> string" where
  "print_command Version = ''VERSION:''"
| "print_command GetStrings = ''GET_STRINGS:''"
| "print_command (GetMenuItems path) = ''GET_MENU_ITEMS:'' @ path"
| "print_command (RetrieveFileStatus path) = ''RETRIEVE_FILE_STATUS:'' @ path"
| "print_command (RetrieveFolderStatus path) = ''RETRIEVE_FOLDER_STATUS:'' @ path"
| "print_command (Share path) = ''SHARE:'' @ path"
| "print_command (MakeAvailableLocally paths) = ''MAKE_AVAILABLE_LOCALLY:'' @ join_on [FIELD_SEP] paths"
| "print_command (MakeOnlineOnly paths) = ''MAKE_ONLINE_ONLY:'' @ join_on [FIELD_SEP] paths"
| "print_command (CopyPrivateLink path) = ''COPY_PRIVATE_LINK:'' @ path"
| "print_command (V2 name body) = ''V2/'' @ name"

definition wf_paths :: "string list \<Rightarrow> bool" where
  "wf_paths paths \<longleftrightarrow> paths \<noteq> [] \<and> paths \<noteq> [[]] \<and> list_all (\<lambda>p. FIELD_SEP \<notin> set p) paths"

fun wf_command :: "Command \<Rightarrow> bool" where
  "wf_command Version \<longleftrightarrow> True"
| "wf_command GetStrings \<longleftrightarrow> True"
| "wf_command (GetMenuItems path) \<longleftrightarrow> path \<noteq> []"
| "wf_command (RetrieveFileStatus path) \<longleftrightarrow> path \<noteq> []"
| "wf_command (RetrieveFolderStatus path) \<longleftrightarrow> path \<noteq> []"
| "wf_command (Share path) \<longleftrightarrow> path \<noteq> []"
| "wf_command (MakeAvailableLocally paths) \<longleftrightarrow> wf_paths paths"
| "wf_command (MakeOnlineOnly paths) \<longleftrightarrow> wf_paths paths"
| "wf_command (CopyPrivateLink path) \<longleftrightarrow> path \<noteq> []"
| "wf_command (V2 name body) \<longleftrightarrow> body = []"

lemma wf_paths_join:
  assumes "wf_paths paths"
  shows "join_on [FIELD_SEP] paths \<noteq> []" "split_on FIELD_SEP (join_on [FIELD_SEP] paths) = paths"
proof -
  show s: "split_on FIELD_SEP (join_on [FIELD_SEP] paths) = paths"
    using assms by (intro split_join_on) (auto simp: wf_paths_def list_all_iff)
  show "join_on [FIELD_SEP] paths \<noteq> []"
  proof
    assume "join_on [FIELD_SEP] paths = []"
    then have "split_on FIELD_SEP [] = paths" using s by simp
    then show False using assms by (simp add: wf_paths_def)
  qed
qed

lemma split_wf_paths: "args \<noteq> [] \<Longrightarrow> wf_paths (split_on FIELD_SEP args)"
proof -
  assume "args \<noteq> []"
  then have "split_on FIELD_SEP args \<noteq> [[]]" using join_split_on [of FIELD_SEP args] by (metis join_on.simps(2))
  then show ?thesis using split_on_parts_absent by (force simp: wf_paths_def list_all_iff)
qed

section \<open>Properties\<close>

text \<open>
  C39: The line protocol loses nothing. Every command a client can ask for, that is with arguments that
  are not empty and paths without the field separator, is printed as a line that the server parses back to exactly this command; and
  every line the server accepts is parsed to such a command, never to one with a missing argument.
\<close>

theorem parse_print_command:
  "(wf_command c \<longrightarrow> parse_command dbg (print_command c) = Inr c) \<and> (parse_command dbg line = Inr c' \<longrightarrow> wf_command c')"
proof (intro conjI impI)
  assume wf: "wf_command c"
  show "parse_command dbg (print_command c) = Inr c"
    using wf wf_paths_join by (cases c) (simp_all add: parse_command_def need_args_def strip_prefix_str_def)
next
  assume "parse_command dbg line = Inr c'"
  then show "wf_command c'"
    by (auto simp: parse_command_def need_args_def Let_def split_wf_paths split: if_splits option.splits prod.splits)
qed

theorem parse_print_command_witness:
  "parse_command id (print_command (MakeOnlineOnly [''/a:b'', ''/c d''])) = Inr (MakeOnlineOnly [''/a:b'', ''/c d'']) \<and>
   wf_command (RetrieveFileStatus ''/x'')"
proof -
  have "wf_command (MakeOnlineOnly [''/a:b'', ''/c d''])" by code_simp
  moreover have "parse_command id ''RETRIEVE_FILE_STATUS:/x'' = Inr (RetrieveFileStatus ''/x'')" by code_simp
  ultimately show ?thesis using parse_print_command by blast
qed

end
