(* ===== verification/GuiServer.thy ===== *)
theory GuiServer
  imports GuiShell SocketApi
begin

text \<open>
  The two servers of the daemon with all their connections: the accept loop of \<open>GuiIpcServer\<close> (\<open>crates/daemon/src/gui_ipc/mod.rs\<close>),
  the tasks it spawns, the queue of commands in front of the main loop (\<open>main.rs\<close>), and the accept loop of \<open>SocketApiServer\<close>
  (\<open>crates/socket-api/src/server.rs\<close>). \<open>Ipc\<close> has one connection by itself; here it is shown that a connection of the server is such a connection.
\<close>

section \<open>Accepting\<close>

text \<open>One round of the accept loop; an error leaves the loop. On Windows a new instance of the pipe is created first.\<close>

definition gui_accept_unix :: "string option \<Rightarrow> string + unit" where
  "gui_accept_unix accept_error =
     (case accept_error of None \<Rightarrow> Inr () | Some e \<Rightarrow> Inl (''GUI IPC accept error: '' @ e))"

definition gui_accept_windows :: "string option \<Rightarrow> string option \<Rightarrow> string + unit" where
  "gui_accept_windows create_error connect_error =
     (case create_error of
        Some e \<Rightarrow> Inl (''GUI IPC named pipe create error: '' @ e)
      | None \<Rightarrow> (case connect_error of Some e \<Rightarrow> Inl (''GUI IPC accept error: '' @ e) | None \<Rightarrow> Inr ()))"

section \<open>The server of the GUI\<close>

text \<open>
  What has been broadcast, the connections in the order they were accepted, the queue of commands, each with the connection it
  came from, the commands that the main loop has taken, and whether the accept loop still runs.
\<close>

record GuiIpcServer =
  gs_log :: "DaemonEvent list"
  gs_conns :: "conn list"
  gs_queue :: "(nat \<times> DaemonCommand) list"
  gs_handled :: "(nat \<times> DaemonCommand) list"
  gs_listening :: bool

definition new_server :: GuiIpcServer where
  "new_server = \<lparr>gs_log = [], gs_conns = [], gs_queue = [], gs_handled = [], gs_listening = True\<rparr>"

definition server_broadcast :: "DaemonEvent \<Rightarrow> GuiIpcServer \<Rightarrow> GuiIpcServer" where
  "server_broadcast e s = s\<lparr>gs_log := gs_log s @ [e]\<rparr>"

definition CMD_CAPACITY :: nat where
  "CMD_CAPACITY = 64"

text \<open>The commands of a connection that have got into the queue; while some have not, its task waits in \<open>send\<close>.\<close>

definition from_conn :: "nat \<Rightarrow> GuiIpcServer \<Rightarrow> DaemonCommand list" where
  "from_conn i s = map snd (filter (\<lambda>(j, _). j = i) (gs_handled s @ gs_queue s))"

definition sending :: "nat \<Rightarrow> GuiIpcServer \<Rightarrow> bool" where
  "sending i s \<longleftrightarrow> length (from_conn i s) < length (co_commands (gs_conns s ! i))"

text \<open>
  What can happen next: the daemon broadcasts, a round of the accept loop ends, the task of a connection acts (with the snapshot it would get now),
  the command it waits with gets into the queue, the main loop takes a command.
\<close>

datatype server_label =
    Srv_Broadcast DaemonEvent
  | Srv_Accept "string + unit"
  | Srv_Conn nat DaemonEvent conn_event
  | Srv_Send nat
  | Srv_Take

fun is_broadcast :: "conn_event \<Rightarrow> bool" where
  "is_broadcast (Broadcast _) = True"
| "is_broadcast _ = False"

fun server_step :: "(string \<Rightarrow> string + DaemonCommand) \<Rightarrow> server_label \<Rightarrow> GuiIpcServer \<Rightarrow> GuiIpcServer option" where
  "server_step from_json (Srv_Broadcast e) s = Some (server_broadcast e s)"
| "server_step from_json (Srv_Accept r) s =
     (if gs_listening s
      then Some (case r of Inr _ \<Rightarrow> s\<lparr>gs_conns := gs_conns s @ [new_conn]\<rparr> | Inl _ \<Rightarrow> s\<lparr>gs_listening := False\<rparr>)
      else None)"
| "server_step from_json (Srv_Conn i snapshot ev) s =
     (if i < length (gs_conns s) \<and> \<not> sending i s \<and> \<not> is_broadcast ev
      then Some (s\<lparr>gs_conns := (gs_conns s)[i := fst (conn_step from_json (\<lambda>_. snapshot) ev (gs_conns s ! i, gs_log s))]\<rparr>)
      else None)"
| "server_step from_json (Srv_Send i) s =
     (if i < length (gs_conns s) \<and> sending i s \<and> length (gs_queue s) < CMD_CAPACITY
      then Some (s\<lparr>gs_queue := gs_queue s @ [(i, co_commands (gs_conns s ! i) ! length (from_conn i s))]\<rparr>)
      else None)"
| "server_step from_json Srv_Take s =
     (case gs_queue s of [] \<Rightarrow> None | c # q \<Rightarrow> Some (s\<lparr>gs_queue := q, gs_handled := gs_handled s @ [c]\<rparr>))"

primrec server_run :: "(string \<Rightarrow> string + DaemonCommand) \<Rightarrow> server_label list \<Rightarrow> GuiIpcServer \<Rightarrow> GuiIpcServer option" where
  "server_run from_json [] s = Some s"
| "server_run from_json (l # ls) s = (case server_step from_json l s of None \<Rightarrow> None | Some s' \<Rightarrow> server_run from_json ls s')"

section \<open>The server of the file managers\<close>

text \<open>The outcomes of \<open>accept\<close> one after the other: the connections served, and the error that ends the server.\<close>

record 'v SocketApiServer =
  ss_resolver :: StatusResolver
  ss_broadcast :: BroadcastSender
  ss_vfs :: "'v vfs"
  ss_folder_roots :: "(string \<times> uuid) list"

definition new_SocketApiServer :: "(uuid \<rightharpoonup> SyncState) \<Rightarrow> (string \<times> uuid) list \<Rightarrow> 'v vfs \<Rightarrow> 'v SocketApiServer" where
  "new_SocketApiServer sync_states roots vf =
     \<lparr>ss_resolver = \<lparr>sr_states = sync_states, sr_roots = roots\<rparr>, ss_broadcast = [], ss_vfs = vf, ss_folder_roots = roots\<rparr>"

fun show_SocketApiError :: "SocketApiError \<Rightarrow> string" where
  "show_SocketApiError (Socket_Io e) = ''I/O error: '' @ e"
| "show_SocketApiError (Transport e) = ''Transport error: '' @ e"
| "show_SocketApiError (Protocol e) = ''Protocol error: '' @ e"
| "show_SocketApiError (Socket_Vfs e) = ''VFS error: '' @ show_VfsError e"

fun socket_run :: "(SocketApiError + 'c) list \<Rightarrow> 'c list \<times> SocketApiError option" where
  "socket_run [] = ([], None)"
| "socket_run (Inr conn # rest) = (case socket_run rest of (conns, e) \<Rightarrow> (conn # conns, e))"
| "socket_run (Inl e # rest) = ([], Some (Transport (''accept error: '' @ show_SocketApiError e)))"

section \<open>Lemmas\<close>

text \<open>What a connection sees of a run: everything that is broadcast, and its own part.\<close>

fun own :: "nat \<Rightarrow> server_label \<Rightarrow> conn_event list" where
  "own i (Srv_Broadcast e) = [Broadcast e]"
| "own i (Srv_Conn j snapshot ev) = (if j = i then [ev] else [])"
| "own i _ = []"

definition owns :: "nat \<Rightarrow> server_label list \<Rightarrow> conn_event list" where
  "owns i ls = concat (map (own i) ls)"

lemma owns_simps [simp]: "owns i [] = []" "owns i (ls @ [l]) = owns i ls @ own i l"
  by (simp_all add: owns_def)

lemma server_run_snoc:
  "server_run fj (ls @ [l]) s = (case server_run fj ls s of None \<Rightarrow> None | Some s' \<Rightarrow> server_step fj l s')"
  by (induction ls arbitrary: s) (simp_all split: option.split)

lemma conn_run_snoc [simp]: "conn_run fj snap (evs @ [ev]) = conn_step fj snap ev (conn_run fj snap evs)"
  by (simp add: conn_run_def)

lemma conn_run_Nil [simp]: "conn_run fj snap [] = (new_conn, [])"
  by (simp add: conn_run_def)

lemma conn_run_broadcasts [simp]: "conn_run fj snap (map Broadcast es) = (new_conn, es)"
  by (induction es rule: rev_induct) simp_all

text \<open>The snapshot matters only to a connection that waits for it.\<close>

lemma conn_step_not_waiting:
  "co_waiting c = None \<Longrightarrow> conn_step fj snap ev (c, log) = conn_step fj snap' ev (c, log)"
  by (cases ev) (simp_all add: on_snapshot_def)

lemma conn_step_unsubscribed:
  assumes "conn_step fj snap ev (c, log) = (c', log')" "co_rx c' = None"
  shows "co_rx c = None" "conn_step fj snap' ev (c, log) = (c', log')"
proof -
  have "co_rx c = None \<and> conn_step fj snap' ev (c, log) = (c', log')"
  proof (cases ev)
    case (Client_Bytes bs)
    then show ?thesis using assms reads_only_bytes [of log c fj bs] by (auto simp: reads_only_def split: if_splits)
  next
    case Snapshot_Ready
    then show ?thesis using assms by (auto simp: on_snapshot_def split: if_splits option.splits)
  next
    case Deliver
    then show ?thesis using assms by (auto simp: on_event_def split: option.splits recv.splits prod.splits if_splits)
  qed (use assms in auto)
  then show "co_rx c = None" "conn_step fj snap' ev (c, log) = (c', log')" by blast+
qed

lemma conn_run_unsubscribed:
  "conn_run fj snap evs = (c, log) \<Longrightarrow> co_rx c = None \<Longrightarrow> conn_run fj snap' evs = (c, log)"
proof (induction evs arbitrary: c log rule: rev_induct)
  case (snoc ev evs)
  obtain c1 log1 where r: "conn_run fj snap evs = (c1, log1)" by fastforce
  with snoc.prems have "conn_step fj snap ev (c1, log1) = (c, log)" by simp
  note u = conn_step_unsubscribed(1) [OF this snoc.prems(2)] conn_step_unsubscribed(2) [OF this snoc.prems(2), of snap']
  with snoc.IH [OF r] show ?case by simp
qed simp

text \<open>A connection whose snapshots come from anywhere is one whose snapshots come from a function of the log.\<close>

lemma conn_run_extend:
  assumes "conn_run fj snap evs = (c, log)"
  shows "\<exists>snap'. conn_run fj snap' (evs @ [ev]) = conn_step fj (\<lambda>_. sn) ev (c, log)"
proof (cases "co_rx c = None")
  case True
  then show ?thesis using conn_run_unsubscribed [OF assms, of "\<lambda>_. sn"] by (intro exI [of _ "\<lambda>_. sn"]) simp
next
  case False
  then have "co_waiting c = None" using delivery_run [OF assms] by (auto simp: delivery_def)
  from conn_step_not_waiting [OF this, of fj snap ev log "\<lambda>_. sn"] assms show ?thesis by (intro exI [of _ snap]) simp
qed

lemma conn_step_log: "\<not> is_broadcast ev \<Longrightarrow> snd (conn_step fj snap ev (c, log)) = log"
  by (cases ev) simp_all

lemma co_commands_grow: "prefix (co_commands c) (co_commands (fst (conn_step fj snap ev (c, log))))"
proof (cases ev)
  case (Client_Bytes bs)
  then show ?thesis using reads_only_bytes [of log c fj bs] by (simp add: reads_only_def)
qed (auto simp: on_event_def on_snapshot_def split: option.split recv.split prod.split)

text \<open>The invariant of a run, and that every step keeps it.\<close>

definition server_inv :: "(string \<Rightarrow> string + DaemonCommand) \<Rightarrow> server_label list \<Rightarrow> GuiIpcServer \<Rightarrow> bool" where
  "server_inv fj ls s \<longleftrightarrow>
     (\<forall>i < length (gs_conns s). \<exists>snap. conn_run fj snap (owns i ls) = (gs_conns s ! i, gs_log s)) \<and>
     (\<forall>i \<ge> length (gs_conns s). owns i ls = map Broadcast (gs_log s)) \<and>
     (\<forall>i < length (gs_conns s). prefix (from_conn i s) (co_commands (gs_conns s ! i))) \<and>
     (\<forall>i. length (gs_conns s) \<le> i \<longrightarrow> from_conn i s = []) \<and>
     length (gs_queue s) \<le> CMD_CAPACITY"

lemma from_conn_simps [simp]:
  "from_conn i (s\<lparr>gs_conns := cs\<rparr>) = from_conn i s" "from_conn i (s\<lparr>gs_log := log\<rparr>) = from_conn i s"
  "from_conn i (s\<lparr>gs_listening := b\<rparr>) = from_conn i s"
  "from_conn i (s\<lparr>gs_queue := gs_queue s @ [(j, cmd)]\<rparr>) = from_conn i s @ (if j = i then [cmd] else [])"
  by (simp_all add: from_conn_def)

lemma from_conn_take: "gs_queue s = x # q \<Longrightarrow> from_conn i (s\<lparr>gs_queue := q, gs_handled := gs_handled s @ [x]\<rparr>) = from_conn i s"
  by (simp add: from_conn_def)

lemma prefix_next: "prefix xs ys \<Longrightarrow> length xs < length ys \<Longrightarrow> prefix (xs @ [ys ! length xs]) ys"
  by (auto simp: prefix_def nth_append neq_Nil_conv)

lemma server_inv_conn:
  assumes inv: "server_inv fj ls s" and s': "server_step fj (Srv_Conn i sn ev) s = Some s'"
  shows "server_inv fj (ls @ [Srv_Conn i sn ev]) s'"
proof -
  let ?c' = "fst (conn_step fj (\<lambda>_. sn) ev (gs_conns s ! i, gs_log s))"
  have i: "i < length (gs_conns s)" "\<not> is_broadcast ev" and s': "s' = s\<lparr>gs_conns := (gs_conns s)[i := ?c']\<rparr>"
    using s' by (auto split: if_splits)
  obtain snap where "conn_run fj snap (owns i ls) = (gs_conns s ! i, gs_log s)" using inv i by (auto simp: server_inv_def)
  from conn_run_extend [OF this, of ev sn] obtain snap' where
    "conn_run fj snap' (owns i ls @ [ev]) = conn_step fj (\<lambda>_. sn) ev (gs_conns s ! i, gs_log s)" by blast
  also have "\<dots> = (?c', gs_log s)" using conn_step_log [OF i(2), of fj "\<lambda>_. sn" "gs_conns s ! i" "gs_log s"] by (simp add: prod_eq_iff)
  finally have run: "\<exists>snap. conn_run fj snap (owns i ls @ [ev]) = (?c', gs_log s)" by blast
  have "prefix (from_conn i s) (co_commands ?c')"
    using inv i co_commands_grow [of "gs_conns s ! i" fj "\<lambda>_. sn" ev "gs_log s"]
    unfolding server_inv_def by (blast intro: prefix_order.order_trans)
  with run inv i show ?thesis by (simp add: server_inv_def s' nth_list_update)
qed

lemma server_inv_step:
  assumes "server_inv fj ls s" "server_step fj l s = Some s'"
  shows "server_inv fj (ls @ [l]) s'"
proof (cases l)
  case (Srv_Broadcast e)
  have "\<exists>snap. conn_run fj snap (owns i ls @ [Broadcast e]) = (gs_conns s ! i, gs_log s @ [e])" if i: "i < length (gs_conns s)" for i
  proof -
    obtain snap where "conn_run fj snap (owns i ls) = (gs_conns s ! i, gs_log s)"
      using assms(1) i unfolding server_inv_def by blast
    then show ?thesis by (intro exI [of _ snap]) simp
  qed
  then show ?thesis using assms Srv_Broadcast by (auto simp: server_inv_def server_broadcast_def)
next
  case (Srv_Accept r)
  show ?thesis
  proof (cases r)
    case (Inl e)
    then show ?thesis using assms Srv_Accept by (auto simp: server_inv_def split: if_splits)
  next
    case (Inr u)
    then have "s' = s\<lparr>gs_conns := gs_conns s @ [new_conn]\<rparr>" using assms(2) Srv_Accept by (auto split: if_splits)
    then show ?thesis using assms(1) Srv_Accept by (auto simp: server_inv_def nth_append less_Suc_eq)
  qed
next
  case (Srv_Conn i sn ev)
  then show ?thesis using server_inv_conn assms by simp
next
  case (Srv_Send i)
  then have "i < length (gs_conns s)" "sending i s" "length (gs_queue s) < CMD_CAPACITY"
    and "s' = s\<lparr>gs_queue := gs_queue s @ [(i, co_commands (gs_conns s ! i) ! length (from_conn i s))]\<rparr>"
    using assms(2) by (auto split: if_splits)
  then show ?thesis using assms(1) Srv_Send by (auto simp: server_inv_def sending_def prefix_next)
next
  case Srv_Take
  then obtain x q where "gs_queue s = x # q" "s' = s\<lparr>gs_queue := q, gs_handled := gs_handled s @ [x]\<rparr>"
    using assms(2) by (auto split: list.splits)
  then show ?thesis using assms(1) Srv_Take by (auto simp: server_inv_def from_conn_take)
qed

lemma server_run_inv: "server_run fj ls new_server = Some s \<Longrightarrow> server_inv fj ls s"
proof (induction ls arbitrary: s rule: rev_induct)
  case Nil
  then show ?case by (auto simp: server_inv_def new_server_def from_conn_def)
next
  case (snoc l ls)
  then show ?case using server_inv_step by (fastforce simp: server_run_snoc split: option.splits)
qed

subsection \<open>Commands of a client\<close>

text \<open>The bytes that a client has sent, and that no event is delivered while a command is half read.\<close>

fun bytes_of :: "conn_event \<Rightarrow> string" where
  "bytes_of (Client_Bytes bs) = bs"
| "bytes_of _ = []"

definition received :: "conn_event list \<Rightarrow> string" where
  "received evs = concat (map bytes_of evs)"

definition between_messages :: "(string \<Rightarrow> string + DaemonCommand) \<Rightarrow> conn_event list \<Rightarrow> bool" where
  "between_messages fj evs \<longleftrightarrow> 
     list_all (\<lambda>k. evs ! k = Deliver \<longrightarrow> snd (snd (read_frames fj (received (take k evs)))) = []) [0..<length evs]"

lemma received_simps [simp]: "received [] = []" "received (evs @ [ev]) = received evs @ bytes_of ev"
  by (simp_all add: received_def)

lemma between_messages_snoc:
  "between_messages fj (evs @ [ev]) \<longleftrightarrow>
     between_messages fj evs \<and> (ev = Deliver \<longrightarrow> snd (snd (read_frames fj (received evs))) = [])"
  by (auto simp: between_messages_def list_all_iff nth_append less_Suc_eq)

lemma on_event_effect [simp]:
  "co_commands (on_event log c) = co_commands c" "co_open (on_event log c) = co_open c" "co_rx (on_event log c) = None \<longleftrightarrow> co_rx c = None"
  "co_waiting (on_event log c) = co_waiting c" "co_unread (on_event log c) = co_unread c"
  "co_partial c = [] \<Longrightarrow> co_partial (on_event log c) = []"
  by (auto simp: on_event_def split: option.split recv.split prod.split)

text \<open>
  How far a connection has got with the messages \<open>cmds\<close> that it was sent, with \<open>rest\<close> behind them: it has passed on all that it has looked at, but for the first
  \<open>Subscribe\<close>, and what it has not looked at is still there.
\<close>

definition has_read :: "(string \<Rightarrow> string + DaemonCommand) \<Rightarrow> DaemonCommand list \<Rightarrow> string \<Rightarrow> conn \<Rightarrow> bool" where
  "has_read fj cmds rest c \<longleftrightarrow>
     co_open c \<and> read_frame fj (co_partial c) = Frame_Wait \<and> (co_waiting c \<noteq> None \<longrightarrow> co_partial c = [] \<and> co_rx c = None) \<and>
     (co_partial c = [] \<or> co_unread c = []) \<and>
     (if co_rx c = None \<and> co_waiting c = None
      then Subscribe \<notin> set cmds \<and> co_unread c = [] \<and> co_partial c = rest \<and> co_commands c = cmds
      else Subscribe \<in> set cmds \<and>
        (\<exists>unread. read_frames fj (co_partial c @ co_unread c) = (unread, Frame_Wait, rest) \<and> remove1 Subscribe cmds = co_commands c @ unread))"

lemma read_frames_empty [simp]: "read_frames fj [] = ([], Frame_Wait, [])"
  using read_frames_stop [of fj "[]"] by (simp add: read_frame_def)

lemma read_frame_empty [simp]: "read_frame fj [] = Frame_Wait"
  by (simp add: read_frame_def)

lemma has_read_bytes:
  assumes "has_read fj cmds rest c" "read_frames fj (rest @ bs) = (new, Frame_Wait, rest')"
  shows "has_read fj (cmds @ new) rest' (on_bytes fj log bs c)"
proof -
  note h = assms(1) [unfolded has_read_def]
  consider (fresh) "co_rx c = None" "co_waiting c = None" "Subscribe \<notin> set new"
    | (subscribes) "co_rx c = None" "co_waiting c = None" "Subscribe \<in> set new"
    | (waits) "co_waiting c \<noteq> None" | (subscribed) "co_rx c \<noteq> None" "co_waiting c = None"
    by blast
  then show ?thesis
  proof cases
    case fresh
    then have "on_bytes fj log bs c = c\<lparr>co_commands := co_commands c @ new, co_partial := rest', co_unread := []\<rparr>"
      using h assms(2) read_loop_frames [of fj "rest @ bs" new rest' c log] by (simp add: on_bytes_def)
    then show ?thesis using h fresh read_frames_Wait [OF assms(2)] by (simp add: has_read_def)
  next
    case subscribes
    then obtain a b where ab: "new = a @ Subscribe # b" "Subscribe \<notin> set a" by (meson split_list_first)
    then obtain unread where "on_bytes fj log bs c =
        c\<lparr>co_commands := co_commands c @ a, co_waiting := Some (length log), co_partial := [], co_unread := unread\<rparr>"
        "read_frames fj unread = (b, Frame_Wait, rest')"
      using subscribes h assms(2) read_loop_subscribe [of fj "rest @ bs" a b rest' c log] by (auto simp: on_bytes_def)
    then show ?thesis
      using h subscribes ab by (auto simp: has_read_def remove1_append)
  next
    case waits
    then obtain unread where u: "Subscribe \<in> set cmds" "remove1 Subscribe cmds = co_commands c @ unread"
        "read_frames fj (co_unread c) = (unread, Frame_Wait, rest)"
      using h by auto
    from read_frames_append [OF u(3), of bs] assms(2) have "read_frames fj (co_unread c @ bs) = (unread @ new, Frame_Wait, rest')" by simp
    then show ?thesis
      using h waits u by (auto simp: has_read_def on_bytes_def remove1_append)
  next
    case subscribed
    then obtain unread where u: "Subscribe \<in> set cmds" "remove1 Subscribe cmds = co_commands c @ unread"
        "read_frames fj (co_partial c @ co_unread c) = (unread, Frame_Wait, rest)"
      using h by auto
    from read_frames_append [OF u(3), of bs] assms(2)
    have r: "read_frames fj (co_partial c @ co_unread c @ bs) = (unread @ new, Frame_Wait, rest')" by simp
    then have "on_bytes fj log bs c = c\<lparr>co_commands := co_commands c @ unread @ new, co_partial := rest', co_unread := []\<rparr>"
      using subscribed read_loop_frames [OF r, of c log] by (simp add: on_bytes_def)
    then show ?thesis
      using h subscribed u read_frames_Wait [OF r] read_frames_stop [of fj rest']
      by (auto simp: has_read_def remove1_append)
  qed
qed

lemma has_read_snapshot: "has_read fj cmds rest c \<Longrightarrow> has_read fj cmds rest (on_snapshot sn c)"
  by (cases "co_waiting c") (auto simp: has_read_def on_snapshot_def)

lemma has_read_event:
  assumes "has_read fj cmds [] c" shows "has_read fj cmds [] (on_event log c)"
proof (cases "co_rx c = None")
  case True
  then show ?thesis using assms by (simp add: on_event_def)
next
  case False
  then have "co_partial c = []"
    using assms read_frames_stop [of fj "co_partial c"] by (auto simp: has_read_def)
  then show ?thesis using assms False by (auto simp: has_read_def)
qed

lemma conn_reads:
  assumes "read_frames fj (received evs) = (cmds, Frame_Wait, rest)" "Hang_Up \<notin> set evs" "between_messages fj evs"
  shows "has_read fj cmds rest (fst (conn_run fj snap evs))"
  using assms
proof (induction evs arbitrary: cmds rest rule: rev_induct)
  case Nil
  then show ?case by (auto simp: new_conn_def has_read_def)
next
  case (snoc ev evs)
  obtain ms1 rest1 where r1: "read_frames fj (received evs) = (ms1, Frame_Wait, rest1)"
    using snoc.prems(1) read_frames_prefix [of fj "received evs" "bytes_of ev"] by auto
  obtain c log where run: "conn_run fj snap evs = (c, log)" by fastforce
  have IH: "has_read fj ms1 rest1 c"
    using snoc.IH [OF r1] snoc.prems(2,3) run by (auto simp: between_messages_snoc)
  then have op: "co_open c" by (simp add: has_read_def)
  show ?case
  proof (cases ev)
    case (Client_Bytes bs)
    from read_frames_append [OF r1, of bs] snoc.prems(1) Client_Bytes obtain ms2 where
      "cmds = ms1 @ ms2" "read_frames fj (rest1 @ bs) = (ms2, Frame_Wait, rest)"
      by (cases "read_frames fj (rest1 @ bs)") auto
    with has_read_bytes [OF IH] show ?thesis using Client_Bytes run op by simp
  next
    case Deliver
    then have "rest1 = []" using snoc.prems(3) r1 by (simp add: between_messages_snoc)
    then show ?thesis using Deliver IH run r1 snoc.prems(1) op has_read_event [of fj ms1 c log] by simp
  next
    case Snapshot_Ready
    then show ?thesis using IH run r1 snoc.prems(1) op has_read_snapshot [of fj ms1 rest1 c] by simp
  qed (use IH run r1 snoc.prems in auto)
qed

text \<open>A connection that has its snapshot and has looked at everything has passed on all but the first \<open>Subscribe\<close>.\<close>

lemma has_read_all:
  assumes "has_read fj cmds rest c" "co_waiting c = None" "co_unread c = []"
  shows "co_commands c = remove1 Subscribe cmds"
proof (cases "co_rx c = None")
  case True
  then show ?thesis using assms by (simp add: has_read_def remove1_idem)
next
  case False
  then have "read_frames fj (co_partial c) = ([], Frame_Wait, co_partial c)"
    using assms(1) read_frames_stop [of fj "co_partial c"] by (simp add: has_read_def)
  then show ?thesis using False assms by (auto simp: has_read_def remove1_append)
qed

text \<open>The main loop can always take what is queued, and then there is room for the next command.\<close>

lemma server_run_append:
  "server_run fj (ls @ ls') s = (case server_run fj ls s of None \<Rightarrow> None | Some s' \<Rightarrow> server_run fj ls' s')"
  by (induction ls arbitrary: s) (simp_all split: option.split)

lemma take_all:
  "server_run fj (replicate (length (gs_queue s)) Srv_Take) s = Some (s\<lparr>gs_queue := [], gs_handled := gs_handled s @ gs_queue s\<rparr>)"
proof (induction "gs_queue s" arbitrary: s)
  case (Cons c q)
  then show ?case by (subst Cons.hyps(2) [symmetric]) (simp add: Cons.hyps(2) [symmetric] Cons.hyps(1) [of "s\<lparr>gs_queue := q, gs_handled := gs_handled s @ [c]\<rparr>", simplified])
qed simp

definition handled_from :: "nat \<Rightarrow> GuiIpcServer \<Rightarrow> DaemonCommand list" where
  "handled_from i s = map snd (filter (\<lambda>(j, _). j = i) (gs_handled s))"

lemma all_handled:
  assumes "i < length (gs_conns s)" "prefix (from_conn i s) (co_commands (gs_conns s ! i))"
  shows "\<exists>ls s'. set ls \<subseteq> {Srv_Take, Srv_Send i} \<and> server_run fj ls s = Some s' \<and> handled_from i s' = co_commands (gs_conns s ! i)"
  using assms
proof (induction "length (co_commands (gs_conns s ! i)) - length (from_conn i s)" arbitrary: s)
  case 0
  then have "from_conn i s = co_commands (gs_conns s ! i)" by (auto simp: prefix_def)
  then have "handled_from i (s\<lparr>gs_queue := [], gs_handled := gs_handled s @ gs_queue s\<rparr>) = co_commands (gs_conns s ! i)"
    by (simp add: handled_from_def from_conn_def)
  then show ?case using take_all by (intro exI [of _ "replicate (length (gs_queue s)) Srv_Take"]) (auto simp: set_replicate_conv_if)
next
  case (Suc n)
  define s1 where "s1 = s\<lparr>gs_queue := [], gs_handled := gs_handled s @ gs_queue s\<rparr>"
  have s1: "from_conn i s1 = from_conn i s" "gs_conns s1 = gs_conns s" by (simp_all add: s1_def from_conn_def)
  define s2 where "s2 = s1\<lparr>gs_queue := gs_queue s1 @ [(i, co_commands (gs_conns s ! i) ! length (from_conn i s))]\<rparr>"
  have "sending i s1" using Suc.hyps(2) s1 by (simp add: sending_def)
  then have step: "server_step fj (Srv_Send i) s1 = Some s2"
    using Suc.prems(1) s1 by (simp add: s2_def) (simp add: s1_def CMD_CAPACITY_def)
  have s2: "from_conn i s2 = from_conn i s @ [co_commands (gs_conns s ! i) ! length (from_conn i s)]" "gs_conns s2 = gs_conns s"
    by (simp_all add: s2_def s1)
  have "prefix (from_conn i s2) (co_commands (gs_conns s2 ! i))"
    using Suc.prems(2) Suc.hyps(2) by (simp add: s2 prefix_next)
  moreover have "n = length (co_commands (gs_conns s2 ! i)) - length (from_conn i s2)" using Suc.hyps(2) by (simp add: s2)
  ultimately obtain ls s' where
    "set ls \<subseteq> {Srv_Take, Srv_Send i}" "server_run fj ls s2 = Some s'" "handled_from i s' = co_commands (gs_conns s ! i)"
    using Suc.hyps(1) [of s2] Suc.prems(1) by (auto simp: s2(2))
  then show ?case
    using take_all [of fj s] step
    by (intro exI [of _ "replicate (length (gs_queue s)) Srv_Take @ Srv_Send i # ls"] exI [of _ s'])
      (auto simp: server_run_append s1_def set_replicate_conv_if)
qed

text \<open>
  The steps that are still to be made with the commands read so far: each of those that wait to be sent is sent and taken, each of the queued ones is taken.
\<close>

definition backlog :: "GuiIpcServer \<Rightarrow> nat" where
  "backlog s = length (gs_queue s) + 2 * (\<Sum>i < length (gs_conns s). length (co_commands (gs_conns s ! i)) - length (from_conn i s))"

abbreviation forwarding :: "server_label set" where
  "forwarding \<equiv> insert Srv_Take (range Srv_Send)"

lemma backlog_step:
  assumes "server_step fj l s = Some s'" "l \<in> forwarding"
  shows "backlog s = Suc (backlog s') \<and> gs_conns s' = gs_conns s"
proof (cases "l = Srv_Take")
  case True
  then obtain x q where "gs_queue s = x # q" "s' = s\<lparr>gs_queue := q, gs_handled := gs_handled s @ [x]\<rparr>"
    using assms(1) by (auto split: list.splits)
  then show ?thesis by (simp add: backlog_def from_conn_take)
next
  case False
  then obtain i where "l = Srv_Send i" using assms(2) by auto
  then have i: "i < length (gs_conns s)" "sending i s"
    and s': "s' = s\<lparr>gs_queue := gs_queue s @ [(i, co_commands (gs_conns s ! i) ! length (from_conn i s))]\<rparr>"
    using assms(1) by (auto split: if_splits)
  let ?left = "\<lambda>s j. length (co_commands (gs_conns s ! j)) - length (from_conn j s)"
  have "(\<Sum>j < length (gs_conns s). ?left s j) = ?left s i + (\<Sum>j \<in> {..<length (gs_conns s)} - {i}. ?left s j)"
      "(\<Sum>j < length (gs_conns s). ?left s' j) = ?left s' i + (\<Sum>j \<in> {..<length (gs_conns s)} - {i}. ?left s' j)"
    using i by (simp_all add: sum.remove)
  moreover have "(\<Sum>j \<in> {..<length (gs_conns s)} - {i}. ?left s' j) = (\<Sum>j \<in> {..<length (gs_conns s)} - {i}. ?left s j)"
    by (rule sum.cong) (auto simp: s')
  moreover have "?left s i = Suc (?left s' i)" using i by (simp add: s' sending_def)
  ultimately have "(\<Sum>j < length (gs_conns s). ?left s j) = Suc (\<Sum>j < length (gs_conns s). ?left s' j)" by linarith
  then show ?thesis by (simp add: backlog_def s')
qed

lemma backlog_run:
  "server_run fj ls s = Some s' \<Longrightarrow> set ls \<subseteq> forwarding \<Longrightarrow> backlog s = length ls + backlog s' \<and> gs_conns s' = gs_conns s"
proof (induction ls arbitrary: s)
  case (Cons l ls)
  then obtain s1 where "server_step fj l s = Some s1" "server_run fj ls s1 = Some s'" by (auto split: option.splits)
  with Cons backlog_step [of fj l s s1] show ?case by auto
qed simp

text \<open>After one error of \<open>accept\<close> no client is served any more.\<close>

lemma stopped_for_good:
  assumes "server_run fj ls s = Some s'" "\<not> gs_listening s"
  shows "length (gs_conns s') = length (gs_conns s)" "\<not> gs_listening s'"
proof -
  have step: "length (gs_conns s2) = length (gs_conns s1) \<and> \<not> gs_listening s2"
    if "server_step fj l s1 = Some s2" "\<not> gs_listening s1" for l s1 s2
    using that by (cases l) (auto simp: server_broadcast_def split: if_splits list.splits)
  have "length (gs_conns s') = length (gs_conns s) \<and> \<not> gs_listening s'"
    using assms
  proof (induction ls arbitrary: s)
    case (Cons l ls)
    then obtain s1 where "server_step fj l s = Some s1" "server_run fj ls s1 = Some s'" by (auto split: option.splits)
    with Cons step show ?case by metis
  qed simp
  then show "length (gs_conns s') = length (gs_conns s)" "\<not> gs_listening s'" by blast+
qed

lemma socket_run_stops: "socket_run (map Inr conns @ Inl e # rest) = (conns, Some (Transport (''accept error: '' @ show_SocketApiError e)))"
  by (induction conns) simp_all

section \<open>Properties\<close>

text \<open>
  C26: The connections of the server do not disturb each other. Whatever any number of clients send, hang up or are too slow for, in
  every run of the server each connection is in the state it would be in if it were the only one, with the same broadcasts and its own
  bytes; the main loop gets the commands of a connection in the order in which the connection has read them, each once and none of another,
  and never more than 64 are waiting.
\<close>

theorem gui_server_isolates:
  assumes "server_run from_json ls new_server = Some s" "i < length (gs_conns s)"
  shows "(\<exists>snap. conn_run from_json snap (owns i ls) = (gs_conns s ! i, gs_log s)) \<and>
    prefix (map snd (filter (\<lambda>(j, _). j = i) (gs_handled s @ gs_queue s))) (co_commands (gs_conns s ! i)) \<and>
    length (gs_queue s) \<le> CMD_CAPACITY"
  using server_run_inv [OF assms(1)] assms(2) unfolding server_inv_def from_conn_def by blast

text \<open>Two clients: the first sends \<open>Quit\<close>, the second garbage.\<close>

definition two_clients :: "server_label list" where
  "two_clients = [Srv_Accept (Inr ()), Srv_Accept (Inr ()), Srv_Conn 0 Ready (Client_Bytes (take 3 (write_frame tiny_to_json Quit))),
     Srv_Conn 1 Ready (Client_Bytes (write_frame (\<lambda>_. ''?'') Quit)), Srv_Broadcast Ready,
     Srv_Conn 0 Ready (Client_Bytes (drop 3 (write_frame tiny_to_json Quit))), Srv_Send 0, Srv_Take]"

theorem gui_server_isolates_witness:
  "\<exists>s snap. server_run tiny_from_json two_clients new_server = Some s \<and> gs_handled s = [(0, Quit)] \<and> \<not> co_open (gs_conns s ! 1) \<and>
     conn_run tiny_from_json snap (owns 0 two_clients) = (gs_conns s ! 0, gs_log s)"
proof -
  let ?s = "the (server_run tiny_from_json two_clients new_server)"
  have "server_run tiny_from_json two_clients new_server \<noteq> None" "0 < length (gs_conns ?s)" "gs_handled ?s = [(0, Quit)]" "\<not> co_open (gs_conns ?s ! 1)"
    by code_simp+
  then show ?thesis using gui_server_isolates [of tiny_from_json two_clients ?s 0] by (intro exI [of _ ?s]) auto
qed

text \<open>
  C22: What the user asks for reaches the daemon, if no event gets in its way. Let the writing task of the GUI have written \<open>Subscribe\<close> and the commands in its channel, each of
  which JSON gives back and which is at most 4 MiB long. Take any run of the server in which these bytes have arrived on a connection, cut into portions anywhere,
  the connection has not failed, no event was delivered in the middle of a command (see \<open>event_destroys_half_read_command\<close>), and the task of the connection
  has its snapshot and has read what arrived. From then on the commands are only forwarded: every further sequence of sending commands to the queue and taking them
  from it, for all clients and in any order, has at most as many steps as the backlog, at every moment the main loop has got a prefix of the user's commands and nothing else from this connection, and when
  the main loop finds nothing to take and the connection nothing to send, it has got all of them in their order; and there is such a sequence.
\<close>

theorem gui_commands_arrive:
  assumes "server_run from_json ls new_server = Some s" "i < length (gs_conns s)"
    and "\<forall>m \<in> set (Subscribe # dc_queue dc). length (to_json m) \<le> max_frame \<and> from_json (to_json m) = Inr m"
    and "received (owns i ls) = write_frame to_json Subscribe @ snd (fold (\<lambda>_. writer_step to_json False) (dc_queue dc) (dc, []))"
    and "Hang_Up \<notin> set (owns i ls)" "between_messages from_json (owns i ls)"
    and "co_waiting (gs_conns s ! i) = None" "co_unread (gs_conns s ! i) = []"
  shows "(\<forall>ls' s'. set ls' \<subseteq> insert Srv_Take (range Srv_Send) \<and> server_run from_json ls' s = Some s' \<longrightarrow>
       length ls' \<le> backlog s \<and> prefix (handled_from i s') (dc_queue dc) \<and>
       (server_step from_json Srv_Take s' = None \<and> server_step from_json (Srv_Send i) s' = None \<longrightarrow> handled_from i s' = dc_queue dc)) \<and>
    (\<exists>ls' s'. set ls' \<subseteq> {Srv_Take, Srv_Send i} \<and> server_run from_json ls' s = Some s' \<and> handled_from i s' = dc_queue dc)"
proof -
  have "received (owns i ls) = concat (map (write_frame to_json) (Subscribe # dc_queue dc)) @ []"
    using assms(4) writer_run [OF refl, of to_json dc "[]"] by simp
  with read_frames_written [OF assms(3), of "[]"] have "read_frames from_json (received (owns i ls)) = (Subscribe # dc_queue dc, Frame_Wait, [])"
    by simp
  note reads = conn_reads [OF this assms(5,6)]
  obtain snap where "conn_run from_json snap (owns i ls) = (gs_conns s ! i, gs_log s)"
    using server_run_inv [OF assms(1)] assms(2) unfolding server_inv_def by blast
  with has_read_all [OF reads [of snap]] assms(7,8) have cmds: "co_commands (gs_conns s ! i) = dc_queue dc" by simp
  have pre: "prefix (from_conn i s') (dc_queue dc)" if "server_run from_json ls' s = Some s'" "set ls' \<subseteq> forwarding" for ls' s'
  proof -
    have "server_run from_json (ls @ ls') new_server = Some s'" using assms(1) that(1) by (simp add: server_run_append)
    then show ?thesis
      using server_run_inv [of from_json "ls @ ls'" s'] backlog_run [OF that] assms(2) cmds unfolding server_inv_def by metis
  qed
  have "length ls' \<le> backlog s \<and> prefix (handled_from i s') (dc_queue dc) \<and>
       (server_step from_json Srv_Take s' = None \<and> server_step from_json (Srv_Send i) s' = None \<longrightarrow> handled_from i s' = dc_queue dc)"
    if run: "set ls' \<subseteq> forwarding" "server_run from_json ls' s = Some s'" for ls' s'
  proof (intro conjI impI)
    note b = backlog_run [OF run(2,1)] and p = pre [OF run(2,1)]
    show "length ls' \<le> backlog s" using b by simp
    show "prefix (handled_from i s') (dc_queue dc)"
      using p by (auto simp: handled_from_def from_conn_def dest: append_prefixD)
    assume "server_step from_json Srv_Take s' = None \<and> server_step from_json (Srv_Send i) s' = None"
    then have q: "gs_queue s' = []" and "\<not> sending i s'"
      using b assms(2) by (auto simp: CMD_CAPACITY_def split: list.splits if_splits)
    then have "from_conn i s' = dc_queue dc" using p b cmds by (auto simp: sending_def prefix_def)
    then show "handled_from i s' = dc_queue dc" using q by (simp add: handled_from_def from_conn_def)
  qed
  moreover have "\<exists>ls' s'. set ls' \<subseteq> {Srv_Take, Srv_Send i} \<and> server_run from_json ls' s = Some s' \<and> handled_from i s' = dc_queue dc"
    using all_handled [OF assms(2), of from_json] pre [of "[]" s] cmds by simp
  ultimately show ?thesis by blast
qed

text \<open>The \<open>Quit\<close> comes in two parts, the first with the \<open>Subscribe\<close>; it is read once the snapshot is there.\<close>

definition one_client :: "server_label list" where
  "one_client =
     [Srv_Accept (Inr ()), Srv_Conn 0 Ready (Client_Bytes (write_frame tiny_to_json Subscribe @ take 2 (write_frame tiny_to_json Quit))),
      Srv_Broadcast Ready, Srv_Conn 0 Ready Snapshot_Ready, Srv_Conn 0 Ready (Client_Bytes (drop 2 (write_frame tiny_to_json Quit))),
      Srv_Send 0, Srv_Conn 0 Ready Deliver]"

theorem gui_commands_arrive_witness:
  "\<exists>s ls' s'. server_run tiny_from_json one_client new_server = Some s \<and> handled_from 0 s = [] \<and>
     server_run tiny_from_json ls' s = Some s' \<and> handled_from 0 s' = [Quit] \<and>
     (\<forall>ls' s'. set ls' \<subseteq> insert Srv_Take (range Srv_Send) \<and> server_run tiny_from_json ls' s = Some s' \<longrightarrow> length ls' \<le> backlog s)"
proof -
  let ?s = "the (server_run tiny_from_json one_client new_server)"
  let ?dc = "\<lparr>dc_id = Some 0, dc_open = True, dc_queue = [Quit]\<rparr>"
  have run: "server_run tiny_from_json one_client new_server \<noteq> None" "0 < length (gs_conns ?s)" "handled_from 0 ?s = []"
      "co_waiting (gs_conns ?s ! 0) = None" "co_unread (gs_conns ?s ! 0) = []"
    by code_simp+
  have json: "\<forall>m \<in> set (Subscribe # dc_queue ?dc). length (tiny_to_json m) \<le> max_frame \<and> tiny_from_json (tiny_to_json m) = Inr m"
    by (simp add: max_frame_def tiny_from_json_def)
  have bytes: "received (owns 0 one_client) =
      write_frame tiny_to_json Subscribe @ snd (fold (\<lambda>_. writer_step tiny_to_json False) (dc_queue ?dc) (?dc, []))"
    by (simp add: writer_step_def received_def owns_def one_client_def)
  have quiet: "Hang_Up \<notin> set (owns 0 one_client)" "between_messages tiny_from_json (owns 0 one_client)"
    by code_simp+
  have some: "server_run tiny_from_json one_client new_server = Some ?s" using run(1) by simp
  note t = gui_commands_arrive [OF some run(2) json bytes quiet run(4,5)]
  from t have "\<exists>ls' s'. server_run tiny_from_json ls' ?s = Some s' \<and> handled_from 0 s' = [Quit]" by auto
  with t some run(3) show ?thesis by blast
qed

end
