(* ===== verification/Instance.thy ===== *)
theory Instance
  imports SocketApi Platform
begin

text \<open>
  What several daemons on one machine share: the lock (\<open>crates/daemon/src/lock.rs\<close> and the start of \<open>main.rs\<close>) and the two
  sockets (\<open>crates/socket-api/src/transport\<close>, \<open>gui_ipc/mod.rs\<close>), and the file watcher (\<open>watcher.rs\<close>). Errors of the system are arguments;
  daemons start, run, end and crash in any interleaving.
\<close>

section \<open>The host\<close>

text \<open>
  A process that runs has passed the lock; \<open>Leaving\<close> is between the end of \<open>main\<close>, which drops the lock, and
  the end of the runtime, which drops the tasks and with them the transport.
\<close>

datatype stage = Starting | Running | Leaving | Gone

record process =
  pr_stage :: stage
  pr_shell :: bool
  pr_gui :: bool

text \<open>The process that holds the lock on the lock file, and the socket files with the process that listens there.\<close>

record host =
  ho_lock :: "nat option"
  ho_sockets :: "string \<rightharpoonup> nat"
  ho_procs :: "nat \<Rightarrow> process"

record sys_env =
  sy_mkdir_error :: "string option"
  sy_open_error :: "string option"
  sy_lock_error :: "string option"
  sy_remove_error :: "string option"
  sy_bind_error :: "string option"

section \<open>The lock (\<open>lock.rs\<close>)\<close>

datatype LockError = AlreadyRunning | Lock_Io string

fun show_LockError :: "LockError \<Rightarrow> string" where
  "show_LockError AlreadyRunning = ''another instance of ocsyncd is already running''"
| "show_LockError (Lock_Io e) = ''lock file I/O error: '' @ e"

definition acquire :: "sys_env \<Rightarrow> string \<Rightarrow> nat \<Rightarrow> host \<Rightarrow> (LockError + unit) \<times> host" where
  "acquire env path p h =
     (case (if path_parent path = None then None else sy_mkdir_error env) of
        Some e \<Rightarrow> (Inl (Lock_Io e), h)
      | None \<Rightarrow>
          (case sy_open_error env of
             Some e \<Rightarrow> (Inl (Lock_Io e), h)
           | None \<Rightarrow>
               if ho_lock h \<noteq> None then (Inl AlreadyRunning, h)
               else (case sy_lock_error env of
                       Some e \<Rightarrow> (Inl (Lock_Io e), h)
                     | None \<Rightarrow> (Inr (), h\<lparr>ho_lock := Some p\<rparr>))))"

definition drop_lock :: "nat \<Rightarrow> host \<Rightarrow> host" where
  "drop_lock p h = (if ho_lock h = Some p then h\<lparr>ho_lock := None\<rparr> else h)"

section \<open>The sockets (\<open>transport/unix.rs\<close>, \<open>transport/windows.rs\<close>, \<open>gui_ipc/mod.rs\<close>)\<close>

text \<open>\<open>remove_file\<close>, \<open>create_dir_all\<close> and \<open>bind\<close>, which refuses a path where there is a file.\<close>

definition remove_socket :: "sys_env \<Rightarrow> string \<Rightarrow> host \<Rightarrow> string option \<times> host" where
  "remove_socket env path h =
     (if ho_sockets h path = None then (Some ''No such file or directory (os error 2)'', h)
      else case sy_remove_error env of Some e \<Rightarrow> (Some e, h) | None \<Rightarrow> (None, h\<lparr>ho_sockets := (ho_sockets h)(path := None)\<rparr>))"

definition bind_socket :: "sys_env \<Rightarrow> string \<Rightarrow> nat \<Rightarrow> host \<Rightarrow> (string + unit) \<times> host" where
  "bind_socket env path p h =
     (if ho_sockets h path \<noteq> None then (Inl ''Address already in use (os error 98)'', h)
      else case sy_bind_error env of Some e \<Rightarrow> (Inl e, h) | None \<Rightarrow> (Inr (), h\<lparr>ho_sockets := (ho_sockets h)(path \<mapsto> p)\<rparr>))"

definition unix_bind :: "sys_env \<Rightarrow> string \<Rightarrow> nat \<Rightarrow> host \<Rightarrow> (SocketApiError + unit) \<times> host" where
  "unix_bind env path p h =
     (case (if ho_sockets h path \<noteq> None then remove_socket env path h else (None, h)) of
        (Some e, h) \<Rightarrow> (Inl (Transport (''failed to remove stale socket '' @ path @ '': '' @ e)), h)
      | (None, h) \<Rightarrow>
          (case (path_parent path, sy_mkdir_error env) of
             (Some parent, Some e) \<Rightarrow> (Inl (Transport (''failed to create socket directory '' @ parent @ '': '' @ e)), h)
           | _ \<Rightarrow>
               (case bind_socket env path p h of
                  (Inl e, h) \<Rightarrow> (Inl (Transport (''failed to bind Unix socket '' @ path @ '': '' @ e)), h)
                | (Inr _, h) \<Rightarrow> (Inr (), h))))"

text \<open>Dropping the transport removes the file at its path, whoever listens there.\<close>

definition drop_transport :: "sys_env \<Rightarrow> string \<Rightarrow> host \<Rightarrow> host" where
  "drop_transport env path h = snd (remove_socket env path h)"

definition unix_accept :: "string + 'c \<Rightarrow> SocketApiError + 'c" where
  "unix_accept r = map_sum (\<lambda>e. Transport (''accept failed: '' @ e)) id r"

definition windows_accept :: "string + 'pipe \<Rightarrow> ('pipe \<Rightarrow> string option) \<Rightarrow> SocketApiError + 'pipe" where
  "windows_accept created connect_error =
     (case created of
        Inl e \<Rightarrow> Inl (Transport (''named pipe create failed: '' @ e))
      | Inr server \<Rightarrow>
          (case connect_error server of
             Some e \<Rightarrow> Inl (Transport (''named pipe connect failed: '' @ e))
           | None \<Rightarrow> Inr server))"

text \<open>The socket of the GUI: the result of \<open>remove_file\<close> is ignored, and nothing removes the file at the end.\<close>

definition gui_bind :: "sys_env \<Rightarrow> string \<Rightarrow> nat \<Rightarrow> host \<Rightarrow> (string + unit) \<times> host" where
  "gui_bind env path p h =
     (let h = snd (remove_socket env path h) in
      case (if path_parent path = None then None else sy_mkdir_error env) of
        Some e \<Rightarrow> (Inl e, h)
      | None \<Rightarrow> bind_socket env path p h)"

text \<open>The name of the pipe on Windows.\<close>

definition gui_pipe_name :: "string \<Rightarrow> string" where
  "gui_pipe_name path =
     (if prefix pipe_prefix path then path
      else pipe_prefix @ (case file_name path of Some n \<Rightarrow> n | None \<Rightarrow> ''ownCloud-GUI''))"

section \<open>The watcher (\<open>watcher.rs\<close>)\<close>

text \<open>
  What the channel has held until it was closed, errors included; \<open>next_event\<close> gives the next event and what is left,
  and the task of \<open>main.rs\<close> passes events on until there are no more.
\<close>

fun next_event :: "(string + 'e) list \<Rightarrow> ('e \<times> (string + 'e) list) option" where
  "next_event [] = None"
| "next_event (Inr e # rest) = Some (e, rest)"
| "next_event (Inl err # rest) = next_event rest"

lemma next_event_shrinks: "next_event items = Some (e, rest) \<Longrightarrow> length rest < length items"
  by (induction items rule: next_event.induct) auto

function forward_events :: "uuid \<Rightarrow> (string + 'e) list \<Rightarrow> (uuid \<times> 'e) list" where
  "forward_events folder_id items =
     (case next_event items of None \<Rightarrow> [] | Some (e, rest) \<Rightarrow> (folder_id, e) # forward_events folder_id rest)"
  by auto
termination by (relation "measure (\<lambda>(_, items). length items)") (auto dest: next_event_shrinks)

declare forward_events.simps [simp del]

section \<open>Life of the daemons (\<open>main.rs\<close>)\<close>

datatype host_label =
    Start nat
  | Acquire sys_env nat
  | Bind_Shell sys_env nat
  | Bind_Gui sys_env nat
  | Return nat
  | Drop_Runtime sys_env nat
  | Crash nat

definition set_proc :: "nat \<Rightarrow> (process \<Rightarrow> process) \<Rightarrow> host \<Rightarrow> host" where
  "set_proc p f h = h\<lparr>ho_procs := (ho_procs h)(p := f (ho_procs h p))\<rparr>"

text \<open>
  A process that does not get the lock exits at once. The binding of each socket is a task of its own that ends on an
  error without ending the daemon. The kernel gives the lock back when a process ends in any way; \<open>Drop\<close> runs only on a normal end.
\<close>

fun host_step :: "string \<Rightarrow> string \<Rightarrow> string \<Rightarrow> host_label \<Rightarrow> host \<Rightarrow> host option" where
  "host_step lock shell gui (Start p) h =
     (if pr_stage (ho_procs h p) = Gone then Some (set_proc p (\<lambda>_. \<lparr>pr_stage = Starting, pr_shell = False, pr_gui = False\<rparr>) h) else None)"
| "host_step lock shell gui (Acquire env p) h =
     (if pr_stage (ho_procs h p) = Starting
      then Some (case acquire env lock p h of
             (Inr _, h) \<Rightarrow> set_proc p (\<lambda>r. r\<lparr>pr_stage := Running\<rparr>) h
           | (Inl e, h) \<Rightarrow> set_proc p (\<lambda>r. r\<lparr>pr_stage := Gone\<rparr>) h)
      else None)"
| "host_step lock shell gui (Bind_Shell env p) h =
     (if pr_stage (ho_procs h p) = Running \<and> \<not> pr_shell (ho_procs h p)
      then Some (case unix_bind env shell p h of
             (Inr _, h) \<Rightarrow> set_proc p (\<lambda>r. r\<lparr>pr_shell := True\<rparr>) h
           | (Inl e, h) \<Rightarrow> h)
      else None)"
| "host_step lock shell gui (Bind_Gui env p) h =
     (if pr_stage (ho_procs h p) = Running \<and> \<not> pr_gui (ho_procs h p)
      then Some (case gui_bind env gui p h of
             (Inr _, h) \<Rightarrow> set_proc p (\<lambda>r. r\<lparr>pr_gui := True\<rparr>) h
           | (Inl e, h) \<Rightarrow> h)
      else None)"
| "host_step lock shell gui (Return p) h =
     (if pr_stage (ho_procs h p) = Running then Some (drop_lock p (set_proc p (\<lambda>r. r\<lparr>pr_stage := Leaving\<rparr>) h)) else None)"
| "host_step lock shell gui (Drop_Runtime env p) h =
     (if pr_stage (ho_procs h p) = Leaving
      then Some (let h' = set_proc p (\<lambda>r. r\<lparr>pr_stage := Gone, pr_shell := False\<rparr>) h
                 in if pr_shell (ho_procs h p) then drop_transport env shell h' else h')
      else None)"
| "host_step lock shell gui (Crash p) h =
     (if pr_stage (ho_procs h p) = Gone then None else Some (drop_lock p (set_proc p (\<lambda>r. r\<lparr>pr_stage := Gone\<rparr>) h)))"

definition no_daemon :: host where
  "no_daemon = \<lparr>ho_lock = None, ho_sockets = Map.empty, ho_procs = \<lambda>_. \<lparr>pr_stage = Gone, pr_shell = False, pr_gui = False\<rparr>\<rparr>"

inductive host_reachable :: "string \<Rightarrow> string \<Rightarrow> string \<Rightarrow> (host_label \<Rightarrow> host \<Rightarrow> bool) \<Rightarrow> host \<Rightarrow> bool" for lock shell gui ok where
  host_start: "host_reachable lock shell gui ok no_daemon"
| host_next: "host_reachable lock shell gui ok h \<Longrightarrow> ok l h \<Longrightarrow> host_step lock shell gui l h = Some h' \<Longrightarrow> host_reachable lock shell gui ok h'"

text \<open>Two daemons do not overlap: the lock is asked for only when no daemon is leaving.\<close>

definition orderly :: "host_label \<Rightarrow> host \<Rightarrow> bool" where
  "orderly l h \<longleftrightarrow> (case l of Acquire _ _ \<Rightarrow> \<forall>p. pr_stage (ho_procs h p) \<noteq> Leaving | _ \<Rightarrow> True)"

section \<open>Lemmas\<close>

lemma set_proc_simps [simp]:
  "ho_lock (set_proc p f h) = ho_lock h" "ho_sockets (set_proc p f h) = ho_sockets h"
  "ho_procs (set_proc p f h) q = (if q = p then f (ho_procs h p) else ho_procs h q)"
  by (simp_all add: set_proc_def)

lemma drop_lock_simps [simp]:
  "ho_lock (drop_lock p h) = (if ho_lock h = Some p then None else ho_lock h)"
  "ho_sockets (drop_lock p h) = ho_sockets h" "ho_procs (drop_lock p h) = ho_procs h"
  by (simp_all add: drop_lock_def)

lemma acquire_cases:
  "acquire env path p h = (r, h') \<Longrightarrow> ho_procs h' = ho_procs h \<and> ho_sockets h' = ho_sockets h \<and>
     (if isl r then ho_lock h' = ho_lock h else ho_lock h = None \<and> ho_lock h' = Some p)"
  by (auto simp: acquire_def split: option.splits if_splits)

lemma remove_socket_host:
  "remove_socket env path h = (e, h') \<Longrightarrow> ho_lock h' = ho_lock h \<and> ho_procs h' = ho_procs h \<and> (\<forall>q. q \<noteq> path \<longrightarrow> ho_sockets h' q = ho_sockets h q) \<and>
     (e = None \<longrightarrow> ho_sockets h' path = None) \<and> (e \<noteq> None \<longrightarrow> h' = h)"
  by (auto simp: remove_socket_def split: option.splits if_splits)

lemma bind_socket_host:
  "bind_socket env path p h = (r, h') \<Longrightarrow> ho_lock h' = ho_lock h \<and> ho_procs h' = ho_procs h \<and> (\<forall>q. q \<noteq> path \<longrightarrow> ho_sockets h' q = ho_sockets h q) \<and>
     (if isl r then h' = h else ho_sockets h' path = Some p)"
  by (auto simp: bind_socket_def split: option.splits if_splits)

lemma unix_bind_host:
  assumes "unix_bind env path p h = (r, h')"
  shows "ho_lock h' = ho_lock h" "ho_procs h' = ho_procs h" "q \<noteq> path \<Longrightarrow> ho_sockets h' q = ho_sockets h q"
    and "\<not> isl r \<Longrightarrow> ho_sockets h' path = Some p"
  using assms
  by (auto simp: unix_bind_def split: option.splits sum.splits prod.splits if_splits dest!: remove_socket_host bind_socket_host)

lemma gui_bind_host:
  assumes "gui_bind env path p h = (r, h')"
  shows "ho_lock h' = ho_lock h" "ho_procs h' = ho_procs h" "q \<noteq> path \<Longrightarrow> ho_sockets h' q = ho_sockets h q"
    and "\<not> isl r \<Longrightarrow> ho_sockets h' path = Some p"
proof -
  obtain e h1 where h1: "remove_socket env path h = (e, h1)" by fastforce
  note h1' = remove_socket_host [OF h1]
  have "ho_lock h' = ho_lock h \<and> ho_procs h' = ho_procs h \<and> (\<forall>q. q \<noteq> path \<longrightarrow> ho_sockets h' q = ho_sockets h q) \<and>
      (\<not> isl r \<longrightarrow> ho_sockets h' path = Some p)"
    using assms h1 h1' by (auto simp: gui_bind_def Let_def split: option.splits if_splits dest!: bind_socket_host)
  then show "ho_lock h' = ho_lock h" "ho_procs h' = ho_procs h" "q \<noteq> path \<Longrightarrow> ho_sockets h' q = ho_sockets h q"
      "\<not> isl r \<Longrightarrow> ho_sockets h' path = Some p" by blast+
qed

lemma forward_events_simps [simp]:
  "forward_events i [] = []" "forward_events i (Inr e # rest) = (i, e) # forward_events i rest"
  "forward_events i (Inl err # rest) = forward_events i rest"
  by (subst forward_events.simps, simp)+

lemma forward_events_all: "forward_events i items = map (Pair i) (List.map_filter (case_sum (\<lambda>_. None) Some) items)"
proof (induction items)
  case (Cons x rest)
  then show ?case by (cases x) (simp_all add: List.map_filter_simps)
qed (simp add: List.map_filter_simps)

subsection \<open>Invariants\<close>

definition lock_inv :: "string \<Rightarrow> host \<Rightarrow> bool" where
  "lock_inv gui h \<longleftrightarrow> (\<forall>p. pr_stage (ho_procs h p) = Running \<longleftrightarrow> ho_lock h = Some p) \<and>
     (\<forall>p. pr_stage (ho_procs h p) = Starting \<longrightarrow> \<not> pr_shell (ho_procs h p) \<and> \<not> pr_gui (ho_procs h p)) \<and>
     (\<forall>p. pr_stage (ho_procs h p) = Running \<and> pr_gui (ho_procs h p) \<longrightarrow> ho_sockets h gui = Some p)"

definition shell_inv :: "string \<Rightarrow> host \<Rightarrow> bool" where
  "shell_inv shell h \<longleftrightarrow> (\<forall>p. pr_stage (ho_procs h p) = Running \<and> pr_shell (ho_procs h p) \<longrightarrow> ho_sockets h shell = Some p) \<and>
     (\<forall>p q. pr_stage (ho_procs h p) = Leaving \<longrightarrow> pr_stage (ho_procs h q) \<noteq> Running)"

lemma drop_transport_host:
  "ho_lock (drop_transport env path h) = ho_lock h" "ho_procs (drop_transport env path h) = ho_procs h"
  "q \<noteq> path \<Longrightarrow> ho_sockets (drop_transport env path h) q = ho_sockets h q"
  using remove_socket_host [of env path h "fst (remove_socket env path h)" "drop_transport env path h"] by (simp_all add: drop_transport_def)

lemma lock_inv_holder: "lock_inv gui h \<Longrightarrow> pr_stage (ho_procs h p) \<noteq> Running \<Longrightarrow> ho_lock h \<noteq> Some p"
  unfolding lock_inv_def by metis

lemma lock_inv_step:
  assumes "host_step lock shell gui l h = Some h'" "lock_inv gui h" "shell \<noteq> gui"
  shows "lock_inv gui h'"
proof (cases l)
  case (Acquire env p)
  obtain r h1 where r: "acquire env lock p h = (r, h1)" by fastforce
  have "pr_stage (ho_procs h p) = Starting" using Acquire assms(1) by (auto split: if_splits)
  then have "ho_lock h \<noteq> Some p" using lock_inv_holder [OF assms(2)] by simp
  with r Acquire assms(1,2) acquire_cases [OF r] show ?thesis by (auto simp: lock_inv_def split: sum.splits if_splits)
next
  case (Bind_Shell env p)
  obtain r h1 where r: "unix_bind env shell p h = (r, h1)" by fastforce
  have "ho_sockets h1 gui = ho_sockets h gui" using unix_bind_host(3) [OF r] assms(3) by metis
  moreover have "pr_stage (ho_procs h p) \<noteq> Starting" using Bind_Shell assms(1) by (auto split: if_splits)
  ultimately show ?thesis using Bind_Shell assms(1,2) r unix_bind_host(1,2) [OF r] by (auto simp: lock_inv_def split: sum.splits if_splits)
next
  case (Bind_Gui env p)
  obtain r h1 where r: "gui_bind env gui p h = (r, h1)" by fastforce
  have p: "pr_stage (ho_procs h p) = Running" "\<not> pr_gui (ho_procs h p)" using Bind_Gui assms(1) by (auto split: if_splits)
  have lock: "pr_stage (ho_procs h q) = Running \<longleftrightarrow> q = p" for q using assms(2) p(1) unfolding lock_inv_def by (metis option.inject)
  have h': "h' = (if isl r then h1 else set_proc p (\<lambda>r. r\<lparr>pr_gui := True\<rparr>) h1)"
    using Bind_Gui assms(1) r by (auto split: sum.splits if_splits)
  then have same: "pr_stage (ho_procs h' q) = pr_stage (ho_procs h q)" "ho_lock h' = ho_lock h" for q
    using gui_bind_host(1,2) [OF r] by simp_all
  have "ho_sockets h' gui = Some q" if "pr_stage (ho_procs h' q) = Running" "pr_gui (ho_procs h' q)" for q
  proof -
    have "q = p" using lock that(1) same by simp
    then show ?thesis using that(2) h' p(2) gui_bind_host(2,4) [OF r] by (auto split: if_splits)
  qed
  moreover have "\<not> pr_shell (ho_procs h' q) \<and> \<not> pr_gui (ho_procs h' q)" if "pr_stage (ho_procs h' q) = Starting" for q
  proof -
    have "q \<noteq> p" "pr_stage (ho_procs h q) = Starting" using p(1) that same(1) by auto
    then show ?thesis using assms(2) h' gui_bind_host(2) [OF r] by (simp add: lock_inv_def)
  qed
  ultimately show ?thesis using assms(2) same by (simp add: lock_inv_def)
next
  case (Drop_Runtime env p)
  then have "ho_lock h \<noteq> Some p" using lock_inv_holder [OF assms(2), of p] assms(1) by (auto split: if_splits)
  with Drop_Runtime show ?thesis using assms by (auto simp: lock_inv_def drop_transport_host Let_def split: if_splits)
next
  case (Start p)
  then have "ho_lock h \<noteq> Some p" using lock_inv_holder [OF assms(2), of p] assms(1) by (auto split: if_splits)
  with Start show ?thesis using assms by (auto simp: lock_inv_def split: if_splits)
qed (use assms in \<open>auto simp: lock_inv_def split: if_splits\<close>)

lemma shell_inv_step:
  assumes "host_step lock shell gui l h = Some h'" "shell_inv shell h" "lock_inv gui h" "shell \<noteq> gui" "orderly l h"
  shows "shell_inv shell h'"
proof (cases l)
  case (Acquire env p)
  obtain r h1 where r: "acquire env lock p h = (r, h1)" by fastforce
  have "pr_stage (ho_procs h q) \<noteq> Leaving" for q using assms(5) Acquire by (simp add: orderly_def)
  moreover have "pr_stage (ho_procs h q) \<noteq> Running" if "\<not> isl r" for q using acquire_cases [OF r] assms(3) that by (auto simp: lock_inv_def)
  moreover have "\<not> pr_shell (ho_procs h p)" using Acquire assms(1,3) by (auto simp: lock_inv_def split: if_splits)
  ultimately show ?thesis using Acquire assms(1,2) acquire_cases [OF r] r by (auto simp: shell_inv_def split: sum.splits if_splits)
next
  case (Bind_Shell env p)
  obtain r h1 where r: "unix_bind env shell p h = (r, h1)" by fastforce
  have p: "\<And>q. pr_stage (ho_procs h q) = Running \<Longrightarrow> q = p" "\<not> pr_shell (ho_procs h p)" "pr_stage (ho_procs h p) = Running"
    using Bind_Shell assms(1,3) by (auto simp: lock_inv_def split: if_splits)
  have h': "h' = (if isl r then h1 else set_proc p (\<lambda>r. r\<lparr>pr_shell := True\<rparr>) h1)"
    using Bind_Shell assms(1) r by (auto split: sum.splits if_splits)
  then have stages: "pr_stage (ho_procs h' q) = pr_stage (ho_procs h q)" for q using unix_bind_host(2) [OF r] by simp
  have "ho_sockets h' shell = Some q" if "pr_stage (ho_procs h' q) = Running" "pr_shell (ho_procs h' q)" for q
  proof -
    have "q = p" using p(1) that(1) stages by simp
    then show ?thesis using that(2) h' p(2) unix_bind_host(2,4) [OF r] by (auto split: if_splits)
  qed
  with assms(2) stages show ?thesis by (simp add: shell_inv_def)
next
  case (Bind_Gui env p)
  obtain r h1 where r: "gui_bind env gui p h = (r, h1)" by fastforce
  have "ho_sockets h1 shell = ho_sockets h shell" using gui_bind_host(3) [OF r] assms(4) by metis
  with Bind_Gui assms(1,2) r gui_bind_host(1,2) [OF r] show ?thesis by (auto simp: shell_inv_def split: sum.splits if_splits)
next
  case (Return p)
  then show ?thesis using assms(1-3) by (auto simp: shell_inv_def lock_inv_def split: if_splits)
next
  case (Drop_Runtime env p)
  then show ?thesis using assms(1,2) by (auto simp: shell_inv_def drop_transport_host Let_def split: if_splits)
qed (use assms in \<open>auto simp: shell_inv_def split: if_splits\<close>)

lemma host_reachable_inv:
  assumes "host_reachable lock shell gui ok h" "shell \<noteq> gui"
  shows "lock_inv gui h \<and> ((\<forall>l h. ok l h \<longrightarrow> orderly l h) \<longrightarrow> shell_inv shell h)"
  using assms
proof induction
  case host_start
  show ?case by (simp add: lock_inv_def shell_inv_def no_daemon_def)
next
  case (host_next h l h')
  then show ?case using lock_inv_step shell_inv_step by blast
qed

section \<open>Properties\<close>

text \<open>
  C38: One daemon, found at its sockets. On one machine, however daemons are started, end and crash, at most one has passed the lock at any time. A daemon that runs and listens for the GUI is the one
  behind the socket file of the GUI, also after crashes that left stale files behind. The same holds for the socket of the file managers if no daemon
  asks for the lock while another, having released it, is still on its way out.
\<close>

theorem one_daemon_at_its_sockets:
  assumes "pe_os env \<noteq> Windows" "platform_lock_path env = Some lock" "platform_gui_socket_path env = Some gui"
    and "host_reachable lock (default_path env) gui ok h"
  shows "(\<forall>p q. pr_stage (ho_procs h p) = Running \<and> pr_stage (ho_procs h q) = Running \<longrightarrow> p = q) \<and>
    (\<forall>p. pr_stage (ho_procs h p) = Running \<and> pr_gui (ho_procs h p) \<longrightarrow> ho_sockets h gui = Some p) \<and>
    ((\<forall>l h. ok l h \<longrightarrow> orderly l h) \<longrightarrow>
       (\<forall>p. pr_stage (ho_procs h p) = Running \<and> pr_shell (ho_procs h p) \<longrightarrow> ho_sockets h (default_path env) = Some p))"
proof -
  have "default_path env \<noteq> gui" using files_distinct [OF assms(1-3)] by metis
  from host_reachable_inv [OF assms(4) this] show ?thesis by (auto simp: lock_inv_def shell_inv_def)
qed

text \<open>A run, and the state it ends in; each label is allowed in any state here.\<close>

fun host_run :: "string \<Rightarrow> string \<Rightarrow> string \<Rightarrow> host_label list \<Rightarrow> host \<Rightarrow> host option" where
  "host_run lock shell gui [] h = Some h"
| "host_run lock shell gui (l # ls) h = (case host_step lock shell gui l h of None \<Rightarrow> None | Some h' \<Rightarrow> host_run lock shell gui ls h')"

lemma host_run_reachable:
  "host_run lock shell gui ls h = Some h' \<Longrightarrow> host_reachable lock shell gui (\<lambda>_ _. True) h \<Longrightarrow> host_reachable lock shell gui (\<lambda>_ _. True) h'"
  by (induction ls arbitrary: h) (auto split: option.splits intro: host_next)

definition quiet :: sys_env where
  "quiet = \<lparr>sy_mkdir_error = None, sy_open_error = None, sy_lock_error = None, sy_remove_error = None, sy_bind_error = None\<rparr>"

definition sample_platform :: platform_env where
  "sample_platform = \<lparr>pe_os = Linux, pe_config_dir = Some ''/h/.config'', pe_data_local_dir = None, pe_var = \<lambda>_. Some ''/run/user/1'', pe_temp_dir = ''/tmp''\<rparr>"

definition sample_lock :: string where "sample_lock = ''/run/user/1/owncloud/ocsyncd.lock''"
definition sample_gui :: string where "sample_gui = ''/run/user/1/owncloud/daemon-gui.sock''"
definition sample_shell :: string where "sample_shell = ''/run/user/1/owncloud/socket''"

lemma sample_paths:
  "platform_lock_path sample_platform = Some sample_lock" "platform_gui_socket_path sample_platform = Some sample_gui"
  "default_path sample_platform = sample_shell"
  by (simp_all add: platform_lock_path_def platform_gui_socket_path_def default_path_def sample_platform_def var_or_def path_join_def is_absolute_def
      sample_lock_def sample_gui_def sample_shell_def)

theorem one_daemon_at_its_sockets_witness:
  "case host_run sample_lock sample_shell sample_gui
      [Start 1, Acquire quiet 1, Bind_Gui quiet 1, Crash 1, Start 2, Start 3, Acquire quiet 2, Acquire quiet 3, Bind_Gui quiet 2] no_daemon of
    Some h \<Rightarrow> pr_stage (ho_procs h 2) = Running \<and> pr_gui (ho_procs h 2) \<and> ho_sockets h sample_gui = Some 2 \<and> pr_stage (ho_procs h 3) \<noteq> Running
  | None \<Rightarrow> False"
proof -
  let ?ls = "[Start 1, Acquire quiet 1, Bind_Gui quiet 1, Crash 1, Start 2, Start 3, Acquire quiet 2, Acquire quiet 3, Bind_Gui quiet 2]"
  have "case host_run sample_lock sample_shell sample_gui ?ls no_daemon of
      Some h \<Rightarrow> pr_stage (ho_procs h 2) = Running \<and> pr_gui (ho_procs h 2) | None \<Rightarrow> False"
    by code_simp
  then obtain h where h: "host_run sample_lock sample_shell sample_gui ?ls no_daemon = Some h" "pr_stage (ho_procs h 2) = Running" "pr_gui (ho_procs h 2)"
    by (cases "host_run sample_lock sample_shell sample_gui ?ls no_daemon") (simp_all only: option.case)
  have "pe_os sample_platform \<noteq> Windows" by (simp add: sample_platform_def)
  note t = one_daemon_at_its_sockets [OF this sample_paths(1,2), unfolded sample_paths(3), OF host_run_reachable [OF h(1) host_start]]
  have "ho_sockets h sample_gui = Some 2" using t h(2,3) by blast
  moreover have "pr_stage (ho_procs h 3) \<noteq> Running" using t [THEN conjunct1, rule_format, of 2 3] h(2) by auto
  ultimately show ?thesis unfolding h(1) option.case using h(2,3) by blast
qed

text \<open>
  Without that condition a daemon can lose its socket: the one that is leaving removes the file at the path of the socket, which by then is the
  file of its successor, so no file manager can reach the running daemon.
\<close>

theorem leaving_daemon_removes_new_socket:
  "case host_run sample_lock sample_shell sample_gui
      [Start 1, Acquire quiet 1, Bind_Shell quiet 1, Return 1, Start 2, Acquire quiet 2, Bind_Shell quiet 2, Drop_Runtime quiet 1] no_daemon of
    Some h \<Rightarrow> pr_stage (ho_procs h 2) = Running \<and> pr_shell (ho_procs h 2) \<and> ho_sockets h sample_shell = None
  | None \<Rightarrow> False"
  by code_simp

end
