(* ===== verification/DaemonMain.thy ===== *)
theory DaemonMain
  imports GuiServer Instance DaemonLoop
begin

text \<open>
  The start of the daemon as a whole (\<open>main\<close> of \<open>crates/daemon/src/main.rs\<close>): lock, configuration, token managers, folders, the two servers; how long it takes
  until the GUI can reach it (\<open>crates/gui/src/spawn.rs\<close>); and the command that opens the browser (\<open>gui_ipc/handler.rs\<close>).
\<close>

section \<open>The start (\<open>main.rs\<close>)\<close>

text \<open>
  What the start depends on: the system, the paths, the configuration file, the keychain, the discovery of a server (which changes the network of
  type \<open>'n\<close>), the folders, and the order in which the map of folders is gone through.
\<close>

record 'n main_env =
  me_sys :: sys_env
  me_lock_path :: string
  me_config :: config_env
  me_show_id :: "uuid \<Rightarrow> string"
  me_keychain :: "string \<Rightarrow> OcisError + TokenSet option"
  me_discover :: "string \<Rightarrow> 'n \<Rightarrow> (OcisError + OidcConfig) \<times> 'n"
  me_folders :: folder_env
  me_order :: "FolderManager \<Rightarrow> uuid list"

text \<open>The process ends at once with a message, or \<open>main\<close> returns an error.\<close>

datatype start_error = Exit_1 string | Main_Error string

record 'n started =
  sd_system :: "'n system"
  sd_roots :: "(string \<times> uuid) list"
  sd_states :: "uuid \<rightharpoonup> SyncState"
  sd_vfs :: vfs_kind
  sd_gui :: GuiIpcServer

definition all_folders :: "AppConfig \<Rightarrow> FolderConfig list" where
  "all_folders cfg = concat (map ac_folder (ap_account cfg))"

definition daemon_main :: "'n main_env \<Rightarrow> keychain \<Rightarrow> string option \<Rightarrow> nat \<Rightarrow> host \<Rightarrow> 'n \<Rightarrow> (start_error + 'n started) \<times> host \<times> 'n" where
  "daemon_main env kc file p h n =
     (case acquire (me_sys env) (me_lock_path env) p h of
        (Inl AlreadyRunning, h) \<Rightarrow> (Inl (Exit_1 (''ocsyncd is already running (lock: '' @ me_lock_path env @ '')'')), h, n)
      | (Inl (Lock_Io e), h) \<Rightarrow> (Inl (Exit_1 (''Failed to acquire lock at '' @ me_lock_path env @ '': '' @ e)), h, n)
      | (Inr _, h) \<Rightarrow>
          (case load_or_default (me_config env) file of
             Inl e \<Rightarrow> (Inl (Main_Error e), drop_lock p h, n)
           | Inr initial_config \<Rightarrow>
               (case build_token_managers (me_show_id env) (me_keychain env) (me_discover env) (ap_account initial_config) Map.empty n of
                  (token_managers, n) \<Rightarrow>
                    (case init_sync (me_folders env) (all_folders initial_config) (ap_account initial_config) token_managers of
                       Inl e \<Rightarrow> (Inl (Main_Error e), drop_lock p h, n)
                     | Inr folder_manager \<Rightarrow>
                         (let order = me_order env folder_manager
                          in (Inr \<lparr>sd_system = start_system (init_daemon initial_config file token_managers folder_manager order) kc n,
                                   sd_roots = folder_roots order folder_manager, sd_states = fm_sync_states folder_manager,
                                   sd_vfs = shared_vfs order folder_manager, sd_gui = server_broadcast Ready new_server\<rparr>, h, n))))))"

section \<open>When the GUI can connect\<close>

text \<open>
  The socket of the GUI is bound after all discoveries, one after the other; \<open>took\<close> is how many milliseconds each takes. An account without a keychain
  entry is not discovered.
\<close>

definition socket_after :: "'n main_env \<Rightarrow> (string \<Rightarrow> nat) \<Rightarrow> AppConfig \<Rightarrow> nat" where
  "socket_after env took cfg =
     sum_list (map (\<lambda>a. case me_keychain env (me_show_id env (ac_id a)) of Inr (Some t) \<Rightarrow> took (ac_url a) | _ \<Rightarrow> 0) (ap_account cfg))"

text \<open>
  How the attempts of \<open>wait_for_socket\<close> end that come after the start of the daemon, 200 ms apart: they are refused until the socket is bound. The attempt
  before the start has number 0.
\<close>

definition refused_until :: "nat \<Rightarrow> nat \<Rightarrow> string option" where
  "refused_until ready k = (if k = 0 \<or> (k - 1) * 200 < ready then Some ''Connection refused (os error 111)'' else None)"

section \<open>The browser (\<open>handler.rs\<close>)\<close>

text \<open>The outcome of a command: it cannot be started, or it ends with a status (\<open>None\<close> is success).\<close>

definition run_browser_cmd :: "(string \<Rightarrow> string list \<Rightarrow> string + string option) \<Rightarrow> string \<Rightarrow> string list \<Rightarrow> string + unit" where
  "run_browser_cmd exec cmd args =
     (case exec cmd args of
        Inl e \<Rightarrow> Inl (''failed to start '' @ [CHR 0x27] @ cmd @ [CHR 0x27] @ '': '' @ e)
      | Inr (Some status) \<Rightarrow> Inl ([CHR 0x27] @ cmd @ [CHR 0x27] @ '' exited with '' @ status)
      | Inr None \<Rightarrow> Inr ())"

definition open_browser :: "os \<Rightarrow> (string \<Rightarrow> string list \<Rightarrow> string + string option) \<Rightarrow> string \<Rightarrow> string + unit" where
  "open_browser sys exec url =
     (case sys of
        os.Linux \<Rightarrow> run_browser_cmd exec ''xdg-open'' [url]
      | os.MacOs \<Rightarrow> run_browser_cmd exec ''open'' [url]
      | os.Windows \<Rightarrow> run_browser_cmd exec ''cmd'' [''/c'', ''start'', url])"

section \<open>Lemmas\<close>

lemma folder_roots_ids: "snd ` set (folder_roots order fm) = set order \<inter> dom (fm_folders fm)"
  by (force simp: folder_roots_def List.map_filter_def)

lemma take_watchers_dom [simp]: "dom (fm_folders (fold (\<lambda>i fm. snd (take_watcher i fm)) order fm)) = dom (fm_folders fm)"
  by (induction order arbitrary: fm) simp_all

text \<open>What a successful start has gone through.\<close>

lemma daemon_main_Inr:
  assumes "daemon_main env kc file p h n = (Inr sd, h', n')"
  obtains cfg tms fm where
    "load_or_default (me_config env) file = Inr cfg" "init_sync (me_folders env) (all_folders cfg) (ap_account cfg) tms = Inr fm"
    "acquire (me_sys env) (me_lock_path env) p h = (Inr (), h')"
    "sd_system sd = start_system (init_daemon cfg file tms fm (me_order env fm)) kc n'"
    "sd_roots sd = folder_roots (me_order env fm) fm" "sd_gui sd = server_broadcast Ready new_server"
  using assms by (auto simp: daemon_main_def Let_def split: prod.splits sum.splits LockError.splits)

text \<open>A folder that is brought up at the start: its account is known and has credentials.\<close>

definition wanted :: "AccountConfig list \<Rightarrow> (uuid \<rightharpoonup> TokenManager) \<Rightarrow> FolderConfig \<Rightarrow> (AccountConfig \<times> TokenManager) option" where
  "wanted accounts tms fc =
     (case find (\<lambda>a. list_ex (\<lambda>f. fc_id f = fc_id fc) (ac_folder a)) accounts of
        None \<Rightarrow> None
      | Some a \<Rightarrow> map_option (Pair a) (tms (ac_id a)))"

lemma init_folders_fails_iff:
  "isl (init_folders fe accounts tms fcs fm) \<longleftrightarrow>
     (\<exists>fc a tm. fc \<in> set fcs \<and> wanted accounts tms fc = Some (a, tm) \<and> isl (open_folder fe fc a tm))"
proof (induction fcs arbitrary: fm)
  case (Cons fc fcs)
  show ?case
  proof (cases "wanted accounts tms fc")
    case None
    then have "init_folders fe accounts tms (fc # fcs) fm = init_folders fe accounts tms fcs fm"
      by (auto simp: wanted_def split: option.splits)
    then show ?thesis using None by (simp add: Cons) (metis option.distinct(1))
  next
    case (Some at)
    obtain a tm where at: "at = (a, tm)" by (cases at)
    have "init_folders fe accounts tms (fc # fcs) fm =
      (case open_folder fe fc a tm of Inl e \<Rightarrow> Inl e | Inr mf \<Rightarrow> init_folders fe accounts tms fcs (insert_folder fc mf fm))"
      using Some at by (auto simp: wanted_def split: option.splits)
    then show ?thesis using Some at by (cases "open_folder fe fc a tm") (auto simp: Cons)
  qed
qed simp

section \<open>Properties\<close>

text \<open>
  A daemon whose start succeeds holds the lock and is in one of the states from which the main loop is analysed; a GUI that subscribes now has missed
  nothing but \<open>Ready\<close>, and the file managers are told the roots of exactly its folders.
\<close>

theorem main_starts_reachable:
  assumes "daemon_main env kc file p h n = (Inr sd, h', n')"
    and "\<And>fm. distinct (me_order env fm)" "\<And>fm. set (me_order env fm) = dom (fm_folders fm)"
  shows "reachable (sd_system sd) \<and> ho_lock h' = Some p \<and> gs_log (sd_gui sd) = d_events (sy_daemon (sd_system sd)) \<and>
    snd ` set (sd_roots sd) = dom (fm_folders (d_fm (sy_daemon (sd_system sd))))"
proof -
  obtain cfg tms fm where m: "init_sync (me_folders env) (all_folders cfg) (ap_account cfg) tms = Inr fm"
    "acquire (me_sys env) (me_lock_path env) p h = (Inr (), h')" "sd_system sd = start_system (init_daemon cfg file tms fm (me_order env fm)) kc n'"
    "sd_roots sd = folder_roots (me_order env fm) fm" "sd_gui sd = server_broadcast Ready new_server"
    using daemon_main_Inr [OF assms(1)] by metis
  have "reachable (sd_system sd)" unfolding m(3) by (rule reachable.start [OF m(1) assms(2,3)])
  moreover have "ho_lock h' = Some p" using acquire_cases [OF m(2)] by simp
  ultimately show ?thesis
    using assms(3) [of fm] by (simp add: m(3-5) folder_roots_ids start_system_def init_daemon_def server_broadcast_def new_server_def)
qed

text \<open>
  C33: When the daemon does not start. The start fails exactly if the lock is not to be had, the configuration cannot be read, the configuration directory
  cannot be created, or some folder of an account with credentials cannot be opened: one folder whose directory is gone or whose journal cannot be opened
  keeps the daemon with all other folders from starting. Accounts without credentials or whose server cannot be discovered are no obstacle. A start that
  fails leaves the lock as it was.
\<close>

theorem daemon_start_outcome:
  "(isl (fst (daemon_main env kc file p h n)) \<longleftrightarrow>
      isl (fst (acquire (me_sys env) (me_lock_path env) p h)) \<or>
      (case load_or_default (me_config env) file of
         Inl e \<Rightarrow> True
       | Inr cfg \<Rightarrow>
           fe_mkdir_fails (me_folders env) \<or>
           (\<exists>fc a tm. fc \<in> set (all_folders cfg) \<and>
              wanted (ap_account cfg)
                (fst (build_token_managers (me_show_id env) (me_keychain env) (me_discover env) (ap_account cfg) Map.empty n)) fc = Some (a, tm) \<and>
              isl (open_folder (me_folders env) fc a tm)))) \<and>
   ho_lock (fst (snd (daemon_main env kc file p h n))) = (if isl (fst (daemon_main env kc file p h n)) then ho_lock h else Some p)"
proof -
  obtain r h1 where lock: "acquire (me_sys env) (me_lock_path env) p h = (r, h1)" by fastforce
  show ?thesis
  proof (cases r)
    case (Inl e)
    then show ?thesis using lock acquire_cases [OF lock] by (cases e) (simp_all add: daemon_main_def)
  next
    case (Inr u)
    then have h1: "ho_lock h = None" "ho_lock h1 = Some p" using acquire_cases [OF lock] by simp_all
    show ?thesis
    proof (cases "load_or_default (me_config env) file")
      case (Inl e)
      then show ?thesis using lock Inr h1 by (simp add: daemon_main_def)
    next
      case cfg: (Inr cfg)
      obtain tms n1 where tms: "build_token_managers (me_show_id env) (me_keychain env) (me_discover env) (ap_account cfg) Map.empty n = (tms, n1)"
        by fastforce
      show ?thesis
        using lock Inr cfg tms h1 init_folders_fails_iff [of "me_folders env" "ap_account cfg" tms "all_folders cfg" empty_fm]
        by (cases "init_sync (me_folders env) (all_folders cfg) (ap_account cfg) tms")
          (auto simp: daemon_main_def init_sync_def Let_def split: if_splits)
    qed
  qed
qed

text \<open>
  A daemon that needs more than 800 ms for its discoveries starts too slowly for the GUI that has started it: the attempt to connect fails although
  the daemon comes up.
\<close>

theorem slow_start_gives_up:
  assumes "800 < socket_after env took cfg" "sp_refused se = refused_until (socket_after env took cfg)"
    and "ensure_daemon_running se sock \<lparr>spw_attempts = 0, spw_started = [], spw_slept = 0, spw_logs = []\<rparr> = (r, w)"
  shows "isl r" "spawn_and_connect se sock i = None"
proof -
  have "refused_until (socket_after env took cfg) k \<noteq> None" if "k \<le> 5" for k
    using that assms(1) by (auto simp: refused_until_def)
  then show "isl r" using ensure_daemon_running_result(1) [OF assms(3)] assms(2) by (metis add_0 spawn_world.select_convs(1))
  then show "spawn_and_connect se sock i = None" using assms(3) by (auto simp: spawn_and_connect_def split: sum.splits)
qed

end
