(* ===== verification/GuiViews.thy ===== *)
theory GuiViews
  imports GuiShell
begin

text \<open>
  What the views show and offer (\<open>crates/gui/src/views\<close>, \<open>view\<close> of \<open>main.rs\<close>, \<open>status_color\<close> of \<open>theme.rs\<close>): the texts, lights, buttons and fields of a view from top
  to bottom and left to right. Sizes, spacing, colours of texts and frames are left out; texts come from the translation function.
\<close>

section \<open>Widgets\<close>

text \<open>The palette of \<open>theme.rs\<close>; what its names stand for is in \<open>Theme\<close>.\<close>

datatype color =
    BG_BASE | BG_SURFACE | BG_CARD | BG_HOVER | BORDER_SUBTLE | BORDER_DEFAULT | TEXT_PRIMARY | TEXT_SECONDARY | TEXT_MUTED | ACCENT
  | STATUS_OK | STATUS_SYNCING | STATUS_ERROR | STATUS_PAUSED

text \<open>A button may have no action; a progress bar has its two numbers.\<close>

datatype widget =
    Text string
  | Led color
  | Button string "Message option"
  | Url_Field string
  | Checkbox bool string uuid string
  | Language_List "Language list" Language
  | Progress u64 u64
  | Banner string
  | Toggle string string bool

text \<open>The messages a widget can send.\<close>

fun offers :: "widget \<Rightarrow> Message \<Rightarrow> bool" where
  "offers (Button _ m) msg \<longleftrightarrow> m = Some msg"
| "offers (Url_Field _) msg \<longleftrightarrow> msg = AddAccountSubmit \<or> (\<exists>u. msg = AddAccountUrlChanged u)"
| "offers (Checkbox _ _ i s) msg \<longleftrightarrow> (\<exists>b. msg = ToggleSpaceSelection i s b)"
| "offers (Language_List ls _) msg \<longleftrightarrow> (\<exists>l. l \<in> set ls \<and> msg = LanguageChanged l)"
| "offers _ msg \<longleftrightarrow> False"

definition arrow :: string where "arrow = [CHR 0xE2, CHR 0x86, CHR 0x92]"
definition open_arrow :: string where "open_arrow = [CHR 0xE2, CHR 0x86, CHR 0x97]"
definition gear :: string where "gear = [CHR 0xE2, CHR 0x9A, CHR 0x99]"
definition cloud :: string where "cloud = [CHR 0xE2, CHR 0x98, CHR 0x81]"
definition info_sign :: string where "info_sign = [CHR 0xE2, CHR 0x84, CHR 0xB9]"
definition folder_sign :: string where "folder_sign = [CHR 0xF0, CHR 0x9F, CHR 0x93, CHR 0x81]"
definition spinner :: string where "spinner = [CHR 0xE2, CHR 0x9F, CHR 0xB3]"
definition ellipsis :: string where "ellipsis = [CHR 0xE2, CHR 0x80, CHR 0xA6]"

section \<open>The folders and their state (\<open>sync_status.rs\<close>)\<close>

definition status_color :: "GuiFolderStatus \<Rightarrow> color" where
  "status_color st = (case st of Gui_Idle \<Rightarrow> STATUS_OK | Gui_Syncing \<Rightarrow> STATUS_SYNCING | Gui_Error \<Rightarrow> STATUS_ERROR | Gui_Paused \<Rightarrow> STATUS_PAUSED)"

definition account_led_color :: "AccountView \<Rightarrow> color" where
  "account_led_color account =
     (if list_ex (\<lambda>f. fv_status f = Gui_Error) (av_folders account) then STATUS_ERROR
      else if list_ex (\<lambda>f. fv_status f = Gui_Syncing) (av_folders account) then STATUS_SYNCING
      else if list_all (\<lambda>f. fv_status f = Gui_Paused) (av_folders account) \<and> av_folders account \<noteq> [] then STATUS_PAUSED
      else STATUS_OK)"

text \<open>The characters of a text, each with its bytes.\<close>

function chars :: "string \<Rightarrow> string list" where
  "chars s = (if s = [] \<or> utf8_len s = 0 then [] else take (utf8_len s) s # chars (drop (utf8_len s) s))"
  by pat_completeness auto
termination by (relation "measure length") auto

declare chars.simps [simp del]

text \<open>\<open>truncate_path\<close>; below 2 characters the subtraction of 1 from the half overflows.\<close>

definition truncate_path :: "string \<Rightarrow> nat \<Rightarrow> string option" where
  "truncate_path path max_chars =
     (let char_count = length (chars path) in
      if char_count \<le> max_chars then Some path
      else if max_chars < 2 then None
      else (let half = max_chars div 2 - 1
            in Some (concat (take half (chars path)) @ ellipsis @ concat (drop (char_count - half) (chars path)))))"

definition badge_label :: "(string \<Rightarrow> string) \<Rightarrow> (string \<Rightarrow> nat \<Rightarrow> string) \<Rightarrow> FolderView \<Rightarrow> string" where
  "badge_label tr tr_count folder =
     (case fv_status folder of
        Gui_Error \<Rightarrow> (let n = length (fv_errors folder) in if n = 1 then tr ''folder_status_error_one'' else tr_count ''folder_status_error_other'' n)
      | Gui_Idle \<Rightarrow> tr ''folder_status_idle''
      | Gui_Syncing \<Rightarrow> tr ''folder_status_syncing''
      | Gui_Paused \<Rightarrow> tr ''folder_status_paused'')"

definition badge_msg :: "uuid \<Rightarrow> FolderView \<Rightarrow> Message" where
  "badge_msg account_id folder =
     (case fv_status folder of
        Gui_Idle \<Rightarrow> ForceSyncFolder (fv_id folder)
      | Gui_Syncing \<Rightarrow> Msg_PauseFolder (fv_id folder)
      | Gui_Paused \<Rightarrow> Msg_ResumeFolder (fv_id folder)
      | Gui_Error \<Rightarrow> NavigateTo (FolderErrors account_id (fv_id folder)))"

definition folder_row :: "(string \<Rightarrow> string) \<Rightarrow> (string \<Rightarrow> nat \<Rightarrow> string) \<Rightarrow> FolderView \<Rightarrow> uuid \<Rightarrow> widget list" where
  "folder_row tr tr_count folder account_id =
     [Led (status_color (fv_status folder)), Text (fv_display_name folder)] @
     (case truncate_path (fv_local_path folder) 44 of Some p \<Rightarrow> [Text p] | None \<Rightarrow> []) @
     (case fv_progress folder of Some (completed, whole) \<Rightarrow> [Progress completed whole] | None \<Rightarrow> []) @
     [Button open_arrow (Some (OpenFolder (fv_local_path folder))), Button (badge_label tr tr_count folder) (Some (badge_msg account_id folder))]"

definition account_section :: "(string \<Rightarrow> string) \<Rightarrow> (string \<Rightarrow> nat \<Rightarrow> string) \<Rightarrow> AccountView \<Rightarrow> widget list" where
  "account_section tr tr_count account =
     [Led (account_led_color account), Text (av_display_name account), Text (av_url account), Button gear (Some (NavigateTo (AccountSettings (av_id account))))] @
     (if av_folders account = [] then [Text (tr ''no_folders_configured'')]
      else concat (map (\<lambda>folder. folder_row tr tr_count folder (av_id account)) (av_folders account)))"

definition empty_state_view :: "(string \<Rightarrow> string) \<Rightarrow> widget list" where
  "empty_state_view tr = [Text (tr ''no_accounts_heading''), Text (tr ''no_accounts_sub''), Button (tr ''add_account_btn'') (Some (NavigateTo (View_AddAccount [] None)))]"

definition sync_status_view :: "(string \<Rightarrow> string) \<Rightarrow> (string \<Rightarrow> nat \<Rightarrow> string) \<Rightarrow> AccountView list \<Rightarrow> widget list" where
  "sync_status_view tr tr_count accounts =
     (if accounts = [] then empty_state_view tr else concat (map (account_section tr tr_count) accounts))"

section \<open>The other views\<close>

definition add_account_view :: "(string \<Rightarrow> string) \<Rightarrow> string \<Rightarrow> string option \<Rightarrow> widget list" where
  "add_account_view tr url_input err =
     [Text (tr ''add_account_heading''), Text (tr ''add_account_caption''), Text (tr ''server_url_label''), Url_Field url_input] @
     (case err of Some e \<Rightarrow> [Banner e] | None \<Rightarrow> []) @
     [Button (tr ''connect_btn'') (Some AddAccountSubmit), Button (tr ''cancel_btn'') (Some (NavigateTo SyncStatus))]"

definition add_account_waiting_view :: "(string \<Rightarrow> string) \<Rightarrow> widget list" where
  "add_account_waiting_view tr =
     [Text spinner, Text (tr ''waiting_heading''), Text (tr ''waiting_caption''), Button (tr ''cancel_btn'') (Some (NavigateTo SyncStatus))]"

definition space_label :: "SpaceInfo \<Rightarrow> string" where
  "space_label space = si_name space @ '' ('' @
     (if si_drive_type space = ''personal'' then ''Personal'' else if si_drive_type space = ''project'' then ''Project'' else ''Space'') @ '')''"

definition pick_spaces_view :: "uuid \<Rightarrow> SpaceInfo list \<Rightarrow> string set \<Rightarrow> string option \<Rightarrow> string \<Rightarrow> widget list" where
  "pick_spaces_view account_id spaces selected err title =
     [Text title, Text ''Select the spaces you want to sync.''] @
     map (\<lambda>space. Checkbox (si_id space \<in> selected) (space_label space) account_id (si_id space)) spaces @
     (case err of Some e \<Rightarrow> [Banner e] | None \<Rightarrow> []) @
     [Button (''Next '' @ arrow) (if selected \<noteq> {} then Some (PickSpacesNext account_id) else None), Button ''Cancel'' (Some (NavigateTo SyncStatus))]"

definition derived_path :: "string \<Rightarrow> SpaceInfo \<Rightarrow> string" where
  "derived_path root space = trim_end_matches CHR ''/'' root @ ''/'' @ si_name space"

definition pick_root_folder_view :: "(string \<Rightarrow> string) \<Rightarrow> uuid \<Rightarrow> SpaceInfo list \<Rightarrow> string option \<Rightarrow> string option \<Rightarrow> widget list" where
  "pick_root_folder_view tr account_id spaces local_path err =
     [Text (tr ''pick_root_folder_heading''), Text (tr ''pick_root_folder_caption''), Text (tr ''root_folder_label'')] @
     (case local_path of
        None \<Rightarrow> [Text (tr ''no_folder_selected'')]
      | Some path \<Rightarrow> [Text folder_sign, Text path, Text (tr ''will_create_label'')] @ map (\<lambda>space. Text (derived_path path space)) spaces) @
     [Button (if local_path = None then tr ''choose_folder_btn'' else tr ''change_folder_btn'') (Some PickRootFolderBrowse)] @
     (case err of Some e \<Rightarrow> [Banner e] | None \<Rightarrow> []) @
     [Button (tr ''start_syncing_btn'') (if local_path \<noteq> None then Some (PickRootFolderSubmit account_id) else None),
      Button (tr ''cancel_btn'') (Some (NavigateTo SyncStatus))]"

definition account_settings_view :: "(string \<Rightarrow> string) \<Rightarrow> AccountView \<Rightarrow> widget list" where
  "account_settings_view tr account =
     [Text (av_display_name account), Text (av_url account), Button (''Add Space'' @ ellipsis) (Some (AddSpaceClicked (av_id account))),
      Button (tr ''remove_account_btn'') (Some (Msg_RemoveAccount (av_id account))), Text (tr ''synced_folders_label'')] @
     (if av_folders account = [] then [Text (tr ''no_folders_configured_dot'')]
      else concat (map (\<lambda>folder. [Text (fv_display_name folder), Text arrow, Text (fv_local_path folder)]) (av_folders account))) @
     [Button (tr ''back_btn'') (Some (NavigateTo SyncStatus))]"

definition folder_errors_view :: "(string \<Rightarrow> string) \<Rightarrow> AccountView \<Rightarrow> uuid \<Rightarrow> widget list" where
  "folder_errors_view tr account folder_id =
     (case find (\<lambda>f. fv_id f = folder_id) (av_folders account) of
        None \<Rightarrow> [Text (tr ''folder_not_found'')]
      | Some f \<Rightarrow> [Text (fv_display_name f), Text (fv_local_path f), Text (tr ''sync_errors_label'')] @
          (if fv_errors f = [] then [Text (tr ''no_errors'')] else map Text (fv_errors f)) @
          [Button (tr ''back_btn'') (Some (NavigateTo SyncStatus))])"

definition general_settings_view :: "(string \<Rightarrow> string) \<Rightarrow> Language \<Rightarrow> widget list" where
  "general_settings_view tr language =
     [Text (tr ''general_settings_heading''), Text (tr ''language_label''), Text (tr ''language_sublabel''), Language_List [En, De, Fr, Zh] language,
      Toggle (tr ''launch_at_login_label'') (tr ''launch_at_login_sub'') True, Toggle (tr ''show_in_tray_label'') (tr ''show_in_tray_sub'') True,
      Toggle (tr ''notifications_label'') (tr ''notifications_sub'') False, Button (tr ''back_btn'') (Some (NavigateTo SyncStatus))]"

text \<open>The constants that the build writes.\<close>

record build_info =
  bi_version :: string
  bi_contributors :: string
  bi_iced :: string
  bi_rustls :: string
  bi_sqlite :: string
  bi_os_name :: string
  bi_os_version :: string
  bi_build_arch :: string
  bi_cpu_arch :: string

definition about_view :: "(string \<Rightarrow> string) \<Rightarrow> (string \<Rightarrow> string \<Rightarrow> string) \<Rightarrow> build_info \<Rightarrow> widget list" where
  "about_view tr tr_arg bi =
     [Text (tr ''about_heading''), Text (tr_arg ''about_version_prefix'' (bi_version bi)),
      Button ''https://owncloud.com'' (Some (OpenUrl ''https://owncloud.com'')), Text (tr ''about_issues_prefix''),
      Button ''https://central.owncloud.com'' (Some (OpenUrl ''https://central.owncloud.com'')),
      Text (tr_arg ''about_contributors'' (bi_contributors bi)), Text (tr ''about_copyright''), Text (tr ''about_license''),
      Text (''ownCloud Sync '' @ bi_version bi),
      Text (''Libraries: iced '' @ bi_iced bi @ '', rustls '' @ bi_rustls bi @ '', libsqlite3-sys '' @ bi_sqlite bi),
      Text (''OS: '' @ bi_os_name bi @ '' '' @ bi_os_version bi @ '' (build arch: '' @ bi_build_arch bi @ '', CPU arch: '' @ bi_cpu_arch bi @ '')'')]"

section \<open>The window (\<open>view\<close> of \<open>main.rs\<close>)\<close>

record texts =
  tx_plain :: "string \<Rightarrow> string"
  tx_count :: "string \<Rightarrow> nat \<Rightarrow> string"
  tx_arg :: "string \<Rightarrow> string \<Rightarrow> string"
  tx_build :: build_info

datatype nav = Nav_Sync | Nav_Add | Nav_Settings | Nav_About

text \<open>Which entries of the side bar are drawn as active: \<open>is_sync\<close>, \<open>is_add\<close>, \<open>is_settings\<close> and \<open>is_about\<close>.\<close>

definition nav_active :: "View \<Rightarrow> nav \<Rightarrow> bool" where
  "nav_active v n =
     (case n of
        Nav_Sync \<Rightarrow> (case v of SyncStatus \<Rightarrow> True | FolderErrors _ _ \<Rightarrow> True | _ \<Rightarrow> False)
      | Nav_Add \<Rightarrow> (case v of View_AddAccount _ _ \<Rightarrow> True | AddAccountWaiting _ _ \<Rightarrow> True | PickSpaces _ _ _ _ \<Rightarrow> True | PickRootFolder _ _ _ _ \<Rightarrow> True | _ \<Rightarrow> False)
      | Nav_Settings \<Rightarrow> (case v of GeneralSettings \<Rightarrow> True | AccountSettings _ \<Rightarrow> True | _ \<Rightarrow> False)
      | Nav_About \<Rightarrow> (case v of About \<Rightarrow> True | _ \<Rightarrow> False))"

definition sidebar :: "(string \<Rightarrow> string) \<Rightarrow> widget list" where
  "sidebar tr =
     [Button (cloud @ '' '' @ tr ''nav_sync_status'') (Some (NavigateTo SyncStatus)), Button (tr ''nav_add_account'') (Some (NavigateTo (View_AddAccount [] None))),
      Button (gear @ '' '' @ tr ''nav_settings'') (Some (NavigateTo GeneralSettings)), Button (info_sign @ '' '' @ tr ''nav_about'') (Some (NavigateTo About))]"

definition content_view :: "texts \<Rightarrow> App \<Rightarrow> widget list" where
  "content_view tx app =
     (let tr = tx_plain tx in
      case ga_view app of
        SyncStatus \<Rightarrow> sync_status_view tr (tx_count tx) (ga_accounts app)
      | View_AddAccount url_input e \<Rightarrow> add_account_view tr url_input e
      | AccountSettings i \<Rightarrow>
          (case find_view i app of Some account \<Rightarrow> account_settings_view tr account | None \<Rightarrow> [Text (tr ''account_not_found'')])
      | AddAccountWaiting _ _ \<Rightarrow> add_account_waiting_view tr
      | PickSpaces i spaces selected e \<Rightarrow> pick_spaces_view i spaces selected e ''Choose spaces to sync''
      | PickRootFolder i spaces local_path e \<Rightarrow> pick_root_folder_view tr i spaces local_path e
      | GeneralSettings \<Rightarrow> general_settings_view tr (ga_language app)
      | About \<Rightarrow> about_view tr (tx_arg tx) (tx_build tx)
      | FolderErrors i folder_id \<Rightarrow>
          (case find_view i app of Some account \<Rightarrow> folder_errors_view tr account folder_id | None \<Rightarrow> sync_status_view tr (tx_count tx) (ga_accounts app)))"

definition app_view :: "texts \<Rightarrow> App \<Rightarrow> widget list" where
  "app_view tx app = [Text ''ownCloud Sync''] @ sidebar (tx_plain tx) @ content_view tx app"

section \<open>Lemmas\<close>

lemma nav_active_simps:
  "nav_active v Nav_Sync \<longleftrightarrow> (case v of SyncStatus \<Rightarrow> True | FolderErrors _ _ \<Rightarrow> True | _ \<Rightarrow> False)"
  "nav_active v Nav_Add \<longleftrightarrow> (case v of View_AddAccount _ _ \<Rightarrow> True | AddAccountWaiting _ _ \<Rightarrow> True | PickSpaces _ _ _ _ \<Rightarrow> True | PickRootFolder _ _ _ _ \<Rightarrow> True | _ \<Rightarrow> False)"
  "nav_active v Nav_Settings \<longleftrightarrow> (case v of GeneralSettings \<Rightarrow> True | AccountSettings _ \<Rightarrow> True | _ \<Rightarrow> False)"
  "nav_active v Nav_About \<longleftrightarrow> v = About"
  by (simp_all add: nav_active_def split: View.split)

text \<open>Exactly one entry of the side bar is active in every view.\<close>

lemma one_nav_active: "length (filter (nav_active v) [Nav_Sync, Nav_Add, Nav_Settings, Nav_About]) = 1"
  by (cases v) (simp_all add: nav_active_simps)

subsection \<open>Messages\<close>

text \<open>All widgets of a view offer messages that a user may send.\<close>

definition for_users :: "widget list \<Rightarrow> bool" where
  "for_users ws \<longleftrightarrow> (\<forall>w \<in> set ws. \<forall>m. offers w m \<longrightarrow> user_message m)"

lemma for_users_simps [simp]:
  "for_users []" "for_users (w # ws) \<longleftrightarrow> (\<forall>m. offers w m \<longrightarrow> user_message m) \<and> for_users ws" "for_users (ws @ ws') \<longleftrightarrow> for_users ws \<and> for_users ws'"
  by (auto simp: for_users_def)

lemma for_users_concat: "(\<And>x. x \<in> set xs \<Longrightarrow> for_users (f x)) \<Longrightarrow> for_users (concat (map f xs))"
  by (induction xs) simp_all

lemma for_users_map: "(\<And>x m. x \<in> set xs \<Longrightarrow> offers (f x) m \<Longrightarrow> user_message m) \<Longrightarrow> for_users (map f xs)"
  by (auto simp: for_users_def)

lemma for_users_folder_row: "for_users (folder_row tr tr_count folder i)"
  by (auto simp: folder_row_def badge_msg_def split: option.split GuiFolderStatus.split)

lemma for_users_sync_status: "for_users (sync_status_view tr tr_count accounts)"
  by (auto simp: sync_status_view_def empty_state_view_def account_section_def for_users_folder_row intro!: for_users_concat)

lemma for_users_views:
  "for_users (add_account_view tr u e)" "for_users (add_account_waiting_view tr)" "for_users (pick_spaces_view i spaces selected e title)"
  "for_users (pick_root_folder_view tr i spaces p e)" "for_users (account_settings_view tr account)" "for_users (folder_errors_view tr account f)"
  "for_users (general_settings_view tr l)" "for_users (about_view tr tr_arg bi)" "for_users (sidebar tr)"
  by (auto simp: add_account_view_def add_account_waiting_view_def pick_spaces_view_def pick_root_folder_view_def account_settings_view_def
      folder_errors_view_def general_settings_view_def about_view_def sidebar_def split: option.split intro!: for_users_map for_users_concat)

text \<open>
  What the window offers in any state is what the model of the process lets the user send; the messages of the daemon, of the connection and of its end
  cannot be forged from the window.
\<close>

theorem window_offers_user_messages: "w \<in> set (app_view tx app) \<Longrightarrow> offers w m \<Longrightarrow> user_message m"
proof -
  have "for_users (app_view tx app)"
    by (auto simp: app_view_def content_view_def for_users_views for_users_sync_status Let_def split: View.split option.split)
  then show "w \<in> set (app_view tx app) \<Longrightarrow> offers w m \<Longrightarrow> user_message m" by (auto simp: for_users_def)
qed

subsection \<open>Paths\<close>

lemma chars_char: "c \<noteq> [] \<Longrightarrow> utf8_len c = length c \<Longrightarrow> chars (c @ s) = c # chars s"
  by (subst chars.simps) (auto simp: utf8_len_append)

lemma utf8_len_take: "utf8_len s \<noteq> 0 \<Longrightarrow> utf8_len (take (utf8_len s) s) = utf8_len s"
proof -
  assume s: "utf8_len s \<noteq> 0"
  consider "s = []" | c where "s = [c]" | c x where "s = [c, x]" | c x y where "s = [c, x, y]" | c x y z r where "s = c # x # y # z # r"
    by (metis list.exhaust)
  then show ?thesis using s by cases (auto simp: utf8_len_def Let_def split: if_splits)
qed

lemma chars_valid:
  "valid_utf8 s \<Longrightarrow> concat (chars s) = s \<and> (\<forall>c \<in> set (chars s). c \<noteq> [] \<and> utf8_len c = length c)"
proof (induction s rule: chars.induct)
  case (1 s)
  show ?case
  proof (cases "s = []")
    case False
    with 1(2) have v: "utf8_len s \<noteq> 0" "valid_utf8 (drop (utf8_len s) s)" by (auto simp: valid_utf8.simps [of s] split: if_splits)
    have cs: "chars s = take (utf8_len s) s # chars (drop (utf8_len s) s)" by (subst chars.simps) (simp add: False v(1))
    have c: "take (utf8_len s) s \<noteq> [] \<and> utf8_len (take (utf8_len s) s) = length (take (utf8_len s) s)"
      using False v(1) utf8_len_take [OF v(1)] utf8_len_le [of s] by simp
    have "concat (chars (drop (utf8_len s) s)) = drop (utf8_len s) s"
        "\<forall>c \<in> set (chars (drop (utf8_len s) s)). c \<noteq> [] \<and> utf8_len c = length c"
      using 1(1) False v by blast+
    with c show ?thesis unfolding cs concat.simps list.set ball_simps by (metis append_take_drop_id)
  qed (simp add: chars.simps)
qed

lemma chars_concat: "\<forall>c \<in> set cs. c \<noteq> [] \<and> utf8_len c = length c \<Longrightarrow> chars (concat cs @ s) = cs @ chars s"
  by (induction cs) (simp_all add: chars_char)

text \<open>A path is shown as it is, or cut in the middle to fewer characters than allowed.\<close>

lemma truncate_path_bounds:
  assumes "valid_utf8 path" "2 \<le> max_chars"
  obtains p where "truncate_path path max_chars = Some p" "length (chars p) \<le> max_chars"
    "length (chars path) \<le> max_chars \<Longrightarrow> p = path" "max_chars < length (chars path) \<Longrightarrow> length (chars p) < max_chars"
proof -
  let ?cs = "chars path" and ?h = "max_chars div 2 - 1"
  have cs: "\<forall>c \<in> set ?cs. c \<noteq> [] \<and> utf8_len c = length c" using chars_valid [OF assms(1)] by blast
  have e: "chars (ellipsis @ s) = ellipsis # chars s" for s
    by (intro chars_char) (simp_all add: ellipsis_def utf8_len_def)
  have "\<forall>c \<in> set (take ?h ?cs). c \<noteq> [] \<and> utf8_len c = length c" "\<forall>c \<in> set (drop (length ?cs - ?h) ?cs). c \<noteq> [] \<and> utf8_len c = length c"
    using cs by (blast dest: in_set_takeD in_set_dropD)+
  from chars_concat [OF this(1)] chars_concat [OF this(2), of "[]"]
  have "chars (concat (take ?h ?cs) @ ellipsis @ concat (drop (length ?cs - ?h) ?cs)) = take ?h ?cs @ ellipsis # drop (length ?cs - ?h) ?cs"
    by (simp add: e chars.simps [of "[]"])
  then have l: "length (chars (concat (take ?h ?cs) @ ellipsis @ concat (drop (length ?cs - ?h) ?cs))) < max_chars" if "max_chars < length ?cs"
    using that assms(2) by simp
  then show ?thesis using that assms(2) by (cases "length ?cs \<le> max_chars") (auto simp: truncate_path_def Let_def less_imp_le)
qed

text \<open>The folders that the view announces are, as paths, those that the daemon makes.\<close>

lemma components_trim: "trim_end_matches CHR ''/'' root \<noteq> [] \<Longrightarrow> components (trim_end_matches CHR ''/'' root) = components root"
proof (induction root rule: rev_induct)
  case (snoc c r)
  then show ?case by (cases "c = CHR ''/''"; cases "r = []") (simp_all add: components_trailing_slash trim_end_matches_def)
qed simp

lemma components_slashes: "root \<noteq> [] \<Longrightarrow> trim_end_matches CHR ''/'' root = [] \<Longrightarrow> components root = [RootDir]"
proof (induction root rule: rev_induct)
  case (snoc c r)
  then show ?case by (cases "c = CHR ''/''"; cases "r = []") (simp_all add: components_trailing_slash components_root trim_end_matches_def)
qed simp

lemma components_derived_path:
  assumes "root \<noteq> []" "valid_name (si_name space)"
  shows "components (derived_path root space) = components (path_join root (si_name space))"
proof (cases "trim_end_matches CHR ''/'' root = []")
  case True
  have "components (path_join ''/'' (si_name space)) = [RootDir, Normal (si_name space)]"
    using components_join_name [OF assms(2), of "''/''"] by (simp add: components_root)
  moreover have "path_join ''/'' (si_name space) = ''/'' @ si_name space" using assms(2) by (auto simp: path_join_def valid_name_def is_absolute_def)
  ultimately show ?thesis
    using True components_join_name [OF assms(2), of root] components_slashes [OF assms(1) True] by (simp add: derived_path_def)
next
  case False
  then have "components (derived_path root space) = components (path_join (trim_end_matches CHR ''/'' root) (si_name space))"
    using components_append_slash [OF False, of "si_name space"] components_join_name [OF assms(2), of "trim_end_matches CHR ''/'' root"] assms(2)
    by (simp add: derived_path_def split_on_absent valid_name_def body_components_def skipped_def to_component_def)
  then show ?thesis using components_join_name [OF assms(2)] components_trim [OF False] by simp
qed

theorem preview_is_what_the_daemon_makes:
  assumes "ga_view app = PickRootFolder i spaces (Some root) e" "root \<noteq> []" "\<forall>s \<in> set spaces. valid_name (si_name s)"
    and "dc_open (ga_daemon app)" "length (dc_queue (ga_daemon app)) < 64"
  shows "\<exists>sels. dc_queue (ga_daemon (fst (update tr home (PickRootFolderSubmit i) app))) = dc_queue (ga_daemon app) @ [SetAccountFolders i root sels] \<and>
    list_all2 (\<lambda>sel s. path_eq (path_join root (sel_display_name sel)) (derived_path root s) \<and> Text (derived_path root s) \<in> set (content_view tx app))
      sels spaces"
  using assms components_derived_path [OF assms(2)]
  by (auto simp: pick_root_folder_submit_def send_def send_command_def list_all2_map1 list_all2_same path_eq_def content_view_def pick_root_folder_view_def Let_def)

end
