(* ===== verification/Theme.thy ===== *)
theory Theme
  imports GuiViews Complex_Main
begin

text \<open>
  The look of the window (\<open>crates/gui/src/theme.rs\<close> and the switches of \<open>views/general_settings.rs\<close>): the palette and the styles of containers, buttons,
  text fields and badges in each of their states. Numbers are the decimal fractions of the source; the rounding to \<open>f32\<close> is left out. \<open>None\<close> stands for what the
  toolkit takes by default.
\<close>

section \<open>The palette\<close>

record Color =
  cr_red :: rat
  cr_green :: rat
  cr_blue :: rat
  cr_alpha :: rat

definition opaque :: "rat \<Rightarrow> rat \<Rightarrow> rat \<Rightarrow> Color" where
  "opaque r g b = \<lparr>cr_red = r, cr_green = g, cr_blue = b, cr_alpha = 1\<rparr>"

definition WHITE :: Color where
  "WHITE = opaque 1 1 1"

fun rgba :: "color \<Rightarrow> Color" where
  "rgba BG_BASE = opaque 0.102 0.118 0.137"
| "rgba BG_SURFACE = opaque 0.067 0.078 0.094"
| "rgba BG_CARD = opaque 0.110 0.129 0.157"
| "rgba BG_HOVER = opaque 0.129 0.149 0.176"
| "rgba BORDER_SUBTLE = opaque 0.180 0.200 0.220"
| "rgba BORDER_DEFAULT = opaque 0.267 0.298 0.337"
| "rgba TEXT_PRIMARY = opaque 0.788 0.820 0.851"
| "rgba TEXT_SECONDARY = opaque 0.545 0.580 0.620"
| "rgba TEXT_MUTED = opaque 0.416 0.463 0.506"
| "rgba ACCENT = opaque 0.000 0.510 0.788"
| "rgba STATUS_OK = opaque 0.247 0.725 0.314"
| "rgba STATUS_SYNCING = opaque 0.345 0.643 0.831"
| "rgba STATUS_ERROR = opaque 0.973 0.3176 0.286"
| "rgba STATUS_PAUSED = opaque 0.824 0.600 0.133"

record Palette =
  pl_background :: Color
  pl_text :: Color
  pl_primary :: Color
  pl_success :: Color
  pl_warning :: Color
  pl_danger :: Color

definition palette :: Palette where
  "palette = \<lparr>pl_background = rgba BG_BASE, pl_text = rgba TEXT_PRIMARY, pl_primary = rgba ACCENT, pl_success = rgba STATUS_OK,
     pl_warning = rgba STATUS_PAUSED, pl_danger = rgba STATUS_ERROR\<rparr>"

section \<open>Styles\<close>

record Border =
  bd_color :: "Color option"
  bd_width :: "rat option"
  bd_radius :: "rat option"

definition default_border :: Border where
  "default_border = \<lparr>bd_color = None, bd_width = None, bd_radius = None\<rparr>"

definition border :: "Color \<Rightarrow> rat \<Rightarrow> rat \<Rightarrow> Border" where
  "border c w r = \<lparr>bd_color = Some c, bd_width = Some w, bd_radius = Some r\<rparr>"

definition rounded :: "rat \<Rightarrow> Border" where
  "rounded r = default_border\<lparr>bd_radius := Some r\<rparr>"

record container_style =
  cs_background :: "Color option"
  cs_border :: Border

definition sidebar_style :: container_style where
  "sidebar_style = \<lparr>cs_background = Some (rgba BG_SURFACE), cs_border = default_border\<rparr>"

definition content_style :: container_style where
  "content_style = \<lparr>cs_background = Some (rgba BG_BASE), cs_border = default_border\<rparr>"

definition card_style :: container_style where
  "card_style = \<lparr>cs_background = Some (rgba BG_CARD), cs_border = border (rgba BORDER_SUBTLE) 1 6\<rparr>"

definition section_header_style :: container_style where
  "section_header_style = \<lparr>cs_background = Some (rgba BG_SURFACE), cs_border = border (rgba BORDER_SUBTLE) 1 6\<rparr>"

definition scaled :: "rat \<Rightarrow> Color \<Rightarrow> Color" where
  "scaled k c = opaque (cr_red c * k) (cr_green c * k) (cr_blue c * k)"

definition shifted :: "rat \<Rightarrow> rat \<Rightarrow> rat \<Rightarrow> Color \<Rightarrow> Color" where
  "shifted dr dg db c = opaque (cr_red c + dr) (cr_green c + dg) (cr_blue c + db)"

definition error_banner_style :: container_style where
  "error_banner_style = \<lparr>cs_background = Some (scaled 0.12 (rgba STATUS_ERROR)), cs_border = border (rgba STATUS_ERROR) 1 6\<rparr>"

definition folder_well_style :: container_style where
  "folder_well_style = \<lparr>cs_background = Some (rgba BG_CARD), cs_border = border (rgba BORDER_DEFAULT) 1 6\<rparr>"

definition folder_well_empty_style :: container_style where
  "folder_well_empty_style = \<lparr>cs_background = Some (rgba BG_SURFACE), cs_border = border (rgba BORDER_SUBTLE) 1 6\<rparr>"

definition status_badge_style :: "Color \<Rightarrow> container_style" where
  "status_badge_style c = \<lparr>cs_background = Some (c\<lparr>cr_alpha := 0.12\<rparr>), cs_border = border (c\<lparr>cr_alpha := 0.30\<rparr>) 1 10\<rparr>"

subsection \<open>Buttons\<close>

datatype button_status = Btn_Active | Btn_Hovered | Btn_Pressed | Btn_Disabled

record button_style =
  bs_background :: "Color option"
  bs_text_color :: Color
  bs_border :: Border

definition primary_button_style :: "button_status \<Rightarrow> button_style" where
  "primary_button_style st =
     (let bg = (case st of
            Btn_Active \<Rightarrow> rgba ACCENT
          | Btn_Hovered \<Rightarrow> shifted 0.05 0.04 0.04 (rgba ACCENT)
          | Btn_Pressed \<Rightarrow> scaled 0.85 (rgba ACCENT)
          | Btn_Disabled \<Rightarrow> rgba BG_CARD);
          text_color = (if st = Btn_Disabled then rgba TEXT_MUTED else WHITE)
      in \<lparr>bs_background = Some bg, bs_text_color = text_color, bs_border = rounded 6\<rparr>)"

definition link_button_style :: "button_status \<Rightarrow> button_style" where
  "link_button_style st =
     \<lparr>bs_background = None,
      bs_text_color = (if st = Btn_Hovered \<or> st = Btn_Pressed then shifted 0.15 0.10 0.05 (rgba ACCENT) else rgba ACCENT),
      bs_border = default_border\<rparr>"

text \<open>The choice of background and text that ghost and navigation buttons share.\<close>

fun plain_button_colors :: "button_status \<Rightarrow> Color option \<times> Color" where
  "plain_button_colors Btn_Active = (None, rgba TEXT_SECONDARY)"
| "plain_button_colors Btn_Hovered = (Some (rgba BG_HOVER), rgba TEXT_PRIMARY)"
| "plain_button_colors Btn_Pressed = (Some (rgba BG_CARD), rgba TEXT_PRIMARY)"
| "plain_button_colors Btn_Disabled = (None, rgba TEXT_MUTED)"

definition ghost_button_style :: "button_status \<Rightarrow> button_style" where
  "ghost_button_style st =
     (let (bg, text_color) = plain_button_colors st
      in \<lparr>bs_background = bg, bs_text_color = text_color, bs_border = border (rgba BORDER_DEFAULT) 1 6\<rparr>)"

definition nav_active_style :: "button_status \<Rightarrow> button_style" where
  "nav_active_style st =
     \<lparr>bs_background = Some ((rgba ACCENT)\<lparr>cr_alpha := 0.13\<rparr>), bs_text_color = rgba STATUS_SYNCING, bs_border = rounded 6\<rparr>"

definition nav_button_style :: "button_status \<Rightarrow> button_style" where
  "nav_button_style st =
     (let (bg, text_color) = plain_button_colors st in \<lparr>bs_background = bg, bs_text_color = text_color, bs_border = rounded 6\<rparr>)"

definition icon_button_style :: "button_status \<Rightarrow> button_style" where
  "icon_button_style st =
     (let (bg, text_color) = (case st of
            Btn_Active \<Rightarrow> (None, rgba TEXT_MUTED)
          | Btn_Hovered \<Rightarrow> (Some (rgba BG_HOVER), rgba TEXT_SECONDARY)
          | Btn_Pressed \<Rightarrow> (Some (rgba BG_CARD), rgba TEXT_PRIMARY)
          | Btn_Disabled \<Rightarrow> (None, rgba TEXT_MUTED))
      in \<lparr>bs_background = bg, bs_text_color = text_color, bs_border = rounded 4\<rparr>)"

definition danger_button_style :: "button_status \<Rightarrow> button_style" where
  "danger_button_style st =
     (let (bg, text_color, border_color) = (case st of
            Btn_Active \<Rightarrow> (opaque 0.243 0.082 0.078, rgba STATUS_ERROR, rgba STATUS_ERROR)
          | Btn_Hovered \<Rightarrow> (opaque 0.350 0.110 0.104, WHITE, rgba STATUS_ERROR)
          | Btn_Pressed \<Rightarrow> (opaque 0.180 0.055 0.053, WHITE, rgba STATUS_ERROR)
          | Btn_Disabled \<Rightarrow> (rgba BG_SURFACE, rgba TEXT_MUTED, rgba BORDER_SUBTLE))
      in \<lparr>bs_background = Some bg, bs_text_color = text_color, bs_border = border border_color 1 6\<rparr>)"

subsection \<open>Text fields, badges and switches\<close>

datatype text_input_status = In_Active | In_Focused | In_Hovered | In_Disabled

record text_input_look =
  ti_background :: Color
  ti_border :: Border
  ti_icon :: Color
  ti_placeholder :: Color
  ti_value :: Color
  ti_selection :: Color

definition text_input_style :: "text_input_status \<Rightarrow> text_input_look" where
  "text_input_style st =
     (case st of
        In_Focused \<Rightarrow>
          \<lparr>ti_background = rgba BG_CARD, ti_border = border (rgba ACCENT) 1.5 6, ti_icon = rgba ACCENT, ti_placeholder = rgba TEXT_MUTED,
           ti_value = rgba TEXT_PRIMARY, ti_selection = (rgba ACCENT)\<lparr>cr_alpha := 0.3\<rparr>\<rparr>
      | In_Disabled \<Rightarrow>
          \<lparr>ti_background = rgba BG_SURFACE, ti_border = border (rgba BORDER_SUBTLE) 1 6, ti_icon = rgba TEXT_MUTED, ti_placeholder = rgba TEXT_MUTED,
           ti_value = rgba TEXT_MUTED, ti_selection = \<lparr>cr_red = 0, cr_green = 0, cr_blue = 0, cr_alpha = 0\<rparr>\<rparr>
      | _ \<Rightarrow>
          \<lparr>ti_background = rgba BG_CARD, ti_border = border (rgba BORDER_DEFAULT) 1 6, ti_icon = rgba TEXT_SECONDARY, ti_placeholder = rgba TEXT_MUTED,
           ti_value = rgba TEXT_PRIMARY, ti_selection = (rgba ACCENT)\<lparr>cr_alpha := 0.3\<rparr>\<rparr>)"

fun status_label :: "GuiFolderStatus \<Rightarrow> string" where
  "status_label Gui_Idle = [CHR 0xE2, CHR 0x86, CHR 0xBB] @ '' Sync Now''"
| "status_label Gui_Syncing = [CHR 0xE2, CHR 0x8F, CHR 0xB8] @ '' Pause''"
| "status_label Gui_Error = [CHR 0xE2, CHR 0x9A, CHR 0xA0] @ '' Error''"
| "status_label Gui_Paused = [CHR 0xE2, CHR 0x96, CHR 0xB6] @ '' Resume''"

text \<open>A switch: a track of 30 by 17 with a knob of 13 by 13, held in its place by the padding (top, right, bottom, left).\<close>

record switch_look =
  sw_track :: Color
  sw_padding :: "rat \<times> rat \<times> rat \<times> rat"

definition toggle_look :: "bool \<Rightarrow> switch_look" where
  "toggle_look enabled =
     (if enabled then \<lparr>sw_track = rgba ACCENT, sw_padding = (2, 2, 2, 15)\<rparr> else \<lparr>sw_track = rgba BORDER_DEFAULT, sw_padding = (2, 15, 2, 2)\<rparr>)"

section \<open>Lemmas\<close>

definition valid_color :: "Color \<Rightarrow> bool" where
  "valid_color c \<longleftrightarrow> list_all (\<lambda>x. 0 \<le> x \<and> x \<le> 1) [cr_red c, cr_green c, cr_blue c, cr_alpha c]"

definition valid_border :: "Border \<Rightarrow> bool" where
  "valid_border b \<longleftrightarrow> pred_option valid_color (bd_color b) \<and> pred_option (\<lambda>w. 0 \<le> w) (bd_width b) \<and> pred_option (\<lambda>r. 0 \<le> r) (bd_radius b)"

definition container_colors :: "container_style \<Rightarrow> bool" where
  "container_colors st \<longleftrightarrow> pred_option valid_color (cs_background st) \<and> valid_border (cs_border st)"

definition button_colors :: "button_style \<Rightarrow> bool" where
  "button_colors st \<longleftrightarrow> pred_option valid_color (bs_background st) \<and> valid_color (bs_text_color st) \<and> valid_border (bs_border st)"

definition input_colors :: "text_input_look \<Rightarrow> bool" where
  "input_colors st \<longleftrightarrow> list_all valid_color [ti_background st, ti_icon st, ti_placeholder st, ti_value st, ti_selection st] \<and> valid_border (ti_border st)"

lemmas valid_defs = valid_color_def valid_border_def container_colors_def button_colors_def input_colors_def
lemmas color_defs = opaque_def WHITE_def scaled_def shifted_def border_def rounded_def default_border_def

definition button_styles :: "(button_status \<Rightarrow> button_style) list" where
  "button_styles = [primary_button_style, link_button_style, ghost_button_style, nav_active_style, nav_button_style, icon_button_style, danger_button_style]"

lemmas button_defs = button_styles_def primary_button_style_def link_button_style_def ghost_button_style_def nav_active_style_def
  nav_button_style_def icon_button_style_def danger_button_style_def

definition container_styles :: "container_style list" where
  "container_styles = [sidebar_style, content_style, card_style, section_header_style, error_banner_style, folder_well_style, folder_well_empty_style]"

lemmas container_defs = container_styles_def sidebar_style_def content_style_def card_style_def section_header_style_def error_banner_style_def
  folder_well_style_def folder_well_empty_style_def

lemma rgba_valid [simp]: "valid_color (rgba c)"
  by (cases c) (simp_all add: valid_color_def opaque_def)

lemma rgba_inj: "rgba c = rgba c' \<longleftrightarrow> c = c'"
  by (cases c; cases c') (simp_all add: opaque_def)

text \<open>The codes in the comments beside the palette, and the code of a colour: each channel to the nearest of 256 levels.\<close>

fun documented :: "color \<Rightarrow> int \<times> int \<times> int" where
  "documented BG_BASE = (0x1a, 0x1e, 0x23)"
| "documented BG_SURFACE = (0x11, 0x14, 0x18)"
| "documented BG_CARD = (0x1c, 0x21, 0x28)"
| "documented BG_HOVER = (0x21, 0x26, 0x2d)"
| "documented BORDER_SUBTLE = (0x2e, 0x33, 0x38)"
| "documented BORDER_DEFAULT = (0x44, 0x4c, 0x56)"
| "documented TEXT_PRIMARY = (0xc9, 0xd1, 0xd9)"
| "documented TEXT_SECONDARY = (0x8b, 0x94, 0x9e)"
| "documented TEXT_MUTED = (0x6e, 0x76, 0x81)"
| "documented ACCENT = (0x00, 0x82, 0xc9)"
| "documented STATUS_OK = (0x3f, 0xb9, 0x50)"
| "documented STATUS_SYNCING = (0x58, 0xa6, 0xd4)"
| "documented STATUS_ERROR = (0xf8, 0x51, 0x49)"
| "documented STATUS_PAUSED = (0xd2, 0x99, 0x22)"

definition rgb_code :: "Color \<Rightarrow> int \<times> int \<times> int" where
  "rgb_code c = (round (cr_red c * 255), round (cr_green c * 255), round (cr_blue c * 255))"

section \<open>Properties\<close>

text \<open>Every style in every state of its widget has colours whose channels are between 0 and 1, and borders that are not negative.\<close>

theorem theme_colors_valid:
  "list_all container_colors (status_badge_style (rgba c) # container_styles) \<and> list_all (\<lambda>style. button_colors (style st)) button_styles \<and>
   input_colors (text_input_style field) \<and> valid_color (sw_track (toggle_look enabled))"
proof (intro conjI)
  show "list_all container_colors (status_badge_style (rgba c) # container_styles)"
    using rgba_valid [of c] by (simp add: container_defs status_badge_style_def valid_defs color_defs)
  show "list_all (\<lambda>style. button_colors (style st)) button_styles"
    by (cases st) (simp_all add: button_defs Let_def valid_defs color_defs)
  show "input_colors (text_input_style field)" by (cases field) (simp_all add: text_input_style_def valid_defs color_defs)
qed (simp add: toggle_look_def valid_defs color_defs)

text \<open>The comments give the colours of the palette, but for two.\<close>

theorem palette_comments: "rgb_code (rgba c) = documented c \<longleftrightarrow> c \<notin> {TEXT_MUTED, STATUS_SYNCING}"
  by (cases c) (simp_all add: rgb_code_def opaque_def round_def floor_eq_iff)

text \<open>
  A button that cannot be used looks different from one that can, except for icon buttons and links; the entry of the current view looks the same in all states.
\<close>

theorem disabled_looks_different:
  "\<forall>style \<in> {primary_button_style, ghost_button_style, nav_button_style, danger_button_style}. style Btn_Disabled \<noteq> style Btn_Active"
  "icon_button_style Btn_Disabled = icon_button_style Btn_Active" "link_button_style Btn_Disabled = link_button_style Btn_Active"
  "nav_active_style st = nav_active_style st'" "text_input_style In_Disabled \<noteq> text_input_style In_Active"
  by (simp_all add: button_defs Let_def text_input_style_def color_defs)

text \<open>The light of a folder tells its status.\<close>

theorem light_tells_status: "rgba (status_color a) = rgba (status_color b) \<longleftrightarrow> a = b"
  by (cases a; cases b) (simp_all add: status_color_def opaque_def)

text \<open>The knob of a switch and its padding fill the track exactly, and the two positions are different.\<close>

theorem switch_fits:
  "case sw_padding (toggle_look enabled) of (t, r, b, l) \<Rightarrow> l + 13 + r = 30 \<and> t + 13 + b = 17"
  "toggle_look True \<noteq> toggle_look False"
  by (simp_all add: toggle_look_def)

end
