(* ===== verification/DavParser.thy ===== *)
theory DavParser
  imports OcisApi
begin

text \<open>
  The namespace-aware PROPFIND parser of the WebDAV client (\<open>crates/ocis-client/src/webdav/propfind.rs\<close>)
  and \<open>WebDavClient::propfind\<close>. The XML reader and the date parser are parameters.
\<close>

section \<open>Data\<close>

datatype ResourceType = Res_File | Res_Directory

record DavEntry =
  de_href :: string
  de_etag :: "string option"
  de_last_modified :: "int option"
  de_content_length :: "u64 option"
  de_resource_type :: ResourceType
  de_file_id :: "string option"

datatype Collecting = Coll_None | Coll_Href | Coll_Etag | Coll_LastModified | Coll_ContentLength | Coll_FileId | Coll_Status

record CurrentEntry =
  ce_href :: "string option"
  ce_etag :: "string option"
  ce_last_modified :: "int option"
  ce_content_length :: "u64 option"
  ce_resource_type :: ResourceType
  ce_file_id :: "string option"
  ce_collecting :: Collecting
  ce_propstat_status :: string

definition new_CurrentEntry :: CurrentEntry where
  "new_CurrentEntry = \<lparr>ce_href = None, ce_etag = None, ce_last_modified = None, ce_content_length = None,
     ce_resource_type = Res_File, ce_file_id = None, ce_collecting = Coll_None, ce_propstat_status = []\<rparr>"

text \<open>
  The events of \<open>NsReader\<close>: the namespace of an element is empty when it is not bound; the text of a
  \<open>Text\<close> event is \<open>None\<close> when it cannot be decoded.
\<close>

datatype ns_event = Ns_Start string string | Ns_Empty string string | Ns_End string | Ns_Text "string option" | Ns_Error string | Ns_Other

definition NS_DAV :: string where "NS_DAV = ''DAV:''"

definition NS_OC :: string where "NS_OC = ''http://owncloud.org/ns''"

section \<open>Text\<close>

text \<open>\<open>str::trim\<close> and \<open>split_whitespace\<close> on ASCII white space, the only one in these properties.\<close>

definition is_space :: "char \<Rightarrow> bool" where
  "is_space c \<longleftrightarrow> of_char c \<in> {9, 10, 11, 12, 13, 32 :: nat}"

definition trim_ws :: "string \<Rightarrow> string" where
  "trim_ws s = rev (dropWhile is_space (rev (dropWhile is_space s)))"

fun words_ws :: "string \<Rightarrow> string \<Rightarrow> string list" where
  "words_ws [] acc = (if acc = [] then [] else [rev acc])"
| "words_ws (c # cs) acc = (if is_space c then (if acc = [] then words_ws cs [] else rev acc # words_ws cs []) else words_ws cs (c # acc))"

definition status_line_ok :: "string \<Rightarrow> bool" where
  "status_line_ok line =
     (case words_ws line [] of
        _ # code # _ \<Rightarrow> (case parse_unsigned 65535 code of Some n \<Rightarrow> 200 \<le> n \<and> n < 300 | None \<Rightarrow> False)
      | _ \<Rightarrow> False)"

section \<open>The parser\<close>

record dav_state =
  dv_entries :: "DavEntry list"
  dv_current :: "CurrentEntry option"
  dv_in_response :: bool
  dv_propstat_ok :: bool

definition dav_init :: dav_state where
  "dav_init = \<lparr>dv_entries = [], dv_current = None, dv_in_response = False, dv_propstat_ok = True\<rparr>"

definition upd_current :: "(CurrentEntry \<Rightarrow> CurrentEntry) \<Rightarrow> dav_state \<Rightarrow> dav_state" where
  "upd_current f s = s\<lparr>dv_current := map_option f (dv_current s)\<rparr>"

definition dav_start :: "string \<Rightarrow> string \<Rightarrow> dav_state \<Rightarrow> dav_state" where
  "dav_start ns local s =
     (if ns = NS_DAV \<and> local = ''response'' then s\<lparr>dv_in_response := True, dv_current := Some new_CurrentEntry, dv_propstat_ok := True\<rparr>
      else if \<not> dv_in_response s then s
      else if dv_current s = None then s
      else if local = ''href'' \<and> ns = NS_DAV then upd_current (\<lambda>c. c\<lparr>ce_collecting := Coll_Href\<rparr>) s
      else if local = ''getetag'' \<and> ns = NS_DAV then upd_current (\<lambda>c. c\<lparr>ce_collecting := Coll_Etag\<rparr>) s
      else if local = ''getlastmodified'' \<and> ns = NS_DAV then upd_current (\<lambda>c. c\<lparr>ce_collecting := Coll_LastModified\<rparr>) s
      else if local = ''getcontentlength'' \<and> ns = NS_DAV then upd_current (\<lambda>c. c\<lparr>ce_collecting := Coll_ContentLength\<rparr>) s
      else if local = ''collection'' \<and> ns = NS_DAV then upd_current (\<lambda>c. c\<lparr>ce_resource_type := Res_Directory\<rparr>) s
      else if local = ''fileid'' \<and> ns = NS_OC then upd_current (\<lambda>c. c\<lparr>ce_collecting := Coll_FileId\<rparr>) s
      else if local = ''status'' \<and> ns = NS_DAV then upd_current (\<lambda>c. c\<lparr>ce_collecting := Coll_Status, ce_propstat_status := []\<rparr>) s
      else if local = ''propstat'' \<and> ns = NS_DAV then s\<lparr>dv_propstat_ok := True\<rparr>
      else s)"

definition dav_empty :: "string \<Rightarrow> string \<Rightarrow> dav_state \<Rightarrow> dav_state" where
  "dav_empty ns local s =
     (if dv_in_response s \<and> ns = NS_DAV \<and> local = ''collection'' then upd_current (\<lambda>c. c\<lparr>ce_resource_type := Res_Directory\<rparr>) s else s)"

definition finish_entry :: "CurrentEntry \<Rightarrow> DavEntry option" where
  "finish_entry c =
     map_option (\<lambda>href. \<lparr>de_href = href, de_etag = ce_etag c, de_last_modified = ce_last_modified c,
        de_content_length = ce_content_length c, de_resource_type = ce_resource_type c, de_file_id = ce_file_id c\<rparr>) (ce_href c)"

text \<open>The end tag: an end of \<open>response\<close> closes the entry whatever its namespace.\<close>

definition dav_end :: "string \<Rightarrow> dav_state \<Rightarrow> dav_state" where
  "dav_end local s =
     (if local = ''response'' then
        s\<lparr>dv_entries := dv_entries s @ (case Option.bind (dv_current s) finish_entry of Some e \<Rightarrow> [e] | None \<Rightarrow> []),
          dv_current := None, dv_in_response := False\<rparr>
      else if \<not> dv_in_response s then s
      else
        (let s1 = (case dv_current s of
                     Some c \<Rightarrow> if local = ''status'' then s\<lparr>dv_propstat_ok := status_line_ok (ce_propstat_status c)\<rparr> else s
                   | None \<Rightarrow> s)
         in upd_current (\<lambda>c. c\<lparr>ce_collecting := Coll_None\<rparr>) s1))"

definition collect_text :: "(string \<Rightarrow> int option) \<Rightarrow> bool \<Rightarrow> string \<Rightarrow> CurrentEntry \<Rightarrow> CurrentEntry" where
  "collect_text date ok text c =
     (case ce_collecting c of
        Coll_Href \<Rightarrow> c\<lparr>ce_href := Some text\<rparr>
      | Coll_Etag \<Rightarrow> if ok then c\<lparr>ce_etag := Some (trim_matches CHR 0x22 text)\<rparr> else c
      | Coll_LastModified \<Rightarrow> if ok then (case date text of Some d \<Rightarrow> c\<lparr>ce_last_modified := Some d\<rparr> | None \<Rightarrow> c) else c
      | Coll_ContentLength \<Rightarrow>
          if ok then (case parse_unsigned (2 ^ 64 - 1) text of Some n \<Rightarrow> c\<lparr>ce_content_length := Some (of_nat n)\<rparr> | None \<Rightarrow> c) else c
      | Coll_FileId \<Rightarrow> if ok then c\<lparr>ce_file_id := Some text\<rparr> else c
      | Coll_Status \<Rightarrow> c\<lparr>ce_propstat_status := text\<rparr>
      | Coll_None \<Rightarrow> c)"

definition dav_text :: "(string \<Rightarrow> int option) \<Rightarrow> string option \<Rightarrow> dav_state \<Rightarrow> dav_state" where
  "dav_text date t s =
     (if \<not> dv_in_response s then s
      else
        (case t of
           None \<Rightarrow> s
         | Some raw \<Rightarrow>
             (let text = trim_ws raw in
              if text = [] then s else upd_current (collect_text date (dv_propstat_ok s) text) s)))"

fun dav_event :: "(string \<Rightarrow> int option) \<Rightarrow> ns_event \<Rightarrow> dav_state \<Rightarrow> dav_state" where
  "dav_event date (Ns_Start ns local) s = dav_start ns local s"
| "dav_event date (Ns_Empty ns local) s = dav_empty ns local s"
| "dav_event date (Ns_End local) s = dav_end local s"
| "dav_event date (Ns_Text t) s = dav_text date t s"
| "dav_event date (Ns_Error e) s = s"
| "dav_event date Ns_Other s = s"

fun dav_loop :: "(string \<Rightarrow> int option) \<Rightarrow> ns_event list \<Rightarrow> dav_state \<Rightarrow> OcisError + DavEntry list" where
  "dav_loop date [] s = Inr (dv_entries s)"
| "dav_loop date (Ns_Error e # es) s = Inl (Ocis_Parse (''XML parse error: '' @ e))"
| "dav_loop date (e # es) s = dav_loop date es (dav_event date e s)"

definition parse_propfind_response :: "(string \<Rightarrow> ns_event list) \<Rightarrow> (string \<Rightarrow> int option) \<Rightarrow> string \<Rightarrow> OcisError + DavEntry list" where
  "parse_propfind_response xml date text = dav_loop date (xml text) dav_init"

definition dav_propfind_body :: string where \<open>
  dav_propfind_body = join_on [CHR 0x0A]
    [''<?xml version="1.0" encoding="utf-8"?>'',
     ''<D:propfind xmlns:D="DAV:" xmlns:oc="http://owncloud.org/ns">'',
     ''  <D:prop>'',
     ''    <D:getetag/>'',
     ''    <D:getlastmodified/>'',
     ''    <D:getcontentlength/>'',
     ''    <D:resourcetype/>'',
     ''    <oc:fileid/>'',
     ''  </D:prop>'',
     ''</D:propfind>'']\<close>

definition dav_propfind :: "libs \<Rightarrow> (string \<Rightarrow> ns_event list) \<Rightarrow> (string \<Rightarrow> int option) \<Rightarrow> 'w net \<Rightarrow> ('w \<Rightarrow> string) \<Rightarrow> url \<Rightarrow> string \<Rightarrow> 'w
    \<Rightarrow> (OcisError + DavEntry list) \<times> 'w" where
  "dav_propfind lib xml date net tok base path w =
     (case dav_send lib net tok base path ''PROPFIND''
        [(''Depth'', ''1''), (''content-type'', ''application/xml; charset=utf-8'')] dav_propfind_body w of
        (Inl e, w') \<Rightarrow> (Inl e, w')
      | (Inr resp, w') \<Rightarrow>
          (if rs_status resp \<noteq> 207 then (Inl (Ocis_WebDav (''PROPFIND failed: '' @ lib_status_text lib (rs_status resp))), w')
           else (case rs_body resp of
                   Inl e \<Rightarrow> (Inl (Ocis_Http e), w')
                 | Inr text \<Rightarrow> (parse_propfind_response xml date text, w'))))"

section \<open>What a server writes\<close>

text \<open>One resource with its properties in a single \<open>propstat\<close>, whose status line comes last, as in RFC 4918.\<close>

record dav_resource =
  dr_href :: string
  dr_etag :: string
  dr_length :: "u64 option"
  dr_collection :: bool
  dr_file_id :: string
  dr_status :: string

definition dav_element :: "string \<Rightarrow> string \<Rightarrow> string \<Rightarrow> ns_event list" where
  "dav_element ns n t = [Ns_Start ns n, Ns_Text (Some t), Ns_End n]"

definition dav_resource_events :: "dav_resource \<Rightarrow> ns_event list" where
  "dav_resource_events r =
     Ns_Start NS_DAV ''response'' # dav_element NS_DAV ''href'' (dr_href r) @
     [Ns_Start NS_DAV ''propstat'', Ns_Start NS_DAV ''prop'', Ns_Start NS_DAV ''resourcetype''] @
     (if dr_collection r then [Ns_Empty NS_DAV ''collection''] else []) @ [Ns_End ''resourcetype''] @
     dav_element NS_DAV ''getetag'' (CHR 0x22 # dr_etag r @ [CHR 0x22]) @
     (case dr_length r of Some n \<Rightarrow> dav_element NS_DAV ''getcontentlength'' (show_nat (unat n)) | None \<Rightarrow> []) @
     dav_element NS_OC ''fileid'' (dr_file_id r) @ [Ns_End ''prop''] @
     dav_element NS_DAV ''status'' (dr_status r) @ [Ns_End ''propstat'', Ns_End ''response'']"

definition dav_resource_entry :: "dav_resource \<Rightarrow> DavEntry" where
  "dav_resource_entry r =
     \<lparr>de_href = dr_href r, de_etag = Some (dr_etag r), de_last_modified = None, de_content_length = dr_length r,
      de_resource_type = (if dr_collection r then Res_Directory else Res_File), de_file_id = Some (dr_file_id r)\<rparr>"

definition plain_text :: "string \<Rightarrow> bool" where
  "plain_text s \<longleftrightarrow> s \<noteq> [] \<and> trim_ws s = s"

definition dav_resource_ok :: "dav_resource \<Rightarrow> bool" where
  "dav_resource_ok r \<longleftrightarrow> plain_text (dr_href r) \<and> plain_text (dr_file_id r) \<and> CHR 0x22 \<notin> set (dr_etag r)"

section \<open>Lemmas\<close>

lemma plain_text_quoted: "plain_text (CHR 0x22 # s @ [CHR 0x22])"
  by (simp add: plain_text_def trim_ws_def is_space_def)

lemma digit_not_space: "d < 10 \<Longrightarrow> \<not> is_space (digit_char d)"
  by (simp add: is_space_def digit_char_def)

lemma trim_ws_no_space: "\<forall>c \<in> set s. \<not> is_space c \<Longrightarrow> trim_ws s = s"
proof -
  assume "\<forall>c \<in> set s. \<not> is_space c"
  then have "dropWhile is_space s = s" "dropWhile is_space (rev s) = rev s"
    by (auto simp: dropWhile_eq_self_iff hd_rev)
  then show ?thesis by (simp add: trim_ws_def)
qed

lemma plain_text_nat: "plain_text (show_nat n)"
  using show_nat_digits digit_not_space by (auto simp: plain_text_def intro!: trim_ws_no_space)

lemma collect_plain:
  "plain_text t \<Longrightarrow> dv_in_response s \<Longrightarrow> dav_text date (Some t) s = upd_current (collect_text date (dv_propstat_ok s) t) s"
  by (simp add: dav_text_def plain_text_def Let_def)

lemma parse_u64_shown: "parse_unsigned (2 ^ 64 - 1) (show_nat (unat (n :: u64))) = Some (unat n)"
proof (rule parse_unsigned_show)
  have "unat n < 2 ^ 64" using unsigned_less [of n] by simp
  then show "unat n \<le> 2 ^ 64 - 1" by simp
qed

lemma dav_resource_collect:
  assumes "dav_resource_ok r"
  shows "\<exists>b. fold (dav_event date) (dav_resource_events r) s =
    s\<lparr>dv_entries := dv_entries s @ [dav_resource_entry r], dv_current := None, dv_in_response := False, dv_propstat_ok := b\<rparr>"
proof -
  have plain: "trim_ws (dr_href r) = dr_href r" "dr_href r \<noteq> []" "trim_ws (dr_file_id r) = dr_file_id r" "dr_file_id r \<noteq> []"
    using assms by (auto simp: dav_resource_ok_def plain_text_def)
  have etag: "trim_ws (CHR 0x22 # dr_etag r @ [CHR 0x22]) = CHR 0x22 # dr_etag r @ [CHR 0x22]"
      "trim_matches CHR 0x22 (CHR 0x22 # dr_etag r @ [CHR 0x22]) = dr_etag r"
    using assms plain_text_quoted trim_quotes by (auto simp: dav_resource_ok_def plain_text_def)
  have len: "trim_ws (show_nat n) = show_nat n" for n using plain_text_nat by (simp add: plain_text_def)
  note defs = dav_resource_events_def dav_element_def dav_start_def dav_text_def dav_end_def dav_empty_def upd_current_def
    collect_text_def finish_entry_def new_CurrentEntry_def dav_resource_entry_def NS_DAV_def NS_OC_def
  show ?thesis
    using plain etag len parse_u64_shown
    by (cases s; cases "dr_length r"; cases "dr_collection r"; cases "trim_ws (dr_status r) = []") (simp_all add: defs Let_def)
qed

lemma dav_resources_collect:
  assumes "\<forall>r \<in> set rs. dav_resource_ok r"
  shows "dv_entries (fold (dav_event date) (concat (map dav_resource_events rs)) s) = dv_entries s @ map dav_resource_entry rs"
  using assms
proof (induction rs arbitrary: s)
  case (Cons r rs)
  obtain b where "fold (dav_event date) (dav_resource_events r) s =
      s\<lparr>dv_entries := dv_entries s @ [dav_resource_entry r], dv_current := None, dv_in_response := False, dv_propstat_ok := b\<rparr>"
    using dav_resource_collect [of r date s] Cons.prems by auto
  then show ?case using Cons by simp
qed simp

lemma dav_loop_fold:
  "\<forall>e \<in> set es. \<forall>msg. e \<noteq> Ns_Error msg \<Longrightarrow> dav_loop date es s = Inr (dv_entries (fold (dav_event date) es s))"
proof (induction es arbitrary: s)
  case (Cons e es)
  then show ?case by (cases e) auto
qed simp

lemma dav_resource_events_ok: "Ns_Error msg \<notin> set (dav_resource_events r)"
  by (auto simp: dav_resource_events_def dav_element_def split: option.splits)

section \<open>Properties\<close>

text \<open>
  Parsing gives back what the server wrote, and the status of a \<open>propstat\<close> never matters. For any
  list of resources, each with its properties in one \<open>propstat\<close> followed by its status line, the parser returns exactly their entries in
  order, whatever the status lines say: the properties are taken before the status is known, so those
  of a \<open>404\<close> block are taken as well, although the code keeps a flag to leave them out.
\<close>

theorem dav_propfind_roundtrip:
  assumes "\<forall>r \<in> set rs. dav_resource_ok r"
    and "xml text = [Ns_Other, Ns_Start NS_DAV ''multistatus''] @ concat (map dav_resource_events rs) @ [Ns_End ''multistatus'']"
  shows "parse_propfind_response xml date text = Inr (map dav_resource_entry rs)"
proof -
  have start: "dav_event date (Ns_Start NS_DAV ''multistatus'') dav_init = dav_init"
    by (simp add: dav_start_def dav_init_def)
  have "dv_entries (dav_end ''multistatus'' s) = dv_entries s" for s
    by (auto simp: dav_end_def upd_current_def Let_def split: option.split)
  then have "dv_entries (fold (dav_event date) (xml text) dav_init) = map dav_resource_entry rs"
    using dav_resources_collect [OF assms(1), of date dav_init] start by (simp add: assms(2) dav_init_def)
  moreover have "\<forall>e \<in> set (xml text). \<forall>msg. e \<noteq> Ns_Error msg"
    using dav_resource_events_ok by (auto simp: assms(2))
  ultimately show ?thesis by (simp add: parse_propfind_response_def dav_loop_fold)
qed

theorem dav_propfind_roundtrip_witness:
  "let r = \<lparr>dr_href = ''/s/f'', dr_etag = ''e1'', dr_length = Some 5, dr_collection = False, dr_file_id = ''7'', dr_status = ''HTTP/1.1 404 Not Found''\<rparr>
   in \<not> status_line_ok (dr_status r) \<and>
      parse_propfind_response (\<lambda>_. [Ns_Other, Ns_Start NS_DAV ''multistatus''] @ dav_resource_events r @ [Ns_End ''multistatus'']) (\<lambda>_. None) [] =
        Inr [dav_resource_entry r]"
proof -
  let ?r = "\<lparr>dr_href = ''/s/f'', dr_etag = ''e1'', dr_length = Some 5, dr_collection = False, dr_file_id = ''7'', dr_status = ''HTTP/1.1 404 Not Found''\<rparr>"
  let ?xml = "\<lambda>_ :: string. [Ns_Other, Ns_Start NS_DAV ''multistatus''] @ dav_resource_events ?r @ [Ns_End ''multistatus'']"
  have "dav_resource_ok ?r" by (simp add: dav_resource_ok_def plain_text_def trim_ws_def is_space_def)
  moreover have "\<not> status_line_ok ''HTTP/1.1 404 Not Found''"
    by (simp add: status_line_ok_def is_space_def parse_unsigned_def char_digit_def)
  ultimately show ?thesis using dav_propfind_roundtrip [of "[?r]" ?xml "[]" "\<lambda>_. None"] by (simp add: Let_def)
qed

end
