(* ===== verification/ShellLinux.thy ===== *)
theory ShellLinux
  imports SocketApi
begin

text \<open>
  The D-Bus service that file managers on Linux ask (\<open>shell-integration/linux/oc-dbus-service/src\<close>): the
  client of the daemon's socket (\<open>socket_client.rs\<close>), the methods of the service (\<open>dbus_service.rs\<close>, \<open>emblem.rs\<close>), the task that turns
  broadcasts into signals and the command line (\<open>main.rs\<close>); and the service together with the server of \<open>SocketApi\<close>.
\<close>

section \<open>The client (\<open>socket_client.rs\<close>)\<close>

datatype SocketError = Client_Connect string | Client_Io string | Client_Parse string

text \<open>
  A connected stream: what the peer has sent by the time it has got the bytes written so far, and whether it has then closed
  the connection; the bytes written and the number of bytes read. Calls may fail: a write depending on its bytes, a read depending on its position.
\<close>

record SocketClient =
  sc_peer :: "string \<Rightarrow> string \<times> bool"
  sc_written :: string
  sc_read :: nat
  sc_write_fault :: "string \<Rightarrow> string option"
  sc_read_fault :: "nat \<Rightarrow> string option"

datatype Broadcast = Broadcast_Status string string | RegisterPath string | UpdateView string | Unknown string

definition write_all :: "string \<Rightarrow> SocketClient \<Rightarrow> (SocketError + unit) \<times> SocketClient" where
  "write_all bytes c =
     (case sc_write_fault c bytes of
        Some e \<Rightarrow> (Inl (Client_Io e), c)
      | None \<Rightarrow> (Inr (), c\<lparr>sc_written := sc_written c @ bytes\<rparr>))"

text \<open>\<open>read_line\<close>: the bytes up to and including a line feed, or up to the end of the stream. \<open>None\<close>: it waits.\<close>

definition read_line :: "SocketClient \<Rightarrow> ((SocketError + string) \<times> SocketClient) option" where
  "read_line c =
     (case sc_read_fault c (sc_read c) of
        Some e \<Rightarrow> Some (Inl (Client_Io e), c)
      | None \<Rightarrow>
          (let (bytes, closed) = sc_peer c (sc_written c);
               rest = drop (sc_read c) bytes;
               line = (case split_once (CHR 0x0A) rest of Some (l, _) \<Rightarrow> Some (l @ nl) | None \<Rightarrow> if closed then Some rest else None)
           in case line of
                None \<Rightarrow> None
              | Some l \<Rightarrow>
                  Some (if valid_utf8 l then Inr l else Inl (Client_Io ''stream did not contain valid UTF-8''),
                        c\<lparr>sc_read := sc_read c + length l\<rparr>)))"

definition parse_status_line :: "string \<Rightarrow> (string \<times> string) option" where
  "parse_status_line line =
     (case strip_prefix_str ''STATUS:'' (trim_str line) of
        None \<Rightarrow> None
      | Some rest \<Rightarrow> split_once CHR '':'' rest)"

definition parse_menu_items_line :: "string \<Rightarrow> (string \<times> string \<times> bool) list" where
  "parse_menu_items_line line =
     List.map_filter (\<lambda>part. case splitn 3 CHR '':'' part of
          [name, cmd, state] \<Rightarrow> Some (name, cmd, state = ''enabled'')
        | _ \<Rightarrow> None)
       (drop 1 (split_on FIELD_SEP (trim_str line)))"

text \<open>A request and the first line that comes back, as in all three requests below.\<close>

definition ask :: "string \<Rightarrow> SocketClient \<Rightarrow> ((SocketError + string) \<times> SocketClient) option" where
  "ask cmd c =
     (case write_all cmd c of
        (Inl e, c) \<Rightarrow> Some (Inl e, c)
      | (Inr _, c) \<Rightarrow> read_line c)"

definition client_file_status :: "string \<Rightarrow> SocketClient \<Rightarrow> ((SocketError + string) \<times> SocketClient) option" where
  "client_file_status path c =
     map_option (\<lambda>(r, c). (case r of
          Inl e \<Rightarrow> Inl e
        | Inr line \<Rightarrow> (case parse_status_line line of
              Some (tag, _) \<Rightarrow> Inr tag
            | None \<Rightarrow> Inl (Client_Parse (''unexpected status response: '' @ line))), c))
       (ask (''RETRIEVE_FILE_STATUS:'' @ path @ nl) c)"

definition client_menu_items :: "string \<Rightarrow> SocketClient \<Rightarrow> ((SocketError + (string \<times> string \<times> bool) list) \<times> SocketClient) option" where
  "client_menu_items path c =
     map_option (\<lambda>(r, c). (map_sum id parse_menu_items_line r, c)) (ask (''GET_MENU_ITEMS:'' @ path @ nl) c)"

definition client_execute_command :: "string \<Rightarrow> string list \<Rightarrow> SocketClient \<Rightarrow> ((SocketError + unit) \<times> SocketClient) option" where
  "client_execute_command command paths c =
     map_option (\<lambda>(r, c). (map_sum id (\<lambda>_. ()) r, c)) (ask (command @ '':'' @ join_on [FIELD_SEP] paths @ nl) c)"

definition parse_broadcast :: "string \<Rightarrow> Broadcast" where
  "parse_broadcast line =
     (let trimmed = trim_str line in
      case parse_status_line trimmed of
        Some (tag, path) \<Rightarrow> Broadcast_Status tag path
      | None \<Rightarrow> (case strip_prefix_str ''REGISTER_PATH:'' trimmed of
          Some rest \<Rightarrow> RegisterPath rest
        | None \<Rightarrow> (case strip_prefix_str ''UPDATE_VIEW:'' trimmed of
            Some rest \<Rightarrow> UpdateView rest
          | None \<Rightarrow> Unknown trimmed)))"

definition read_broadcast :: "SocketClient \<Rightarrow> ((SocketError + Broadcast) \<times> SocketClient) option" where
  "read_broadcast c =
     map_option (\<lambda>(r, c). (case r of
          Inl e \<Rightarrow> Inl e
        | Inr line \<Rightarrow> if line = [] then Inl (Client_Io ''connection closed'') else Inr (parse_broadcast line), c))
       (read_line c)"

text \<open>\<open>connect\<close>: the socket in the runtime directory if there is one, else the one in the home directory.\<close>

definition client_socket_path :: "string option \<Rightarrow> string option \<Rightarrow> (string \<Rightarrow> bool) \<Rightarrow> string" where
  "client_socket_path xdg_runtime home exists =
     (let primary = (case xdg_runtime of Some d \<Rightarrow> d | None \<Rightarrow> ''/tmp'') @ ''/owncloud/socket'';
          fallback = (case home of Some h \<Rightarrow> h | None \<Rightarrow> []) @ ''/.local/share/owncloud/socket''
      in if exists primary then primary else fallback)"

section \<open>The service (\<open>emblem.rs\<close>, \<open>dbus_service.rs\<close>)\<close>

definition status_to_emblem :: "string \<Rightarrow> string" where
  "status_to_emblem status =
     (if status = ''OK'' then ''emblem-default''
      else if status = ''SYNC'' then ''emblem-synchronizing''
      else if status = ''WARNING'' then ''emblem-important''
      else if status = ''ERROR'' then ''emblem-problem''
      else if status = ''EXCLUDED'' then ''emblem-readonly''
      else [])"

text \<open>\<open>dial\<close> connects to the socket of the service; every method uses a connection of its own.\<close>

definition dbus_file_status :: "(SocketError + SocketClient) \<Rightarrow> string \<Rightarrow> (string \<times> string) option" where
  "dbus_file_status dial path =
     (case dial of
        Inl _ \<Rightarrow> Some (''NONE'', [])
      | Inr client \<Rightarrow> map_option (\<lambda>(r, _). case r of
            Inr tag \<Rightarrow> (tag, status_to_emblem tag)
          | Inl _ \<Rightarrow> (''NONE'', [])) (client_file_status path client))"

definition dbus_menu_items :: "(SocketError + SocketClient) \<Rightarrow> string \<Rightarrow> (string \<times> string \<times> bool) list option" where
  "dbus_menu_items dial path =
     (case dial of
        Inl _ \<Rightarrow> Some []
      | Inr client \<Rightarrow> map_option (\<lambda>(r, _). case r of Inr items \<Rightarrow> items | Inl _ \<Rightarrow> []) (client_menu_items path client))"

definition dbus_execute_command :: "(SocketError + SocketClient) \<Rightarrow> string \<Rightarrow> string list \<Rightarrow> string option" where
  "dbus_execute_command dial command paths =
     (case dial of
        Inl _ \<Rightarrow> Some []
      | Inr client \<Rightarrow> map_option (\<lambda>(_, client). sc_written client) (client_execute_command command paths client))"

section \<open>Signals and command line (\<open>main.rs\<close>)\<close>

datatype dbus_signal = StatusChanged string string | PathRegistered string

definition signals_of :: "bool \<Rightarrow> Broadcast \<Rightarrow> dbus_signal list" where
  "signals_of iface_ok b =
     (case b of
        Broadcast_Status tag path \<Rightarrow> if iface_ok then [StatusChanged path tag] else []
      | RegisterPath path \<Rightarrow> if iface_ok then [PathRegistered path] else []
      | _ \<Rightarrow> [])"

lemma read_broadcast_consumes:
  assumes "read_broadcast c = Some (Inr b, c')"
  shows "sc_peer c' = sc_peer c" "sc_written c' = sc_written c" "sc_read c < length (fst (sc_peer c (sc_written c)))"
    "sc_read c < sc_read c'"
proof -
  obtain bytes closed where p: "sc_peer c (sc_written c) = (bytes, closed)" by (cases "sc_peer c (sc_written c)")
  from assms have *: "sc_peer c' = sc_peer c \<and> sc_written c' = sc_written c \<and> drop (sc_read c) bytes \<noteq> [] \<and> sc_read c < sc_read c'"
    by (auto simp: read_broadcast_def read_line_def p Let_def split: option.splits sum.splits if_splits)
  then show "sc_peer c' = sc_peer c" "sc_written c' = sc_written c" "sc_read c < sc_read c'" by simp_all
  show "sc_read c < length (fst (sc_peer c (sc_written c)))" using * by (simp add: p not_le [symmetric])
qed

text \<open>The inner loop on one connection: until an error, the end of the stream, or for as long as something arrives.\<close>

function listen :: "bool \<Rightarrow> SocketClient \<Rightarrow> dbus_signal list" where
  "listen iface_ok c =
     (case read_broadcast c of
        Some (Inr b, c') \<Rightarrow> signals_of iface_ok b @ listen iface_ok c'
      | _ \<Rightarrow> [])"
  by pat_completeness auto
termination
  by (relation "measure (\<lambda>(_, c). length (fst (sc_peer c (sc_written c))) - sc_read c)")
    (use read_broadcast_consumes in \<open>fastforce intro: diff_less_mono2\<close>)+

declare listen.simps [simp del]

text \<open>The outer loop: one connection after the other, with a pause after each attempt.\<close>

definition listener :: "bool \<Rightarrow> (SocketError + SocketClient) list \<Rightarrow> dbus_signal list" where
  "listener iface_ok dials = concat (map (\<lambda>dial. case dial of Inl _ \<Rightarrow> [] | Inr c \<Rightarrow> listen iface_ok c) dials)"

definition socket_path :: "string option \<Rightarrow> string" where
  "socket_path xdg_runtime = (case xdg_runtime of Some d \<Rightarrow> d | None \<Rightarrow> ''/tmp'') @ ''/owncloud/socket''"

definition parse_cli_subcommand :: "string list \<Rightarrow> string list option" where
  "parse_cli_subcommand args = (if 2 \<le> length args \<and> args ! 1 = ''execute-command'' then Some (drop 2 args) else None)"

datatype start = Exit_Code nat | Serve

text \<open>What \<open>main\<close> does with its arguments; \<open>None\<close>: it waits for the daemon.\<close>

definition dbus_main :: "(SocketError + SocketClient) \<Rightarrow> string list \<Rightarrow> start option" where
  "dbus_main dial args =
     (case parse_cli_subcommand args of
        None \<Rightarrow> Some Serve
      | Some [] \<Rightarrow> Some (Exit_Code 1)
      | Some (command # paths) \<Rightarrow>
          (case dial of
             Inl _ \<Rightarrow> Some (Exit_Code 1)
           | Inr client \<Rightarrow> map_option (\<lambda>_. Exit_Code 0) (client_execute_command command paths client)))"

section \<open>Lemmas\<close>

subsection \<open>Paths that can be sent in a line\<close>

definition clean_path :: "string \<Rightarrow> bool" where
  "clean_path p \<longleftrightarrow> p \<noteq> [] \<and> trim_str p = p \<and> CHR 0x0A \<notin> set p \<and> FIELD_SEP \<notin> set p \<and> valid_utf8 p"

lemma clean_pathD:
  assumes "clean_path p"
  shows "p \<noteq> []" "trim_end_ws p = p" "CHR 0x0A \<notin> set p" "FIELD_SEP \<notin> set p" "valid_utf8 p" "last p \<noteq> CHR 0x0D"
proof -
  show p: "p \<noteq> []" "CHR 0x0A \<notin> set p" "FIELD_SEP \<notin> set p" "valid_utf8 p" using assms by (simp_all add: clean_path_def)
  show "trim_end_ws p = p" using assms trim_str_fixed_end by (simp add: clean_path_def)
  have "ws_suffix_len p = 0" using assms trim_str_fixed(2) by (simp add: clean_path_def)
  then have "ws_len (drop (length p - 1) p) \<noteq> 1" using p(1) by (auto simp: ws_suffix_len_0_iff Suc_le_eq)
  moreover have "drop (length p - 1) p = [last p]" using p(1) by (metis append_butlast_last_id append_eq_conv_conj length_butlast)
  ultimately show "last p \<noteq> CHR 0x0D" by (auto simp: ws_len_def)
qed

lemma trim_end_matches_last: "s \<noteq> [] \<Longrightarrow> last s \<noteq> c \<Longrightarrow> trim_end_matches c s = s"
  by (cases s rule: rev_cases) auto

lemma keyword_line:
  assumes "list_all graphic k" "clean_path p"
  shows "CHR 0x0A \<notin> set (k @ p)" "valid_utf8 (k @ p)" "valid_utf8 (k @ p @ nl)" "trim_end_matches (CHR 0x0D) (k @ p) = k @ p"
proof -
  note p = clean_pathD [OF assms(2)]
  show "CHR 0x0A \<notin> set (k @ p)" using assms(1) p(3) by (auto simp: list_all_iff graphic_def)
  show "valid_utf8 (k @ p)" using assms(1) p(5) by (intro valid_utf8_append) (simp_all add: list_all_graphic_ascii)
  show "valid_utf8 (k @ p @ nl)" using valid_utf8_message [OF assms(1) p(5)] .
  show "trim_end_matches (CHR 0x0D) (k @ p) = k @ p" using p(1,6) by (intro trim_end_matches_last) simp_all
qed

lemma trim_keyword_line:
  assumes "list_all graphic k" "k \<noteq> []" "clean_path p"
  shows "trim_str (k @ p @ nl) = k @ p" "trim_str (k @ p) = k @ p"
  using trim_keyword [OF assms(1,2)] trim_end_ws_nl [of p] clean_pathD(2) [OF assms(3)] by simp_all

lemma graphic_keywords [simp]:
  "list_all graphic ''RETRIEVE_FILE_STATUS:''" "list_all graphic ''GET_MENU_ITEMS:''" "list_all graphic ''REGISTER_PATH:''"
  "list_all graphic ''UNREGISTER_PATH:''" "list_all graphic ''STATUS:''" "list_all graphic ''UPDATE_VIEW:''" "list_all graphic ''NONE''"
  by (simp_all add: graphic_def)

subsection \<open>One connection of the server\<close>

text \<open>
  The server at the other end: all it writes on a connection when it has got these bytes. It does not
  close the connection before the client does.
\<close>

definition server_peer :: "'v socket_env \<Rightarrow> StatusResolver \<Rightarrow> uuid \<Rightarrow> BroadcastSender \<times> 'v \<Rightarrow> string \<Rightarrow> string \<times> bool" where
  "server_peer env r i s written = (concat (fst (handle_connection env r i (\<lambda>_. True) written s)), False)"

definition connected :: "(string \<Rightarrow> string \<times> bool) \<Rightarrow> SocketClient" where
  "connected peer = \<lparr>sc_peer = peer, sc_written = [], sc_read = 0, sc_write_fault = \<lambda>_. None, sc_read_fault = \<lambda>_. None\<rparr>"

lemma takeWhile_True [simp]: "takeWhile (\<lambda>_. True) xs = xs"
  by (induction xs) auto

lemma connection_answers_line:
  assumes "line \<noteq> []" "CHR 0x0A \<notin> set line" "valid_utf8 line" "trim_end_matches (CHR 0x0D) line = line"
    and "fst (dispatch_line env r line (add_connection i (fst s), snd s)) = Some answer"
  shows "server_peer env r i s (line @ nl) = (concat (register_msgs r @ [answer]), False)"
proof -
  have "split_on (CHR 0x0A) (line @ nl) = [line, []]" using split_on_append_sep [OF assms(2), of "[]"] by simp
  moreover have "valid_utf8 []" by (subst valid_utf8.simps) simp
  ultimately show ?thesis using assms
    by (cases "dispatch_line env r line (add_connection i (fst s), snd s)")
      (auto simp: server_peer_def handle_connection_def register_msgs_def Let_def split: prod.splits)
qed

lemma ask_first_line:
  assumes "sc_peer (connected peer) cmd = (l @ nl @ rest, closed)" "CHR 0x0A \<notin> set l" "valid_utf8 (l @ nl)"
  shows "\<exists>c. ask cmd (connected peer) = Some (Inr (l @ nl), c)"
  using assms split_once_append [OF assms(2), of rest]
  by (simp add: ask_def write_all_def read_line_def connected_def Let_def)

lemma register_line_no_status:
  assumes "clean_path root"
  shows "parse_status_line (''REGISTER_PATH:'' @ root @ nl) = None" "parse_menu_items_line (''REGISTER_PATH:'' @ root @ nl) = []"
proof -
  have t: "trim_str (''REGISTER_PATH:'' @ root @ nl) = ''REGISTER_PATH:'' @ root"
    by (rule trim_keyword_line(1) [OF graphic_keywords(3) _ assms]) simp
  then show "parse_status_line (''REGISTER_PATH:'' @ root @ nl) = None"
    unfolding parse_status_line_def t by (simp add: strip_prefix_str_def)
  have "FIELD_SEP \<notin> set (''REGISTER_PATH:'' @ root)" using clean_pathD(4) [OF assms] by (simp add: FIELD_SEP_def)
  from split_on_absent [OF this] show "parse_menu_items_line (''REGISTER_PATH:'' @ root @ nl) = []"
    unfolding parse_menu_items_line_def t by (simp add: map_filter_simps)
qed

text \<open>Every connection starts with the greeting, whatever the client sends.\<close>

lemma serve_lines_extends: "prefix out (fst (serve_lines env r ok ls out s))"
proof (induction ls arbitrary: out s)
  case (Cons line ls)
  then show ?case by (auto simp: Let_def split: prod.splits option.splits intro: append_prefixD [OF Cons.IH])
qed simp

lemma server_greets:
  assumes "sr_roots r = e # es"
  shows "\<exists>rest. server_peer env r i s w = (''REGISTER_PATH:'' @ fst e @ nl @ rest, False)"
proof -
  obtain out where "fst (handle_connection env r i (\<lambda>_. True) w s) = register_msgs r @ out"
    using serve_lines_extends [of "register_msgs r" env r "\<lambda>_. True" "split_on (CHR 0x0A) w" "(add_connection i (fst s), snd s)"]
    by (auto simp: handle_connection_def register_msgs_def Let_def prefix_def split_beta)
  then show ?thesis using assms by (simp add: server_peer_def register_msgs_def split_beta)
qed

lemma ask_greeted:
  assumes "sr_roots r = e # es" "clean_path (fst e)"
  shows "\<exists>c. ask cmd (connected (server_peer env r i s)) = Some (Inr (''REGISTER_PATH:'' @ fst e @ nl), c)"
proof -
  obtain rest where "sc_peer (connected (server_peer env r i s)) cmd = ((''REGISTER_PATH:'' @ fst e) @ nl @ rest, False)"
    using server_greets [OF assms(1), of env i s cmd] by (auto simp: connected_def)
  from ask_first_line [OF this keyword_line(1) [OF graphic_keywords(3) assms(2)]] keyword_line(3) [OF graphic_keywords(3) assms(2)]
  show ?thesis by simp
qed

lemma ask_without_roots:
  assumes "sr_roots r = []" "clean_path path" "list_all graphic k" "k \<noteq> []"
    and "fst (dispatch_line env r (k @ path) (add_connection i (fst s), snd s)) = Some (a @ nl)" "CHR 0x0A \<notin> set a" "valid_utf8 (a @ nl)"
  shows "\<exists>c. ask (k @ path @ nl) (connected (server_peer env r i s)) = Some (Inr (a @ nl), c)"
proof -
  have "sc_peer (connected (server_peer env r i s)) (k @ path @ nl) = (a @ nl @ [], False)"
    using connection_answers_line [OF _ keyword_line(1,2,4) [OF assms(3,2)] assms(5)] assms(1,4) by (simp add: connected_def register_msgs_def)
  from ask_first_line [OF this assms(6,7)] show ?thesis .
qed

lemma no_roots_no_folder: "sr_roots r = [] \<Longrightarrow> find_folder_for_path path r = None"
  by (simp add: find_folder_for_path_def)

lemma dispatch_queries:
  assumes "clean_path path"
  shows "fst (dispatch_line env r (''RETRIEVE_FILE_STATUS:'' @ path) s) = Some ((''STATUS:'' @ resolve_file path r @ '':'' @ path) @ nl)"
    and "fst (dispatch_line env r (''GET_MENU_ITEMS:'' @ path) s) = Some (handle_get_menu_items path r)"
  using clean_pathD(1) [OF assms]
  by (simp_all add: dispatch_line_def parse_command_def strip_prefix_str_def need_args_def handle_retrieve_file_status_def format_response_def)

lemma status_tag_graphic: "list_all graphic (resolve_file path r) \<and> CHR '':'' \<notin> set (resolve_file path r)"
proof -
  have "list_all graphic (status_tag s) \<and> CHR '':'' \<notin> set (status_tag s)" for s by (cases s) (simp_all add: graphic_def)
  moreover have "resolve_file path r \<in> {''NONE'', ''OK''} \<union> range status_tag"
    by (auto simp: resolve_file_def split: option.splits)
  ultimately show ?thesis by (auto simp: graphic_def)
qed

lemma parse_status_answer:
  assumes "list_all graphic tag" "CHR '':'' \<notin> set tag" "clean_path path"
  shows "parse_status_line (''STATUS:'' @ tag @ '':'' @ path @ nl) = Some (tag, path)"
    and "parse_status_line (''STATUS:'' @ tag @ '':'' @ path) = Some (tag, path)"
proof -
  have k: "list_all graphic (''STATUS:'' @ tag @ '':'')" using assms(1) by (simp add: graphic_def)
  have t: "trim_str (''STATUS:'' @ tag @ '':'' @ path @ nl) = ''STATUS:'' @ tag @ '':'' @ path"
    "trim_str (''STATUS:'' @ tag @ '':'' @ path) = ''STATUS:'' @ tag @ '':'' @ path"
    using trim_keyword_line [OF k _ assms(3)] by simp_all
  have "split_once CHR '':'' (tag @ '':'' @ path) = Some (tag, path)" using split_once_append [OF assms(2)] by simp
  then show "parse_status_line (''STATUS:'' @ tag @ '':'' @ path @ nl) = Some (tag, path)"
      "parse_status_line (''STATUS:'' @ tag @ '':'' @ path) = Some (tag, path)"
    unfolding parse_status_line_def t by (simp_all only: strip_prefix_str_append option.case)
qed

lemma server_status_answer:
  assumes "clean_path path"
  shows "\<exists>answer. fst (server_peer env r i s (''RETRIEVE_FILE_STATUS:'' @ path @ nl)) = concat (register_msgs r) @ answer \<and>
    parse_status_line answer = Some (resolve_file path r, path)"
  using connection_answers_line [OF _ keyword_line(1,2,4) [OF graphic_keywords(1) assms] dispatch_queries(1) [OF assms], of env r i s]
    parse_status_answer(1) [OF conjunct1 [OF status_tag_graphic] conjunct2 [OF status_tag_graphic] assms]
  by (intro exI [of _ "''STATUS:'' @ resolve_file path r @ '':'' @ path @ nl"]) simp

lemma dbus_status_none:
  assumes "clean_path path" "\<forall>e \<in> set (sr_roots r). clean_path (fst e)"
  shows "dbus_file_status (Inr (connected (server_peer env r i s))) path = Some (''NONE'', [])"
proof (cases "sr_roots r")
  case Nil
  then have none: "resolve_file path r = ''NONE''" by (simp add: resolve_file_def no_roots_no_folder)
  let ?k = "''STATUS:'' @ ''NONE'' @ '':''"
  have k: "list_all graphic ?k" by (simp add: graphic_def)
  have "\<exists>c. ask (''RETRIEVE_FILE_STATUS:'' @ path @ nl) (connected (server_peer env r i s)) = Some (Inr ((?k @ path) @ nl), c)"
    by (rule ask_without_roots [OF Nil assms(1) graphic_keywords(1)])
      (use dispatch_queries(1) [OF assms(1), of env r "(add_connection i (fst s), snd s)"] none keyword_line(1,3) [OF k assms(1)] in simp_all)
  moreover have "parse_status_line ((?k @ path) @ nl) = Some (''NONE'', path)"
    using parse_status_answer(1) [OF graphic_keywords(7) _ assms(1)] by simp
  ultimately show ?thesis by (auto simp: dbus_file_status_def client_file_status_def status_to_emblem_def simp del: append_assoc append.simps)
next
  case (Cons e es)
  then have "clean_path (fst e)" using assms(2) by simp
  with ask_greeted [OF Cons] register_line_no_status(1) show ?thesis
    by (fastforce simp: dbus_file_status_def client_file_status_def simp del: append.simps)
qed

lemma dbus_menu_empty:
  assumes "clean_path path" "\<forall>e \<in> set (sr_roots r). clean_path (fst e)"
  shows "dbus_menu_items (Inr (connected (server_peer env r i s))) path = Some []"
proof (cases "sr_roots r")
  case Nil
  let ?m = "''GET_MENU_ITEMS:'' @ path"
  have "\<exists>c. ask (''GET_MENU_ITEMS:'' @ path @ nl) (connected (server_peer env r i s)) = Some (Inr (?m @ nl), c)"
    by (rule ask_without_roots [OF Nil assms(1) graphic_keywords(2)])
      (use dispatch_queries(2) [OF assms(1), of env r "(add_connection i (fst s), snd s)"] Nil keyword_line(1,3) [OF graphic_keywords(2) assms(1)] in
        \<open>simp_all add: handle_get_menu_items_def no_roots_no_folder\<close>)
  moreover have "parse_menu_items_line (?m @ nl) = []"
  proof -
    have t: "trim_str (?m @ nl) = ?m" using trim_keyword_line(1) [OF graphic_keywords(2) _ assms(1)] by simp
    have "FIELD_SEP \<notin> set ?m" using clean_pathD(4) [OF assms(1)] by (simp add: FIELD_SEP_def)
    from split_on_absent [OF this] show ?thesis unfolding parse_menu_items_line_def t by (simp add: map_filter_simps)
  qed
  ultimately show ?thesis by (auto simp: dbus_menu_items_def client_menu_items_def simp del: append_assoc append.simps)
next
  case (Cons e es)
  then have "clean_path (fst e)" using assms(2) by simp
  with ask_greeted [OF Cons] register_line_no_status(2) show ?thesis
    by (fastforce simp: dbus_menu_items_def client_menu_items_def simp del: append.simps)
qed

subsection \<open>Broadcasts\<close>

text \<open>What the daemon announces, the call it makes for it, its text, and the signals it stands for.\<close>

datatype announcement = An_Register string | An_Unregister string | An_Status string string | An_View string

fun announce :: "announcement \<Rightarrow> BroadcastSender \<Rightarrow> BroadcastSender" where
  "announce (An_Register path) = register_path path"
| "announce (An_Unregister path) = unregister_path path"
| "announce (An_Status tag path) = status_changed tag path"
| "announce (An_View path) = update_view path"

fun announcement_line :: "announcement \<Rightarrow> string" where
  "announcement_line (An_Register path) = ''REGISTER_PATH:'' @ path"
| "announcement_line (An_Unregister path) = ''UNREGISTER_PATH:'' @ path"
| "announcement_line (An_Status tag path) = (''STATUS:'' @ tag @ '':'') @ path"
| "announcement_line (An_View path) = ''UPDATE_VIEW:'' @ path"

fun announcement_signals :: "announcement \<Rightarrow> dbus_signal list" where
  "announcement_signals (An_Register path) = [PathRegistered path]"
| "announcement_signals (An_Status tag path) = [StatusChanged path tag]"
| "announcement_signals _ = []"

fun wf_announcement :: "announcement \<Rightarrow> bool" where
  "wf_announcement (An_Status tag path) \<longleftrightarrow> list_all graphic tag \<and> CHR '':'' \<notin> set tag \<and> clean_path path"
| "wf_announcement (An_Register path) \<longleftrightarrow> clean_path path"
| "wf_announcement (An_Unregister path) \<longleftrightarrow> clean_path path"
| "wf_announcement (An_View path) \<longleftrightarrow> clean_path path"

lemma announce_sends: "announce a = send_all (announcement_line a @ nl)"
  by (cases a) (simp_all add: register_path_def unregister_path_def status_changed_def update_view_def)

lemma announcement_line_ok:
  assumes "wf_announcement a"
  shows "CHR 0x0A \<notin> set (announcement_line a)" "valid_utf8 (announcement_line a @ nl)"
    "signals_of True (parse_broadcast (announcement_line a @ nl)) = announcement_signals a"
proof -
  obtain k p where kp: "announcement_line a = k @ p" "list_all graphic k" "k \<noteq> []" "clean_path p"
  proof (cases a)
    case (An_Register p)
    show ?thesis by (rule that [of "''REGISTER_PATH:''" p]) (use An_Register assms in \<open>simp_all add: graphic_def\<close>)
  next
    case (An_Unregister p)
    show ?thesis by (rule that [of "''UNREGISTER_PATH:''" p]) (use An_Unregister assms in \<open>simp_all add: graphic_def\<close>)
  next
    case (An_Status tag p)
    show ?thesis by (rule that [of "''STATUS:'' @ tag @ '':''" p]) (use An_Status assms in \<open>simp_all add: graphic_def\<close>)
  next
    case (An_View p)
    show ?thesis by (rule that [of "''UPDATE_VIEW:''" p]) (use An_View assms in \<open>simp_all add: graphic_def\<close>)
  qed
  show "CHR 0x0A \<notin> set (announcement_line a)" "valid_utf8 (announcement_line a @ nl)"
    using keyword_line(1,3) [OF kp(2,4)] kp(1) by simp_all
  have t: "trim_str (announcement_line a @ nl) = announcement_line a" "trim_str (announcement_line a) = announcement_line a"
    using trim_keyword_line [OF kp(2-4)] kp(1) by simp_all
  have u: "parse_status_line (announcement_line a) =
      (case strip_prefix_str ''STATUS:'' (announcement_line a) of None \<Rightarrow> None | Some rest \<Rightarrow> split_once CHR '':'' rest)"
    by (simp only: parse_status_line_def t(2))
  have "parse_status_line (announcement_line a) = (case a of An_Status tag p \<Rightarrow> Some (tag, p) | _ \<Rightarrow> None)"
  proof (cases a)
    case (An_Status tag p)
    then show ?thesis using assms parse_status_answer(2) [of tag p] by simp
  qed (use u in \<open>simp_all add: strip_prefix_str_def\<close>)
  then show "signals_of True (parse_broadcast (announcement_line a @ nl)) = announcement_signals a"
    unfolding parse_broadcast_def t Let_def by (cases a) (simp_all add: strip_prefix_str_def signals_of_def)
qed

lemma listen_step:
  assumes "sc_peer c (sc_written c) = (pre @ l @ nl @ post, closed)" "sc_read c = length pre" "sc_read_fault c = (\<lambda>_. None)"
    and "CHR 0x0A \<notin> set l" "valid_utf8 (l @ nl)"
  shows "listen b c = signals_of b (parse_broadcast (l @ nl)) @ listen b (c\<lparr>sc_read := length (pre @ l @ nl)\<rparr>)"
proof -
  have "read_broadcast c = Some (Inr (parse_broadcast (l @ nl)), c\<lparr>sc_read := length (pre @ l @ nl)\<rparr>)"
    using assms split_once_append [OF assms(4), of post] by (simp add: read_broadcast_def read_line_def Let_def)
  then show ?thesis by (subst listen.simps) simp
qed

lemma listen_end:
  assumes "sc_peer c (sc_written c) = (pre, closed)" "sc_read c = length pre" "sc_read_fault c = (\<lambda>_. None)"
  shows "listen b c = []"
proof -
  have "valid_utf8 []" by (subst valid_utf8.simps) simp
  then show ?thesis using assms by (subst listen.simps) (simp add: read_broadcast_def read_line_def)
qed

lemma listen_lines:
  assumes "sc_peer c (sc_written c) = (pre @ concat (map (\<lambda>a. announcement_line a @ nl) as), closed)" "sc_read c = length pre"
    and "sc_read_fault c = (\<lambda>_. None)" "list_all wf_announcement as"
  shows "listen True c = concat (map announcement_signals as)"
  using assms
proof (induction as arbitrary: c pre)
  case Nil
  then show ?case by (simp add: listen_end)
next
  case (Cons a as)
  have a: "wf_announcement a" using Cons.prems(4) by simp
  let ?l = "announcement_line a" and ?c = "c\<lparr>sc_read := length (pre @ announcement_line a @ nl)\<rparr>"
  have "listen True c = signals_of True (parse_broadcast (?l @ nl)) @ listen True ?c"
    by (rule listen_step [where post = "concat (map (\<lambda>a. announcement_line a @ nl) as)"])
      (use Cons.prems announcement_line_ok(1,2) [OF a] in simp_all)
  also have "listen True ?c = concat (map announcement_signals as)"
    by (rule Cons.IH [where pre = "pre @ ?l @ nl"]) (use Cons.prems in simp_all)
  finally show ?case using announcement_line_ok(3) [OF a] by simp
qed

text \<open>The messages queued for a connection that is registered and not closed.\<close>

lemma send_all_queue:
  assumes "distinct (map ch_id cs)" "h \<in> set cs" "\<not> ch_closed h"
  shows "distinct (map ch_id (send_all m cs))" "h\<lparr>ch_queue := ch_queue h @ [m]\<rparr> \<in> set (send_all m cs)"
proof -
  let ?f = "\<lambda>h. if ch_closed h then h else h\<lparr>ch_queue := ch_queue h @ [m]\<rparr>"
  have "map ch_id (map ?f cs) = map ch_id cs" by simp
  then have "distinct (map ch_id (map ?f cs))" using assms(1) by metis
  then show "distinct (map ch_id (send_all m cs))"
    unfolding send_all_def Let_def by (rule distinct_map_filter)
  have "ch_id h \<notin> set (map ch_id (filter ch_closed cs))"
    using assms by (auto dest: eq_key_imp_eq_value simp: distinct_map inj_on_def)
  then show "h\<lparr>ch_queue := ch_queue h @ [m]\<rparr> \<in> set (send_all m cs)"
    using assms(2,3) by (auto simp: send_all_def Let_def image_iff intro!: bexI [of _ h])
qed

lemma announce_queue:
  assumes "distinct (map ch_id cs)" "h \<in> set cs" "\<not> ch_closed h"
  shows "h\<lparr>ch_queue := ch_queue h @ map (\<lambda>a. announcement_line a @ nl) as\<rparr> \<in> set (fold announce as cs)"
  using assms
proof (induction as arbitrary: cs h)
  case (Cons a as)
  from Cons.IH [OF send_all_queue(1) [OF Cons.prems] send_all_queue(2) [OF Cons.prems], of "announcement_line a @ nl"] Cons.prems(3)
  show ?case by (simp add: announce_sends)
qed simp

section \<open>Properties\<close>

text \<open>
  C30: File managers follow the daemon. On a connection of its own, registered with the server like any
  other, the service reads the greeting and then everything the daemon broadcasts afterwards; for paths that can be sent in a line it emits one signal for each
  registered root, each announced path and each announced status, with exactly these paths and tags and in this order, and nothing for the other broadcasts.
\<close>

theorem dbus_listener_follows_daemon:
  assumes "i \<notin> ch_id ` set cs" "distinct (map ch_id cs)" "list_all wf_announcement as" "\<forall>e \<in> set (sr_roots r). clean_path (fst e)"
  shows "\<exists>h \<in> set (fold announce as (add_connection i cs)). ch_id h = i \<and>
    (\<forall>closed. listener True [Inl e, Inr (connected (\<lambda>_. (concat (register_msgs r @ ch_queue h), closed)))] =
       map (\<lambda>e. PathRegistered (fst e)) (sr_roots r) @ concat (map announcement_signals as))"
proof -
  let ?h = "\<lparr>ch_id = i, ch_queue = [], ch_closed = False\<rparr>"
  let ?q = "map (\<lambda>a. announcement_line a @ nl) as" and ?rs = "map (\<lambda>e. An_Register (fst e)) (sr_roots r)"
  have "?h\<lparr>ch_queue := [] @ ?q\<rparr> \<in> set (fold announce as (add_connection i cs))"
    using announce_queue [of "add_connection i cs" ?h as] assms(1,2) by (simp add: add_connection_def)
  moreover have "listener True [Inl e, Inr (connected (\<lambda>_. (concat (register_msgs r @ ?q), closed)))] =
      map (\<lambda>e. PathRegistered (fst e)) (sr_roots r) @ concat (map announcement_signals as)" for closed
  proof -
    have "register_msgs r = map (\<lambda>a. announcement_line a @ nl) ?rs" by (simp add: register_msgs_def split_beta)
    then have "listen True (connected (\<lambda>_. (concat (register_msgs r @ ?q), closed))) = concat (map announcement_signals (?rs @ as))"
      using assms(3,4) by (intro listen_lines [where pre = "[]"]) (auto simp: connected_def list_all_iff)
    moreover have "concat (map announcement_signals ?rs) = map (\<lambda>e. PathRegistered (fst e)) (sr_roots r)"
      by (induction "sr_roots r") (simp_all add: comp_def)
    ultimately show ?thesis by (simp add: listener_def)
  qed
  ultimately show ?thesis by (intro bexI [of _ "?h\<lparr>ch_queue := [] @ ?q\<rparr>"]) simp_all
qed

definition sample_resolver :: StatusResolver where
  "sample_resolver = \<lparr>sr_states = [7 \<mapsto> new_SyncState 7], sr_roots = [(''/home/u/oc'', 7)]\<rparr>"

lemma sample_clean: "clean_path ''/home/u/oc''" "clean_path ''/home/u/oc/a:b''" "list_all graphic ''SYNC''"
  by code_simp+

theorem dbus_listener_follows_daemon_witness:
  "\<exists>h \<in> set (fold announce [An_Status ''SYNC'' ''/home/u/oc/a:b'', An_View ''/home/u/oc''] (add_connection 3 [])). ch_id h = 3 \<and>
     listener True [Inl (Client_Connect ''refused''), Inr (connected (\<lambda>_. (concat (register_msgs sample_resolver @ ch_queue h), True)))] =
       [PathRegistered ''/home/u/oc'', StatusChanged ''/home/u/oc/a:b'' ''SYNC'']"
proof -
  have "list_all wf_announcement [An_Status ''SYNC'' ''/home/u/oc/a:b'', An_View ''/home/u/oc'']"
    using sample_clean by (simp only: list.pred_inject wf_announcement.simps) simp
  moreover have "\<forall>e \<in> set (sr_roots sample_resolver). clean_path (fst e)" using sample_clean by (simp add: sample_resolver_def)
  ultimately have "\<exists>h \<in> set (fold announce [An_Status ''SYNC'' ''/home/u/oc/a:b'', An_View ''/home/u/oc''] (add_connection 3 [])). ch_id h = 3 \<and>
      (\<forall>closed. listener True [Inl (Client_Connect ''refused''),
           Inr (connected (\<lambda>_. (concat (register_msgs sample_resolver @ ch_queue h), closed)))] =
         map (\<lambda>e. PathRegistered (fst e)) (sr_roots sample_resolver) @
         concat (map announcement_signals [An_Status ''SYNC'' ''/home/u/oc/a:b'', An_View ''/home/u/oc'']))"
    by (intro dbus_listener_follows_daemon) simp_all
  moreover have "map (\<lambda>e. PathRegistered (fst e)) (sr_roots sample_resolver) @
      concat (map announcement_signals [An_Status ''SYNC'' ''/home/u/oc/a:b'', An_View ''/home/u/oc'']) =
      [PathRegistered ''/home/u/oc'', StatusChanged ''/home/u/oc/a:b'' ''SYNC'']"
    by (simp add: sample_resolver_def)
  ultimately show ?thesis by metis
qed

text \<open>
  C28: Questions of the file manager are never answered. The server greets every connection with the
  roots it knows, and the service takes the first line it reads for the answer: so for every path, and whatever the server knows of it, the status is \<open>NONE\<close>
  without an emblem and the menu is empty. Only the line after the greeting is the answer, and it would have been understood.
\<close>

theorem dbus_queries_never_answered:
  assumes "clean_path path" "\<forall>e \<in> set (sr_roots r). clean_path (fst e)"
  shows "dbus_file_status (Inr (connected (server_peer env r i s))) path = Some (''NONE'', []) \<and>
    dbus_menu_items (Inr (connected (server_peer env r i s))) path = Some [] \<and>
    (\<exists>answer. fst (server_peer env r i s (''RETRIEVE_FILE_STATUS:'' @ path @ nl)) = concat (register_msgs r) @ answer \<and>
       parse_status_line answer = Some (resolve_file path r, path))"
  using dbus_status_none [OF assms] dbus_menu_empty [OF assms] server_status_answer [OF assms(1)] by blast

theorem dbus_queries_never_answered_witness:
  "dbus_file_status (Inr (connected (server_peer \<lparr>se_debug = id, se_json_id = \<lambda>_. None, se_json_icon = id, se_vfs = VfsOff :: unit vfs, se_order = []\<rparr>
       sample_resolver 3 ([], ())))) ''/home/u/oc/a:b'' = Some (''NONE'', []) \<and>
   resolve_file ''/home/u/oc/a:b'' sample_resolver = ''OK''"
proof -
  have "\<forall>e \<in> set (sr_roots sample_resolver). clean_path (fst e)" using sample_clean by (simp add: sample_resolver_def)
  moreover have "resolve_file ''/home/u/oc/a:b'' sample_resolver = ''OK''"
  proof -
    have "starts_with_path ''/home/u/oc/a:b'' ''/home/u/oc''" by code_simp
    then show ?thesis by (simp add: resolve_file_def find_folder_for_path_def sample_resolver_def new_SyncState_def)
  qed
  ultimately show ?thesis using dbus_queries_never_answered [OF sample_clean(2)] by blast
qed

end
