(* ===== verification/ShellWindows.thy ===== *)
theory ShellWindows
  imports ShellLinux Win32
begin

text \<open>
  The extensions of the Windows Explorer (\<open>shell-integration/windows\<close>): the client of the daemon's pipe
  (\<open>oc-ipc\<close>), the context menu (\<open>oc-contextmenu\<close>) and the status icons (\<open>oc-overlay\<close>), each a library with a reference count and a
  registration. The calls of Windows are arguments, and so is the server at the other end of the pipe, which the theory \<open>Explorer\<close> puts in.
\<close>

section \<open>The pipe (\<open>oc-ipc/src/lib.rs\<close>)\<close>

datatype IpcError = Pipe_Connect string | Pipe_Write string | Pipe_Read string | InvalidResponse | NoUsername

text \<open>
  The user name, the outcome of opening a pipe by name, the error text of the last call, the errors of switching to message mode and of writing, and what
  reading gives once the request is written: the error of \<open>ReadFile\<close>, as for a message that is longer than the buffer, or the bytes of the first message of the connection.
\<close>

record pipe_env =
  pe_username :: "string option"
  pe_open :: "string \<Rightarrow> open_outcome"
  pe_last_error :: string
  pe_mode_error :: "string option"
  pe_write_error :: "string \<Rightarrow> string option"
  pe_reply :: "string \<Rightarrow> string + string"

definition pipe_connect :: "pipe_env \<Rightarrow> win \<Rightarrow> (IpcError + nat) \<times> win" where
  "pipe_connect env w =
     (case pe_username env of
        None \<Rightarrow> (Inl NoUsername, w)
      | Some username \<Rightarrow>
          (case create_file (pe_open env ([CHR 0x5C, CHR 0x5C, CHR ''.'', CHR 0x5C] @ ''pipe'' @ [CHR 0x5C] @ ''ownCloud-'' @ username)) w of
             (Inl e, w) \<Rightarrow> (Inl (Pipe_Connect e), w)
           | (Inr None, w) \<Rightarrow> (Inl (Pipe_Connect (pe_last_error env)), w)
           | (Inr (Some h), w) \<Rightarrow>
               (case pe_mode_error env of
                  Some e \<Rightarrow> (Inl (Pipe_Connect e), w)
                | None \<Rightarrow> (Inr h, w))))"

definition trim_end_lines :: "string \<Rightarrow> string" where
  "trim_end_lines s = rev (dropWhile (\<lambda>c. c = CHR 0x0A \<or> c = CHR 0x0D) (rev s))"

definition pipe_send_command :: "pipe_env \<Rightarrow> string \<Rightarrow> IpcError + string" where
  "pipe_send_command env cmd =
     (let payload = cmd @ nl in
      case pe_write_error env payload of
        Some e \<Rightarrow> Inl (Pipe_Write e)
      | None \<Rightarrow>
          (case pe_reply env payload of
             Inl e \<Rightarrow> Inl (Pipe_Read e)
           | Inr bytes \<Rightarrow>
               (let raw = take 4096 bytes
                in if valid_utf8 raw then Inr (trim_end_lines raw) else Inl InvalidResponse)))"

text \<open>\<open>connect().and_then(|mut conn| conn.send_command(..))\<close>: the connection is dropped, and its handle closed, at the end.\<close>

definition pipe_request :: "pipe_env \<Rightarrow> string \<Rightarrow> win \<Rightarrow> (IpcError + string) \<times> win" where
  "pipe_request env cmd w =
     (case pipe_connect env w of
        (Inl e, w) \<Rightarrow> (Inl e, w)
      | (Inr h, w) \<Rightarrow> (pipe_send_command env cmd, close_handle h w))"

section \<open>The context menu (\<open>oc-contextmenu\<close>)\<close>

record MenuItemDef =
  mi_id :: u32
  mi_label :: string
  mi_command :: string
  mi_enabled :: bool

definition menu_record :: "nat \<times> string \<Rightarrow> MenuItemDef option" where
  "menu_record ir =
     (case splitn 3 CHR '':'' (snd ir) of
        label # command # others \<Rightarrow>
          Some \<lparr>mi_id = of_nat (fst ir), mi_label = label, mi_command = command,
                mi_enabled = ((case others of [] \<Rightarrow> ''enabled'' | state # _ \<Rightarrow> state) \<noteq> ''disabled'')\<rparr>
      | _ \<Rightarrow> None)"

definition parse_menu_items :: "string \<Rightarrow> MenuItemDef list" where
  "parse_menu_items response =
     (case splitn 2 FIELD_SEP response of
        [_, rest] \<Rightarrow> List.map_filter menu_record (List.enumerate 0 (filter (\<lambda>s. s \<noteq> []) (split_on FIELD_SEP rest)))
      | _ \<Rightarrow> [])"

datatype com_error = E_FAIL | E_POINTER | CLASS_E_NOAGGREGATION | Os_Error string

record OcContextMenu =
  cm_selected_paths :: "string list"
  cm_menu_items :: "MenuItemDef list"

text \<open>\<open>Initialize\<close>: \<open>None\<close> is a missing data object, otherwise what \<open>GetData\<close> gives, with the paths that were dropped on it.\<close>

definition cm_initialize :: "pipe_env \<Rightarrow> (string + string list) option \<Rightarrow> OcContextMenu \<Rightarrow> win \<Rightarrow> (com_error + unit) \<times> OcContextMenu \<times> win" where
  "cm_initialize env data_obj cm w =
     (case data_obj of
        None \<Rightarrow> (Inl E_FAIL, cm, w)
      | Some (Inl e) \<Rightarrow> (Inl (Os_Error e), cm, w)
      | Some (Inr paths) \<Rightarrow>
          (case (case paths of
                   [] \<Rightarrow> ([], w)
                 | first_path # _ \<Rightarrow>
                     (case pipe_request env (''GET_MENU_ITEMS:'' @ first_path) w of
                        (r, w) \<Rightarrow> (case r of Inl _ \<Rightarrow> [] | Inr response \<Rightarrow> parse_menu_items response, w))) of
             (items, w) \<Rightarrow> (Inr (), \<lparr>cm_selected_paths = paths, cm_menu_items = items\<rparr>, w)))"

text \<open>
  The menu of the Explorer: a list of entries. \<open>append_ok\<close> tells which \<open>AppendMenuW\<close> succeed; \<open>popup_error\<close> and \<open>insert_error\<close>
  are the errors of \<open>CreatePopupMenu\<close> and of the two \<open>InsertMenuW\<close>.
\<close>

datatype menu_entry = Separator | Popup string "(bool \<times> nat \<times> string) list" | Other_Entry string

definition insert_at :: "nat \<Rightarrow> 'a \<Rightarrow> 'a list \<Rightarrow> 'a list" where
  "insert_at i x xs = take i xs @ x # drop i xs"

fun append_items :: "(nat \<Rightarrow> bool) \<Rightarrow> nat \<Rightarrow> nat \<Rightarrow> MenuItemDef list \<Rightarrow> (bool \<times> nat \<times> string) list option" where
  "append_items append_ok idcmdfirst i [] = Some []"
| "append_items append_ok idcmdfirst i (item # items) =
     (if append_ok i
      then map_option (Cons (\<not> mi_enabled item, idcmdfirst + i, mi_label item)) (append_items append_ok idcmdfirst (Suc i) items)
      else None)"

definition cm_query_context_menu :: "string option \<Rightarrow> (nat \<Rightarrow> bool) \<Rightarrow> (nat \<Rightarrow> string option) \<Rightarrow> nat \<Rightarrow> u32 \<Rightarrow> OcContextMenu
    \<Rightarrow> menu_entry list \<Rightarrow> (com_error + unit) \<times> menu_entry list" where
  "cm_query_context_menu popup_error append_ok insert_error indexmenu idcmdfirst cm hmenu =
     (if cm_menu_items cm = [] then (Inr (), hmenu)
      else case popup_error of
        Some e \<Rightarrow> (Inl (Os_Error e), hmenu)
      | None \<Rightarrow>
          (case append_items append_ok (unat idcmdfirst) 0 (cm_menu_items cm) of
             None \<Rightarrow> (Inl E_FAIL, hmenu)
           | Some submenu \<Rightarrow>
               (case insert_error 0 of
                  Some e \<Rightarrow> (Inl (Os_Error e), hmenu)
                | None \<Rightarrow>
                    (let hmenu = insert_at indexmenu Separator hmenu in
                     case insert_error 1 of
                       Some e \<Rightarrow> (Inl (Os_Error e), hmenu)
                     | None \<Rightarrow> (Inr (), insert_at (indexmenu + 1) (Popup ''ownCloud'' submenu) hmenu)))))"

text \<open>\<open>GetCommandString\<close>: the units that are written to a buffer of \<open>cchmax\<close> units.\<close>

definition cm_get_command_string :: "nat \<Rightarrow> u32 \<Rightarrow> u32 \<Rightarrow> OcContextMenu \<Rightarrow> com_error + u16 list" where
  "cm_get_command_string idcmd utype cchmax cm =
     (if idcmd < length (cm_menu_items cm) then
        (let item = cm_menu_items cm ! idcmd in
         if utype = 4 then Inr (wide_write (unat cchmax) (mi_command item))
         else if utype = 5 then Inr (wide_write (unat cchmax) (mi_label item))
         else Inr [])
      else Inl E_FAIL)"

text \<open>\<open>InvokeCommand\<close>: a verb above \<open>0xFFFF\<close> is a pointer to a text, which is not supported. The result is the line that was sent.\<close>

definition cm_invoke_command :: "pipe_env \<Rightarrow> nat option \<Rightarrow> OcContextMenu \<Rightarrow> win \<Rightarrow> (com_error + string) \<times> win" where
  "cm_invoke_command env pici cm w =
     (case pici of
        None \<Rightarrow> (Inl E_POINTER, w)
      | Some verb \<Rightarrow>
          if 0xFFFF < verb then (Inl E_FAIL, w)
          else if verb < length (cm_menu_items cm) then
            (let wire = mi_command (cm_menu_items cm ! verb) @ '':'' @ (case cm_selected_paths cm of [] \<Rightarrow> [] | p # _ \<Rightarrow> p)
             in case pipe_request env wire w of (r, w) \<Rightarrow> (case r of Inl _ \<Rightarrow> Inl E_FAIL | Inr _ \<Rightarrow> Inr wire, w))
          else (Inl E_FAIL, w))"

section \<open>The status icons (\<open>oc-overlay\<close>)\<close>

datatype overlay = OcOverlayOk | OcOverlaySync | OcOverlayWarning | OcOverlayError | OcOverlayExcluded

fun overlay_tag :: "overlay \<Rightarrow> string" where
  "overlay_tag OcOverlayOk = ''OK''"
| "overlay_tag OcOverlaySync = ''SYNC''"
| "overlay_tag OcOverlayWarning = ''WARNING''"
| "overlay_tag OcOverlayError = ''ERROR''"
| "overlay_tag OcOverlayExcluded = ''EXCLUDED''"

fun overlay_index :: "overlay \<Rightarrow> nat" where
  "overlay_index OcOverlayOk = 0"
| "overlay_index OcOverlaySync = 1"
| "overlay_index OcOverlayWarning = 2"
| "overlay_index OcOverlayError = 3"
| "overlay_index OcOverlayExcluded = 4"

fun overlay_priority :: "overlay \<Rightarrow> nat" where
  "overlay_priority OcOverlayOk = 4"
| "overlay_priority OcOverlaySync = 2"
| "overlay_priority OcOverlayWarning = 3"
| "overlay_priority OcOverlayError = 1"
| "overlay_priority OcOverlayExcluded = 5"

definition overlays :: "overlay list" where
  "overlays = [OcOverlayOk, OcOverlaySync, OcOverlayWarning, OcOverlayError, OcOverlayExcluded]"

definition overlay_file_status :: "pipe_env \<Rightarrow> string \<Rightarrow> win \<Rightarrow> string \<times> win" where
  "overlay_file_status env path w =
     (case pipe_request env (''RETRIEVE_FILE_STATUS:'' @ path) w of
        (r, w) \<Rightarrow>
          ((case r of
              Inl _ \<Rightarrow> ''NONE''
            | Inr response \<Rightarrow>
                (case splitn 3 CHR '':'' response of
                   _ # tag # _ \<Rightarrow> if tag \<in> {''OK'', ''SYNC'', ''WARNING'', ''ERROR'', ''EXCLUDED''} then tag else ''NONE''
                 | _ \<Rightarrow> ''NONE'')), w))"

text \<open>\<open>None\<close> is a path that is a null pointer or not valid UTF-16.\<close>

definition is_member_of :: "overlay \<Rightarrow> pipe_env \<Rightarrow> string option \<Rightarrow> win \<Rightarrow> (com_error + unit) \<times> win" where
  "is_member_of ov env pwszpath w =
     (case pwszpath of
        None \<Rightarrow> (Inl E_FAIL, w)
      | Some path \<Rightarrow>
          (case overlay_file_status env path w of
             (status, w) \<Rightarrow> (if status = overlay_tag ov then Inr () else Inl E_FAIL, w)))"

text \<open>
  \<open>GetOverlayInfo\<close>: \<open>path_buf\<close> is the buffer of \<open>cchmax\<close> units as \<open>GetModuleFileNameW\<close> leaves it. The result are the units written, the index of the icon and
  the flags \<open>ISIOI_ICONFILE\<close> and \<open>ISIOI_ICONINDEX\<close>.
\<close>

definition get_overlay_info :: "overlay \<Rightarrow> bool \<Rightarrow> nat \<Rightarrow> u16 list \<Rightarrow> com_error + u16 list \<times> nat \<times> u32" where
  "get_overlay_info ov ptrs_ok cchmax path_buf =
     (if \<not> ptrs_ok then Inl E_POINTER
      else Inr (take cchmax (lossy_units path_buf @ [0]), overlay_index ov, 3))"

lemma get_overlay_info_bounded:
  "length path_buf = cchmax \<Longrightarrow> get_overlay_info ov True cchmax path_buf = Inr (lossy_units path_buf, overlay_index ov, 3)"
  by (simp add: get_overlay_info_def)

text \<open>No two icons share a priority or a picture.\<close>

lemma overlay_priorities: "inj overlay_priority \<and> inj overlay_index"
proof -
  have "overlay_priority a = overlay_priority b \<Longrightarrow> a = b" "overlay_index a = overlay_index b \<Longrightarrow> a = b" for a b
    by (cases a; cases b; simp)+
  then show ?thesis by (auto intro: injI)
qed

section \<open>The libraries and their reference counts\<close>

text \<open>
  A library as its clients use it: the 32-bit counter \<open>DLL_REF_COUNT\<close>, and, to compare it with, how many class factories and objects the clients hold,
  how many locks, and how many objects were ever created. A client releases only what it holds and unlocks only what it locked.
\<close>

record dll =
  dl_refs :: "32 word"
  dl_factories :: nat
  dl_objects :: nat
  dl_locks :: nat
  dl_created :: nat

definition dll_loaded :: dll where
  "dll_loaded = \<lparr>dl_refs = 0, dl_factories = 0, dl_objects = 0, dl_locks = 0, dl_created = 0\<rparr>"

text \<open>
  The calls: \<open>DllGetClassObject\<close> with whether the pointers are not null, the class is known and the interface is supported;
  \<open>CreateInstance\<close> with whether it is aggregated and the interface is supported; \<open>LockServer\<close>; and the release of a factory or an object.
\<close>

datatype dll_call =
  DllGetClassObject bool bool bool | CreateInstance bool bool | LockServer bool | Release_Factory | Release_Object

text \<open>\<open>oc-contextmenu\<close>: factory and menu count themselves when they are made and when they are dropped, also if the interface is not supported.\<close>

fun contextmenu_call :: "dll_call \<Rightarrow> dll \<Rightarrow> dll" where
  "contextmenu_call (DllGetClassObject ptrs_ok clsid_ok iid_ok) d =
     (if \<not> ptrs_ok \<or> \<not> clsid_ok then d
      else (let d = d\<lparr>dl_refs := dl_refs d + 1\<rparr>
            in if iid_ok then d\<lparr>dl_factories := Suc (dl_factories d)\<rparr> else d\<lparr>dl_refs := dl_refs d - 1\<rparr>))"
| "contextmenu_call (CreateInstance outer iid_ok) d =
     (if outer then d
      else (let d = d\<lparr>dl_refs := dl_refs d + 1, dl_created := Suc (dl_created d)\<rparr>
            in if iid_ok then d\<lparr>dl_objects := Suc (dl_objects d)\<rparr> else d\<lparr>dl_refs := dl_refs d - 1\<rparr>))"
| "contextmenu_call (LockServer lock) d =
     (if lock then d\<lparr>dl_refs := dl_refs d + 1, dl_locks := Suc (dl_locks d)\<rparr>
      else d\<lparr>dl_refs := dl_refs d - 1, dl_locks := dl_locks d - 1\<rparr>)"
| "contextmenu_call Release_Factory d = d\<lparr>dl_refs := dl_refs d - 1, dl_factories := dl_factories d - 1\<rparr>"
| "contextmenu_call Release_Object d = d\<lparr>dl_refs := dl_refs d - 1, dl_objects := dl_objects d - 1\<rparr>"

text \<open>\<open>oc-overlay\<close>: factories are not counted, an icon is counted when it is made and never again.\<close>

fun overlay_call :: "dll_call \<Rightarrow> dll \<Rightarrow> dll" where
  "overlay_call (DllGetClassObject ptrs_ok clsid_ok iid_ok) d =
     (if \<not> ptrs_ok \<or> \<not> clsid_ok then d
      else if iid_ok then d\<lparr>dl_factories := Suc (dl_factories d)\<rparr> else d)"
| "overlay_call (CreateInstance outer iid_ok) d =
     (if outer then d
      else (let d = d\<lparr>dl_refs := dl_refs d + 1, dl_created := Suc (dl_created d)\<rparr>
            in if iid_ok then d\<lparr>dl_objects := Suc (dl_objects d)\<rparr> else d))"
| "overlay_call (LockServer lock) d =
     (if lock then d\<lparr>dl_refs := dl_refs d + 1, dl_locks := Suc (dl_locks d)\<rparr>
      else d\<lparr>dl_refs := dl_refs d - 1, dl_locks := dl_locks d - 1\<rparr>)"
| "overlay_call Release_Factory d = d\<lparr>dl_factories := dl_factories d - 1\<rparr>"
| "overlay_call Release_Object d = d\<lparr>dl_objects := dl_objects d - 1\<rparr>"

definition dll_can_unload_now :: "dll \<Rightarrow> bool" where
  "dll_can_unload_now d \<longleftrightarrow> dl_refs d = 0"

text \<open>The calls a client may make in a state.\<close>

fun call_allowed :: "dll_call \<Rightarrow> dll \<Rightarrow> bool" where
  "call_allowed (CreateInstance _ _) d \<longleftrightarrow> 0 < dl_factories d"
| "call_allowed (LockServer lock) d \<longleftrightarrow> 0 < dl_factories d \<and> (lock \<or> 0 < dl_locks d)"
| "call_allowed Release_Factory d \<longleftrightarrow> 0 < dl_factories d"
| "call_allowed Release_Object d \<longleftrightarrow> 0 < dl_objects d"
| "call_allowed _ d \<longleftrightarrow> True"

inductive dll_history :: "(dll_call \<Rightarrow> dll \<Rightarrow> dll) \<Rightarrow> dll \<Rightarrow> bool" for call where
  loaded: "dll_history call dll_loaded"
| step: "dll_history call d \<Longrightarrow> call_allowed c d \<Longrightarrow> dll_history call (call c d)"

section \<open>Registration (\<open>registration.rs\<close>)\<close>

record GUID =
  data1 :: "32 word"
  data2 :: "16 word"
  data3 :: "16 word"
  data4 :: "8 word list"

definition hex_digit :: "nat \<Rightarrow> char" where
  "hex_digit n = (if n < 10 then char_of (48 + n) else char_of (55 + n))"

text \<open>\<open>{:0wX}\<close> for a number of exactly \<open>w\<close> digits.\<close>

definition hex :: "nat \<Rightarrow> nat \<Rightarrow> string" where
  "hex w n = map (\<lambda>i. hex_digit (n div 16 ^ i mod 16)) (rev [0..<w])"

definition guid_to_string :: "GUID \<Rightarrow> string" where
  "guid_to_string g =
     ''{'' @ hex 8 (unat (data1 g)) @ ''-'' @ hex 4 (unat (data2 g)) @ ''-'' @ hex 4 (unat (data3 g)) @ ''-'' @
     concat (map (\<lambda>b. hex 2 (unat b)) (take 2 (data4 g))) @ ''-'' @ concat (map (\<lambda>b. hex 2 (unat b)) (drop 2 (data4 g))) @ ''}''"

definition oc_guid :: "nat \<Rightarrow> GUID" where
  "oc_guid n = \<lparr>data1 = of_nat n, data2 = 0x1234, data3 = 0x5678, data4 = [0x90, 0xAB, 0xCD, 0xEF, 0x01, 0x23, 0x45, 0x67]\<rparr>"

fun overlay_clsid :: "overlay \<Rightarrow> GUID" where
  "overlay_clsid OcOverlayOk = oc_guid 0xABCD0001"
| "overlay_clsid OcOverlaySync = oc_guid 0xABCD0002"
| "overlay_clsid OcOverlayWarning = oc_guid 0xABCD0003"
| "overlay_clsid OcOverlayError = oc_guid 0xABCD0004"
| "overlay_clsid OcOverlayExcluded = oc_guid 0xABCD0005"

fun overlay_name :: "overlay \<Rightarrow> string" where
  "overlay_name OcOverlayOk = ''ownCloudOK''"
| "overlay_name OcOverlaySync = ''ownCloudSync''"
| "overlay_name OcOverlayWarning = ''ownCloudWarning''"
| "overlay_name OcOverlayError = ''ownCloudError''"
| "overlay_name OcOverlayExcluded = ''ownCloudExcluded''"

text \<open>
  The keys below \<open>HKEY_CURRENT_USER\<close> with their default values; \<open>fault\<close> gives the errors of creating a key and of setting its value.
  \<open>base\<close> is the key the icons are registered under.
\<close>

type_synonym registry = "string \<rightharpoonup> string"

definition write_reg_key :: "(string \<Rightarrow> bool \<Rightarrow> string option) \<Rightarrow> string \<Rightarrow> string \<Rightarrow> registry \<Rightarrow> (string + unit) \<times> registry" where
  "write_reg_key fault subkey val reg =
     (case fault subkey False of
        Some e \<Rightarrow> (Inl e, reg)
      | None \<Rightarrow>
          (let reg = (if reg subkey = None then reg(subkey \<mapsto> []) else reg) in
           case fault subkey True of
             Some e \<Rightarrow> (Inl e, reg)
           | None \<Rightarrow> (Inr (), reg(subkey \<mapsto> val))))"

fun register_each :: "(string \<Rightarrow> bool \<Rightarrow> string option) \<Rightarrow> string \<Rightarrow> overlay list \<Rightarrow> registry \<Rightarrow> (string + unit) \<times> registry" where
  "register_each fault base [] reg = (Inr (), reg)"
| "register_each fault base (ov # ovs) reg =
     (case write_reg_key fault (base @ [CHR 0x5C] @ overlay_name ov) (guid_to_string (overlay_clsid ov)) reg of
        (Inl e, reg) \<Rightarrow> (Inl e, reg)
      | (Inr _, reg) \<Rightarrow> register_each fault base ovs reg)"

definition overlay_register :: "(string \<Rightarrow> bool \<Rightarrow> string option) \<Rightarrow> string \<Rightarrow> registry \<Rightarrow> (string + unit) \<times> registry" where
  "overlay_register fault base reg = register_each fault base overlays reg"

text \<open>Errors of \<open>RegDeleteKeyW\<close> are ignored; \<open>kept\<close> are the keys it could not delete.\<close>

definition overlay_unregister :: "string set \<Rightarrow> string \<Rightarrow> registry \<Rightarrow> registry" where
  "overlay_unregister kept base reg =
     fold (\<lambda>ov reg. let k = base @ [CHR 0x5C] @ overlay_name ov in if k \<in> kept then reg else reg(k := None)) overlays reg"

definition contextmenu_register :: "(string \<Rightarrow> bool \<Rightarrow> string option) \<Rightarrow> string \<Rightarrow> registry \<Rightarrow> (string + unit) \<times> registry" where
  "contextmenu_register fault handler_key reg = write_reg_key fault handler_key (guid_to_string (oc_guid 0xABCD0010)) reg"

definition contextmenu_unregister :: "string set \<Rightarrow> string \<Rightarrow> registry \<Rightarrow> registry" where
  "contextmenu_unregister kept handler_key reg = (if handler_key \<in> kept then reg else reg(handler_key := None))"

section \<open>Lemmas\<close>

subsection \<open>The answer to a menu request\<close>

text \<open>The line with which a server announces entries (label, command, enabled), and the entries it can announce.\<close>

definition menu_item_text :: "string \<times> string \<times> bool \<Rightarrow> string" where
  "menu_item_text it = fst it @ '':'' @ fst (snd it) @ '':'' @ (if snd (snd it) then ''enabled'' else ''disabled'')"

definition menu_reply :: "string \<Rightarrow> (string \<times> string \<times> bool) list \<Rightarrow> string" where
  "menu_reply path items = ''GET_MENU_ITEMS:'' @ path @ concat (map (\<lambda>it. FIELD_SEP # menu_item_text it) items)"

definition wf_item :: "string \<times> string \<times> bool \<Rightarrow> bool" where
  "wf_item it \<longleftrightarrow> CHR '':'' \<notin> set (fst it) \<and> FIELD_SEP \<notin> set (fst it) \<and> CHR '':'' \<notin> set (fst (snd it)) \<and> FIELD_SEP \<notin> set (fst (snd it))"

definition standard_items :: "(string \<times> string \<times> bool) list" where
  "standard_items = [(''Share'', ''SHARE'', True), (''Copy link'', ''COPY_PRIVATE_LINK'', True),
     (''Make available locally'', ''MAKE_AVAILABLE_LOCALLY'', True), (''Make online only'', ''MAKE_ONLINE_ONLY'', True)]"

lemma server_menu_reply:
  "handle_get_menu_items path r = menu_reply path (if find_folder_for_path path r = None then [] else standard_items) @ nl"
  by (simp add: handle_get_menu_items_def menu_reply_def menu_item_text_def standard_items_def)

lemma splitn3_item:
  assumes "wf_item it"
  shows "splitn 3 CHR '':'' (menu_item_text it) = [fst it, fst (snd it), if snd (snd it) then ''enabled'' else ''disabled'']"
proof -
  have "splitn (Suc (Suc (Suc 0))) CHR '':'' (menu_item_text it) =
      [fst it, fst (snd it), if snd (snd it) then ''enabled'' else ''disabled'']"
    using assms split_once_append [of "CHR '':''" "fst it"] split_once_append [of "CHR '':''" "fst (snd it)"]
    by (simp add: wf_item_def menu_item_text_def)
  then show ?thesis by (simp add: numeral_3_eq_3)
qed

lemma item_no_sep: "wf_item it \<Longrightarrow> FIELD_SEP \<notin> set (menu_item_text it) \<and> menu_item_text it \<noteq> []"
  by (auto simp: wf_item_def menu_item_text_def FIELD_SEP_def)

lemma split_menu_records:
  assumes "FIELD_SEP \<notin> set p" "list_all wf_item items"
  shows "split_on FIELD_SEP (p @ concat (map (\<lambda>it. FIELD_SEP # menu_item_text it) items)) = p # map menu_item_text items"
  using assms
proof (induction items arbitrary: p)
  case (Cons it items)
  then show ?case using item_no_sep [of it] by (simp add: split_on_append_sep)
qed (simp add: split_on_absent)

lemma split_menu_reply:
  assumes "FIELD_SEP \<notin> set path" "list_all wf_item items"
  shows "split_on FIELD_SEP (menu_reply path items) = (''GET_MENU_ITEMS:'' @ path) # map menu_item_text items"
proof -
  have "FIELD_SEP \<notin> set (''GET_MENU_ITEMS:'' @ path)" using assms(1) by (simp add: FIELD_SEP_def)
  from split_menu_records [OF this assms(2)] show ?thesis by (simp add: menu_reply_def)
qed

definition menu_def :: "nat \<times> string \<times> string \<times> bool \<Rightarrow> MenuItemDef" where
  "menu_def p = \<lparr>mi_id = of_nat (fst p), mi_label = fst (snd p), mi_command = fst (snd (snd p)), mi_enabled = snd (snd (snd p))\<rparr>"

lemma menu_records:
  "list_all wf_item items \<Longrightarrow>
     List.map_filter menu_record (List.enumerate k (map menu_item_text items)) = map menu_def (List.enumerate k items)"
proof (induction items arbitrary: k)
  case (Cons it items)
  then have "menu_record (k, menu_item_text it) = Some (menu_def (k, it))" using splitn3_item [of it] by (simp add: menu_record_def menu_def_def)
  then show ?case using Cons by (simp add: map_filter_simps)
qed (simp add: map_filter_simps)

lemma windows_parses_reply:
  assumes "FIELD_SEP \<notin> set path" "list_all wf_item items"
  shows "parse_menu_items (menu_reply path items) = map menu_def (List.enumerate 0 items)"
proof (cases items)
  case Nil
  have "FIELD_SEP \<notin> set (''GET_MENU_ITEMS:'' @ path)" using assms(1) by (simp add: FIELD_SEP_def)
  then have "split_once FIELD_SEP (menu_reply path []) = None" by (simp only: menu_reply_def split_once_None) simp
  then show ?thesis using Nil by (simp add: parse_menu_items_def numeral_2_eq_2)
next
  case (Cons it its)
  have sep: "FIELD_SEP \<notin> set (''GET_MENU_ITEMS:'' @ path)" using assms(1) by (simp add: FIELD_SEP_def)
  let ?rest = "menu_item_text it @ concat (map (\<lambda>it. FIELD_SEP # menu_item_text it) its)"
  have "splitn 2 FIELD_SEP (menu_reply path items) = [''GET_MENU_ITEMS:'' @ path, ?rest]"
    using split_once_append [OF sep, of ?rest] by (simp add: numeral_2_eq_2 menu_reply_def Cons)
  moreover have "split_on FIELD_SEP ?rest = map menu_item_text items"
    using split_menu_records [of "menu_item_text it" its] assms(2) item_no_sep [of it] Cons by simp
  moreover have "filter (\<lambda>s. s \<noteq> []) (map menu_item_text items) = map menu_item_text items"
    using assms(2) item_no_sep by (auto simp: list_all_iff intro!: filter_True)
  ultimately show ?thesis using menu_records [OF assms(2), of 0] by (simp add: parse_menu_items_def)
qed

lemma ws_len_last: "ws_len t = length t \<Longrightarrow> t \<noteq> [] \<Longrightarrow> \<not> graphic (last t)"
  by (cases t; cases "tl t"; cases "tl (tl t)"; cases "tl (tl (tl t))") (auto simp: ws_len_def graphic_def split: if_splits)

lemma ws_suffix_len_graphic: "s \<noteq> [] \<Longrightarrow> graphic (last s) \<Longrightarrow> ws_suffix_len s = 0"
  unfolding ws_suffix_len_0_iff
proof (intro ballI impI)
  fix n assume s: "s \<noteq> []" "graphic (last s)" and n: "n \<in> {1, 2, 3 :: nat}" "n \<le> length s"
  let ?t = "drop (length s - n) s"
  have "length ?t = n" "?t \<noteq> []" "last ?t = last s" using n s(1) by auto
  then show "ws_len ?t \<noteq> n" using ws_len_last [of ?t] s(2) by auto
qed

lemma linux_parses_reply:
  assumes "clean_path path" "list_all wf_item items"
  shows "parse_menu_items_line (menu_reply path items @ nl) = items"
proof -
  let ?recs = "concat (map (\<lambda>it. FIELD_SEP # menu_item_text it) items)"
  have "trim_end_ws (path @ ?recs) = path @ ?recs"
  proof (cases items rule: rev_cases)
    case (snoc its it)
    have "last (path @ ?recs) = CHR ''d''" by (simp add: snoc menu_item_text_def)
    then have "ws_suffix_len (path @ ?recs) = 0" using clean_pathD(1) [OF assms(1)] by (intro ws_suffix_len_graphic) (simp_all add: graphic_def)
    then show ?thesis by (subst trim_end_ws.simps) simp
  qed (use clean_pathD(2) [OF assms(1)] in simp)
  then have "trim_str (menu_reply path items @ nl) = menu_reply path items"
    using trim_keyword [OF graphic_keywords(2), of "(path @ ?recs) @ nl"] trim_end_ws_nl [of "path @ ?recs"] by (simp add: menu_reply_def)
  moreover have "List.map_filter (\<lambda>part. case splitn 3 CHR '':'' part of [name, cmd, state] \<Rightarrow> Some (name, cmd, state = ''enabled'') | _ \<Rightarrow> None)
      (map menu_item_text items) = items"
    using assms(2) by (induction items) (auto simp: map_filter_simps splitn3_item prod_eq_iff)
  ultimately show ?thesis
    using split_menu_reply [OF clean_pathD(4) [OF assms(1)] assms(2)] by (simp add: parse_menu_items_line_def)
qed

subsection \<open>The menu\<close>

lemma append_items_all:
  "(\<And>i. append_ok i) \<Longrightarrow> append_items append_ok first k items =
     Some (map (\<lambda>(i, item). (\<not> mi_enabled item, first + i, mi_label item)) (List.enumerate k items))"
  by (induction items arbitrary: k) simp_all

lemma trim_end_lines_nl [simp]: "trim_end_lines (s @ nl) = trim_end_lines s"
  by (simp add: trim_end_lines_def)

lemma trim_end_lines_last: "s \<noteq> [] \<Longrightarrow> last s \<notin> {CHR 0x0A, CHR 0x0D} \<Longrightarrow> trim_end_lines s = s"
  by (cases s rule: rev_cases) (auto simp: trim_end_lines_def)

lemma trim_menu_reply:
  assumes "clean_path path" shows "trim_end_lines (menu_reply path items @ nl) = menu_reply path items"
proof -
  have "last (menu_reply path items) \<notin> {CHR 0x0A, CHR 0x0D}"
  proof (cases items rule: rev_cases)
    case Nil
    have "last path \<noteq> CHR 0x0A" using clean_pathD(1,3) [OF assms] last_in_set by metis
    then show ?thesis using Nil clean_pathD(1,6) [OF assms] by (simp add: menu_reply_def)
  next
    case (snoc its it)
    then show ?thesis by (simp add: menu_reply_def menu_item_text_def)
  qed
  moreover have "menu_reply path items \<noteq> []" by (simp add: menu_reply_def)
  ultimately show ?thesis using trim_end_lines_last [of "menu_reply path items"] by simp
qed

lemma pipe_request_result:
  assumes "pe_username env = Some u" "\<And>n. pe_open env n = Open_Ok" "pe_mode_error env = None" "pe_write_error env (cmd @ nl) = None"
    and "pe_reply env (cmd @ nl) = Inr bytes" "length bytes \<le> 4096" "valid_utf8 bytes"
  shows "pipe_request env cmd w = (Inr (trim_end_lines bytes), w\<lparr>wn_next := Suc (wn_next w)\<rparr>)"
  using assms by (simp add: pipe_request_def pipe_connect_def create_file_def pipe_send_command_def close_handle_def Let_def)

text \<open>A request closes the handle it opened, unless the pipe cannot be switched to message mode.\<close>

lemma pipe_request_handles:
  "wn_open (snd (pipe_request env cmd w)) =
     (case pe_username env of
        Some u \<Rightarrow> if pe_open env ([CHR 0x5C, CHR 0x5C, CHR ''.'', CHR 0x5C] @ ''pipe'' @ [CHR 0x5C] @ ''ownCloud-'' @ u) = Open_Ok \<and>
            pe_mode_error env \<noteq> None then wn_next w # wn_open w else wn_open w
      | None \<Rightarrow> wn_open w)"
  by (auto simp: pipe_request_def pipe_connect_def create_file_def close_handle_def split: option.splits open_outcome.splits)

interpretation healthy_pipe: handle_neutral wn_open "\<lambda>(env, cmd) w. snd (pipe_request (env\<lparr>pe_mode_error := None\<rparr>) cmd w)"
  by unfold_locales (auto simp: pipe_request_handles split: option.split)

subsection \<open>Reference counts\<close>

text \<open>
  The contract of a counter: in every history it equals the number of things it stands for, as long as
  each call keeps this.
\<close>

locale ref_counted =
  fixes call :: "dll_call \<Rightarrow> dll \<Rightarrow> dll" and weight :: "dll \<Rightarrow> nat"
  assumes loaded_weight: "weight dll_loaded = 0"
    and call_weight: "call_allowed c d \<Longrightarrow> dl_refs d = of_nat (weight d) \<Longrightarrow> dl_refs (call c d) = of_nat (weight (call c d))"
begin

lemma refs_weight: "dll_history call d \<Longrightarrow> dl_refs d = of_nat (weight d)"
proof (induction rule: dll_history.induct)
  case loaded
  then show ?case by (simp add: loaded_weight) (simp add: dll_loaded_def)
next
  case (step d c)
  then show ?case using call_weight by blast
qed

lemma can_unload_iff:
  assumes "dll_history call d" "weight d < 2 ^ 32" shows "dll_can_unload_now d \<longleftrightarrow> weight d = 0"
proof -
  have "(of_nat (weight d) :: 32 word) = 0 \<longleftrightarrow> weight d = 0"
    using assms(2) by (auto simp: word_of_nat_eq_0_iff dest: dvd_imp_le)
  then show ?thesis using refs_weight [OF assms(1)] by (simp add: dll_can_unload_now_def)
qed

end

lemma of_nat_pred: "0 < n \<Longrightarrow> (of_nat (n - Suc 0) :: 32 word) = of_nat n - 1"
  by (cases n) simp_all

interpretation menu_refs: ref_counted contextmenu_call "\<lambda>d. dl_factories d + dl_objects d + dl_locks d"
proof unfold_locales
  fix c d assume "call_allowed c d" "dl_refs d = of_nat (dl_factories d + dl_objects d + dl_locks d)"
  then show "dl_refs (contextmenu_call c d) =
      of_nat (dl_factories (contextmenu_call c d) + dl_objects (contextmenu_call c d) + dl_locks (contextmenu_call c d))"
    by (cases c) (auto simp: Let_def of_nat_pred)
qed (simp add: dll_loaded_def)

interpretation icon_refs: ref_counted overlay_call "\<lambda>d. dl_created d + dl_locks d"
proof unfold_locales
  fix c d assume "call_allowed c d" "dl_refs d = of_nat (dl_created d + dl_locks d)"
  then show "dl_refs (overlay_call c d) = of_nat (dl_created (overlay_call c d) + dl_locks (overlay_call c d))"
    by (cases c) (auto simp: Let_def of_nat_pred)
qed (simp add: dll_loaded_def)

subsection \<open>Registration\<close>

lemma register_each_ok:
  assumes "\<And>k b. fault k b = None"
  shows "register_each fault base ovs reg =
    (Inr (), reg ++ map_of (rev (map (\<lambda>ov. (base @ [CHR 0x5C] @ overlay_name ov, guid_to_string (overlay_clsid ov))) ovs)))"
  using assms by (induction ovs arbitrary: reg) (simp_all add: write_reg_key_def map_add_upd_left)

lemma unregister_registered:
  assumes "\<And>k b. fault k b = None" "\<And>ov. reg (base @ [CHR 0x5C] @ overlay_name ov) = None"
  shows "overlay_unregister {} base (snd (overlay_register fault base reg)) = reg"
  using assms(2) [of OcOverlayOk] assms(2) [of OcOverlaySync] assms(2) [of OcOverlayWarning] assms(2) [of OcOverlayError] assms(2) [of OcOverlayExcluded]
  by (auto simp: overlay_unregister_def overlay_register_def register_each_ok [OF assms(1)] overlays_def fun_eq_iff map_add_def)

subsection \<open>Status icons\<close>

text \<open>A file gets at most one icon, and it gets one exactly if its status is not \<open>NONE\<close>.\<close>

lemma one_icon:
  "fst (is_member_of ov env (Some path) w) = Inr () \<longleftrightarrow> overlay_tag ov = fst (overlay_file_status env path w)"
  "overlay_tag ov = overlay_tag ov' \<Longrightarrow> ov = ov'"
  "fst (overlay_file_status env path w) \<noteq> ''NONE'' \<Longrightarrow> \<exists>ov. overlay_tag ov = fst (overlay_file_status env path w)"
proof -
  show "fst (is_member_of ov env (Some path) w) = Inr () \<longleftrightarrow> overlay_tag ov = fst (overlay_file_status env path w)"
    by (auto simp: is_member_of_def split: prod.splits)
  show "overlay_tag ov = overlay_tag ov' \<Longrightarrow> ov = ov'" by (cases ov; cases ov') simp_all
  have "{''OK'', ''SYNC'', ''WARNING'', ''ERROR'', ''EXCLUDED''} \<subseteq> range overlay_tag"
    using rangeI [of overlay_tag OcOverlayOk] rangeI [of overlay_tag OcOverlaySync] rangeI [of overlay_tag OcOverlayWarning]
      rangeI [of overlay_tag OcOverlayError] rangeI [of overlay_tag OcOverlayExcluded] by simp
  then show "fst (overlay_file_status env path w) \<noteq> ''NONE'' \<Longrightarrow> \<exists>ov. overlay_tag ov = fst (overlay_file_status env path w)"
    by (auto simp: overlay_file_status_def split: prod.splits sum.splits list.splits if_splits)
qed

section \<open>Properties\<close>

text \<open>
  What the context menu does with an answer. If the first message that the client reads after \<open>GET_MENU_ITEMS\<close> is the server's list of entries for the first
  selected file (labels and commands without separators, in at most 4096 bytes), the menu shows one entry for each, with its label and greyed
  exactly if it is disabled, under consecutive numbers; and choosing the entry with a number sends exactly its command for that file. The client of the D-Bus service reads the same entries
  from the same line. The daemon's own server greets the client first; what then happens is in the theory \<open>Explorer\<close>.
\<close>

theorem explorer_menu_is_server_menu:
  assumes env: "pe_username env = Some u" "\<And>n. pe_open env n = Open_Ok" "pe_mode_error env = None" "\<And>b. pe_write_error env b = None"
    and reply: "pe_reply env (''GET_MENU_ITEMS:'' @ path @ nl) = Inr (menu_reply path items @ nl)"
      "length (menu_reply path items) < 4096" "valid_utf8 (menu_reply path items @ nl)"
    and wf: "clean_path path" "list_all wf_item items"
    and k: "k < length items" "k \<le> 0xFFFF" "pe_reply env (fst (snd (items ! k)) @ '':'' @ path @ nl) = Inr ack" "length ack \<le> 4096" "valid_utf8 ack"
    and init: "cm_initialize env (Some (Inr (path # others))) cm w = (r, cm', w')"
  shows "cm_query_context_menu None (\<lambda>_. True) (\<lambda>_. None) pos first cm' hmenu =
      (Inr (), insert_at (pos + 1) (Popup ''ownCloud'' (map (\<lambda>(i, label, _, enabled). (\<not> enabled, unat first + i, label)) (List.enumerate 0 items)))
                 (insert_at pos Separator hmenu)) \<and>
    fst (cm_invoke_command env (Some k) cm' w') = Inr (fst (snd (items ! k)) @ '':'' @ path) \<and>
    parse_menu_items_line (menu_reply path items @ nl) = items"
proof (intro conjI)
  have "pipe_request env (''GET_MENU_ITEMS:'' @ path) w = (Inr (menu_reply path items), w\<lparr>wn_next := Suc (wn_next w)\<rparr>)"
    using pipe_request_result [OF env(1-3), of "''GET_MENU_ITEMS:'' @ path" "menu_reply path items @ nl" w] env(4) reply trim_menu_reply [OF wf(1)] by simp
  then have cm': "cm' = \<lparr>cm_selected_paths = path # others, cm_menu_items = map menu_def (List.enumerate 0 items)\<rparr>"
    using init windows_parses_reply [OF clean_pathD(4) [OF wf(1)] wf(2)] by (simp add: cm_initialize_def)
  have ne: "List.enumerate 0 items \<noteq> []" using k(1) by (auto simp flip: length_greater_0_conv)
  have shown: "map (\<lambda>(i, item). (\<not> mi_enabled item, unat first + i, mi_label item)) (List.enumerate 0 (map menu_def (List.enumerate 0 items))) =
      map (\<lambda>(i, label, _, enabled). (\<not> enabled, unat first + i, label)) (List.enumerate 0 items)"
    by (rule nth_equalityI) (simp_all add: nth_enumerate_eq menu_def_def split_beta)
  show "cm_query_context_menu None (\<lambda>_. True) (\<lambda>_. None) pos first cm' hmenu =
      (Inr (), insert_at (pos + 1) (Popup ''ownCloud'' (map (\<lambda>(i, label, _, enabled). (\<not> enabled, unat first + i, label)) (List.enumerate 0 items)))
                 (insert_at pos Separator hmenu))"
    using ne by (simp add: cm_query_context_menu_def cm' append_items_all shown)
  have "cm_menu_items cm' ! k = menu_def (k, items ! k)" using k(1) by (simp add: cm' nth_enumerate_eq)
  then show "fst (cm_invoke_command env (Some k) cm' w') = Inr (fst (snd (items ! k)) @ '':'' @ path)"
    using k pipe_request_result [OF env(1-3), of "fst (snd (items ! k)) @ '':'' @ path" ack w'] env(4)
    by (simp add: cm_invoke_command_def cm' menu_def_def Let_def)
  show "parse_menu_items_line (menu_reply path items @ nl) = items" by (rule linux_parses_reply [OF wf])
qed

definition sample_pipe :: pipe_env where
  "sample_pipe = \<lparr>pe_username = Some ''u'', pe_open = \<lambda>_. Open_Ok, pe_last_error = [], pe_mode_error = None, pe_write_error = \<lambda>_. None,
     pe_reply = \<lambda>b. if b = ''GET_MENU_ITEMS:/d/f'' @ nl then Inr (menu_reply ''/d/f'' standard_items @ nl) else Inr (''SHARE:OK:/d/f'' @ nl)\<rparr>"

theorem explorer_menu_is_server_menu_witness:
  "let (_, cm, w) = cm_initialize sample_pipe (Some (Inr [''/d/f'', ''/d/g''])) \<lparr>cm_selected_paths = [], cm_menu_items = []\<rparr> \<lparr>wn_open = [], wn_next = 0\<rparr>
   in fst (cm_invoke_command sample_pipe (Some 0) cm w) = Inr ''SHARE:/d/f''"
proof -
  let ?i = "cm_initialize sample_pipe (Some (Inr [''/d/f'', ''/d/g''])) \<lparr>cm_selected_paths = [], cm_menu_items = []\<rparr> \<lparr>wn_open = [], wn_next = 0\<rparr>"
  obtain r cm w where i: "?i = (r, cm, w)" by (cases ?i)
  have wf: "clean_path ''/d/f''" "list_all wf_item standard_items" "length (menu_reply ''/d/f'' standard_items) < 4096"
      "valid_utf8 (menu_reply ''/d/f'' standard_items @ nl)" "valid_utf8 (''SHARE:OK:/d/f'' @ nl)"
    by code_simp+
  have it: "standard_items ! 0 = (''Share'', ''SHARE'', True)" "length standard_items = 4" by (simp_all add: standard_items_def)
  have "fst (cm_invoke_command sample_pipe (Some 0) cm w) = Inr (fst (snd (standard_items ! 0)) @ '':'' @ ''/d/f'')"
    by (rule explorer_menu_is_server_menu [OF _ _ _ _ _ wf(3,4,1,2) _ _ _ _ wf(5) i, THEN conjunct2, THEN conjunct1])
      (simp_all add: sample_pipe_def it)
  then show ?thesis by (simp add: i it)
qed

text \<open>
  C24: When the Explorer may unload the extensions. The context menu says that it can be unloaded exactly
  when no client holds a class factory, a menu or a lock, in every history of calls, also of those that fail (as long as fewer than \<open>2 ^ 32\<close> things
  are held). The status icons are never unloaded again once an icon was made, even when everything is released.
\<close>

theorem extensions_unload:
  "(dll_history contextmenu_call d \<and> dl_factories d + dl_objects d + dl_locks d < 2 ^ 32 \<longrightarrow>
      (dll_can_unload_now d \<longleftrightarrow> dl_factories d = 0 \<and> dl_objects d = 0 \<and> dl_locks d = 0)) \<and>
   (dll_history overlay_call d \<and> 0 < dl_created d \<and> dl_created d + dl_locks d < 2 ^ 32 \<longrightarrow> \<not> dll_can_unload_now d)"
  using menu_refs.can_unload_iff [of d] icon_refs.can_unload_iff [of d] by auto

theorem extensions_unload_witness:
  "let calls = [DllGetClassObject True True True, CreateInstance False True, Release_Object, Release_Factory]
   in dll_can_unload_now (fold contextmenu_call calls dll_loaded) \<and> \<not> dll_can_unload_now (fold overlay_call calls dll_loaded)"
proof -
  let ?calls = "[DllGetClassObject True True True, CreateInstance False True, Release_Object, Release_Factory]"
  have steps: "dll_history call (call Release_Factory (call Release_Object (call (CreateInstance False True)
      (call (DllGetClassObject True True True) dll_loaded))))" if "call = contextmenu_call \<or> call = overlay_call" for call
    using that by (intro dll_history.intros) (auto simp: dll_loaded_def Let_def)
  have "dll_history contextmenu_call (fold contextmenu_call ?calls dll_loaded)" "dll_history overlay_call (fold overlay_call ?calls dll_loaded)"
    using steps [of contextmenu_call] steps [of overlay_call] by simp_all
  then show ?thesis using extensions_unload [of "fold contextmenu_call ?calls dll_loaded"] extensions_unload [of "fold overlay_call ?calls dll_loaded"]
    by (simp add: dll_loaded_def Let_def)
qed

end
