(* ===== verification/Explorer.thy ===== *)
theory Explorer
  imports ShellWindows Instance
begin

text \<open>
  The extensions of the Windows Explorer against the daemon of the repository: the pipe that the daemon creates
  (\<open>crates/socket-api/src/transport/windows.rs\<close>), the server behind it (\<open>server.rs\<close>), and the client at its other end
  (\<open>shell-integration/windows/oc-ipc\<close>). What Windows and the \<open>tokio\<close> library do is an argument.
\<close>

section \<open>The pipe of the daemon\<close>

datatype pipe_type = Pipe_Byte | Pipe_Message

text \<open>
  The type of a pipe that is created with \<open>ServerOptions::new()\<close>, the errors of creating and connecting it, of opening another name, of switching a handle to the message
  mode of reading, given the type of the pipe, and of writing; the error of the last call; and the errors of a read: of a message that is longer than the buffer, and
  of a server that writes nothing (where the read would wait; the requests of the extensions are all answered).
\<close>

record windows_pipes =
  wp_default :: pipe_type
  wp_create_error :: "string option"
  wp_connect_error :: "string option"
  wp_open_error :: string
  wp_set_message_mode :: "pipe_type \<Rightarrow> string option"
  wp_write_error :: "string \<Rightarrow> string option"
  wp_last_error :: string
  wp_more_data :: string
  wp_no_data :: string

text \<open>\<open>accept_inner\<close>: the options are the defaults, so the pipe has the default type.\<close>

definition accept_inner :: "windows_pipes \<Rightarrow> SocketApiError + pipe_type" where
  "accept_inner wp =
     windows_accept (case wp_create_error wp of Some e \<Rightarrow> Inl e | None \<Rightarrow> Inr (wp_default wp)) (\<lambda>_. wp_connect_error wp)"

text \<open>
  What a client finds that opens the pipe while the daemon waits in \<open>accept\<close>. In the message mode of reading a read gives one message, which is what one \<open>write_all\<close>
  of the server has written; so the first read gives the first message of the connection.
\<close>

definition daemon_pipe :: "windows_pipes \<Rightarrow> platform_env \<Rightarrow> 'v socket_env \<Rightarrow> StatusResolver \<Rightarrow> uuid \<Rightarrow> BroadcastSender \<times> 'v \<Rightarrow> pipe_env" where
  "daemon_pipe wp penv senv r i s =
     \<lparr>pe_username = pe_var penv ''USERNAME'',
      pe_open = (\<lambda>name. if name = windows_pipe_name penv \<and> (\<exists>t. accept_inner wp = Inr t) then Open_Ok else Open_Error (wp_open_error wp)),
      pe_last_error = wp_last_error wp,
      pe_mode_error = wp_set_message_mode wp (wp_default wp),
      pe_write_error = wp_write_error wp,
      pe_reply = (\<lambda>payload. case fst (handle_connection senv r i (\<lambda>_. True) payload s) of
                     [] \<Rightarrow> Inl (wp_no_data wp)
                   | msg # _ \<Rightarrow> if length msg \<le> 4096 then Inr msg else Inl (wp_more_data wp))\<rparr>"

text \<open>
  What is documented of the two: the default of \<open>ServerOptions\<close> is a pipe of type byte, and a handle of such a pipe
  cannot be switched to the message mode of reading.
\<close>

definition documented_pipes :: "windows_pipes \<Rightarrow> bool" where
  "documented_pipes wp \<longleftrightarrow> wp_default wp = Pipe_Byte \<and> wp_set_message_mode wp Pipe_Byte \<noteq> None"

section \<open>Lemmas\<close>

lemma first_message_greeting:
  assumes "sr_roots r = e # es"
  shows "\<exists>rest. fst (handle_connection senv r i (\<lambda>_. True) payload s) = (''REGISTER_PATH:'' @ fst e @ nl) # rest"
  using serve_lines_extends [of "register_msgs r" senv r "\<lambda>_. True" "split_on (CHR 0x0A) payload" "(add_connection i (fst s), snd s)"] assms
  by (auto simp: handle_connection_def register_msgs_def Let_def prefix_def split_beta)

lemma first_message_answer:
  assumes "sr_roots r = []" "clean_path path" "list_all graphic k" "k \<noteq> []"
    and "fst (dispatch_line senv r (k @ path) (add_connection i (fst s), snd s)) = Some answer"
  shows "fst (handle_connection senv r i (\<lambda>_. True) ((k @ path) @ nl) s) = [answer]"
proof -
  note line = keyword_line(1,2,4) [OF assms(3,2)]
  have "split_on (CHR 0x0A) ((k @ path) @ nl) = [k @ path, []]" using split_on_append_sep [OF line(1), of "[]"] by simp
  moreover have "valid_utf8 []" by (subst valid_utf8.simps) simp
  ultimately show ?thesis using assms(1,4,5) line(2,3)
    by (cases "dispatch_line senv r (k @ path) (add_connection i (fst s), snd s)")
      (auto simp: handle_connection_def register_msgs_def Let_def split: prod.splits)
qed

lemma trim_end_lines_clean:
  assumes "clean_path p" shows "trim_end_lines (k @ p @ nl) = k @ p"
proof -
  have "last p \<noteq> CHR 0x0A" using clean_pathD(1,3) [OF assms] last_in_set by metis
  moreover have "last p \<noteq> CHR 0x0D" using clean_pathD(6) [OF assms] .
  ultimately have "last (k @ p) \<notin> {CHR 0x0A, CHR 0x0D}" using clean_pathD(1) [OF assms] by simp
  then have "trim_end_lines (k @ p) = k @ p" using trim_end_lines_last [of "k @ p"] clean_pathD(1) [OF assms] by simp
  then show ?thesis by (simp add: trim_end_lines_def)
qed

text \<open>A request either fails or gives the first message.\<close>

lemma daemon_pipe_request:
  assumes "fst (handle_connection senv r i (\<lambda>_. True) (cmd @ nl) s) = (k @ p @ nl) # rest" "clean_path p"
    and "fst (pipe_request (daemon_pipe wp penv senv r i s) cmd w) = Inr response"
  shows "response = k @ p"
  using assms trim_end_lines_clean [OF assms(2), of k]
  by (auto simp: pipe_request_def pipe_send_command_def daemon_pipe_def Let_def split: prod.splits sum.splits option.splits if_splits)

lemma no_separator_no_items: "FIELD_SEP \<notin> set s \<Longrightarrow> parse_menu_items s = []"
  by (simp add: parse_menu_items_def eval_nat_numeral split_once_None [THEN iffD2])

abbreviation icon_tags :: "string set" where
  "icon_tags \<equiv> {''OK'', ''SYNC'', ''WARNING'', ''ERROR'', ''EXCLUDED''}"

text \<open>Roots that can be sent in a line and do not look like a status; a path with a drive letter does not.\<close>

definition plain_roots :: "StatusResolver \<Rightarrow> bool" where
  "plain_roots r \<longleftrightarrow> (\<forall>e \<in> set (sr_roots r). clean_path (fst e) \<and> hd (splitn 2 CHR '':'' (fst e)) \<notin> icon_tags)"

lemma menu_request_empty:
  assumes "clean_path path" "plain_roots r"
    and "fst (pipe_request (daemon_pipe wp penv senv r i s) (''GET_MENU_ITEMS:'' @ path) w) = Inr response"
  shows "parse_menu_items response = []"
proof (cases "sr_roots r")
  case Nil
  have "fst (handle_connection senv r i (\<lambda>_. True) ((''GET_MENU_ITEMS:'' @ path) @ nl) s) = [''GET_MENU_ITEMS:'' @ path @ nl]"
    using dispatch_queries(2) [OF assms(1), of senv r "(add_connection i (fst s), snd s)"] Nil
    by (intro first_message_answer [OF Nil assms(1) graphic_keywords(2)]) (simp_all add: handle_get_menu_items_def no_roots_no_folder)
  from daemon_pipe_request [OF this assms(1,3)] show ?thesis
    using clean_pathD(4) [OF assms(1)] by (simp add: no_separator_no_items FIELD_SEP_def)
next
  case (Cons e es)
  then have e: "clean_path (fst e)" using assms(2) by (simp add: plain_roots_def)
  obtain rest where "fst (handle_connection senv r i (\<lambda>_. True) ((''GET_MENU_ITEMS:'' @ path) @ nl) s) = (''REGISTER_PATH:'' @ fst e @ nl) # rest"
    using first_message_greeting [OF Cons] by blast
  from daemon_pipe_request [OF this e assms(3)] show ?thesis
    using clean_pathD(4) [OF e] by (simp add: no_separator_no_items FIELD_SEP_def)
qed

lemma status_request_none:
  assumes "clean_path path" "plain_roots r"
  shows "fst (overlay_file_status (daemon_pipe wp penv senv r i s) path w) = ''NONE''"
proof (cases "fst (pipe_request (daemon_pipe wp penv senv r i s) (''RETRIEVE_FILE_STATUS:'' @ path) w)")
  case (Inl e)
  then show ?thesis by (auto simp: overlay_file_status_def split: prod.splits)
next
  case (Inr response)
  have "\<exists>tag others. splitn 3 CHR '':'' response = hd (splitn 3 CHR '':'' response) # tag # others \<and> tag \<notin> icon_tags"
  proof (cases "sr_roots r")
    case Nil
    then have none: "resolve_file path r = ''NONE''" by (simp add: resolve_file_def no_roots_no_folder)
    have "fst (handle_connection senv r i (\<lambda>_. True) ((''RETRIEVE_FILE_STATUS:'' @ path) @ nl) s) = [''STATUS:NONE:'' @ path @ nl]"
      using dispatch_queries(1) [OF assms(1), of senv r "(add_connection i (fst s), snd s)"] none
      by (intro first_message_answer [OF Nil assms(1) graphic_keywords(1)]) simp_all
    from daemon_pipe_request [OF this assms(1) Inr] show ?thesis
      by (simp add: eval_nat_numeral)
  next
    case (Cons e es)
    then have e: "clean_path (fst e)" "hd (splitn 2 CHR '':'' (fst e)) \<notin> icon_tags" using assms(2) by (simp_all add: plain_roots_def)
    obtain rest where "fst (handle_connection senv r i (\<lambda>_. True) ((''RETRIEVE_FILE_STATUS:'' @ path) @ nl) s) = (''REGISTER_PATH:'' @ fst e @ nl) # rest"
      using first_message_greeting [OF Cons] by blast
    from daemon_pipe_request [OF this e(1) Inr] show ?thesis
      using e(2) by (simp add: eval_nat_numeral split: option.splits prod.splits)
  qed
  then show ?thesis using Inr by (auto simp: overlay_file_status_def split: prod.splits list.splits)
qed

lemma pipe_name_agrees:
  "pe_var penv ''USERNAME'' = Some u \<Longrightarrow>
     windows_pipe_name penv = [CHR 0x5C, CHR 0x5C, CHR ''.'', CHR 0x5C] @ ''pipe'' @ [CHR 0x5C] @ ''ownCloud-'' @ u"
  by (simp add: windows_pipe_name_def pipe_prefix_def var_or_def)

lemma documented_pipe_leaks:
  assumes "documented_pipes wp" "pe_var penv ''USERNAME'' \<noteq> None" "wp_create_error wp = None" "wp_connect_error wp = None"
  shows "(\<exists>e. fst (pipe_request (daemon_pipe wp penv senv r i s) cmd w) = Inl (Pipe_Connect e)) \<and>
    wn_open (snd (pipe_request (daemon_pipe wp penv senv r i s) cmd w)) = wn_next w # wn_open w"
proof -
  obtain u where u: "pe_var penv ''USERNAME'' = Some u" using assms(2) by auto
  obtain e where e: "wp_default wp = Pipe_Byte" "wp_set_message_mode wp Pipe_Byte = Some e" using assms(1) by (auto simp: documented_pipes_def)
  have "accept_inner wp = Inr Pipe_Byte" using assms(3,4) e(1) by (simp add: accept_inner_def windows_accept_def)
  then show ?thesis
    using u e pipe_name_agrees [OF u]
    by (simp add: pipe_request_def pipe_connect_def daemon_pipe_def create_file_def)
qed

section \<open>Properties\<close>

text \<open>
  C23: In the Explorer nothing is shown of a running daemon. Whatever the daemon knows of a file and whatever the calls of Windows give, the context menu of a file
  gets no entry, the menu of the Explorer stays as it is, no entry can be invoked, and no status icon is put on the file (roots with a drive letter
  do not look like a status). The client takes the first message of the connection for its answer, and that is the greeting; and if \<open>tokio\<close> and
  Windows behave as documented it does not get so far: the daemon's pipe is of type byte, so that it cannot be switched to the message mode
  of reading, and every request fails and leaves its handle open for good.
\<close>

theorem explorer_shows_nothing:
  assumes "clean_path path" "plain_roots r" "env = daemon_pipe wp penv senv r i s"
    and "cm_initialize env (Some (Inr (path # others))) cm w = (res, cm', w')"
  shows "res = Inr () \<and> cm_menu_items cm' = [] \<and>
    cm_query_context_menu popup_error append_ok insert_error pos first cm' hmenu = (Inr (), hmenu) \<and>
    fst (cm_invoke_command env (Some verb) cm' w') = Inl E_FAIL \<and>
    fst (is_member_of ov env (Some path) w) = Inl E_FAIL \<and>
    (documented_pipes wp \<and> pe_var penv ''USERNAME'' \<noteq> None \<and> wp_create_error wp = None \<and> wp_connect_error wp = None \<longrightarrow>
       (\<exists>e. fst (pipe_request env cmd w) = Inl (Pipe_Connect e)) \<and>
       wn_open (snd (pipe_request env cmd w)) = wn_next w # wn_open w \<and> wn_open w' = wn_next w # wn_open w)"
proof -
  obtain res1 w1 where req: "pipe_request env (''GET_MENU_ITEMS:'' @ path) w = (res1, w1)" by fastforce
  have "(case res1 of Inl _ \<Rightarrow> [] | Inr response \<Rightarrow> parse_menu_items response) = []"
    using menu_request_empty [OF assms(1,2), of wp penv senv i s w] req assms(3) by (auto split: sum.splits)
  then have cm': "res = Inr ()" "cm' = \<lparr>cm_selected_paths = path # others, cm_menu_items = []\<rparr>" "w' = w1"
    using assms(4) req by (auto simp: cm_initialize_def)
  have "overlay_tag ov \<noteq> ''NONE''" by (cases ov) simp_all
  then have "fst (is_member_of ov env (Some path) w) = Inl E_FAIL"
    using status_request_none [OF assms(1,2), of wp penv senv i s w] assms(3) by (auto simp: is_member_of_def split: prod.splits)
  moreover have "fst (cm_invoke_command env (Some verb) cm' w') = Inl E_FAIL" by (simp add: cm' cm_invoke_command_def)
  moreover have "documented_pipes wp \<and> pe_var penv ''USERNAME'' \<noteq> None \<and> wp_create_error wp = None \<and> wp_connect_error wp = None \<longrightarrow>
       (\<exists>e. fst (pipe_request env cmd w) = Inl (Pipe_Connect e)) \<and>
       wn_open (snd (pipe_request env cmd w)) = wn_next w # wn_open w \<and> wn_open w' = wn_next w # wn_open w"
    using documented_pipe_leaks [of wp penv senv r i s cmd w] documented_pipe_leaks [of wp penv senv r i s "''GET_MENU_ITEMS:'' @ path" w]
      assms(3) req cm'(3) by auto
  ultimately show ?thesis by (simp add: cm' cm_query_context_menu_def)
qed

text \<open>A daemon with a folder that holds the file, on a system that behaves as documented.\<close>

definition sample_windows :: windows_pipes where
  "sample_windows = \<lparr>wp_default = Pipe_Byte, wp_create_error = None, wp_connect_error = None, wp_open_error = ''not found'',
     wp_set_message_mode = (\<lambda>t. if t = Pipe_Byte then Some ''invalid parameter'' else None), wp_write_error = \<lambda>_. None,
     wp_last_error = [], wp_more_data = ''more data'', wp_no_data = ''no data''\<rparr>"

definition sample_user :: platform_env where
  "sample_user = \<lparr>pe_os = Windows, pe_config_dir = None, pe_data_local_dir = None, pe_var = [''USERNAME'' \<mapsto> ''u''], pe_temp_dir = []\<rparr>"

definition sample_explorer :: pipe_env where
  "sample_explorer = daemon_pipe sample_windows sample_user
     \<lparr>se_debug = id, se_json_id = \<lambda>_. None, se_json_icon = id, se_vfs = VfsOff :: unit vfs, se_order = []\<rparr> sample_resolver 3 ([], ())"

theorem explorer_shows_nothing_witness:
  "\<exists>cm w. cm_initialize sample_explorer (Some (Inr [''/home/u/oc/a:b''])) \<lparr>cm_selected_paths = [], cm_menu_items = []\<rparr> \<lparr>wn_open = [], wn_next = 0\<rparr> =
      (Inr (), cm, w) \<and> cm_menu_items cm = [] \<and> wn_open w = [0]"
proof -
  let ?w = "\<lparr>wn_open = [], wn_next = 0\<rparr>"
  obtain res cm w where i: "cm_initialize sample_explorer (Some (Inr [''/home/u/oc/a:b''])) \<lparr>cm_selected_paths = [], cm_menu_items = []\<rparr> ?w = (res, cm, w)"
    using prod_cases3 by blast
  have "hd (splitn 2 CHR '':'' ''/home/u/oc'') \<notin> icon_tags" by code_simp
  then have "plain_roots sample_resolver" using sample_clean(1) by (simp add: plain_roots_def sample_resolver_def del: splitn.simps)
  note t = explorer_shows_nothing [OF sample_clean(2) this sample_explorer_def i]
  have "documented_pipes sample_windows" "pe_var sample_user ''USERNAME'' \<noteq> None" "wp_create_error sample_windows = None" "wp_connect_error sample_windows = None"
    by (simp_all add: documented_pipes_def sample_windows_def sample_user_def)
  with t i show ?thesis by simp
qed

end
