(* ===== verification/VfsWin.thy ===== *)
theory VfsWin
  imports Vfs Win32
begin

text \<open>
  Virtual files on Windows (\<open>crates/vfs-windows/src\<close>): opening, hydrating, pinning and describing
  placeholders, the callback through which Windows asks for data, and the backend that registers a folder and implements the
  interface of \<open>Vfs\<close>. What Windows answers is an argument; what it is asked, and which resources are held, is state.
\<close>

unbundle bit_operations_syntax

section \<open>Errors and texts (\<open>error.rs\<close>, \<open>util.rs\<close>)\<close>

datatype VfsWindowsError =
  CfApi string | PathNotFound string | Win_NotSupported string | Win_Io string | StringConversion string | Win_Backend string

fun show_VfsWindowsError :: "VfsWindowsError \<Rightarrow> string" where
  "show_VfsWindowsError (CfApi e) = ''CfAPI error: '' @ e"
| "show_VfsWindowsError (PathNotFound p) = ''Path not found: '' @ p"
| "show_VfsWindowsError (Win_NotSupported e) = ''Operation not supported: '' @ e"
| "show_VfsWindowsError (Win_Io e) = ''I/O error: '' @ e"
| "show_VfsWindowsError (StringConversion e) = ''String conversion error: '' @ e"
| "show_VfsWindowsError (Win_Backend e) = ''VFS backend error: '' @ e"

fun vfs_error_of :: "VfsWindowsError \<Rightarrow> VfsError" where
  "vfs_error_of (PathNotFound path) = NotFound path"
| "vfs_error_of (Win_NotSupported _) = NotSupported"
| "vfs_error_of (Win_Io e) = Vfs_Io e"
| "vfs_error_of e = Backend (show_VfsWindowsError e)"

definition to_wide_null :: "string \<Rightarrow> u16 list" where
  "to_wide_null s = encode_utf16 s @ [0]"

text \<open>
  Paths on Windows are separated by either slash; these are the paths of items, which are relative to the root of the folder and
  have no drive. \<open>file_name\<close> and the pieces a path consists of:
\<close>

definition win_pieces :: "string \<Rightarrow> string list" where
  "win_pieces p = filter (\<lambda>x. x \<noteq> [] \<and> x \<noteq> ''.'') (split_on CHR ''/'' (map (\<lambda>c. if c = CHR 0x5C then CHR ''/'' else c) p))"

definition win_file_name :: "string \<Rightarrow> string option" where
  "win_file_name p = (case rev (win_pieces p) of [] \<Rightarrow> None | x # _ \<Rightarrow> if x = ''..'' then None else Some x)"

section \<open>What Windows answers and holds\<close>

record FsMetadata =
  fm_file_size :: i64
  fm_last_write :: i64
  fm_change :: i64
  fm_creation :: i64
  fm_last_access :: i64
  fm_attributes :: u32

record cf_env =
  cf_open :: "string \<Rightarrow> open_outcome"
  cf_hydrate :: "string \<Rightarrow> string option"
  cf_dehydrate :: "string \<Rightarrow> string option"
  cf_file_info :: "string \<Rightarrow> string + u32"
  cf_placeholder_state :: "u32 \<Rightarrow> u32"
  cf_set_pin :: "string \<Rightarrow> bool \<Rightarrow> string option"
  cf_create :: "string \<Rightarrow> string \<Rightarrow> string option"
  cf_update :: "string \<Rightarrow> string option"
  cf_register_root :: "string \<Rightarrow> string option"
  cf_unregister_root :: "string \<Rightarrow> string option"
  cf_connect :: "string \<Rightarrow> string + nat"
  cf_disconnect :: "nat \<Rightarrow> string option"
  cf_join_error :: "string option"

text \<open>
  Handles; the placeholders Windows was told to make (directory, name, metadata, identity) and to update; the registered folders, the connections, and
  the number of callback states on the heap.
\<close>

record cf_world =
  cw_win :: win
  cw_created :: "(string \<times> string \<times> FsMetadata \<times> string) list"
  cw_updated :: "(string \<times> FsMetadata \<times> string) list"
  cw_roots :: "string list"
  cw_keys :: "nat list"
  cw_boxes :: nat

section \<open>Hydration and status (\<open>hydration.rs\<close>, \<open>pin.rs\<close>)\<close>

text \<open>\<open>open_for_cf\<close>, and the opening in \<open>set_pinned\<close> and \<open>update_placeholder\<close>, which is the same.\<close>

definition open_for_cf :: "cf_env \<Rightarrow> string \<Rightarrow> win \<Rightarrow> (VfsWindowsError + nat) \<times> win" where
  "open_for_cf env path w =
     (case create_file (cf_open env path) w of
        (Inl e, w) \<Rightarrow> (Inl (CfApi e), w)
      | (Inr None, w) \<Rightarrow> (Inl (PathNotFound path), w)
      | (Inr (Some h), w) \<Rightarrow> (Inr h, w))"

text \<open>Open, call, close, and only then look at the result of the call.\<close>

definition with_file :: "cf_env \<Rightarrow> string \<Rightarrow> (string + 'a) \<Rightarrow> win \<Rightarrow> (VfsWindowsError + 'a) \<times> win" where
  "with_file env path result w =
     (case open_for_cf env path w of
        (Inl e, w) \<Rightarrow> (Inl e, w)
      | (Inr h, w) \<Rightarrow> (map_sum CfApi id result, close_handle h w))"

definition unless_error :: "string option \<Rightarrow> string + unit" where
  "unless_error e = (case e of Some e \<Rightarrow> Inl e | None \<Rightarrow> Inr ())"

definition win_hydrate :: "cf_env \<Rightarrow> string \<Rightarrow> win \<Rightarrow> (VfsWindowsError + unit) \<times> win" where
  "win_hydrate env path w = with_file env path (unless_error (cf_hydrate env path)) w"

definition win_dehydrate :: "cf_env \<Rightarrow> string \<Rightarrow> win \<Rightarrow> (VfsWindowsError + unit) \<times> win" where
  "win_dehydrate env path w = with_file env path (unless_error (cf_dehydrate env path)) w"

definition has_recall :: "u32 \<Rightarrow> bool" where
  "has_recall attributes \<longleftrightarrow> attributes AND 0x00400000 \<noteq> 0"

definition win_is_virtual :: "cf_env \<Rightarrow> string \<Rightarrow> win \<Rightarrow> (VfsWindowsError + bool) \<times> win" where
  "win_is_virtual env path w = apfst (map_sum id has_recall) (with_file env path (cf_file_info env path) w)"

text \<open>\<open>CF_PLACEHOLDER_STATE_NO_STATES\<close>, \<open>PARTIAL\<close> and \<open>IN_SYNC\<close> are \<open>0\<close>, \<open>0x10\<close> and \<open>8\<close>.\<close>

definition status_of :: "u32 \<Rightarrow> bool \<Rightarrow> VfsStatus" where
  "status_of placeholder_state recall =
     (if placeholder_state = 0 then Full
      else if placeholder_state = 0x10 \<or> recall then Placeholder
      else if placeholder_state = 8 \<and> \<not> recall then Full
      else Vfs_Syncing)"

definition win_status :: "cf_env \<Rightarrow> string \<Rightarrow> win \<Rightarrow> (VfsWindowsError + VfsStatus) \<times> win" where
  "win_status env path w =
     (case open_for_cf env path w of
        (Inl e, w) \<Rightarrow> (Inl e, w)
      | (Inr h, w) \<Rightarrow>
          (case cf_file_info env path of
             Inl e \<Rightarrow> (Inl (CfApi e), close_handle h w)
           | Inr attributes \<Rightarrow> (Inr (status_of (cf_placeholder_state env attributes) (has_recall attributes)), close_handle h w)))"

definition win_set_pinned :: "cf_env \<Rightarrow> string \<Rightarrow> bool \<Rightarrow> win \<Rightarrow> (VfsWindowsError + unit) \<times> win" where
  "win_set_pinned env path pinned w = with_file env path (unless_error (cf_set_pin env path pinned)) w"

section \<open>Placeholders (\<open>placeholder.rs\<close>)\<close>

text \<open>
  A time as the duration since 1970, in seconds and nanoseconds; times before 1970 count as 1970. The arithmetic is that of a
  release build, which wraps around.
\<close>

definition since_unix :: "system_time \<Rightarrow> u64 \<times> u32" where
  "since_unix t = (let n = max 0 t in (of_int (n div 1000000000), of_int (n mod 1000000000)))"

definition system_time_to_filetime :: "system_time \<Rightarrow> u32 \<times> u32" where
  "system_time_to_filetime t =
     (let (secs, nanos) = since_unix t;
          intervals = (116444736000000000 + secs * 10000000 + ucast nanos div 100 :: u64)
      in (ucast (intervals AND 0xFFFFFFFF), ucast (drop_bit 32 intervals)))"

definition last_write_large :: "system_time \<Rightarrow> i64" where
  "last_write_large t = (let (low, high) = system_time_to_filetime t in push_bit 32 (ucast high) OR ucast low)"

definition fs_metadata_of :: "VfsFileItem \<Rightarrow> FsMetadata" where
  "fs_metadata_of item =
     (let t = last_write_large (vi_last_modified item)
      in \<lparr>fm_file_size = vi_size item, fm_last_write = t, fm_change = t, fm_creation = t, fm_last_access = t, fm_attributes = 0\<rparr>)"

definition win_create_placeholder :: "cf_env \<Rightarrow> string \<Rightarrow> VfsFileItem \<Rightarrow> cf_world \<Rightarrow> (VfsWindowsError + unit) \<times> cf_world" where
  "win_create_placeholder env root item w =
     (case win_file_name (vi_path item) of
        None \<Rightarrow> (Inl (StringConversion (''path has no filename: '' @ vi_path item)), w)
      | Some filename \<Rightarrow>
          (case cf_create env root filename of
             Some e \<Rightarrow> (Inl (CfApi e), w)
           | None \<Rightarrow> (Inr (), w\<lparr>cw_created := cw_created w @ [(root, filename, fs_metadata_of item, vi_file_id item)]\<rparr>)))"

definition win_update_placeholder :: "cf_env \<Rightarrow> string \<Rightarrow> VfsFileItem \<Rightarrow> cf_world \<Rightarrow> (VfsWindowsError + unit) \<times> cf_world" where
  "win_update_placeholder env path item w =
     (case with_file env path (unless_error (cf_update env path)) (cw_win w) of
        (Inl e, wn) \<Rightarrow> (Inl e, w\<lparr>cw_win := wn\<rparr>)
      | (Inr _, wn) \<Rightarrow> (Inr (), w\<lparr>cw_win := wn, cw_updated := cw_updated w @ [(path, fs_metadata_of item, vi_file_id item)]\<rparr>))"

section \<open>Requests for data (\<open>callback.rs\<close>)\<close>

record HydrationRequest =
  hr_path :: string
  hr_offset :: u64
  hr_length :: u64
  hr_keys :: "nat \<times> i64 \<times> i64"

definition HYDRATION_CHANNEL_CAPACITY :: nat where
  "HYDRATION_CHANNEL_CAPACITY = 64"

text \<open>The callback with a path (\<open>None\<close>: null), the wanted range and the keys of the transfer: \<open>try_send\<close> on a bounded channel.\<close>

definition fetch_data_callback :: "string option \<Rightarrow> i64 \<Rightarrow> i64 \<Rightarrow> nat \<times> i64 \<times> i64 \<Rightarrow> HydrationRequest list \<Rightarrow> HydrationRequest list" where
  "fetch_data_callback path required_offset required_length keys queue =
     (case path of
        None \<Rightarrow> queue
      | Some p \<Rightarrow>
          if length queue < HYDRATION_CHANNEL_CAPACITY
          then queue @ [\<lparr>hr_path = p, hr_offset = required_offset, hr_length = required_length, hr_keys = keys\<rparr>]
          else queue)"

definition register_hydration_callback :: "cf_env \<Rightarrow> string \<Rightarrow> cf_world \<Rightarrow> (VfsWindowsError + nat) \<times> cf_world" where
  "register_hydration_callback env root w =
     (let w = w\<lparr>cw_boxes := Suc (cw_boxes w)\<rparr> in
      case cf_connect env root of
        Inl e \<Rightarrow> (Inl (CfApi e), w\<lparr>cw_boxes := cw_boxes w - 1\<rparr>)
      | Inr key \<Rightarrow> (Inr key, w\<lparr>cw_keys := key # cw_keys w\<rparr>))"

definition unregister_hydration_callback :: "cf_env \<Rightarrow> nat \<Rightarrow> cf_world \<Rightarrow> (VfsWindowsError + unit) \<times> cf_world" where
  "unregister_hydration_callback env key w =
     (case cf_disconnect env key of
        Some e \<Rightarrow> (Inl (CfApi e), w)
      | None \<Rightarrow> (Inr (), w\<lparr>cw_keys := remove1 key (cw_keys w)\<rparr>))"

section \<open>Registration and backend (\<open>registration.rs\<close>, \<open>vfs_impl.rs\<close>)\<close>

definition register_sync_root :: "cf_env \<Rightarrow> string \<Rightarrow> cf_world \<Rightarrow> (VfsWindowsError + unit) \<times> cf_world" where
  "register_sync_root env path w =
     (case cf_register_root env path of
        Some e \<Rightarrow> (Inl (CfApi e), w)
      | None \<Rightarrow> (Inr (), w\<lparr>cw_roots := path # cw_roots w\<rparr>))"

definition unregister_sync_root :: "cf_env \<Rightarrow> string \<Rightarrow> cf_world \<Rightarrow> (VfsWindowsError + unit) \<times> cf_world" where
  "unregister_sync_root env path w =
     (case cf_unregister_root env path of
        Some e \<Rightarrow> (Inl (CfApi e), w)
      | None \<Rightarrow> (Inr (), w\<lparr>cw_roots := remove1 path (cw_roots w)\<rparr>))"

record VfsWindows =
  vw_root :: string
  vw_callback_key :: nat
  vw_hydration_rx :: "HydrationRequest list"

definition new_VfsWindows :: "cf_env \<Rightarrow> string \<Rightarrow> cf_world \<Rightarrow> (VfsError + VfsWindows) \<times> cf_world" where
  "new_VfsWindows env root w =
     (case register_sync_root env root w of
        (Inl e, w) \<Rightarrow> (Inl (vfs_error_of e), w)
      | (Inr _, w) \<Rightarrow>
          (case register_hydration_callback env root w of
             (Inl e, w) \<Rightarrow> (Inl (vfs_error_of e), w)
           | (Inr key, w) \<Rightarrow> (Inr \<lparr>vw_root = root, vw_callback_key = key, vw_hydration_rx = []\<rparr>, w)))"

text \<open>Both errors are only printed.\<close>

definition drop_VfsWindows :: "cf_env \<Rightarrow> VfsWindows \<Rightarrow> cf_world \<Rightarrow> cf_world" where
  "drop_VfsWindows env v w = snd (unregister_sync_root env (vw_root v) (snd (unregister_hydration_callback env (vw_callback_key v) w)))"

text \<open>\<open>spawn_blocking\<close>: the task may be cancelled before it runs.\<close>

definition blocking :: "cf_env \<Rightarrow> (cf_world \<Rightarrow> (VfsWindowsError + 'a) \<times> cf_world) \<Rightarrow> cf_world \<Rightarrow> (VfsError + 'a) \<times> cf_world" where
  "blocking env f w =
     (case cf_join_error env of
        Some e \<Rightarrow> (Inl (Backend e), w)
      | None \<Rightarrow> apfst (map_sum vfs_error_of id) (f w))"

definition on_win :: "(win \<Rightarrow> 'a \<times> win) \<Rightarrow> cf_world \<Rightarrow> 'a \<times> cf_world" where
  "on_win f w = (case f (cw_win w) of (r, wn) \<Rightarrow> (r, w\<lparr>cw_win := wn\<rparr>))"

definition VfsWindows_vfs :: "cf_env \<Rightarrow> VfsWindows \<Rightarrow> cf_world vfs" where
  "VfsWindows_vfs env v =
     \<lparr>create_placeholder = \<lambda>item. blocking env (win_create_placeholder env (vw_root v) item),
      update_placeholder = \<lambda>item. blocking env (win_update_placeholder env (win_join (vw_root v) (vi_path item)) item),
      hydrate = \<lambda>path. blocking env (on_win (win_hydrate env path)),
      dehydrate = \<lambda>path. blocking env (on_win (win_dehydrate env path)),
      is_virtual = \<lambda>path. blocking env (on_win (win_is_virtual env path)),
      vfs_status = \<lambda>path. blocking env (on_win (win_status env path)),
      set_pinned = \<lambda>path pinned. blocking env (on_win (win_set_pinned env path pinned))\<rparr>"

section \<open>Lemmas\<close>

subsection \<open>Resources\<close>

definition held :: "cf_world \<Rightarrow> string list \<times> nat list \<times> nat" where
  "held w = (cw_roots w, cw_keys w, cw_boxes w)"

lemma open_for_cf_cases:
  obtains e where "open_for_cf env path w = (Inl e, w)"
  | "open_for_cf env path w = (Inr (wn_next w), w\<lparr>wn_open := wn_next w # wn_open w, wn_next := Suc (wn_next w)\<rparr>)"
  by (cases "cf_open env path") (auto simp: open_for_cf_def create_file_def)

lemma with_file_neutral [simp]: "wn_open (snd (with_file env path result w)) = wn_open w"
  by (rule open_for_cf_cases [of env path w]) (simp_all add: with_file_def close_handle_def)

lemma with_file_neutral_dest: "with_file env path result w = (r, w') \<Longrightarrow> wn_open w' = wn_open w"
  using with_file_neutral [of env path result w] by simp

lemma win_status_neutral [simp]: "wn_open (snd (win_status env path w)) = wn_open w"
  by (rule open_for_cf_cases [of env path w]) (simp_all add: win_status_def close_handle_def split: sum.split)

lemma blocking_snd: "snd (blocking env f w) = (if cf_join_error env = None then snd (f w) else w)"
  by (simp add: blocking_def split: option.split)

lemma on_win_snd [simp]: "cw_win (snd (on_win f w)) = snd (f (cw_win w))" "held (snd (on_win f w)) = held w"
  by (simp_all add: on_win_def held_def split: prod.split)

lemmas win_op_defs = win_hydrate_def win_dehydrate_def win_is_virtual_def win_set_pinned_def

lemma vfs_exec_neutral: "wn_open (cw_win (vfs_exec (VfsWindows_vfs env v) c w)) = wn_open (cw_win w) \<and> held (vfs_exec (VfsWindows_vfs env v) c w) = held w"
proof (cases c)
  case (Call_Create item)
  then show ?thesis by (simp add: VfsWindows_vfs_def blocking_snd win_create_placeholder_def held_def split: option.split)
next
  case (Call_Update item)
  then show ?thesis
    by (auto simp: VfsWindows_vfs_def blocking_snd win_update_placeholder_def held_def split: prod.split sum.split dest: with_file_neutral_dest)
qed (simp_all add: VfsWindows_vfs_def blocking_snd win_op_defs)

interpretation win_vfs: handle_neutral "\<lambda>w. wn_open (cw_win w)" "\<lambda>(env, c). vfs_exec (VfsWindows_vfs env v) c" for v
  by unfold_locales (simp add: vfs_exec_neutral split: prod.split)

lemma held_calls: "held (fold (\<lambda>(env, c). vfs_exec (VfsWindows_vfs env v) c) calls w) = held w"
  by (induction calls arbitrary: w) (simp_all add: vfs_exec_neutral split: prod.split)

text \<open>If the connection fails, the folder stays registered.\<close>

lemma failed_connect_leaves_root:
  "cf_register_root env root = None \<Longrightarrow> cf_connect env root = Inl e \<Longrightarrow>
     new_VfsWindows env root w = (Inl (Backend (''CfAPI error: '' @ e)), w\<lparr>cw_roots := root # cw_roots w\<rparr>)"
  by (simp add: new_VfsWindows_def register_sync_root_def register_hydration_callback_def Let_def)

lemma fetch_bounded: "length queue \<le> HYDRATION_CHANNEL_CAPACITY \<Longrightarrow>
    length (fetch_data_callback p off len keys queue) \<le> HYDRATION_CHANNEL_CAPACITY"
  by (simp add: fetch_data_callback_def split: option.split)

subsection \<open>Status\<close>

text \<open>
  The states of a placeholder are sets of bits, but they are compared as a whole: a state with more than one bit, such as a placeholder (1) that
  is in sync (8), is reported as syncing.
\<close>

lemma status_of_combined: "s \<notin> {0, 8, 0x10} \<Longrightarrow> status_of s False = Vfs_Syncing"
  by (simp add: status_of_def)

lemma virtual_is_placeholder: "s \<noteq> 0 \<Longrightarrow> has_recall a \<Longrightarrow> status_of s (has_recall a) = Placeholder"
  by (simp add: status_of_def)

subsection \<open>Times\<close>

lemma interval_split: "push_bit 32 (ucast (ucast (drop_bit 32 x) :: u32)) OR ucast (ucast (x AND 0xFFFFFFFF) :: u32) = x" for x :: u64
proof -
  have "(0xFFFFFFFF :: u64) = mask 32" by (simp add: mask_eq_exp_minus_1)
  then have "x AND 0xFFFFFFFF = take_bit 32 x" by (simp only: take_bit_eq_mask)
  then show ?thesis by (simp only:) (rule bit_word_eqI, auto simp: bit_simps)
qed

lemma div_seconds: "n div 1000000000 * 10000000 + n mod 1000000000 div 100 = n div 100" for n :: int
proof -
  have "n = n div 1000000000 * 1000000000 + n mod 1000000000" by simp
  then have "n div 100 = (n mod 1000000000 + (n div 1000000000 * 10000000) * 100) div 100" by simp
  then show ?thesis by (simp only: div_mult_self1)
qed

lemma last_write_intervals:
  "last_write_large t = 116444736000000000 + of_int (max 0 t div 1000000000) * 10000000 + ucast (of_int (max 0 t mod 1000000000) :: u32) div 100"
  by (simp add: last_write_large_def system_time_to_filetime_def since_unix_def Let_def interval_split)

lemma sint_of_int64: "- (2 ^ 63) \<le> n \<Longrightarrow> n < 2 ^ 63 \<Longrightarrow> sint (of_int n :: 64 word) = n"
  by (simp add: signed_of_int signed_take_bit_int_eq_self)

lemma last_write_exact:
  assumes "max 0 t div 100 < 9106927300854775808"
  shows "sint (last_write_large t) = 116444736000000000 + max 0 t div 100"
proof -
  let ?n = "max 0 t"
  have r: "0 \<le> ?n mod 1000000000" "?n mod 1000000000 < 1000000000" by simp_all
  have "uint (of_int (?n mod 1000000000) :: u32) = ?n mod 1000000000" using r by (simp add: uint_word_of_int)
  then have "(ucast (of_int (?n mod 1000000000) :: u32) :: u64) = of_int (?n mod 1000000000)" by (simp only: ucast_eq)
  moreover have "(of_int (?n mod 1000000000) :: u64) div 100 = of_int (?n mod 1000000000 div 100)"
    using r by (simp add: word_div_def uint_word_of_int)
  ultimately have "last_write_large t = of_int (116444736000000000 + (?n div 1000000000 * 10000000 + ?n mod 1000000000 div 100))"
    unfolding last_write_intervals by simp
  also have "\<dots> = of_int (116444736000000000 + ?n div 100)" by (simp only: div_seconds)
  finally have "sint (last_write_large t) = sint (of_int (116444736000000000 + ?n div 100) :: 64 word)" by (rule arg_cong)
  moreover have "0 \<le> ?n div 100" by (simp add: pos_imp_zdiv_nonneg_iff)
  ultimately show ?thesis using assms sint_of_int64 [of "116444736000000000 + ?n div 100"] by simp
qed

subsection \<open>Paths\<close>

lemma win_pieces_join: "win_pieces (win_join root p) = win_pieces root @ win_pieces p"
proof -
  let ?m = "map (\<lambda>c. if c = CHR 0x5C then CHR ''/'' else c)"
  have sep: "win_pieces (a @ c # b) = win_pieces a @ win_pieces b" if "c \<in> {CHR ''/'', CHR 0x5C}" for a b c
    using that split_on_append [of "CHR ''/''" "?m a" "?m b"] by (auto simp: win_pieces_def)
  show ?thesis
  proof (cases root rule: rev_cases)
    case (snoc r c)
    have "win_pieces [] = []" by (simp add: win_pieces_def)
    then show ?thesis using sep [of c r p] sep [of c r "[]"] sep [of "CHR 0x5C" root p] snoc by (auto simp: win_join_def)
  qed (simp add: win_join_def win_pieces_def)
qed

lemma set_split_on: "x \<in> set (split_on c s) \<Longrightarrow> set x \<subseteq> set s"
proof (induction s arbitrary: x)
  case (Cons a s)
  then show ?case by (cases "split_on c s") (fastforce split: if_splits)+
qed simp

lemma win_pieces_piece:
  assumes "x \<in> set (win_pieces p)" shows "win_pieces x = [x]"
proof -
  let ?m = "map (\<lambda>c. if c = CHR 0x5C then CHR ''/'' else c)"
  have x: "x \<in> set (split_on CHR ''/'' (?m p))" "x \<noteq> []" "x \<noteq> ''.''" using assms by (auto simp: win_pieces_def)
  then have "CHR ''/'' \<notin> set x" using split_on_parts_absent by fast
  moreover have "CHR 0x5C \<notin> set x" using set_split_on [OF x(1)] by auto
  then have "?m x = x" by (induction x) auto
  ultimately show ?thesis using x(2,3) by (simp add: win_pieces_def split_on_absent)
qed

section \<open>Properties\<close>

text \<open>
  C31: The backend gives back what it takes. From the registration of a folder over any sequence of calls
  of the interface, each with whatever Windows answers, to the end of the backend (if Windows then lets go), no handle, no registration and no connection is left over,
  and during the calls none is held but those of the backend itself. Only the state of the callback stays on the heap: nothing frees it.
\<close>

theorem backend_gives_back:
  assumes "new_VfsWindows env root w = (Inr v, w1)" "cf_disconnect env' (vw_callback_key v) = None" "cf_unregister_root env' root = None"
  shows "let w2 = fold (\<lambda>(env, c). vfs_exec (VfsWindows_vfs env v) c) calls w1; w3 = drop_VfsWindows env' v w2 in
    wn_open (cw_win w2) = wn_open (cw_win w) \<and> held w2 = held w1 \<and>
    wn_open (cw_win w3) = wn_open (cw_win w) \<and> held w3 = (cw_roots w, cw_keys w, Suc (cw_boxes w))"
proof -
  let ?w2 = "fold (\<lambda>(env, c). vfs_exec (VfsWindows_vfs env v) c) calls w1"
  obtain key where v: "v = \<lparr>vw_root = root, vw_callback_key = key, vw_hydration_rx = []\<rparr>"
      and w1: "held w1 = (root # cw_roots w, key # cw_keys w, Suc (cw_boxes w))" "cw_win w1 = cw_win w"
    using assms(1) by (auto simp: new_VfsWindows_def register_sync_root_def register_hydration_callback_def held_def Let_def
        split: option.splits sum.splits prod.splits)
  have w2: "wn_open (cw_win ?w2) = wn_open (cw_win w)" "held ?w2 = held w1"
    using win_vfs.run_neutral [of v calls w1] held_calls [of v calls w1] w1(2) by simp_all
  moreover have "held (drop_VfsWindows env' v ?w2) = (cw_roots w, cw_keys w, Suc (cw_boxes w))"
      "cw_win (drop_VfsWindows env' v ?w2) = cw_win ?w2"
    using assms(2,3) w2(2) w1(1) v by (simp_all add: drop_VfsWindows_def unregister_sync_root_def unregister_hydration_callback_def held_def)
  ultimately show ?thesis by simp
qed

definition sample_cf :: cf_env where
  "sample_cf = \<lparr>cf_open = \<lambda>p. if p = ''gone'' then Open_Invalid else Open_Ok, cf_hydrate = \<lambda>_. None, cf_dehydrate = \<lambda>_. Some ''busy'',
     cf_file_info = \<lambda>_. Inr 0x00400020, cf_placeholder_state = \<lambda>_. 9, cf_set_pin = \<lambda>_ _. None, cf_create = \<lambda>_ _. None, cf_update = \<lambda>_. None,
     cf_register_root = \<lambda>_. None, cf_unregister_root = \<lambda>_. None, cf_connect = \<lambda>_. Inr 5, cf_disconnect = \<lambda>_. None, cf_join_error = None\<rparr>"

definition sample_cf_world :: cf_world where
  "sample_cf_world = \<lparr>cw_win = \<lparr>wn_open = [3], wn_next = 7\<rparr>, cw_created = [], cw_updated = [], cw_roots = [], cw_keys = [], cw_boxes = 0\<rparr>"

theorem backend_gives_back_witness:
  "let (r, w1) = new_VfsWindows sample_cf ''root'' sample_cf_world;
       v = \<lparr>vw_root = ''root'', vw_callback_key = 5, vw_hydration_rx = []\<rparr>;
       w2 = fold (\<lambda>(env, c). vfs_exec (VfsWindows_vfs env v) c) [(sample_cf, Call_Hydrate ''a''), (sample_cf, Call_Dehydrate ''a''), (sample_cf, Call_Status ''gone'')] w1
   in r = Inr v \<and> wn_open (cw_win w2) = [3] \<and> held (drop_VfsWindows sample_cf v w2) = ([], [], 1)"
proof -
  let ?v = "\<lparr>vw_root = ''root'', vw_callback_key = 5, vw_hydration_rx = []\<rparr>"
  let ?n = "new_VfsWindows sample_cf ''root'' sample_cf_world"
  have n: "?n = (Inr ?v, snd ?n)"
    by (simp add: new_VfsWindows_def register_sync_root_def register_hydration_callback_def sample_cf_def Let_def)
  have "cf_disconnect sample_cf (vw_callback_key ?v) = None" "cf_unregister_root sample_cf ''root'' = None" by (simp_all add: sample_cf_def)
  from backend_gives_back [OF n this, of "[(sample_cf, Call_Hydrate ''a''), (sample_cf, Call_Dehydrate ''a''), (sample_cf, Call_Status ''gone'')]"]
  show ?thesis by (subst n) (simp add: Let_def sample_cf_world_def)
qed

text \<open>
  C35: What a placeholder is stamped with. The time Windows gets for an item, put together from the two halves of
  a \<open>FILETIME\<close>, is the time of the item in units of 100 nanoseconds since 1601, rounded down, without overflow for every time up to the year 30828; times
  before 1970 become 1970. It is the same for all four times of creation and of update, next to the size and no attributes.
\<close>

theorem placeholder_stamp:
  assumes "max 0 (vi_last_modified item) div 100 < 9106927300854775808"
  shows "let m = fs_metadata_of item; t = 116444736000000000 + max 0 (vi_last_modified item) div 100 in
    map sint [fm_last_write m, fm_change m, fm_creation m, fm_last_access m] = [t, t, t, t] \<and>
    fm_file_size m = vi_size item \<and> fm_attributes m = 0"
  using last_write_exact [OF assms] by (simp add: fs_metadata_of_def Let_def)

theorem placeholder_stamp_witness:
  "sint (fm_change (fs_metadata_of \<lparr>vi_path = ''a'', vi_size = 3, vi_etag = [], vi_file_id = [], vi_last_modified = 1700000000123456789\<rparr>)) = 133444736001234567"
  using placeholder_stamp [of "\<lparr>vi_path = ''a'', vi_size = 3, vi_etag = [], vi_file_id = [], vi_last_modified = 1700000000123456789\<rparr>"]
  by (simp add: Let_def)

text \<open>
  A placeholder for an item in a subdirectory is made in the root of the folder: the place it is made at is the place it is later updated at
  exactly if the path of the item has a single piece.
\<close>

theorem nested_placeholder_misplaced:
  assumes "win_file_name (vi_path item) = Some n"
    and "win_create_placeholder env root item w = (Inr (), w')"
  shows "cw_created w' = cw_created w @ [(root, n, fs_metadata_of item, vi_file_id item)] \<and>
    (win_pieces (win_join root n) = win_pieces (win_join root (vi_path item)) \<longleftrightarrow> length (win_pieces (vi_path item)) = 1)"
proof -
  obtain xs where "rev (win_pieces (vi_path item)) = n # xs"
    using assms(1) by (auto simp: win_file_name_def split: list.splits if_splits)
  then have p: "win_pieces (vi_path item) = rev xs @ [n]" by (simp add: rev_swap)
  then have "win_pieces n = [n]" using win_pieces_piece [of n "vi_path item"] by simp
  then show ?thesis using assms p by (auto simp: win_create_placeholder_def win_pieces_join split: option.splits)
qed

end
