(* ===== verification/VfsMac.thy ===== *)
theory VfsMac
  imports Vfs
begin

text \<open>
  Virtual files on macOS (\<open>crates/vfs-macos/src\<close>): the messages to the file provider (\<open>messages.rs\<close>),
  sending one of them over XPC (\<open>xpc.rs\<close>) and the backend (\<open>vfs_impl.rs\<close>). JSON and what XPC returns are arguments; the references
  to XPC objects that the process owns are state.
\<close>

section \<open>Messages and errors (\<open>messages.rs\<close>, \<open>error.rs\<close>)\<close>

datatype XpcCommand =
    CreatePlaceholder string string u64 i64
  | UpdatePlaceholder string string u64 i64
  | Hydrate string
  | Dehydrate string
  | IsVirtual string
  | Status string
  | SetPinned string bool

record XpcReply =
  xr_ok :: bool
  xr_error :: "string option"
  xr_bool_value :: "bool option"
  xr_status :: "string option"

datatype VfsMacOsError = Xpc string | Mac_Protocol string

fun show_VfsMacOsError :: "VfsMacOsError \<Rightarrow> string" where
  "show_VfsMacOsError (Xpc e) = ''XPC error: '' @ e"
| "show_VfsMacOsError (Mac_Protocol e) = ''Protocol error: '' @ e"

definition vfs_error_of_mac :: "VfsMacOsError \<Rightarrow> VfsError" where
  "vfs_error_of_mac e = Backend (show_VfsMacOsError e)"

section \<open>XPC (\<open>xpc.rs\<close>)\<close>

text \<open>
  The objects the process owns a reference to, by number. \<open>Reply_Data\<close> is a reply with bytes under the key \<open>reply\<close>;
  without the key, or without bytes, it is \<open>Reply_No_Key\<close> or \<open>Reply_No_Bytes\<close>.
\<close>

record xpc_heap =
  xh_owned :: "nat list"
  xh_next :: nat

datatype xpc_answer = Reply_Null | Reply_No_Key | Reply_No_Bytes | Reply_Data string

record xpc_env =
  xe_poisoned :: bool
  xe_connects :: bool
  xe_data_ok :: bool
  xe_dict_ok :: bool
  xe_to_json :: "XpcCommand \<Rightarrow> string + string"
  xe_from_json :: "string \<Rightarrow> string + XpcReply"
  xe_answer :: "string \<Rightarrow> xpc_answer"

definition xpc_new :: "xpc_heap \<Rightarrow> nat \<times> xpc_heap" where
  "xpc_new h = (xh_next h, h\<lparr>xh_owned := xh_next h # xh_owned h, xh_next := Suc (xh_next h)\<rparr>)"

definition xpc_release :: "nat \<Rightarrow> xpc_heap \<Rightarrow> xpc_heap" where
  "xpc_release x h = h\<lparr>xh_owned := remove1 x (xh_owned h)\<rparr>"

definition xpc_connect :: "xpc_env \<Rightarrow> string \<Rightarrow> xpc_heap \<Rightarrow> (VfsMacOsError + nat) \<times> xpc_heap" where
  "xpc_connect env service h =
     (if CHR 0x00 \<in> set service then (Inl (Xpc (''invalid service name: nul byte found in provided data at position: '' @
        show_nat (length (takeWhile (\<lambda>c. c \<noteq> CHR 0x00) service)))), h)
      else if xe_connects env then apfst Inr (xpc_new h)
      else (Inl (Xpc (''xpc_connection_create_mach_service returned NULL for service '' @ [CHR 0x27] @ service @ [CHR 0x27])), h))"

text \<open>What is left to do once the reply is there.\<close>

definition xpc_read_reply :: "xpc_env \<Rightarrow> nat \<Rightarrow> xpc_answer \<Rightarrow> xpc_heap \<Rightarrow> (VfsMacOsError + XpcReply) \<times> xpc_heap" where
  "xpc_read_reply env reply_obj answer h =
     (case answer of
        Reply_Data bytes \<Rightarrow>
          (case xe_from_json env bytes of
             Inl e \<Rightarrow> (Inl (Mac_Protocol (''deserialize reply: '' @ e)), h)
           | Inr parsed \<Rightarrow> (Inr parsed, xpc_release reply_obj h))
      | Reply_No_Key \<Rightarrow> (Inl (Mac_Protocol (''reply dictionary missing '' @ [CHR 0x27] @ ''reply'' @ [CHR 0x27] @ '' key'')), xpc_release reply_obj h)
      | Reply_No_Bytes \<Rightarrow> (Inl (Mac_Protocol ''reply data bytes pointer is NULL''), xpc_release reply_obj h)
      | Reply_Null \<Rightarrow> (Inl (Xpc ''xpc_connection_send_message_with_reply_sync returned NULL''), h))"

definition xpc_send_command :: "xpc_env \<Rightarrow> XpcCommand \<Rightarrow> xpc_heap \<Rightarrow> (VfsMacOsError + XpcReply) \<times> xpc_heap" where
  "xpc_send_command env cmd h =
     (case xe_to_json env cmd of
        Inl e \<Rightarrow> (Inl (Mac_Protocol (''serialize command: '' @ e)), h)
      | Inr json_bytes \<Rightarrow>
          if \<not> xe_data_ok env then (Inl (Xpc ''xpc_data_create returned NULL''), h)
          else (case xpc_new h of (data_obj, h) \<Rightarrow>
            if \<not> xe_dict_ok env then (Inl (Xpc ''xpc_dictionary_create returned NULL''), xpc_release data_obj h)
            else (case xpc_new h of (msg_dict, h) \<Rightarrow>
              let h = xpc_release data_obj h;
                  answer = xe_answer env json_bytes
              in if answer = Reply_Null then xpc_read_reply env 0 answer (xpc_release msg_dict h)
                 else (case xpc_new h of (reply_obj, h) \<Rightarrow> xpc_read_reply env reply_obj answer (xpc_release msg_dict h)))))"

section \<open>The backend (\<open>vfs_impl.rs\<close>)\<close>

definition XPC_SERVICE :: string where
  "XPC_SERVICE = ''org.owncloud.owncloud-sync.fileprovider-xpc''"

record VfsMacOs =
  vm_conn :: nat
  vm_root :: string

definition new_VfsMacOs :: "xpc_env \<Rightarrow> string \<Rightarrow> xpc_heap \<Rightarrow> (VfsMacOsError + VfsMacOs) \<times> xpc_heap" where
  "new_VfsMacOs env root h = apfst (map_sum id (\<lambda>conn. \<lparr>vm_conn = conn, vm_root = root\<rparr>)) (xpc_connect env XPC_SERVICE h)"

definition drop_VfsMacOs :: "VfsMacOs \<Rightarrow> xpc_heap \<Rightarrow> xpc_heap" where
  "drop_VfsMacOs v h = xpc_release (vm_conn v) h"

definition send_cmd :: "xpc_env \<Rightarrow> XpcCommand \<Rightarrow> xpc_heap \<Rightarrow> (VfsMacOsError + XpcReply) \<times> xpc_heap" where
  "send_cmd env cmd h = (if xe_poisoned env then (Inl (Xpc ''connection mutex poisoned''), h) else xpc_send_command env cmd h)"

definition mac_rel_path :: "VfsMacOs \<Rightarrow> string \<Rightarrow> string" where
  "mac_rel_path v abs_path = (case strip_prefix_path (vm_root v) abs_path of Some r \<Rightarrow> r | None \<Rightarrow> abs_path)"

definition reply_error :: "XpcReply \<Rightarrow> VfsMacOsError" where
  "reply_error reply = Mac_Protocol (case xr_error reply of Some e \<Rightarrow> e | None \<Rightarrow> ''unknown error'')"

definition expect_ok :: "XpcReply \<Rightarrow> VfsMacOsError + unit" where
  "expect_ok reply = (if xr_ok reply then Inr () else Inl (reply_error reply))"

definition system_time_to_unix :: "system_time \<Rightarrow> i64" where
  "system_time_to_unix t = of_int (max 0 t div 1000000000)"

definition status_of_reply :: "XpcReply \<Rightarrow> VfsMacOsError + VfsStatus" where
  "status_of_reply reply =
     (if \<not> xr_ok reply then Inl (reply_error reply)
      else case xr_status reply of
        None \<Rightarrow> Inl (Mac_Protocol ''missing status field'')
      | Some s \<Rightarrow>
          if s = ''Hydrated'' then Inr Full
          else if s = ''Dehydrated'' \<or> s = ''Virtual'' then Inr Placeholder
          else if s = ''Syncing'' then Inr Vfs_Syncing
          else Inl (Mac_Protocol (''unrecognized VfsStatus: '' @ [CHR 0x27] @ s @ [CHR 0x27])))"

definition bool_of_reply :: "XpcReply \<Rightarrow> VfsMacOsError + bool" where
  "bool_of_reply reply =
     (if xr_ok reply then Inr (case xr_bool_value reply of Some b \<Rightarrow> b | None \<Rightarrow> False) else Inl (reply_error reply))"

text \<open>Send a command and read its reply, as all methods do.\<close>

definition mac_call :: "xpc_env \<Rightarrow> XpcCommand \<Rightarrow> (XpcReply \<Rightarrow> VfsMacOsError + 'a) \<Rightarrow> xpc_heap \<Rightarrow> (VfsError + 'a) \<times> xpc_heap" where
  "mac_call env cmd read h =
     (case send_cmd env cmd h of
        (Inl e, h) \<Rightarrow> (Inl (vfs_error_of_mac e), h)
      | (Inr reply, h) \<Rightarrow> (map_sum vfs_error_of_mac id (read reply), h))"

definition VfsMacOs_vfs :: "xpc_env \<Rightarrow> VfsMacOs \<Rightarrow> xpc_heap vfs" where
  "VfsMacOs_vfs env v =
     \<lparr>create_placeholder = \<lambda>item. mac_call env (CreatePlaceholder (mac_rel_path v (vi_path item)) (vi_etag item) (vi_size item)
          (system_time_to_unix (vi_last_modified item))) expect_ok,
      update_placeholder = \<lambda>item. mac_call env (UpdatePlaceholder (mac_rel_path v (vi_path item)) (vi_etag item) (vi_size item)
          (system_time_to_unix (vi_last_modified item))) expect_ok,
      hydrate = \<lambda>path. mac_call env (Hydrate (mac_rel_path v path)) expect_ok,
      dehydrate = \<lambda>path. mac_call env (Dehydrate (mac_rel_path v path)) expect_ok,
      is_virtual = \<lambda>path. mac_call env (IsVirtual (mac_rel_path v path)) bool_of_reply,
      vfs_status = \<lambda>path. mac_call env (Status (mac_rel_path v path)) status_of_reply,
      set_pinned = \<lambda>path pinned. mac_call env (SetPinned (mac_rel_path v path) pinned) expect_ok\<rparr>"

section \<open>Lemmas\<close>

subsection \<open>References\<close>

text \<open>The command that a call sends, and whether its reply arrives but cannot be read.\<close>

fun command_of :: "VfsMacOs \<Rightarrow> vfs_call \<Rightarrow> XpcCommand" where
  "command_of v (Call_Create item) = CreatePlaceholder (mac_rel_path v (vi_path item)) (vi_etag item) (vi_size item)
     (system_time_to_unix (vi_last_modified item))"
| "command_of v (Call_Update item) = UpdatePlaceholder (mac_rel_path v (vi_path item)) (vi_etag item) (vi_size item)
     (system_time_to_unix (vi_last_modified item))"
| "command_of v (Call_Hydrate path) = Hydrate (mac_rel_path v path)"
| "command_of v (Call_Dehydrate path) = Dehydrate (mac_rel_path v path)"
| "command_of v (Call_Is_Virtual path) = IsVirtual (mac_rel_path v path)"
| "command_of v (Call_Status path) = Status (mac_rel_path v path)"
| "command_of v (Call_Set_Pinned path pinned) = SetPinned (mac_rel_path v path) pinned"

definition unreadable :: "xpc_env \<Rightarrow> XpcCommand \<Rightarrow> bool" where
  "unreadable env cmd \<longleftrightarrow> \<not> xe_poisoned env \<and> xe_data_ok env \<and> xe_dict_ok env \<and>
     (case xe_to_json env cmd of
        Inl _ \<Rightarrow> False
      | Inr json \<Rightarrow> (case xe_answer env json of Reply_Data bytes \<Rightarrow> isl (xe_from_json env bytes) | _ \<Rightarrow> False))"

lemma vfs_exec_mac: "vfs_exec (VfsMacOs_vfs env v) c h = snd (send_cmd env (command_of v c) h)"
  by (cases c) (simp_all add: VfsMacOs_vfs_def mac_call_def split: prod.split sum.split)

lemma send_cmd_heap:
  assumes "send_cmd env cmd h = (r, h')"
  shows "xh_next h \<le> xh_next h'"
    and "\<not> unreadable env cmd \<Longrightarrow> xh_owned h' = xh_owned h"
    and "unreadable env cmd \<Longrightarrow> xh_owned h' = (xh_next h + 2) # xh_owned h \<and> xh_next h + 2 < xh_next h'"
  using assms
  by (auto simp: send_cmd_def xpc_send_command_def xpc_read_reply_def xpc_new_def xpc_release_def unreadable_def Let_def
      split: if_splits sum.splits xpc_answer.splits)

lemma mac_calls_heap:
  "\<exists>leaked. xh_owned (fold (\<lambda>(env, c). vfs_exec (VfsMacOs_vfs env v) c) calls h) = leaked @ xh_owned h \<and>
     length leaked = length (filter (\<lambda>(env, c). unreadable env (command_of v c)) calls) \<and> (\<forall>x \<in> set leaked. xh_next h \<le> x)"
proof (induction calls arbitrary: h)
  case (Cons x calls)
  obtain env c where x: "x = (env, c)" by fastforce
  obtain r h1 where h1: "send_cmd env (command_of v c) h = (r, h1)" by fastforce
  then have e: "vfs_exec (VfsMacOs_vfs env v) c h = h1" by (simp add: vfs_exec_mac)
  note heap = send_cmd_heap [OF h1]
  from Cons.IH [of h1] obtain leaked where l: "xh_owned (fold (\<lambda>(env, c). vfs_exec (VfsMacOs_vfs env v) c) calls h1) = leaked @ xh_owned h1"
      "length leaked = length (filter (\<lambda>(env, c). unreadable env (command_of v c)) calls)" "\<forall>x \<in> set leaked. xh_next h1 \<le> x"
    by blast
  show ?case
  proof (cases "unreadable env (command_of v c)")
    case True
    with heap l x e show ?thesis
      by (intro exI [of _ "leaked @ [xh_next h + 2]"]) (auto dest: order_trans)
  next
    case False
    with heap l x e show ?thesis
      by (intro exI [of _ leaked]) (auto dest: order_trans)
  qed
qed simp

section \<open>Properties\<close>

text \<open>
  C4: The references to XPC objects over the life of the backend. Once it is connected, any calls, whatever XPC answers to each of
  them, leave the process with the references it had before, the one to the connection, and one that is never given back for each reply that arrives
  but cannot be deserialized; dropping the backend gives back exactly the connection.
\<close>

theorem xpc_references:
  assumes "new_VfsMacOs env root h = (Inr v, h1)"
  shows "let h2 = fold (\<lambda>(env, c). vfs_exec (VfsMacOs_vfs env v) c) calls h1 in
    \<exists>leaked. length leaked = length (filter (\<lambda>(env, c). unreadable env (command_of v c)) calls) \<and>
      xh_owned h2 = leaked @ vm_conn v # xh_owned h \<and> xh_owned (drop_VfsMacOs v h2) = leaked @ xh_owned h"
proof -
  have h1: "xh_owned h1 = vm_conn v # xh_owned h" "vm_conn v < xh_next h1"
    using assms by (auto simp: new_VfsMacOs_def xpc_connect_def xpc_new_def split: if_splits)
  from mac_calls_heap [of v calls h1] h1 obtain leaked where
      "xh_owned (fold (\<lambda>(env, c). vfs_exec (VfsMacOs_vfs env v) c) calls h1) = leaked @ vm_conn v # xh_owned h"
      "length leaked = length (filter (\<lambda>(env, c). unreadable env (command_of v c)) calls)" "vm_conn v \<notin> set leaked"
    by fastforce
  then show ?thesis by (auto simp: drop_VfsMacOs_def xpc_release_def remove1_append)
qed

text \<open>A reply that is always the same text; the reader of JSON accepts only one text.\<close>

definition sample_xpc :: "string \<Rightarrow> xpc_env" where
  "sample_xpc text = \<lparr>xe_poisoned = False, xe_connects = True, xe_data_ok = True, xe_dict_ok = True, xe_to_json = \<lambda>_. Inr ''{}'',
     xe_from_json = \<lambda>s. if s = ''ok'' then Inr \<lparr>xr_ok = True, xr_error = None, xr_bool_value = None, xr_status = None\<rparr> else Inl ''bad'',
     xe_answer = \<lambda>_. Reply_Data text\<rparr>"

theorem xpc_references_witness:
  "let v = \<lparr>vm_conn = 1, vm_root = ''/f''\<rparr>; (r, h1) = new_VfsMacOs (sample_xpc []) ''/f'' \<lparr>xh_owned = [], xh_next = 1\<rparr>
   in r = Inr v \<and>
      (\<exists>x. xh_owned (drop_VfsMacOs v (fold (\<lambda>(env, c). vfs_exec (VfsMacOs_vfs env v) c)
         [(sample_xpc ''ok'', Call_Hydrate ''/f/a''), (sample_xpc ''no'', Call_Status ''/f/a'')] h1)) = [x])"
proof -
  let ?v = "\<lparr>vm_conn = 1, vm_root = ''/f''\<rparr>"
  let ?n = "new_VfsMacOs (sample_xpc []) ''/f'' \<lparr>xh_owned = [], xh_next = 1\<rparr>"
  have n: "?n = (Inr ?v, snd ?n)"
    by (simp add: new_VfsMacOs_def xpc_connect_def xpc_new_def sample_xpc_def XPC_SERVICE_def)
  from xpc_references [OF n, of "[(sample_xpc ''ok'', Call_Hydrate ''/f/a''), (sample_xpc ''no'', Call_Status ''/f/a'')]"]
  show ?thesis by (subst n) (auto simp: Let_def unreadable_def sample_xpc_def length_Suc_conv)
qed

end
