(* ===== verification/BuildInfo.thy ===== *)
theory BuildInfo
  imports StdStr
begin

text \<open>
  The build script of the GUI (\<open>crates/gui/build.rs\<close>): the versions it finds in \<open>Cargo.lock\<close> and the Rust source it generates from them. Running
  commands, reading the environment and rendering the icons are left to the arguments.
\<close>

section \<open>The versions in \<open>Cargo.lock\<close>\<close>

text \<open>\<open>str::lines\<close>: the parts between line feeds, without a carriage return at their end; nothing after a final line feed.\<close>

definition drop_cr :: "string \<Rightarrow> string" where
  "drop_cr l = (if l \<noteq> [] \<and> last l = CHR 0x0D then butlast l else l)"

definition str_lines :: "string \<Rightarrow> string list" where
  "str_lines s = (let ls = split_on CHR 0x0A s in
     (if last ls = [] then map drop_cr (butlast ls) else map drop_cr (butlast ls) @ [last ls]))"

text \<open>A carriage return that ends the text without a line feed after it is kept.\<close>

fun lock_scan :: "string \<Rightarrow> bool \<Rightarrow> string list \<Rightarrow> string option" where
  "lock_scan needle in_stanza [] = None"
| "lock_scan needle in_stanza (line # ls) =
     (let in_stanza = (if line = ''[[package]]'' then False else in_stanza) in
      if line = needle then lock_scan needle True ls
      else if in_stanza then
        (case strip_prefix_str (''version = '' @ [CHR 0x22]) line of
           Some rest \<Rightarrow> Some (trim_end_matches (CHR 0x22) rest)
         | None \<Rightarrow> lock_scan needle in_stanza ls)
      else lock_scan needle in_stanza ls)"

definition parse_lock_version :: "string \<Rightarrow> string \<Rightarrow> string option" where
  "parse_lock_version lock package = lock_scan (''name = '' @ [CHR 0x22] @ package @ [CHR 0x22]) False (str_lines lock)"

section \<open>The generated source\<close>

definition escape_str :: "string \<Rightarrow> string" where
  "escape_str s =
     replace_str [CHR 0x0D] [CHR 0x5C, CHR ''r''] (replace_str [CHR 0x0A] [CHR 0x5C, CHR ''n'']
       (replace_str [CHR 0x22] [CHR 0x5C, CHR 0x22] (replace_str [CHR 0x5C] [CHR 0x5C, CHR 0x5C] s)))"

record build_env =
  be_var :: "string \<Rightarrow> string option"
  be_output :: "string \<Rightarrow> string list \<Rightarrow> string option"  \<comment> \<open>the output of a command if it could be run\<close>
  be_lock :: "string option"

definition detect_os_version :: "build_env \<Rightarrow> string \<Rightarrow> string" where
  "detect_os_version env os_name =
     (let out = (if os_name = ''macos'' then be_output env ''sw_vers'' [''-productVersion'']
                 else if os_name = ''linux'' then be_output env ''uname'' [''-r'']
                 else None)
      in case out of
           Some s \<Rightarrow> if valid_utf8 s then trim_str s else ''unknown''
         | None \<Rightarrow> ''unknown'')"

definition or_unknown :: "string option \<Rightarrow> string" where
  "or_unknown v = (case v of Some s \<Rightarrow> s | None \<Rightarrow> ''unknown'')"

definition contributors :: string where
  "contributors = ''Thomas M'' @ [CHR 0xC3, CHR 0xBC] @ ''ller and Claude Code''"

text \<open>The constants and their values, in the order of the file.\<close>

definition build_values :: "build_env \<Rightarrow> (string \<times> string) list" where
  "build_values env =
     (let app_version = or_unknown (be_var env ''CARGO_PKG_VERSION'');
          build_arch = or_unknown (be_var env ''CARGO_CFG_TARGET_ARCH'');
          os_name = or_unknown (be_var env ''CARGO_CFG_TARGET_OS'');
          lock_contents = (case be_lock env of Some s \<Rightarrow> s | None \<Rightarrow> [])
      in [(''APP_VERSION'', app_version), (''BUILD_ARCH'', build_arch), (''CPU_ARCH'', build_arch), (''OS_NAME'', os_name),
          (''OS_VERSION'', detect_os_version env os_name), (''LIB_ICED'', or_unknown (parse_lock_version lock_contents ''iced'')),
          (''LIB_RUSTLS'', or_unknown (parse_lock_version lock_contents ''rustls'')),
          (''LIB_SQLITE'', or_unknown (parse_lock_version lock_contents ''libsqlite3-sys'')), (''CONTRIBUTORS'', contributors)])"

definition const_line :: "string \<times> string \<Rightarrow> string" where
  "const_line nv = ''pub const '' @ fst nv @ '': &str = '' @ [CHR 0x22] @ escape_str (snd nv) @ [CHR 0x22, CHR '';'', CHR 0x0A]"

definition write_build_info :: "build_env \<Rightarrow> string" where
  "write_build_info env = concat (map const_line (build_values env))"

section \<open>Lemmas\<close>

text \<open>How Rust reads such a file: a string literal with the escapes the script uses, and declarations one after the other.\<close>

fun read_literal :: "string \<Rightarrow> (string \<times> string) option" where
  "read_literal [] = None"
| "read_literal (c # s) =
     (if c = CHR 0x22 then Some ([], s)
      else if c = CHR 0x0D then None
      else if c = CHR 0x5C then
        (case s of
           [] \<Rightarrow> None
         | d # s' \<Rightarrow>
             (case (if d = CHR ''n'' then Some (CHR 0x0A) else if d = CHR ''r'' then Some (CHR 0x0D)
                    else if d = CHR 0x22 \<or> d = CHR 0x5C then Some d else None) of
                None \<Rightarrow> None
              | Some x \<Rightarrow> map_option (apfst (Cons x)) (read_literal s')))
      else map_option (apfst (Cons c)) (read_literal s))"

definition read_const :: "string \<Rightarrow> ((string \<times> string) \<times> string) option" where
  "read_const s =
     (case strip_prefix_str ''pub const '' s of
        None \<Rightarrow> None
      | Some s \<Rightarrow>
          (case split_once CHR '':'' s of
             None \<Rightarrow> None
           | Some (name, s) \<Rightarrow>
               (case strip_prefix_str ('' &str = '' @ [CHR 0x22]) s of
                  None \<Rightarrow> None
                | Some s \<Rightarrow>
                    (case read_literal s of
                       None \<Rightarrow> None
                     | Some (val, s) \<Rightarrow> map_option (Pair (name, val)) (strip_prefix_str [CHR '';'', CHR 0x0A] s)))))"

primrec read_consts :: "nat \<Rightarrow> string \<Rightarrow> ((string \<times> string) list \<times> string) option" where
  "read_consts 0 s = Some ([], s)"
| "read_consts (Suc n) s =
     (case read_const s of None \<Rightarrow> None | Some (nv, s) \<Rightarrow> map_option (apfst (Cons nv)) (read_consts n s))"

lemma replace_char: "replace_str [c] new s = concat (map (\<lambda>x. if x = c then new else [x]) s)"
  by (induction s) auto

definition esc :: "char \<Rightarrow> string" where
  "esc c = (if c = CHR 0x5C then [CHR 0x5C, CHR 0x5C] else if c = CHR 0x22 then [CHR 0x5C, CHR 0x22]
     else if c = CHR 0x0A then [CHR 0x5C, CHR ''n''] else if c = CHR 0x0D then [CHR 0x5C, CHR ''r''] else [c])"

lemma escape_str_esc: "escape_str s = concat (map esc s)"
  unfolding escape_str_def replace_char by (induction s) (simp_all add: esc_def)

lemma read_escaped: "read_literal (escape_str s @ CHR 0x22 # rest) = Some (s, rest)"
  unfolding escape_str_esc by (induction s) (simp_all add: esc_def)

lemma read_const_line:
  assumes "CHR '':'' \<notin> set (fst nv)" shows "read_const (const_line nv @ rest) = Some (nv, rest)"
proof -
  have "split_once CHR '':'' (fst nv @ '': &str = '' @ CHR 0x22 # escape_str (snd nv) @ CHR 0x22 # CHR '';'' # CHR 0x0A # rest) =
      Some (fst nv, '' &str = '' @ CHR 0x22 # escape_str (snd nv) @ CHR 0x22 # CHR '';'' # CHR 0x0A # rest)"
    using split_once_append [OF assms] by simp
  then show ?thesis
    by (simp add: read_const_def const_line_def strip_prefix_str_def read_escaped)
qed

lemma read_const_lines:
  "list_all (\<lambda>nv. CHR '':'' \<notin> set (fst nv)) nvs \<Longrightarrow> read_consts (length nvs) (concat (map const_line nvs) @ rest) = Some (nvs, rest)"
  by (induction nvs) (simp_all add: read_const_line)

text \<open>A stanza of \<open>Cargo.lock\<close>: name, version and further lines.\<close>

definition stanza :: "string \<times> string \<times> string list \<Rightarrow> string list" where
  "stanza = (\<lambda>(name, version, rest). [''[[package]]'', ''name = '' @ [CHR 0x22] @ name @ [CHR 0x22], ''version = '' @ [CHR 0x22] @ version @ [CHR 0x22]] @ rest)"

lemma lock_scan_skip:
  "needle \<notin> set ls \<Longrightarrow> lock_scan needle False (ls @ rest) = lock_scan needle False rest"
  by (induction ls) (auto simp: Let_def)

section \<open>Properties\<close>

text \<open>The generated source is a list of declarations that give each constant exactly its value, whatever characters the values contain.\<close>

theorem build_info_roundtrip: "read_consts 9 (write_build_info env) = Some (build_values env, [])"
proof -
  have "length (build_values env) = 9" "list_all (\<lambda>nv. CHR '':'' \<notin> set (fst nv)) (build_values env)"
    by (simp_all add: build_values_def Let_def)
  then show ?thesis using read_const_lines [of "build_values env" "[]"] by (simp add: write_build_info_def)
qed

text \<open>The version of a package is that of its first stanza.\<close>

theorem lock_version_found:
  assumes "\<forall>(name, version, rest) \<in> set ps. ''name = '' @ [CHR 0x22] @ package @ [CHR 0x22] \<notin> set rest \<and> CHR 0x22 \<notin> set version"
  shows "lock_scan (''name = '' @ [CHR 0x22] @ package @ [CHR 0x22]) False (concat (map stanza ps)) =
    map_option (\<lambda>(_, version, _). version) (find (\<lambda>(name, _). name = package) ps)"
  using assms
proof (induction ps)
  case (Cons p ps)
  obtain name version rest where p: "p = (name, version, rest)" by (cases p)
  show ?case
  proof (cases "name = package")
    case True
    then show ?thesis using Cons.prems p by (simp add: stanza_def Let_def strip_prefix_str_def trim_end_matches_absent trim_end_matches_snoc_eq)
  next
    case False
    then show ?thesis
      using Cons p lock_scan_skip [of "''name = '' @ [CHR 0x22] @ package @ [CHR 0x22]" "stanza p" "concat (map stanza ps)"]
      by (simp add: stanza_def)
  qed
qed simp

end
