(* ===== verification/TestTools.thy ===== *)
theory TestTools
  imports Ipc "HOL-Library.Monad_Syntax"
begin

text \<open>
  The tools the acceptance tests wait with (\<open>crates/acceptance-test/src\<close>): polling a condition (\<open>poll.rs\<close>), waiting for an event of the daemon (\<open>daemon_ipc.rs\<close>),
  and searching the accessible tree of the GUI (\<open>atspi_client.rs\<close>). Time is counted in milliseconds.
\<close>

section \<open>Polling (\<open>poll.rs\<close>)\<close>

text \<open>
  \<open>attempt t\<close> is what asking at time \<open>t\<close> gives, and \<open>cost t\<close> how long this takes. The loop ends with what was found, or with \<open>None\<close> when the time is over, and the time at
  its end; a loop that does not end is \<open>None\<close>.
\<close>

partial_function (option) poll_loop :: "(nat \<Rightarrow> 'r option) \<Rightarrow> (nat \<Rightarrow> nat) \<Rightarrow> nat \<Rightarrow> nat \<Rightarrow> nat \<Rightarrow> ('r option \<times> nat) option" where
  "poll_loop attempt cost deadline interval t =
     (case attempt t of
        Some r \<Rightarrow> Some (Some r, t + cost t)
      | None \<Rightarrow>
          (let now = t + cost t; remaining = deadline - now in
           if remaining = 0 then Some (None, now)
           else poll_loop attempt cost deadline interval (now + min remaining interval)))"

definition poll_until :: "(nat \<Rightarrow> bool) \<Rightarrow> (nat \<Rightarrow> nat) \<Rightarrow> nat \<Rightarrow> nat \<Rightarrow> nat \<Rightarrow> (bool \<times> nat) option" where
  "poll_until condition cost timeout interval start =
     map_option (apfst (\<lambda>r. r \<noteq> None)) (poll_loop (\<lambda>t. if condition t then Some () else None) cost (start + timeout) interval start)"

section \<open>Waiting for events (\<open>daemon_ipc.rs\<close>)\<close>

text \<open>The events with the time at which they arrive. An event that comes at the deadline or later is not seen.\<close>

fun wait_for :: "('e \<Rightarrow> bool) \<Rightarrow> nat \<Rightarrow> nat \<Rightarrow> (nat \<times> 'e) list \<Rightarrow> 'e option \<times> (nat \<times> 'e) list" where
  "wait_for P deadline now [] = (None, [])"
| "wait_for P deadline now ((t, e) # rest) =
     (if deadline \<le> now \<or> deadline \<le> t then (None, (t, e) # rest)
      else if P e then (Some e, rest)
      else wait_for P deadline (max now t) rest)"

definition next_test_event :: "nat \<Rightarrow> nat \<Rightarrow> (nat \<times> 'e) list \<Rightarrow> 'e option \<times> (nat \<times> 'e) list" where
  "next_test_event timeout now events =
     (case events of
        [] \<Rightarrow> (None, [])
      | (t, e) # rest \<Rightarrow> if t < now + timeout then (Some e, rest) else (None, events))"

section \<open>The accessible tree (\<open>atspi_client.rs\<close>)\<close>

text \<open>
  The bus: the objects there are, the applications at the root and, for each object, whether it is the null reference, its role, name and children; \<open>None\<close> is a
  call that fails, as it does on a reference to an object that is gone. An object is known by bus name and path.
\<close>

datatype obj = Obj string string

record at_spi =
  as_objects :: "obj list"
  as_registry :: "string + obj list"
  as_null :: "obj \<Rightarrow> bool"
  as_proxy :: "obj \<Rightarrow> bool"
  as_role :: "obj \<Rightarrow> nat option"
  as_name :: "obj \<Rightarrow> string option"
  as_children :: "obj \<Rightarrow> obj list option"

text \<open>
  The loop that both searches share: take an object from the queue, skip it if it is null or was visited, else visit it, which ends the loop or
  gives the children to go on with.
\<close>

partial_function (option) walk_tree :: "('o \<Rightarrow> bool) \<Rightarrow> ('o \<Rightarrow> 'k) \<Rightarrow> ('o \<Rightarrow> 's \<Rightarrow> 'r + 's \<times> 'o list) \<Rightarrow> 'o list \<Rightarrow> 'k set \<Rightarrow> 's \<Rightarrow> ('r + 's) option" where
  "walk_tree null key visit queue visited s =
     (case queue of
        [] \<Rightarrow> Some (Inr s)
      | obj_ref # rest \<Rightarrow>
          if null obj_ref \<or> key obj_ref \<in> visited then walk_tree null key visit rest visited s
          else (case visit obj_ref s of
                  Inl r \<Rightarrow> Some (Inl r)
                | Inr (s', children) \<Rightarrow> walk_tree null key visit (rest @ children) (insert (key obj_ref) visited) s'))"

definition children_of :: "at_spi \<Rightarrow> obj \<Rightarrow> obj list" where
  "children_of bus obj =
     (case (if obj \<in> set (as_objects bus) then as_children bus obj else None) of
        Some cs \<Rightarrow> filter (\<lambda>c. \<not> as_null bus c) cs
      | None \<Rightarrow> [])"

definition visit_find :: "at_spi \<Rightarrow> nat \<Rightarrow> string \<Rightarrow> obj \<Rightarrow> unit \<Rightarrow> obj + unit \<times> obj list" where
  "visit_find bus role name obj u =
     (if \<not> as_proxy bus obj then Inr ((), [])
      else case as_role bus obj of
        None \<Rightarrow> Inr ((), [])
      | Some r \<Rightarrow>
          if r = role \<and> (case as_name bus obj of Some n \<Rightarrow> n | None \<Rightarrow> []) = name then Inl obj
          else Inr ((), children_of bus obj))"

text \<open>\<open>None\<close> is a search that does not end; an error is given as a text.\<close>

definition find_widget :: "at_spi \<Rightarrow> nat \<Rightarrow> string \<Rightarrow> (string + obj) option" where
  "find_widget bus role name =
     (case as_registry bus of
        Inl e \<Rightarrow> Some (Inl e)
      | Inr app_refs \<Rightarrow>
          map_option (\<lambda>r. case r of Inl obj \<Rightarrow> Inr obj | Inr _ \<Rightarrow> Inl ''widget not found in accessibility tree'')
            (walk_tree (as_null bus) id (visit_find bus role name) app_refs {} ()))"

text \<open>\<open>line\<close> prints role and name of an object after its indentation.\<close>

definition visit_dump :: "at_spi \<Rightarrow> (nat \<Rightarrow> nat option \<Rightarrow> string \<Rightarrow> string) \<Rightarrow> obj \<times> nat \<Rightarrow> string \<Rightarrow> unit + string \<times> (obj \<times> nat) list" where
  "visit_dump bus line = (\<lambda>(obj, depth) output.
     if \<not> as_proxy bus obj then Inr (output, [])
     else Inr (output @ line depth (as_role bus obj) (case as_name bus obj of Some n \<Rightarrow> n | None \<Rightarrow> []),
               map (\<lambda>c. (c, Suc depth)) (children_of bus obj)))"

definition dump_tree :: "at_spi \<Rightarrow> (nat \<Rightarrow> nat option \<Rightarrow> string \<Rightarrow> string) \<Rightarrow> string option" where
  "dump_tree bus line =
     (case as_registry bus of
        Inl e \<Rightarrow> Some (''dump_tree: '' @ e)
      | Inr app_refs \<Rightarrow>
          map_option (\<lambda>r. case r of Inr output \<Rightarrow> output | Inl _ \<Rightarrow> [])
            (walk_tree (\<lambda>(obj, _). as_null bus obj) fst (visit_dump bus line) (map (\<lambda>r. (r, 0)) app_refs) {} []))"

text \<open>The tree changes while a test waits for a widget: \<open>bus t\<close> is the one that a search at time \<open>t\<close> sees.\<close>

definition wait_for_widget :: "(nat \<Rightarrow> at_spi) \<Rightarrow> (nat \<Rightarrow> nat) \<Rightarrow> (nat \<Rightarrow> nat option \<Rightarrow> string \<Rightarrow> string) \<Rightarrow> nat \<Rightarrow> string \<Rightarrow> nat \<Rightarrow> nat \<Rightarrow> (string + obj) option" where
  "wait_for_widget bus cost line role name timeout start =
     (case poll_loop (\<lambda>t. case find_widget (bus t) role name of Some (Inr widget) \<Rightarrow> Some widget | _ \<Rightarrow> None) cost (start + timeout) 250 start of
        None \<Rightarrow> None
      | Some (Some widget, _) \<Rightarrow> Some (Inr widget)
      | Some (None, now) \<Rightarrow> map_option (\<lambda>tree. Inl (''timed out waiting for widget'' @ [CHR 0x0A] @ ''Accessible tree:'' @ [CHR 0x0A] @ tree)) (dump_tree (bus now) line))"

text \<open>\<open>click\<close> and \<open>set_text\<close>: the interface may be missing, the call may fail or return false.\<close>

definition invoke :: "string \<Rightarrow> string option \<Rightarrow> string + bool \<Rightarrow> string + unit" where
  "invoke what missing outcome =
     (case missing of
        Some e \<Rightarrow> Inl e
      | None \<Rightarrow> (case outcome of Inl e \<Rightarrow> Inl e | Inr True \<Rightarrow> Inr () | Inr False \<Rightarrow> Inl (what @ '' returned false'')))"

definition click :: "string option \<Rightarrow> string + bool \<Rightarrow> string + unit" where
  "click = invoke ''do_action(0)''"

definition set_text_contents :: "string option \<Rightarrow> string + bool \<Rightarrow> string + unit" where
  "set_text_contents = invoke ''set_text_contents''"

section \<open>Lemmas\<close>

lemma poll_loop_Some [simp]: "attempt t = Some r \<Longrightarrow> poll_loop attempt cost deadline interval t = Some (Some r, t + cost t)"
  by (subst poll_loop.simps) simp

text \<open>With an interval the loop ends; it then has asked at the end of the time, or later if asking took that long.\<close>

lemma poll_loop_ends:
  assumes "0 < interval"
  shows "\<exists>r now. poll_loop attempt cost deadline interval t = Some (r, now) \<and> (r = None \<longrightarrow> deadline \<le> now) \<and> (\<forall>x. r = Some x \<longrightarrow> (\<exists>u \<ge> t. attempt u = Some x))"
proof (induction "deadline - t" arbitrary: t rule: less_induct)
  case less
  show ?case
  proof (cases "attempt t \<noteq> None \<or> deadline - (t + cost t) = 0")
    case True
    then show ?thesis by (subst poll_loop.simps) (auto simp: Let_def split: option.split)
  next
    case False
    let ?t = "t + cost t + min (deadline - (t + cost t)) interval"
    have "deadline - ?t < deadline - t" using False assms by linarith
    from less [OF this] obtain r now where
      r: "poll_loop attempt cost deadline interval ?t = Some (r, now)" "r = None \<longrightarrow> deadline \<le> now" "\<forall>x. r = Some x \<longrightarrow> (\<exists>u \<ge> ?t. attempt u = Some x)" by blast
    have "\<exists>u \<ge> t. attempt u = Some x" if "r = Some x" for x
    proof -
      from r(3) that obtain u where "?t \<le> u" "attempt u = Some x" by blast
      then show ?thesis by (intro exI [of _ u]) simp
    qed
    with r(1,2) show ?thesis using False by (subst poll_loop.simps) (simp add: Let_def)
  qed
qed

lemma poll_loop_finds:
  assumes "0 < interval" "\<forall>u \<ge> since. attempt u \<noteq> None" "\<And>u. cost u = 0" "t \<le> deadline" "since \<le> deadline"
  shows "\<exists>r now. poll_loop attempt cost deadline interval t = Some (Some r, now) \<and> now \<le> max t (since + interval)"
  using assms(4)
proof (induction "deadline - t" arbitrary: t rule: less_induct)
  case less
  show ?case
  proof (cases "attempt t")
    case (Some r)
    then show ?thesis by (simp add: assms(3))
  next
    case None
    then have t: "t < since" using assms(2) by (meson not_le)
    let ?t = "t + min (deadline - t) interval"
    have "deadline - ?t < deadline - t" "?t \<le> deadline" using t assms(1,5) less.prems by linarith+
    from less.hyps [OF this] obtain r now where "poll_loop attempt cost deadline interval ?t = Some (Some r, now)" "now \<le> max ?t (since + interval)" by blast
    then show ?thesis using None t assms(5) by (subst poll_loop.simps) (auto simp: Let_def assms(3))
  qed
qed

lemma wait_for_finds:
  assumes "now < deadline"
  shows "fst (wait_for P deadline now events) = find P (map snd (takeWhile (\<lambda>(t, _). t < deadline) events))"
  using assms by (induction P deadline now events rule: wait_for.induct) auto

text \<open>Over finitely many objects the loop ends, whatever the visits do.\<close>

locale finite_walk =
  fixes null :: "'o \<Rightarrow> bool" and key :: "'o \<Rightarrow> 'k" and visit :: "'o \<Rightarrow> 's \<Rightarrow> 'r + 's \<times> 'o list" and U :: "'k set"
  assumes finite_U: "finite U" and visit_U: "visit obj s = Inr (s', cs) \<Longrightarrow> key ` set cs \<subseteq> U"
begin

lemma walk_ends:
  "key ` set queue \<subseteq> U \<Longrightarrow> \<exists>r. walk_tree null key visit queue visited s = Some r"
proof (induction "card (U - visited)" arbitrary: queue visited s rule: less_induct)
  case less
  show ?case using less.prems
  proof (induction queue)
    case Nil
    then show ?case by (subst walk_tree.simps) simp
  next
    case (Cons obj rest)
    show ?case
    proof (cases "null obj \<or> key obj \<in> visited")
      case True
      then show ?thesis using Cons by (subst walk_tree.simps) simp
    next
      case False
      then have "U - insert (key obj) visited \<subset> U - visited" using Cons.prems by auto
      then have "card (U - insert (key obj) visited) < card (U - visited)" using finite_U by (simp add: psubset_card_mono)
      then have "\<exists>r. walk_tree null key visit (rest @ cs) (insert (key obj) visited) s' = Some r" if "visit obj s = Inr (s', cs)" for s' cs
        using less.hyps [of "insert (key obj) visited" "rest @ cs" s'] visit_U [OF that] Cons.prems by (simp add: image_Un)
      then show ?thesis using False by (subst walk_tree.simps) (auto split: sum.split)
    qed
  qed
qed

end

text \<open>The objects that can be reached through objects that answer, and those that are looked for.\<close>

inductive reached :: "at_spi \<Rightarrow> obj \<Rightarrow> bool" for bus where
  app: "as_registry bus = Inr apps \<Longrightarrow> obj \<in> set apps \<Longrightarrow> \<not> as_null bus obj \<Longrightarrow> reached bus obj"
| child: "reached bus obj \<Longrightarrow> as_proxy bus obj \<Longrightarrow> as_role bus obj \<noteq> None \<Longrightarrow> c \<in> set (children_of bus obj) \<Longrightarrow> reached bus c"

definition wanted_widget :: "at_spi \<Rightarrow> nat \<Rightarrow> string \<Rightarrow> obj \<Rightarrow> bool" where
  "wanted_widget bus role name obj \<longleftrightarrow>
     as_proxy bus obj \<and> as_role bus obj = Some role \<and> (case as_name bus obj of Some n \<Rightarrow> n | None \<Rightarrow> []) = name"

lemma visit_find_cases:
  "visit_find bus role name obj u =
     (if wanted_widget bus role name obj then Inl obj
      else Inr ((), if as_proxy bus obj \<and> as_role bus obj \<noteq> None then children_of bus obj else []))"
  by (auto simp: visit_find_def wanted_widget_def split: option.split)

text \<open>What is known in the middle of a search: nothing found yet, and all that is left hangs on the queue.\<close>

definition search_inv :: "at_spi \<Rightarrow> nat \<Rightarrow> string \<Rightarrow> obj list \<Rightarrow> obj set \<Rightarrow> bool" where
  "search_inv bus role name queue visited \<longleftrightarrow>
     (\<forall>obj \<in> set queue. as_null bus obj \<or> reached bus obj) \<and>
     (\<forall>apps obj. as_registry bus = Inr apps \<and> obj \<in> set apps \<and> \<not> as_null bus obj \<longrightarrow> obj \<in> visited \<union> set queue) \<and>
     (\<forall>obj \<in> visited. \<not> wanted_widget bus role name obj \<and>
        (as_proxy bus obj \<and> as_role bus obj \<noteq> None \<longrightarrow> set (children_of bus obj) \<subseteq> visited \<union> set queue))"

lemma children_not_null: "c \<in> set (children_of bus obj) \<Longrightarrow> \<not> as_null bus c"
  by (auto simp: children_of_def split: option.splits if_splits)

lemma search_inv_skip:
  assumes "search_inv bus role name (obj # rest) visited" "as_null bus obj \<or> obj \<in> visited"
  shows "search_inv bus role name rest visited"
proof -
  have kept: "x \<in> visited \<union> set (obj # rest) \<Longrightarrow> \<not> as_null bus x \<Longrightarrow> x \<in> visited \<union> set rest" for x using assms(2) by auto
  have "set (children_of bus v) \<subseteq> visited \<union> set rest" if "set (children_of bus v) \<subseteq> visited \<union> set (obj # rest)" for v
    using that kept children_not_null by blast
  with assms(1) show ?thesis unfolding search_inv_def using kept by (elim conjE, intro conjI) (simp, blast, blast)
qed

lemma search_inv_visit:
  "search_inv bus role name (obj # rest) visited \<Longrightarrow> \<not> as_null bus obj \<Longrightarrow> \<not> wanted_widget bus role name obj \<Longrightarrow>
     search_inv bus role name (rest @ (if as_proxy bus obj \<and> as_role bus obj \<noteq> None then children_of bus obj else [])) (insert obj visited)"
  unfolding search_inv_def by (auto intro: reached.child)

lemma search_inv_end:
  assumes "search_inv bus role name [] visited" "reached bus obj"
  shows "\<not> wanted_widget bus role name obj"
proof -
  have "obj \<in> visited" using assms(2)
  proof (induction rule: reached.induct)
    case (app apps obj)
    then show ?case using assms(1) by (auto simp: search_inv_def)
  next
    case (child obj c)
    then show ?case using assms(1) by (auto simp: search_inv_def)
  qed
  then show ?thesis using assms(1) by (auto simp: search_inv_def)
qed

text \<open>The objects a search can come upon.\<close>

definition bus_objects :: "at_spi \<Rightarrow> obj set" where
  "bus_objects bus = (case as_registry bus of Inr apps \<Rightarrow> set apps | Inl _ \<Rightarrow> {}) \<union> (\<Union>obj \<in> set (as_objects bus). set (children_of bus obj))"

lemma finite_bus_objects [simp]: "finite (bus_objects bus)"
  by (simp add: bus_objects_def split: sum.split)

lemma children_bus_objects: "set (children_of bus obj) \<subseteq> bus_objects bus"
  by (cases "obj \<in> set (as_objects bus)") (auto simp: bus_objects_def children_of_def)

interpretation find_search: finite_walk "as_null bus" id "visit_find bus role name" "bus_objects bus" for bus role name
  using children_bus_objects by unfold_locales (auto simp: visit_find_cases split: if_splits)

interpretation dump_search: finite_walk "\<lambda>(obj, _). as_null bus obj" fst "visit_dump bus line" "bus_objects bus" for bus line
  using subsetD [OF children_bus_objects] by unfold_locales (auto simp: visit_dump_def split: if_splits)

lemma walk_find:
  assumes "walk_tree (as_null bus) id (visit_find bus role name) queue visited () = Some r" "search_inv bus role name queue visited"
  shows "case r of Inl obj \<Rightarrow> reached bus obj \<and> wanted_widget bus role name obj | Inr _ \<Rightarrow> \<forall>obj. reached bus obj \<longrightarrow> \<not> wanted_widget bus role name obj"
  using assms
proof (induction "card (bus_objects bus - visited)" arbitrary: queue visited rule: less_induct)
  case less
  show ?case using less.prems
  proof (induction queue)
    case Nil
    then show ?case using search_inv_end by (auto simp: walk_tree.simps)
  next
    case (Cons obj rest)
    show ?case
    proof (cases "as_null bus obj \<or> obj \<in> visited")
      case True
      then have "walk_tree (as_null bus) id (visit_find bus role name) rest visited () = Some r" using Cons.prems(1) by (subst (asm) walk_tree.simps) simp
      then show ?thesis using Cons.IH search_inv_skip [OF Cons.prems(2) True] by blast
    next
      case False
      then have obj: "reached bus obj" using Cons.prems(2) by (simp add: search_inv_def)
      have "obj \<in> bus_objects bus" using obj children_bus_objects by (cases) (auto simp: bus_objects_def)
      then have "bus_objects bus - insert obj visited \<subset> bus_objects bus - visited" using False by auto
      then have small: "card (bus_objects bus - insert obj visited) < card (bus_objects bus - visited)" by (simp add: psubset_card_mono)
      show ?thesis
      proof (cases "wanted_widget bus role name obj")
        case True
        then show ?thesis using Cons.prems(1) False obj by (subst (asm) walk_tree.simps) (auto simp: visit_find_cases)
      next
        case no: False
        let ?q = "rest @ (if as_proxy bus obj \<and> as_role bus obj \<noteq> None then children_of bus obj else [])"
        have "walk_tree (as_null bus) id (visit_find bus role name) ?q (insert obj visited) () = Some r"
          using Cons.prems(1) False no by (subst (asm) walk_tree.simps) (simp add: visit_find_cases)
        from less.hyps [OF small this] search_inv_visit [OF Cons.prems(2)] False no show ?thesis by blast
      qed
    qed
  qed
qed

section \<open>Properties\<close>

text \<open>
  Polling with an interval always ends; if asking takes no time and the condition holds from some moment before the end of the timeout on, it is noticed, at
  most one interval later.
\<close>

theorem poll_until_notices:
  assumes "0 < interval"
  shows "\<exists>ok now. poll_until condition cost timeout interval start = Some (ok, now)"
    and "(\<And>u. cost u = 0) \<Longrightarrow> \<forall>u \<ge> since. condition u \<Longrightarrow> since \<le> start + timeout \<Longrightarrow>
      \<exists>now. poll_until condition cost timeout interval start = Some (True, now) \<and> now \<le> max start (since + interval)"
proof -
  let ?a = "\<lambda>t. if condition t then Some () else None"
  show "\<exists>ok now. poll_until condition cost timeout interval start = Some (ok, now)"
    using poll_loop_ends [OF assms, of ?a cost "start + timeout" start] by (auto simp: poll_until_def)
  assume "\<And>u. cost u = 0" "\<forall>u \<ge> since. condition u" "since \<le> start + timeout"
  with poll_loop_finds [OF assms, of since ?a cost start "start + timeout"]
  show "\<exists>now. poll_until condition cost timeout interval start = Some (True, now) \<and> now \<le> max start (since + interval)"
    by (auto simp: poll_until_def)
qed

text \<open>The search of the accessible tree ends, cycles and dead references included, and finds a widget exactly if one can be reached.\<close>

theorem find_widget_complete:
  "\<exists>r. find_widget bus role name = Some r \<and>
     (case r of
        Inr obj \<Rightarrow> reached bus obj \<and> wanted_widget bus role name obj
      | Inl e \<Rightarrow> \<forall>obj. reached bus obj \<longrightarrow> \<not> wanted_widget bus role name obj)"
proof (cases "as_registry bus")
  case (Inl e)
  have "\<not> reached bus obj" for obj
  proof
    assume "reached bus obj"
    then show False by (induction rule: reached.induct) (simp_all add: Inl)
  qed
  then show ?thesis using Inl by (simp add: find_widget_def)
next
  case (Inr apps)
  then have "id ` set apps \<subseteq> bus_objects bus" by (simp add: bus_objects_def)
  from find_search.walk_ends [OF this] obtain r where
    r: "walk_tree (as_null bus) id (visit_find bus role name) apps {} () = Some r" by blast
  moreover have "search_inv bus role name apps {}" using Inr by (auto simp: search_inv_def intro: reached.app)
  ultimately show ?thesis using walk_find [OF r] Inr by (cases r) (auto simp: find_widget_def)
qed

theorem dump_tree_ends: "\<exists>s. dump_tree bus line = Some s"
proof (cases "as_registry bus")
  case (Inr apps)
  then have "fst ` set (map (\<lambda>r. (r, 0)) apps) \<subseteq> bus_objects bus" by (auto simp: bus_objects_def)
  from dump_search.walk_ends [OF this] show ?thesis using Inr by (fastforce simp: dump_tree_def)
qed (simp add: dump_tree_def)

text \<open>
  Waiting for a widget always ends: with a widget that a search has reached, or at the deadline or later with the text of the failure. A widget that is there from some moment before
  the deadline on is found if searching takes no time.
\<close>

theorem wait_for_widget_outcome:
  "\<exists>r. wait_for_widget bus cost line role name timeout start = Some r \<and>
     (\<forall>obj. r = Inr obj \<longrightarrow> (\<exists>t \<ge> start. reached (bus t) obj \<and> wanted_widget (bus t) role name obj))"
  "(\<And>u. cost u = 0) \<Longrightarrow> since \<le> start + timeout \<Longrightarrow> (\<And>u. since \<le> u \<Longrightarrow> \<exists>obj. reached (bus u) obj \<and> wanted_widget (bus u) role name obj) \<Longrightarrow>
     \<exists>obj. wait_for_widget bus cost line role name timeout start = Some (Inr obj)"
proof -
  let ?a = "\<lambda>t. case find_widget (bus t) role name of Some (Inr widget) \<Rightarrow> Some widget | _ \<Rightarrow> None"
  have a: "?a t = Some obj \<Longrightarrow> reached (bus t) obj \<and> wanted_widget (bus t) role name obj" for t obj
    using find_widget_complete [of "bus t" role name] by (elim exE) (auto split: option.splits sum.splits)
  obtain r now where r: "poll_loop ?a cost (start + timeout) 250 start = Some (r, now)" "\<forall>x. r = Some x \<longrightarrow> (\<exists>u \<ge> start. ?a u = Some x)"
    using poll_loop_ends [of 250 ?a cost "start + timeout" start] by auto
  obtain s where s: "dump_tree (bus now) line = Some s" using dump_tree_ends by blast
  show "\<exists>r. wait_for_widget bus cost line role name timeout start = Some r \<and>
     (\<forall>obj. r = Inr obj \<longrightarrow> (\<exists>t \<ge> start. reached (bus t) obj \<and> wanted_widget (bus t) role name obj))"
  proof (cases r)
    case None
    then show ?thesis using r s by (simp add: wait_for_widget_def)
  next
    case (Some obj)
    then obtain u where "u \<ge> start" "?a u = Some obj" using r(2) by blast
    then show ?thesis using a [of u obj] r(1) Some by (auto simp: wait_for_widget_def)
  qed
  assume cost: "\<And>u. cost u = 0" and since: "since \<le> start + timeout" and
    there: "\<And>u. since \<le> u \<Longrightarrow> \<exists>obj. reached (bus u) obj \<and> wanted_widget (bus u) role name obj"
  have "?a u \<noteq> None" if "since \<le> u" for u
  proof -
    from there [OF that] obtain r where "find_widget (bus u) role name = Some r" "\<not> isl r"
      using find_widget_complete [of "bus u" role name] by (elim exE conjE) (auto split: sum.splits)
    then show ?thesis by (cases r) auto
  qed
  with poll_loop_finds [of 250 since ?a cost start "start + timeout"] cost since
  obtain obj now where "poll_loop ?a cost (start + timeout) 250 start = Some (Some obj, now)" by auto
  then show "\<exists>obj. wait_for_widget bus cost line role name timeout start = Some (Inr obj)" by (simp add: wait_for_widget_def)
qed

end
