(* ===== verification/TestServer.thy ===== *)
theory TestServer
  imports OcisApi
begin

text \<open>
  The clients with which the acceptance tests look at and prepare the server (\<open>crates/acceptance-test/src/ocis_client.rs\<close> and \<open>provision.rs\<close>). They authenticate with user name
  and password; \<open>ts_basic\<close> encodes them. JSON is printed and decoded by arguments.
\<close>

section \<open>Requests\<close>

record test_lib =
  ts_libs :: libs
  ts_basic :: "string \<Rightarrow> string \<Rightarrow> string"
  ts_client_error :: "string option"

definition basic_request :: "test_lib \<Rightarrow> string \<Rightarrow> string \<Rightarrow> string \<Rightarrow> string \<Rightarrow> (string \<times> string) list \<Rightarrow> string \<Rightarrow> request" where
  "basic_request lib user pass meth url hs body =
     \<lparr>rq_method = meth, rq_url = url, rq_bearer = None, rq_headers = (''authorization'', ts_basic lib user pass) # hs, rq_body = body\<rparr>"

text \<open>\<open>send().await?.error_for_status()?\<close>: only a status of 400 to 599 is an error.\<close>

definition error_for_status :: "test_lib \<Rightarrow> string + response \<Rightarrow> string + response" where
  "error_for_status lib r =
     (case r of
        Inl e \<Rightarrow> Inl e
      | Inr resp \<Rightarrow> if 400 \<le> rs_status resp \<and> rs_status resp < 600 then Inl (lib_status_text (ts_libs lib) (rs_status resp)) else Inr resp)"

definition json_body :: "(string \<Rightarrow> string + 'a) \<Rightarrow> string + response \<Rightarrow> string + 'a" where
  "json_body dec r = (case r of Inl e \<Rightarrow> Inl e | Inr resp \<Rightarrow> (case rs_body resp of Inl e \<Rightarrow> Inl e | Inr text \<Rightarrow> dec text))"

section \<open>Files on the server (\<open>ocis_client.rs\<close>)\<close>

datatype DavLayout = Dav_Spaces | Dav_ClassicFiles string

record OcisClient =
  tc_base_url :: url
  tc_space_id :: string
  tc_username :: string
  tc_password :: string
  tc_layout :: DavLayout

definition from_credentials :: "test_lib \<Rightarrow> 'w net \<Rightarrow> (string \<Rightarrow> string + (string \<times> string) list) \<Rightarrow> url \<Rightarrow> string \<Rightarrow> string \<Rightarrow> 'w \<Rightarrow> (string + OcisClient) \<times> 'w" where
  "from_credentials lib net dec base_url username password w =
     (case ts_client_error lib of
        Some e \<Rightarrow> (Inl e, w)
      | None \<Rightarrow>
          (case lib_url_join (ts_libs lib) base_url ''/graph/v1.0/me/drives'' of
             Inl e \<Rightarrow> (Inl e, w)
           | Inr drives_url \<Rightarrow>
               (case net_send net (basic_request lib username password ''GET'' (show_url drives_url) [] []) w of
                  (r, w) \<Rightarrow>
                    ((case json_body dec (error_for_status lib r) of
                        Inl e \<Rightarrow> Inl e
                      | Inr drives \<Rightarrow>
                          (case find (\<lambda>(i, drive_type). drive_type = ''personal'') drives of
                             None \<Rightarrow> Inl ''no personal drive found''
                           | Some (i, _) \<Rightarrow>
                               Inr \<lparr>tc_base_url = base_url, tc_space_id = i, tc_username = username, tc_password = password, tc_layout = Dav_Spaces\<rparr>)), w))))"

definition from_credentials_oc10 :: "test_lib \<Rightarrow> url \<Rightarrow> string \<Rightarrow> string \<Rightarrow> string + OcisClient" where
  "from_credentials_oc10 lib base_url username password =
     (case ts_client_error lib of
        Some e \<Rightarrow> Inl e
      | None \<Rightarrow> Inr \<lparr>tc_base_url = base_url, tc_space_id = [], tc_username = username, tc_password = password, tc_layout = Dav_ClassicFiles username\<rparr>)"

definition from_credentials_on_space :: "test_lib \<Rightarrow> url \<Rightarrow> string \<Rightarrow> string \<Rightarrow> string \<Rightarrow> string + OcisClient" where
  "from_credentials_on_space lib base_url username password space_id =
     (case ts_client_error lib of
        Some e \<Rightarrow> Inl e
      | None \<Rightarrow> Inr \<lparr>tc_base_url = base_url, tc_space_id = space_id, tc_username = username, tc_password = password, tc_layout = Dav_Spaces\<rparr>)"

text \<open>\<open>PathSegmentsMut::push\<close> on a path that was not shortened before: the path \<open>/\<close> has one empty segment, which the first push replaces.\<close>

definition push_onto :: "(string \<Rightarrow> string) \<Rightarrow> string list \<Rightarrow> string \<Rightarrow> string list" where
  "push_onto enc segs c = (if c = ''.'' \<or> c = ''..'' then segs else if segs = [[]] then [enc c] else segs @ [enc c])"

definition layout_segments :: "OcisClient \<Rightarrow> string list" where
  "layout_segments client =
     (case tc_layout client of
        Dav_Spaces \<Rightarrow> [''dav'', ''spaces'', tc_space_id client]
      | Dav_ClassicFiles user_id \<Rightarrow> [''remote.php'', ''dav'', ''files'', user_id])"

definition webdav_url :: "test_lib \<Rightarrow> OcisClient \<Rightarrow> string \<Rightarrow> string + url" where
  "webdav_url lib client path =
     (case url_segments (tc_base_url client) of
        None \<Rightarrow> Inl ''base_url cannot be a base''
      | Some segs \<Rightarrow>
          Inr ((tc_base_url client)\<lparr>url_segments :=
            Some (fold (\<lambda>c acc. push_onto (lib_seg_encode (ts_libs lib)) acc c)
              (layout_segments client @ split_on CHR ''/'' (trim_start_matches CHR ''/'' path)) segs)\<rparr>))"

text \<open>A request for a path and what is made of the answer.\<close>

definition test_request :: "test_lib \<Rightarrow> 'w net \<Rightarrow> OcisClient \<Rightarrow> string \<Rightarrow> (string \<times> string) list \<Rightarrow> string \<Rightarrow> string \<Rightarrow> 'w \<Rightarrow> (string + response) \<times> 'w" where
  "test_request lib net client meth hs body path w =
     (case webdav_url lib client path of
        Inl e \<Rightarrow> (Inl e, w)
      | Inr u \<Rightarrow> net_send net (basic_request lib (tc_username client) (tc_password client) meth (show_url u) hs body) w)"

definition test_put :: "test_lib \<Rightarrow> 'w net \<Rightarrow> OcisClient \<Rightarrow> string \<Rightarrow> string \<Rightarrow> 'w \<Rightarrow> (string + unit) \<times> 'w" where
  "test_put lib net client path cont w = apfst (map_sum id (\<lambda>_. ()) \<circ> error_for_status lib) (test_request lib net client ''PUT'' [] cont path w)"

definition test_get :: "test_lib \<Rightarrow> 'w net \<Rightarrow> OcisClient \<Rightarrow> string \<Rightarrow> 'w \<Rightarrow> (string + string) \<times> 'w" where
  "test_get lib net client path w = apfst (json_body Inr \<circ> error_for_status lib) (test_request lib net client ''GET'' [] [] path w)"

definition test_exists :: "test_lib \<Rightarrow> 'w net \<Rightarrow> OcisClient \<Rightarrow> string \<Rightarrow> 'w \<Rightarrow> (string + bool) \<times> 'w" where
  "test_exists lib net client path w = apfst (map_sum id (\<lambda>resp. rs_status resp = 200)) (test_request lib net client ''HEAD'' [] [] path w)"

definition collection_exists :: "test_lib \<Rightarrow> 'w net \<Rightarrow> OcisClient \<Rightarrow> string \<Rightarrow> 'w \<Rightarrow> (string + bool) \<times> 'w" where
  "collection_exists lib net client path w =
     apfst (map_sum id (\<lambda>resp. rs_status resp = 207)) (test_request lib net client ''PROPFIND'' [(''Depth'', ''0'')] [] path w)"

definition test_delete :: "test_lib \<Rightarrow> 'w net \<Rightarrow> OcisClient \<Rightarrow> string \<Rightarrow> 'w \<Rightarrow> (string + unit) \<times> 'w" where
  "test_delete lib net client path w = apfst (map_sum id (\<lambda>_. ()) \<circ> error_for_status lib) (test_request lib net client ''DELETE'' [] [] path w)"

definition move_item :: "test_lib \<Rightarrow> 'w net \<Rightarrow> OcisClient \<Rightarrow> string \<Rightarrow> string \<Rightarrow> 'w \<Rightarrow> (string + unit) \<times> 'w" where
  "move_item lib net client from to w =
     (case webdav_url lib client to of
        Inl e \<Rightarrow> (Inl e, w)
      | Inr destination \<Rightarrow>
          apfst (map_sum id (\<lambda>_. ()) \<circ> error_for_status lib)
            (test_request lib net client ''MOVE'' [(''Destination'', show_url destination), (''Overwrite'', ''T'')] [] from w))"

section \<open>Users and spaces (\<open>provision.rs\<close>)\<close>

text \<open>\<open>anyhow\<close>'s \<open>context\<close>: what was tried stands before the cause.\<close>

definition with_context :: "string \<Rightarrow> string + 'a \<Rightarrow> string + 'a" where
  "with_context c = map_sum (\<lambda>e. c @ '': '' @ e) id"

text \<open>Both provisioners: a base URL and the credentials of the administrator.\<close>

record provisioner =
  pv_base_url :: url
  pv_admin_user :: string
  pv_admin_pass :: string

definition new_provisioner :: "test_lib \<Rightarrow> string \<Rightarrow> url \<Rightarrow> string + provisioner" where
  "new_provisioner lib failed base_url =
     with_context failed
       (case ts_client_error lib of
          Some e \<Rightarrow> Inl e
        | None \<Rightarrow> Inr \<lparr>pv_base_url = base_url, pv_admin_user = ''admin'', pv_admin_pass = ''admin''\<rparr>)"

definition new_UserProvisioner :: "test_lib \<Rightarrow> url \<Rightarrow> string + provisioner" where
  "new_UserProvisioner lib = new_provisioner lib ''failed to build provisioning HTTP client''"

definition new_SpaceProvisioner :: "test_lib \<Rightarrow> url \<Rightarrow> string + provisioner" where
  "new_SpaceProvisioner lib = new_provisioner lib ''failed to build space-provisioning HTTP client''"

text \<open>The request that all of them make: \<open>what\<close> names the URL and \<open>op\<close> the operation in the contexts.\<close>

definition admin_request :: "test_lib \<Rightarrow> 'w net \<Rightarrow> provisioner \<Rightarrow> string \<Rightarrow> string \<Rightarrow> string \<Rightarrow> string \<Rightarrow> string \<Rightarrow> 'w \<Rightarrow> (string + response) \<times> 'w" where
  "admin_request lib net pv what op meth path body w =
     (case with_context (''invalid '' @ what @ '' URL'') (lib_url_join (ts_libs lib) (pv_base_url pv) path) of
        Inl e \<Rightarrow> (Inl e, w)
      | Inr u \<Rightarrow>
          (case net_send net (basic_request lib (pv_admin_user pv) (pv_admin_pass pv) meth (show_url u) [] body) w of
             (Inl e, w) \<Rightarrow> (with_context (op @ '' request failed'') (Inl e), w)
           | (Inr resp, w) \<Rightarrow> (with_context (op @ '' returned an error status'') (error_for_status lib (Inr resp)), w)))"

definition json_answer :: "string \<Rightarrow> (string \<Rightarrow> string + 'a) \<Rightarrow> string + response \<Rightarrow> string + 'a" where
  "json_answer op dec r = (case r of Inl e \<Rightarrow> Inl e | Inr resp \<Rightarrow> with_context (op @ '' response was not valid JSON'') (json_body dec (Inr resp)))"

record ProvisionedUser =
  pu_id :: string
  pu_username :: string
  pu_password :: string

record new_user =
  nu_username :: string
  nu_display_name :: string
  nu_mail :: string
  nu_password :: string
  nu_force_change :: bool

definition create_user :: "test_lib \<Rightarrow> 'w net \<Rightarrow> (new_user \<Rightarrow> string) \<Rightarrow> (string \<Rightarrow> string + string) \<Rightarrow> provisioner \<Rightarrow> string \<Rightarrow> string \<Rightarrow> string \<Rightarrow> 'w
    \<Rightarrow> (string + ProvisionedUser) \<times> 'w" where
  "create_user lib net to_json dec pv username password display_name w =
     apfst (\<lambda>r. map_sum id (\<lambda>i. \<lparr>pu_id = i, pu_username = username, pu_password = password\<rparr>) (json_answer ''create_user'' dec r))
       (admin_request lib net pv ''users'' ''create_user'' ''POST'' ''/graph/v1.0/users''
          (to_json \<lparr>nu_username = username, nu_display_name = display_name, nu_mail = username @ ''@example.com'', nu_password = password, nu_force_change = False\<rparr>) w)"

definition delete_user :: "test_lib \<Rightarrow> 'w net \<Rightarrow> provisioner \<Rightarrow> string \<Rightarrow> 'w \<Rightarrow> (string + unit) \<times> 'w" where
  "delete_user lib net pv i w =
     apfst (map_sum id (\<lambda>_. ())) (admin_request lib net pv ''user-delete'' ''delete_user'' ''DELETE'' (''/graph/v1.0/users/'' @ i) [] w)"

record ProvisionedSpace =
  ps_space_id :: string
  ps_space_name :: string

definition SPACE_VIEWER :: string where "SPACE_VIEWER = ''a8d5fe5e-96e3-418d-825b-534dbdf22b99''"
definition SPACE_EDITOR :: string where "SPACE_EDITOR = ''58c63c02-1d89-4572-916a-870abc5a1b7d''"
definition MANAGER :: string where "MANAGER = ''312c0871-5ef7-4b3a-85b6-0e4074c64049''"
definition SECURE_VIEWER :: string where "SECURE_VIEWER = ''aa97fe03-7980-45ac-9e50-b325749fd7e6''"

definition create_project_space :: "test_lib \<Rightarrow> 'w net \<Rightarrow> (string \<times> string \<Rightarrow> string) \<Rightarrow> (string \<Rightarrow> string + string \<times> string) \<Rightarrow> provisioner \<Rightarrow> string \<Rightarrow> 'w
    \<Rightarrow> (string + ProvisionedSpace) \<times> 'w" where
  "create_project_space lib net to_json dec pv name w =
     apfst (\<lambda>r. map_sum id (\<lambda>(i, n). \<lparr>ps_space_id = i, ps_space_name = n\<rparr>) (json_answer ''create_project_space'' dec r))
       (admin_request lib net pv ''drives'' ''create_project_space'' ''POST'' ''/graph/v1.0/drives'' (to_json (name, ''project'')) w)"

definition available_role_ids :: "test_lib \<Rightarrow> 'w net \<Rightarrow> (string \<Rightarrow> string + string list) \<Rightarrow> provisioner \<Rightarrow> 'w \<Rightarrow> (string + string list) \<times> 'w" where
  "available_role_ids lib net dec pv w =
     apfst (json_answer ''roleDefinitions'' dec)
       (admin_request lib net pv ''roleDefinitions'' ''roleDefinitions'' ''GET'' ''/graph/v1beta1/roleManagement/permissions/roleDefinitions'' [] w)"

datatype RoleAssignment = Assigned | Unavailable

definition assign_role :: "test_lib \<Rightarrow> 'w net \<Rightarrow> (string \<times> string \<Rightarrow> string) \<Rightarrow> (string \<Rightarrow> string + string list) \<Rightarrow> provisioner \<Rightarrow> string \<Rightarrow> string \<Rightarrow> string \<Rightarrow> 'w
    \<Rightarrow> (string + RoleAssignment) \<times> 'w" where
  "assign_role lib net to_json dec pv space_id user_id role_id w =
     (case available_role_ids lib net dec pv w of
        (Inl e, w) \<Rightarrow> (Inl e, w)
      | (Inr ids, w) \<Rightarrow>
          if role_id \<notin> set ids then (Inr Unavailable, w)
          else apfst (map_sum id (\<lambda>_. Assigned))
            (admin_request lib net pv ''invite'' ''assign_role invite'' ''POST'' (''/graph/v1beta1/drives/'' @ space_id @ ''/root/invite'')
               (to_json (user_id, role_id)) w))"

section \<open>Lemmas\<close>

lemma fold_push_onto:
  assumes "\<forall>n \<in> set ns. valid_name n" "segs \<noteq> [[]]" "\<And>n. valid_name n \<Longrightarrow> enc n \<noteq> []"
  shows "fold (\<lambda>c acc. push_onto enc acc c) ns segs = segs @ map enc ns"
  using assms(1,2)
proof (induction ns arbitrary: segs)
  case (Cons n ns)
  then have "enc n \<noteq> []" "push_onto enc segs n = segs @ [enc n]" using assms(3) by (simp_all add: push_onto_def valid_name_def)
  with Cons show ?case by (simp add: append_eq_Cons_conv)
qed simp

section \<open>Properties\<close>

text \<open>
  The tests look where the engine works: for a path of proper names, the URL that the test client builds below the root of the server is the one the engine builds below the root of the
  space, if the encoding leaves the fixed names as they are.
\<close>

theorem test_url_is_engine_url:
  assumes "\<forall>n \<in> set ns. valid_name n" "ns \<noteq> []" "valid_name (tc_space_id client)"
    and "url_segments (tc_base_url client) = Some [[]]" "tc_layout client = Dav_Spaces"
    and "\<And>n. valid_name n \<Longrightarrow> lib_seg_encode (ts_libs lib) n \<noteq> []"
    and "lib_seg_encode (ts_libs lib) ''dav'' = ''dav''" "lib_seg_encode (ts_libs lib) ''spaces'' = ''spaces''"
  shows "webdav_url lib client (rel_path ns) =
    join_remote_path (lib_seg_encode (ts_libs lib))
      ((tc_base_url client)\<lparr>url_segments := Some [''dav'', ''spaces'', lib_seg_encode (ts_libs lib) (tc_space_id client), []]\<rparr>) (rel_path ns)"
proof -
  let ?enc = "lib_seg_encode (ts_libs lib)"
  have ne: "\<forall>n \<in> set ns. n \<noteq> []" using assms(1) by (simp add: valid_name_def)
  have "hd (rel_path ns) \<noteq> CHR ''/'' \<and> rel_path ns \<noteq> []"
    using hd_join_on [OF assms(2) ne, of "''/''"] assms(1,2) by (cases ns) (auto simp: rel_path_def valid_name_def dest!: hd_in_set)
  then have "trim_start_matches CHR ''/'' (rel_path ns) = rel_path ns" by (cases "rel_path ns") (auto simp: trim_start_matches_def)
  moreover have "split_on CHR ''/'' (rel_path ns) = ns"
    using split_join_on [of ns "CHR ''/''"] assms(1,2) by (simp add: rel_path_def valid_name_def)
  moreover have "fold (\<lambda>c acc. push_onto ?enc acc c) (layout_segments client @ ns) [[]] = [''dav'', ''spaces'', ?enc (tc_space_id client)] @ map ?enc ns"
  proof -
    have "fold (\<lambda>c acc. push_onto ?enc acc c) (layout_segments client) [[]] = [''dav'', ''spaces'', ?enc (tc_space_id client)]"
      using assms(3,5,7,8) by (simp add: layout_segments_def push_onto_def valid_name_def)
    then show ?thesis using fold_push_onto [OF assms(1) _ assms(6), of "[''dav'', ''spaces'', ?enc (tc_space_id client)]"] by simp
  qed
  ultimately show ?thesis using assms(4) join_remote_path_names [OF assms(1,2)] by (simp add: webdav_url_def pop_if_empty_def)
qed

text \<open>
  What the answers of the tests mean: writing, deleting and moving report success exactly if the request was answered with a status outside of 400 to 599, redirections
  included, while a file counts as existing only with 200 and a collection only with 207.
\<close>

theorem test_answers:
  assumes "webdav_url lib client path = Inr u"
    and "\<And>rq. fst (net_send net rq w) = Inr resp"
  shows "(fst (test_put lib net client path cont w) = Inr ()) = (rs_status resp < 400 \<or> 600 \<le> rs_status resp)"
    and "(fst (test_delete lib net client path w) = Inr ()) = (rs_status resp < 400 \<or> 600 \<le> rs_status resp)"
    and "fst (test_exists lib net client path w) = Inr (rs_status resp = 200)"
    and "fst (collection_exists lib net client path w) = Inr (rs_status resp = 207)"
proof -
  have "fst (test_request lib net client m hs body path w) = Inr resp" for m hs body using assms by (simp add: test_request_def)
  then show "(fst (test_put lib net client path cont w) = Inr ()) = (rs_status resp < 400 \<or> 600 \<le> rs_status resp)"
    and "(fst (test_delete lib net client path w) = Inr ()) = (rs_status resp < 400 \<or> 600 \<le> rs_status resp)"
    and "fst (test_exists lib net client path w) = Inr (rs_status resp = 200)"
    and "fst (collection_exists lib net client path w) = Inr (rs_status resp = 207)"
    by (auto simp: test_put_def test_delete_def test_exists_def collection_exists_def error_for_status_def)
qed

text \<open>A role that the server does not offer is not asked for.\<close>

theorem unavailable_role_not_assigned:
  assumes "available_role_ids lib net dec pv w = (Inr ids, w')" "role_id \<notin> set ids"
  shows "assign_role lib net to_json dec pv space_id user_id role_id w = (Inr Unavailable, w')"
  using assms by (simp add: assign_role_def)

end
