(* ===== verification/TestFixture.thy ===== *)
theory TestFixture
  imports TestTools TestServer DaemonHandler StdStr
begin

text \<open>
  The environment of the acceptance tests (\<open>crates/acceptance-test/src/fixture.rs\<close>, \<open>testutil.rs\<close> and the selectors of \<open>playwright.rs\<close>): the two servers, waiting for
  them, and the flow that sets up an account the way the GUI does. Docker, the processes and the headless browser are arguments; what the daemon
  sends and prints is given with the time of its arrival in milliseconds.
\<close>

section \<open>The servers\<close>

datatype Backend = Ocis | Oc10

record LoginSelectors =
  ls_username :: string
  ls_password :: string
  ls_submit :: string
  ls_authorize :: "string option"

definition selectors_OCIS :: LoginSelectors where
  "selectors_OCIS = \<lparr>ls_username = ''#oc-login-username'', ls_password = ''#oc-login-password'',
     ls_submit = ''button[type='' @ [CHR 0x22] @ ''submit'' @ [CHR 0x22] @ '']'', ls_authorize = None\<rparr>"

definition selectors_OC10 :: LoginSelectors where
  "selectors_OC10 = \<lparr>ls_username = ''#user'', ls_password = ''#password'', ls_submit = ''#submit'',
     ls_authorize = Some (''button:has-text('' @ [CHR 0x22] @ ''Authorize'' @ [CHR 0x22] @ '')'')\<rparr>"

fun backend_base_url :: "Backend \<Rightarrow> string" where
  "backend_base_url Ocis = ''https://127.0.0.1:9200''"
| "backend_base_url Oc10 = ''https://localhost:9201''"

definition compose_path :: "string \<Rightarrow> Backend \<Rightarrow> string" where
  "compose_path manifest_dir b =
     path_join manifest_dir (''../../tests/docker/'' @ (case b of Ocis \<Rightarrow> ''compose.yml'' | Oc10 \<Rightarrow> ''compose.oc10.yml''))"

fun health_path :: "Backend \<Rightarrow> string" where
  "health_path Ocis = ''/health''"
| "health_path Oc10 = ''/status.php''"

fun login_selectors :: "Backend \<Rightarrow> LoginSelectors" where
  "login_selectors Ocis = selectors_OCIS"
| "login_selectors Oc10 = selectors_OC10"

text \<open>\<open>answer t\<close> is the status of an answer to the request for the health page at time \<open>t\<close>.\<close>

definition wait_server_ready :: "(string \<Rightarrow> nat \<Rightarrow> nat option) \<Rightarrow> (nat \<Rightarrow> nat) \<Rightarrow> Backend \<Rightarrow> nat \<Rightarrow> (bool \<times> nat) option" where
  "wait_server_ready answer cost b start =
     poll_until (\<lambda>t. case answer (backend_base_url b @ health_path b) t of Some st \<Rightarrow> 200 \<le> st \<and> st < 300 | None \<Rightarrow> False) cost 60000 2000 start"

definition wait_for_path :: "(nat \<Rightarrow> bool) \<Rightarrow> nat \<Rightarrow> nat \<Rightarrow> (bool \<times> nat) option" where
  "wait_for_path path_exists timeout start = poll_until path_exists (\<lambda>_. 0) timeout 500 start"

definition socket_path_for :: "string \<Rightarrow> string" where
  "socket_path_for runtime_dir = path_join (path_join runtime_dir ''owncloud'') ''daemon-gui.sock''"

definition skip_if_no_acceptance :: "(string \<Rightarrow> string option) \<Rightarrow> bool" where
  "skip_if_no_acceptance var \<longleftrightarrow> var ''OCIS_ACCEPTANCE'' = None"

definition skip_if_no_oc10_acceptance :: "(string \<Rightarrow> string option) \<Rightarrow> bool" where
  "skip_if_no_oc10_acceptance var \<longleftrightarrow> var ''OCIS_ACCEPTANCE'' = None \<or> var ''OC10_ACCEPTANCE'' = None"

section \<open>The environment\<close>

text \<open>
  \<open>fx_events\<close> and \<open>fx_stdout\<close> are what the test has not read yet: events, and lines of the daemon's output (an error is one that cannot be read). \<open>fx_sent\<close> are the commands that were
  written. The two fields that are options panic when they are read too early.
\<close>

record TestEnvironment =
  fx_backend :: Backend
  fx_url :: url
  fx_sync_dir :: string
  fx_config_dir :: string
  fx_events :: "(nat \<times> DaemonEvent) list"
  fx_stdout :: "(nat \<times> (string + string)) list"
  fx_now :: nat
  fx_sent :: "DaemonCommand list"
  fx_personal_space_name :: string
  fx_personal_folder_id :: "uuid option"
  fx_account_id :: "uuid option"

text \<open>
  What the flow calls: writing a command, which may fail; parsing a URL and its query; the browser, which gives the title of the last page and
  the time it took.
\<close>

record fixture_lib =
  xl_write :: "DaemonCommand \<Rightarrow> string option"
  xl_parse :: "string \<Rightarrow> string + url"
  xl_query_pairs :: "url \<Rightarrow> (string \<times> string) list"
  xl_login :: "url \<Rightarrow> u16 \<Rightarrow> string \<Rightarrow> string \<Rightarrow> LoginSelectors \<Rightarrow> (string + string) \<times> nat"

definition bare_url :: "TestEnvironment \<Rightarrow> string" where
  "bare_url env =
     (let default_port = (case fx_backend env of Ocis \<Rightarrow> 9200 | Oc10 \<Rightarrow> 9201)
      in (case url_host (fx_url env) of Some h \<Rightarrow> h | None \<Rightarrow> ''127.0.0.1'') @ '':'' @
         show_nat (unat (case url_port (fx_url env) of Some p \<Rightarrow> p | None \<Rightarrow> default_port)))"

definition personal_sync_dir :: "TestEnvironment \<Rightarrow> string" where
  "personal_sync_dir env = path_join (fx_sync_dir env) (fx_personal_space_name env)"

definition fx_send :: "fixture_lib \<Rightarrow> string \<Rightarrow> DaemonCommand \<Rightarrow> TestEnvironment \<Rightarrow> string + TestEnvironment" where
  "fx_send lib failed cmd env =
     (case xl_write lib cmd of
        Some e \<Rightarrow> with_context failed (Inl e)
      | None \<Rightarrow> Inr (env\<lparr>fx_sent := fx_sent env @ [cmd]\<rparr>))"

text \<open>\<open>daemon_ipc.wait_for(...).ok_or_else(...)\<close>; time goes on to the arrival of the last event that was taken.\<close>

definition await :: "(DaemonEvent \<Rightarrow> bool) \<Rightarrow> nat \<Rightarrow> string \<Rightarrow> TestEnvironment \<Rightarrow> string + DaemonEvent \<times> TestEnvironment" where
  "await P timeout missing env =
     (case wait_for P (fx_now env + timeout) (fx_now env) (fx_events env) of
        (None, _) \<Rightarrow> Inl missing
      | (Some e, rest) \<Rightarrow>
          Inr (e, env\<lparr>fx_events := rest,
            fx_now := fold max (map fst (take (length (fx_events env) - length rest) (fx_events env))) (fx_now env)\<rparr>))"

text \<open>The lines of the output up to the one with the URL.\<close>

fun read_oidc_url :: "(string \<Rightarrow> string + url) \<Rightarrow> nat \<Rightarrow> nat \<Rightarrow> (nat \<times> (string + string)) list \<Rightarrow> (string + url \<times> nat) \<times> (nat \<times> (string + string)) list" where
  "read_oidc_url parse deadline now [] =
     (Inl (if deadline \<le> now then ''timed out waiting for OIDC_AUTH_URL from daemon stdout'' else ''daemon stdout closed before OIDC_AUTH_URL was emitted''), [])"
| "read_oidc_url parse deadline now ((t, l) # rest) =
     (if deadline \<le> now \<or> deadline \<le> t then (Inl ''timed out waiting for OIDC_AUTH_URL from daemon stdout'', (t, l) # rest)
      else case l of
        Inl e \<Rightarrow> (Inl e, rest)
      | Inr line \<Rightarrow>
          (case strip_prefix_str ''OIDC_AUTH_URL='' line of
             Some url_str \<Rightarrow> (map_sum id (\<lambda>u. (u, max now t)) (parse (trim_str url_str)), rest)
           | None \<Rightarrow> read_oidc_url parse deadline (max now t) rest))"

definition wait_for_oidc_url :: "fixture_lib \<Rightarrow> TestEnvironment \<Rightarrow> string + url \<times> TestEnvironment" where
  "wait_for_oidc_url lib env =
     (case read_oidc_url (xl_parse lib) (fx_now env + 30000) (fx_now env) (fx_stdout env) of
        (Inl e, _) \<Rightarrow> Inl e
      | (Inr (u, now), rest) \<Rightarrow> Inr (u, env\<lparr>fx_stdout := rest, fx_now := now\<rparr>))"

definition callback_port :: "fixture_lib \<Rightarrow> url \<Rightarrow> u16 option" where
  "callback_port lib auth_url =
     (case List.map_filter (\<lambda>(k, v). if k = ''redirect_uri'' then (case xl_parse lib v of Inr u \<Rightarrow> url_port u | Inl _ \<Rightarrow> None) else None) (xl_query_pairs lib auth_url) of
        [] \<Rightarrow> None
      | p # _ \<Rightarrow> Some p)"

section \<open>Setting up an account\<close>

record AccountHandle =
  ah_account_id :: uuid
  ah_personal_folder_id :: uuid
  ah_personal_space_name :: string
  ah_personal_sync_dir :: string

datatype SpaceChoice = Choose_Personal | Choose_Named string

definition select_space :: "SpaceChoice \<Rightarrow> SpaceInfo list \<Rightarrow> string + SpaceInfo" where
  "select_space choice spaces =
     (case choice of
        Choose_Personal \<Rightarrow>
          (case find (\<lambda>s. si_drive_type s = ''personal'') spaces of Some s \<Rightarrow> Inr s | None \<Rightarrow> Inl ''no personal space in SpacesListed'')
      | Choose_Named name \<Rightarrow>
          (case find (\<lambda>s. si_name s = name) spaces of Some s \<Rightarrow> Inr s | None \<Rightarrow> Inl (''space '' @ name @ '' not in SpacesListed'')))"

text \<open>
  The test waits for any event of a kind and takes from it what it needs: \<open>pick\<close> is the pattern of \<open>matches!\<close> and of the \<open>match\<close> after it, whose other
  branch is unreachable.
\<close>

definition await_as :: "(DaemonEvent \<Rightarrow> 'a option) \<Rightarrow> nat \<Rightarrow> string \<Rightarrow> TestEnvironment \<Rightarrow> string + 'a \<times> TestEnvironment" where
  "await_as pick timeout missing env = map_sum id (apfst (the \<circ> pick)) (await (\<lambda>e. pick e \<noteq> None) timeout missing env)"

fun pick_started :: "DaemonEvent \<Rightarrow> unit option" where
  "pick_started (AccountAddStarted _) = Some ()"
| "pick_started _ = None"

fun pick_completed :: "DaemonEvent \<Rightarrow> uuid option" where
  "pick_completed (AccountAddCompleted account_id _ _ _) = Some account_id"
| "pick_completed _ = None"

fun pick_spaces :: "DaemonEvent \<Rightarrow> SpaceInfo list option" where
  "pick_spaces (SpacesListed _ spaces) = Some spaces"
| "pick_spaces _ = None"

fun pick_folder :: "DaemonEvent \<Rightarrow> uuid option" where
  "pick_folder (AccountFolderAdded _ folder_id _ _ _) = Some folder_id"
| "pick_folder _ = None"

text \<open>The \<open>?\<close> operator.\<close>

definition and_then :: "'e + 'a \<Rightarrow> ('a \<Rightarrow> 'e + 'b) \<Rightarrow> 'e + 'b" where
  "and_then r k = (case r of Inl e \<Rightarrow> Inl e | Inr x \<Rightarrow> k x)"

definition complete_login :: "fixture_lib \<Rightarrow> string \<Rightarrow> string \<Rightarrow> TestEnvironment \<Rightarrow> string + string \<times> TestEnvironment" where
  "complete_login lib username password env =
     and_then (wait_for_oidc_url lib env) (\<lambda>(auth_url, env).
       case callback_port lib auth_url of
         None \<Rightarrow> Inl ''could not extract callback port from redirect_uri''
       | Some port \<Rightarrow>
           (case xl_login lib auth_url port username password (login_selectors (fx_backend env)) of
              (r, took) \<Rightarrow> with_context ''Playwright OIDC login failed'' (map_sum id (\<lambda>title. (title, env\<lparr>fx_now := fx_now env + took\<rparr>)) r)))"

definition add_account_inner :: "fixture_lib \<Rightarrow> string \<Rightarrow> string \<Rightarrow> string \<Rightarrow> SpaceChoice \<Rightarrow> TestEnvironment \<Rightarrow> string + (AccountHandle \<times> string) \<times> TestEnvironment" where
  "add_account_inner lib username password root_path space env =
     and_then (fx_send lib ''failed to send AddAccount'' (AddAccount (bare_url env)) env) (\<lambda>env.
     and_then (await_as pick_started 15000 ''AccountAddStarted not received'' env) (\<lambda>(_, env).
     and_then (complete_login lib username password env) (\<lambda>(callback_title, env).
     and_then (await_as pick_completed 30000 ''AccountAddCompleted not received'' env) (\<lambda>(account_id, env).
     and_then (fx_send lib ''failed to send ListSpaces'' (ListSpaces account_id) env) (\<lambda>env.
     and_then (await_as pick_spaces 30000 ''SpacesListed not received'' env) (\<lambda>(spaces, env).
     and_then (select_space space spaces) (\<lambda>selected.
     and_then (fx_send lib ''failed to send SetAccountFolders''
       (SetAccountFolders account_id root_path [\<lparr>sel_space_id = si_id selected, sel_display_name = si_name selected\<rparr>]) env) (\<lambda>env.
     and_then (await_as pick_folder 30000 ''AccountFolderAdded not received'' env) (\<lambda>(folder_id, env).
       Inr ((\<lparr>ah_account_id = account_id, ah_personal_folder_id = folder_id, ah_personal_space_name = si_name selected,
              ah_personal_sync_dir = path_join root_path (si_name selected)\<rparr>, callback_title), env))))))))))"

definition fx_add_account :: "fixture_lib \<Rightarrow> TestEnvironment \<Rightarrow> string + string \<times> TestEnvironment" where
  "fx_add_account lib env =
     and_then (add_account_inner lib ''admin'' ''admin'' (fx_sync_dir env) Choose_Personal env) (\<lambda>((handle, title), env).
       Inr (title, env\<lparr>fx_account_id := Some (ah_account_id handle), fx_personal_folder_id := Some (ah_personal_folder_id handle),
                       fx_personal_space_name := ah_personal_space_name handle\<rparr>))"

definition add_account_as :: "fixture_lib \<Rightarrow> string \<Rightarrow> string \<Rightarrow> TestEnvironment \<Rightarrow> string + (AccountHandle \<times> string) \<times> TestEnvironment" where
  "add_account_as lib username password env = add_account_inner lib username password (path_join (fx_sync_dir env) username) Choose_Personal env"

definition add_account_on_space :: "fixture_lib \<Rightarrow> string \<Rightarrow> string \<Rightarrow> string \<Rightarrow> TestEnvironment \<Rightarrow> string + (AccountHandle \<times> string) \<times> TestEnvironment" where
  "add_account_on_space lib username password space_name env =
     add_account_inner lib username password (path_join (fx_sync_dir env) username) (Choose_Named space_name) env"

definition after_initial_sync :: "TestEnvironment \<Rightarrow> string + DaemonEvent \<times> TestEnvironment" where
  "after_initial_sync env =
     await (\<lambda>e. case e of SyncFinished _ errors _ \<Rightarrow> errors = [] | _ \<Rightarrow> False) 60000 ''initial SyncFinished not received'' env"

section \<open>Lemmas\<close>

lemma map_sum_Inr_elim: "map_sum f g r = Inr y \<Longrightarrow> (\<And>x. r = Inr x \<Longrightarrow> y = g x \<Longrightarrow> thesis) \<Longrightarrow> thesis"
  by (cases r) auto

lemma and_then_Inr: "and_then r k = Inr y \<longleftrightarrow> (\<exists>x. r = Inr x \<and> k x = Inr y)"
  by (cases r) (simp_all add: and_then_def)

lemma fx_send_Inr: "fx_send lib failed cmd env = Inr env' \<longleftrightarrow> xl_write lib cmd = None \<and> env' = env\<lparr>fx_sent := fx_sent env @ [cmd]\<rparr>"
  by (auto simp: fx_send_def with_context_def split: option.split)

lemma wait_for_Some: "wait_for P deadline now events = (Some e, rest) \<Longrightarrow> \<exists>pre t. events = pre @ (t, e) # rest \<and> P e \<and> t < deadline \<and> (\<forall>x \<in> set pre. \<not> P (snd x))"
proof (induction P deadline now events rule: wait_for.induct)
  case (2 P deadline now t e' events)
  show ?case
  proof (cases "deadline \<le> now \<or> deadline \<le> t")
    case False
    then show ?thesis
    proof (cases "P e'")
      case True
      then show ?thesis using 2(2) False by (intro exI [of _ "[]"] exI [of _ t]) auto
    next
      case no: False
      have "wait_for P deadline (max now t) events = (Some e, rest)" using 2(2) False no by simp
      from 2(1) [OF False no this] obtain pre u where "events = pre @ (u, e) # rest" "P e" "u < deadline" "\<forall>x \<in> set pre. \<not> P (snd x)" by blast
      then show ?thesis using no by (intro exI [of _ "(t, e') # pre"] exI [of _ u]) auto
    qed
  qed (use 2(2) in auto)
qed simp

text \<open>Waiting changes only what is left to read and the time, and the event is one that came.\<close>

lemma await_Inr:
  assumes "await P timeout missing env = Inr (e, env')"
  shows "P e" "e \<in> snd ` set (fx_events env)" "set (fx_events env') \<subseteq> set (fx_events env)" "fx_sent env' = fx_sent env" "fx_sync_dir env' = fx_sync_dir env"
proof -
  obtain r rest where w: "wait_for P (fx_now env + timeout) (fx_now env) (fx_events env) = (r, rest)" by (cases "wait_for P (fx_now env + timeout) (fx_now env) (fx_events env)")
  then have r: "r = Some e" and k: "fx_events env' = rest" "fx_sent env' = fx_sent env" "fx_sync_dir env' = fx_sync_dir env"
    using assms by (cases r; auto simp: await_def)+
  from w r obtain pre t where p: "fx_events env = pre @ (t, e) # rest" "P e" using wait_for_Some by metis
  show "P e" by (rule p(2))
  show "e \<in> snd ` set (fx_events env)" "set (fx_events env') \<subseteq> set (fx_events env)" by (auto simp: p(1) k(1) image_Un)
  show "fx_sent env' = fx_sent env" "fx_sync_dir env' = fx_sync_dir env" by (rule k)+
qed

lemma await_as_Inr:
  assumes "await_as pick timeout missing env = Inr (x, env')"
  shows "\<exists>e \<in> snd ` set (fx_events env). pick e = Some x" "set (fx_events env') \<subseteq> set (fx_events env)" "fx_sent env' = fx_sent env" "fx_sync_dir env' = fx_sync_dir env"
proof -
  from assms obtain e where e: "await (\<lambda>e. pick e \<noteq> None) timeout missing env = Inr (e, env')" and x: "x = the (pick e)"
    by (cases "await (\<lambda>e. pick e \<noteq> None) timeout missing env") (auto simp: await_as_def)
  note await_Inr [OF e]
  then show "\<exists>e \<in> snd ` set (fx_events env). pick e = Some x" "set (fx_events env') \<subseteq> set (fx_events env)" "fx_sent env' = fx_sent env" "fx_sync_dir env' = fx_sync_dir env"
    using x by auto
qed

lemma pick_spaces_Some: "pick_spaces e = Some spaces \<Longrightarrow> \<exists>i. e = SpacesListed i spaces"
  by (cases e) simp_all

lemma complete_login_Inr:
  assumes "complete_login lib username password env = Inr (title, env')"
  shows "fx_sent env' = fx_sent env" "fx_sync_dir env' = fx_sync_dir env" "fx_events env' = fx_events env"
  using assms
  by (auto simp: complete_login_def and_then_def wait_for_oidc_url_def with_context_def sum.map_comp map_sum.simps split: sum.splits prod.splits option.splits
      elim!: map_sum_Inr_elim)

text \<open>The space that is chosen.\<close>

fun chosen :: "SpaceChoice \<Rightarrow> SpaceInfo \<Rightarrow> bool" where
  "chosen Choose_Personal s \<longleftrightarrow> si_drive_type s = ''personal''"
| "chosen (Choose_Named name) s \<longleftrightarrow> si_name s = name"

lemma select_space_Inr: "select_space choice spaces = Inr s \<Longrightarrow> s \<in> set spaces \<and> chosen choice s"
  by (cases choice) (auto simp: select_space_def find_Some_iff split: option.splits)

text \<open>The steps of a setup that succeeded.\<close>

lemma add_account_inner_Inr:
  assumes "add_account_inner lib username password root_path space env = Inr ((handle, title), env')"
  obtains env1 u env2 env3 env4 env5 env6 env7 i spaces selected folder where
    "fx_send lib ''failed to send AddAccount'' (AddAccount (bare_url env)) env = Inr env1"
    "await_as pick_started 15000 ''AccountAddStarted not received'' env1 = Inr (u, env2)"
    "complete_login lib username password env2 = Inr (title, env3)"
    "await_as pick_completed 30000 ''AccountAddCompleted not received'' env3 = Inr (i, env4)"
    "fx_send lib ''failed to send ListSpaces'' (ListSpaces i) env4 = Inr env5"
    "await_as pick_spaces 30000 ''SpacesListed not received'' env5 = Inr (spaces, env6)"
    "select_space space spaces = Inr selected"
    "fx_send lib ''failed to send SetAccountFolders''
       (SetAccountFolders i root_path [\<lparr>sel_space_id = si_id selected, sel_display_name = si_name selected\<rparr>]) env6 = Inr env7"
    "await_as pick_folder 30000 ''AccountFolderAdded not received'' env7 = Inr (folder, env')"
    "handle = \<lparr>ah_account_id = i, ah_personal_folder_id = folder, ah_personal_space_name = si_name selected,
              ah_personal_sync_dir = path_join root_path (si_name selected)\<rparr>"
  using assms unfolding add_account_inner_def
  by (simp only: and_then_Inr case_prod_conv sum.inject prod.inject split_paired_Ex) (elim exE conjE, hypsubst, rule that; (assumption | rule refl))

lemma account_setup_dir:
  assumes "add_account_inner lib username password root_path space env = Inr ((handle, title), env')"
  shows "ah_personal_sync_dir handle = path_join root_path (ah_personal_space_name handle)" "fx_sync_dir env' = fx_sync_dir env"
  using assms by (rule add_account_inner_Inr; simp add: fx_send_Inr await_as_Inr(4) complete_login_Inr(2))+

section \<open>Properties\<close>

text \<open>The address that the test gives to the daemon leads back to the server of the test.\<close>

theorem bare_url_reaches_server:
  assumes "url_scheme (fx_url env) = ''https''" "url_host (fx_url env) = Some h" "url_port (fx_url env) = Some p" "CHR '':'' \<notin> set h"
  shows "account_url (bare_url env) = url_origin (fx_url env)"
proof -
  have no_scheme: "\<not> prefix (r @ CHR '':'' # CHR ''/'' # z) (h @ CHR '':'' # q)" if "CHR '':'' \<notin> set r" "q = [] \<or> hd q \<noteq> CHR ''/''" for r z q
  proof
    assume "prefix (r @ CHR '':'' # CHR ''/'' # z) (h @ CHR '':'' # q)"
    then obtain y where y: "h @ CHR '':'' # q = r @ CHR '':'' # CHR ''/'' # z @ y" by (auto simp: prefix_def)
    have cut: "dropWhile (\<lambda>c. c \<noteq> CHR '':'') (s @ CHR '':'' # t) = CHR '':'' # t" if "CHR '':'' \<notin> set s" for s t
      using that by (induction s) auto
    from arg_cong [OF y, of "dropWhile (\<lambda>c. c \<noteq> CHR '':'')"] have "q = CHR ''/'' # z @ y" using cut assms(4) that(1) by (metis list.inject)
    with that(2) show False by simp
  qed
  have port: "show_nat (unat p) = [] \<or> hd (show_nat (unat p)) \<noteq> CHR ''/''"
  proof (rule ccontr)
    assume "\<not> (show_nat (unat p) = [] \<or> hd (show_nat (unat p)) \<noteq> CHR ''/'')"
    then obtain d where "d < 10" "CHR ''/'' = digit_char d" using show_nat_digits [of "CHR ''/''" "unat p"] hd_in_set [of "show_nat (unat p)"] by auto
    then have "char_digit CHR ''/'' = Some d" by simp
    then show False by (simp add: char_digit_def)
  qed
  from no_scheme [of "''https''" "show_nat (unat p)" "''/''"] no_scheme [of "''http''" "show_nat (unat p)" "''/''"] port
  show ?thesis using assms by (simp add: account_url_def bare_url_def url_origin_def strip_prefix_str_def Let_def)
qed

text \<open>
  An account that was set up: the commands of the GUI were sent in their order, with the identifier the daemon gave, for one space that the daemon listed and
  that is the one asked for; it is kept below the root.
\<close>

theorem account_setup_commands:
  assumes "add_account_inner lib username password root_path space env = Inr ((handle, title), env')"
  shows "\<exists>i spaces s. SpacesListed i spaces \<in> snd ` set (fx_events env) \<and> s \<in> set spaces \<and> chosen space s \<and>
    ah_personal_space_name handle = si_name s \<and> ah_personal_sync_dir handle = path_join root_path (si_name s) \<and>
    fx_sent env' = fx_sent env @ [AddAccount (bare_url env), ListSpaces (ah_account_id handle),
      SetAccountFolders (ah_account_id handle) root_path [\<lparr>sel_space_id = si_id s, sel_display_name = si_name s\<rparr>]]"
proof -
  from add_account_inner_Inr [OF assms] obtain env1 u env2 env3 env4 env5 env6 env7 i spaces selected folder where
    1: "fx_send lib ''failed to send AddAccount'' (AddAccount (bare_url env)) env = Inr env1" and
    2: "await_as pick_started 15000 ''AccountAddStarted not received'' env1 = Inr (u, env2)" and
    3: "complete_login lib username password env2 = Inr (title, env3)" and
    4: "await_as pick_completed 30000 ''AccountAddCompleted not received'' env3 = Inr (i, env4)" and
    5: "fx_send lib ''failed to send ListSpaces'' (ListSpaces i) env4 = Inr env5" and
    6: "await_as pick_spaces 30000 ''SpacesListed not received'' env5 = Inr (spaces, env6)" and
    7: "select_space space spaces = Inr selected" and
    8: "fx_send lib ''failed to send SetAccountFolders''
       (SetAccountFolders i root_path [\<lparr>sel_space_id = si_id selected, sel_display_name = si_name selected\<rparr>]) env6 = Inr env7" and
    9: "await_as pick_folder 30000 ''AccountFolderAdded not received'' env7 = Inr (folder, env')" and
    h: "handle = \<lparr>ah_account_id = i, ah_personal_folder_id = folder, ah_personal_space_name = si_name selected,
              ah_personal_sync_dir = path_join root_path (si_name selected)\<rparr>" .
  note sent = 1 [unfolded fx_send_Inr] 5 [unfolded fx_send_Inr] 8 [unfolded fx_send_Inr]
  note kept = await_as_Inr(2-3) [OF 2] complete_login_Inr [OF 3] await_as_Inr(2-3) [OF 4] await_as_Inr(2-3) [OF 6] await_as_Inr(3) [OF 9]
  from await_as_Inr(1) [OF 6] obtain k where "SpacesListed k spaces \<in> snd ` set (fx_events env5)" by (metis pick_spaces_Some)
  moreover have "set (fx_events env5) \<subseteq> set (fx_events env)" using sent kept by auto
  ultimately have "SpacesListed k spaces \<in> snd ` set (fx_events env)" by blast
  moreover have "fx_sent env' = fx_sent env @ [AddAccount (bare_url env), ListSpaces i,
      SetAccountFolders i root_path [\<lparr>sel_space_id = si_id selected, sel_display_name = si_name selected\<rparr>]]"
    using sent kept by simp
  ultimately show ?thesis using select_space_Inr [OF 7] h by auto
qed

text \<open>Accounts of different users are kept apart: neither folder lies in the other.\<close>

theorem accounts_kept_apart:
  assumes "add_account_as lib u1 p1 env = Inr ((a, t1), env1)" "add_account_as lib' u2 p2 env1 = Inr ((b, t2), env2)"
    and "valid_name u1" "valid_name u2" "u1 \<noteq> u2" "valid_name (ah_personal_space_name a)" "valid_name (ah_personal_space_name b)"
  shows "\<not> starts_with_path (ah_personal_sync_dir a) (ah_personal_sync_dir b)"
proof -
  have "ah_personal_sync_dir a = path_join (path_join (fx_sync_dir env) u1) (ah_personal_space_name a)"
    using account_setup_dir [OF assms(1) [unfolded add_account_as_def]] by simp
  moreover have "ah_personal_sync_dir b = path_join (path_join (fx_sync_dir env) u2) (ah_personal_space_name b)"
    using account_setup_dir [OF assms(2) [unfolded add_account_as_def]] account_setup_dir [OF assms(1) [unfolded add_account_as_def]] by simp
  ultimately show ?thesis using assms(3-7) by (auto simp: starts_with_path_def components_join_name)
qed

end
