(* ===== verification/Spec2Isabelle.thy ===== *)
theory Spec2Isabelle
  imports EngineSafety DaemonMain Theme DavParser Explorer VfsWin VfsMac BuildInfo TestFixture
begin

text \<open>
  A verification development of the ownCloud sync client (the Rust workspaces under \<open>src/crates\<close> and \<open>src/shell-integration\<close>).

  \<^bold>\<open>The program.\<close> A daemon keeps local folders and the spaces of an ownCloud server equal. For each folder a sync
  engine lists both sides, decides for every path with the help of a journal what to do, and transfers files. A scheduler decides when a folder
  is synced; a GUI adds accounts and folders and watches the progress over a local socket, and starts the daemon if there is none; file manager extensions ask for the status
  of files over another one, a D-Bus service on Linux and libraries for the Explorer on Windows. Virtual files are a system service on Windows and macOS. The client of the server's protocols (OpenID Connect, WebFinger, OCS, Graph, TUS, WebDAV) is a crate of its own.

  \<^bold>\<open>Theories and sources.\<close>
  \<^item> \<open>Prelude\<close>, \<open>Paths\<close>, \<open>StdStr\<close>, \<open>FileSystem\<close>, \<open>Async\<close>, \<open>Http\<close>, \<open>Win32\<close>: what the sources use of the language and its libraries: strings as
    sequences of UTF-8 bytes, machine integers as words, \<open>std::path\<close> on Unix, \<open>std::fs\<close> with inodes and failing calls, \<open>async\<close> functions as
    programs of atomic actions with pools of interleaved tasks, the HTTP, XML and URL libraries as parameters, and handles and UTF-16 on Windows. The locale \<open>handle_neutral\<close> is the contract of operations that
    close what they open; it is interpreted for the pipe of the Explorer and for the virtual files of Windows.
  \<^item> \<open>Journal\<close>: \<open>sync-db\<close> (\<open>models.rs\<close>, \<open>db.rs\<close>). The locale \<open>kv_table\<close> is what the engine relies on, interpreted for the three tables; C1.
  \<^item> \<open>SyncTypes\<close>, \<open>Reconcile\<close>: \<open>sync-engine\<close> (\<open>types.rs\<close>, \<open>error.rs\<close>, \<open>report.rs\<close>, \<open>state.rs\<close>, \<open>lib.rs\<close>, \<open>reconcile.rs\<close>); C2 and C3.
  \<^item> \<open>DiscoveryLocal\<close>, \<open>DiscoveryRemote\<close>: \<open>sync-engine/src/discovery\<close>; C8 to C12.
  \<^item> \<open>Propagate\<close>: \<open>sync-engine/src/propagate\<close>; C13 and C15.
  \<^item> \<open>Engine\<close>, \<open>EngineSafety\<close>: \<open>sync-engine/src/engine.rs\<close>, one whole run, its file tasks interleaved in any order; C16, C17, C19 to C21.
  \<^item> \<open>Auth\<close>, \<open>Webfinger\<close>, \<open>OcisApi\<close>, \<open>DavParser\<close>: \<open>ocis-client\<close>; C29 and C32.
  \<^item> \<open>Scheduler\<close>: \<open>daemon/src/scheduler.rs\<close>. The locale \<open>folder_update\<close> is the contract of its operations; C5 to C7.
  \<^item> \<open>Ipc\<close>: \<open>daemon/src/gui_ipc/protocol.rs\<close> and \<open>mod.rs\<close>, one connection; C25 and C27.
  \<^item> \<open>DaemonState\<close>, \<open>DaemonHandler\<close>: \<open>daemon/src\<close> (\<open>config.rs\<close>, \<open>vfs_factory.rs\<close>, \<open>folder_manager.rs\<close>, \<open>gui_ipc/handler.rs\<close>, the start of \<open>main.rs\<close>).
  \<^item> \<open>AccountSetup\<close>: \<open>daemon/src/oidc_callback.rs\<close> and the task that \<open>AddAccount\<close> spawns; C34.
  \<^item> \<open>SpacePoller\<close>: \<open>daemon/src/space_poller.rs\<close>; C36.
  \<^item> \<open>DaemonLoop\<close>: the loop of \<open>daemon/src/main.rs\<close> as a step relation over all the tasks; C37.
  \<^item> \<open>Platform\<close>, \<open>Instance\<close>: \<open>daemon/src\<close> (\<open>paths.rs\<close>, \<open>lock.rs\<close>, \<open>watcher.rs\<close>, the start and end of \<open>main.rs\<close>) and \<open>socket-api/src/transport\<close>: several daemons on one
    machine; C38.
  \<^item> \<open>GuiServer\<close>, \<open>DaemonMain\<close>: \<open>GuiIpcServer\<close> and \<open>SocketApiServer\<close> with any number of connections, each driven by its own task, and the whole of \<open>main\<close> up to the
    loop; C22, C26 and C33.
  \<^item> \<open>Tray\<close>, \<open>Gui\<close>: the tray icon (\<open>gui/src/tray.rs\<close>; the locale \<open>tray_display\<close> is interpreted for Linux and macOS) and the state machine of \<open>gui\<close> (\<open>model.rs\<close>, \<open>app.rs\<close>) against the daemon; C14.
  \<^item> \<open>GuiShell\<close>, \<open>GuiViews\<close>: the GUI as a process (\<open>main.rs\<close>, \<open>spawn.rs\<close>, \<open>daemon_conn.rs\<close>, \<open>subscription.rs\<close>, \<open>gui_config.rs\<close>, \<open>i18n.rs\<close>) and what its views show and
    offer (\<open>views\<close>); C18. \<open>Theme\<close>: the palette and the styles (\<open>theme.rs\<close>).
  \<^item> \<open>Vfs\<close>, \<open>VfsWin\<close>, \<open>VfsMac\<close>: \<open>vfs-core\<close>, \<open>vfs-off\<close>, \<open>vfs-windows\<close> and \<open>vfs-macos\<close>; C31 and C35, C4.
  \<^item> \<open>SocketApi\<close>, \<open>ShellLinux\<close>, \<open>ShellWindows\<close>, \<open>Explorer\<close>: \<open>socket-api\<close> and its clients \<open>oc-dbus-service\<close>, \<open>oc-ipc\<close>, \<open>oc-contextmenu\<close> and \<open>oc-overlay\<close>. The locale
    \<open>ref_counted\<close> is what the Explorer expects of a library, interpreted for the menu, and for the icons with every icon ever made counted as held. \<open>Explorer\<close> puts the daemon's own pipe and server at the other end of the
    Explorer's client; C39, C28 and C30, C24, C23. This theory: C40, which needs the socket and the loop.
  \<^item> \<open>BuildInfo\<close>, \<open>TestTools\<close>, \<open>TestServer\<close>, \<open>TestFixture\<close>: the build script of the GUI, and the library of the acceptance tests (\<open>acceptance-test/src\<close>): polling, waiting for events, the search of
    the accessible tree (the locale \<open>finite_walk\<close> is interpreted for both searches), the clients of the server, and the flow that sets up an account.

  \<^bold>\<open>Correspondence.\<close> A struct is a \<open>record\<close>, an enum a \<open>datatype\<close>, a function or method a definition of the same name (prefixed where the name is
  taken). An error is the left side of a sum. A lock held without an \<open>await\<close> in between is one action; the exceptions are a command of the GUI and the end of a poll, which are one step of
  the daemon although they take locks several times (see \<open>DaemonHandler\<close> and \<open>SpacePoller\<close> for what this leaves out). Iteration over a \<open>HashMap\<close> takes the order as an argument.
  Calls that leave the process (disk, network, database, keychain, clock, random generator, TOML and JSON) are arguments: either a function, or an oracle for the
  outcome of each call, so that every error path of the sources is a branch of the model. Logging is left out.

  \<^bold>\<open>What is shown.\<close> The journal is a finite map (C1); the decision table is a three-way merge (C2), and it is known exactly which versions that the journal has not seen are
  lost: those the strategy gives up, and edits of a file that the other side has deleted (C3); runs of a folder never overlap, in the
  scheduler (C5 to C7) and in the whole daemon (C37), and at most one daemon runs (C38); the discoveries are complete (C8, directories included, against the comment; C9, C10, C12) and
  end, with no collection asked twice (C11); a download replaces its target at once or not at all, but destroys a file of its temporary name (C13), an upload succeeds only when the server took it (C15); a run keeps journal
  and status in step with what became of each task in every interleaving (C16), accounts for every path (C17), returns unless no transfer is allowed, with its tasks within the limit (C19), and keeps the local version of a
  conflict (C20); what it records makes the next run quiet (C21).
  Messages of the IPC are parsed back (C25), subscribers see the events in order, those during their subscription in the snapshot and once more (C27), connections do not disturb each other (C26), and what the GUI sends arrives unless
  an event is delivered in the middle of a command (C22). The start of the daemon fails exactly on a bad lock, configuration or folder (C33). Tokens are refreshed and saved (C29); WebFinger stays in the domain as the
  code understands it (C32). A sign-in ends in one of two ways (C34); the poller announces and removes the right spaces (C36); the GUI that has its snapshot keeps showing
  the configuration, but for accounts that another GUI removes (C14), and its connections are well-formed (C18) as long as nobody asks to start a running daemon.
  The shell protocol loses nothing (C39): the D-Bus listener follows the daemon (C30), but D-Bus questions are never answered (C28), the Explorer gets neither a menu nor icons (C23),
  the icon library is never unloaded (C24), and the status that is reported never changes (C40). The backends for virtual files give back what they take, up to one
  reference for each unreadable reply (C4, C31), and stamp placeholders with the right time (C35).
  Theorems without a number show further flaws: a local edit that keeps the size is not seen (\<open>Reconcile\<close>), a run that fails stays syncing (\<open>Engine\<close>), a stale journal row deletes a new file and
  an answer of the server can leave the folder (\<open>EngineSafety\<close>), an event destroys a half-read command (\<open>Ipc\<close>), tokens are refreshed twice or forgotten (\<open>Auth\<close>), a failed save leaves an account (\<open>AccountSetup\<close>),
  a removed account keeps syncing (\<open>DaemonLoop\<close>), a paused folder is shown as syncing and a GUI that subscribes at the wrong moment shows a folder twice (\<open>Gui\<close>), a GUI without tray never reconnects after a failed attempt and one click may make it reconnect for ever (\<open>GuiShell\<close>), oversized messages end a connection (\<open>Ipc\<close>), an error of \<open>accept\<close> ends a server for good (\<open>GuiServer\<close>), the
  GUI gives up on a daemon that starts slowly (\<open>DaemonMain\<close>), a nested placeholder is misplaced (\<open>VfsWin\<close>), a leaving
  daemon removes the socket of its successor (\<open>Instance\<close>). \<open>GuiViews\<close> shows that the window offers only messages of users and announces the folders that the daemon makes.
  Others are positive: the WebDAV parser is a left inverse of the printer (\<open>DavParser\<close>), the generated source holds the values (\<open>BuildInfo\<close>), a test notices in time what it waits for (\<open>TestTools\<close>) and looks where the engine
  works (\<open>TestServer\<close>).

  \<^bold>\<open>Bounds and fuel.\<close> The crawl of the server takes one unit of fuel per request; C11 gives a bound that suffices when the server names finitely many collections, and C19
  has the whole run under the same condition. A sign-in times out after a number of actions; nine are enough for all of them (C34). All other recursions are structural or have a measure.

  \<^bold>\<open>Not modelled.\<close> Sizes and spacing of the views, fonts, the drawing of icons and the accessibility tree of the toolkit, which have no behaviour of their own; the processes, containers and
  the browser script that the acceptance tests start; the tests themselves; and the extensions for Nautilus, Dolphin and Finder, which are not Rust.
\<close>

section \<open>The status the file manager sees\<close>

text \<open>
  What \<open>main\<close> hands to the socket: the shared map of folder states, and the roots as they were at the start.
\<close>

definition shell_resolver :: "(string \<times> uuid) list \<Rightarrow> 'n system \<Rightarrow> StatusResolver" where
  "shell_resolver roots s = \<lparr>sr_states = fm_sync_states (d_fm (sy_daemon s)), sr_roots = roots\<rparr>"

lemma fold_no_status: "foldl (\<lambda>worst k. case Map.empty k of None \<Rightarrow> worst | Some s \<Rightarrow> f worst k s) w ks = w"
  by (induction ks) simp_all

lemma new_state_statuses [simp]: "st_file_statuses (new_SyncState i) = Map.empty"
  by (simp add: new_SyncState_def)

text \<open>
  C40: The file manager never sees a file syncing or failed. In every state the daemon can reach, whatever
  the engines are doing and whatever their runs ended with, the status of a file and of a folder is \<open>OK\<close> when it lies in a folder whose state the
  daemon shares, and \<open>NONE\<close> otherwise: the engines never write to the states the socket reads.
\<close>

theorem shell_status_never_changes:
  assumes "reachable s"
  shows "let r = shell_resolver roots s;
             known = (case find_folder_for_path path r of None \<Rightarrow> False | Some i \<Rightarrow> fm_sync_states (d_fm (sy_daemon s)) i \<noteq> None)
         in resolve_file path r = (if known then ''OK'' else ''NONE'') \<and> resolve_folder order path r = (if known then ''OK'' else ''NONE'')"
proof -
  have "daemon_inv (sy_daemon s)" using system_inv_reachable [OF assms] by (simp add: system_inv_def)
  note d = daemon_invD(7) [OF this]
  show ?thesis
  proof (cases "find_folder_for_path path (shell_resolver roots s)")
    case (Some i)
    then show ?thesis
      using d [of i] fold_no_status
      by (cases "fm_sync_states (d_fm (sy_daemon s)) i")
        (simp_all add: resolve_file_def resolve_folder_def Let_def shell_resolver_def)
  qed (simp add: resolve_file_def resolve_folder_def Let_def)
qed

theorem shell_status_never_changes_witness:
  "resolve_file ''/home/u/kept/x'' (shell_resolver [(''/home/u/kept'', 5)] polled_system) = ''OK'' \<and>
   resolve_file ''/etc/x'' (shell_resolver [(''/home/u/kept'', 5)] polled_system) = ''NONE''"
proof -
  have roots: "sr_roots (shell_resolver [(''/home/u/kept'', 5)] polled_system) = [(''/home/u/kept'', 5)]" by (simp add: shell_resolver_def)
  have "starts_with_path ''/home/u/kept/x'' ''/home/u/kept''" "\<not> starts_with_path ''/etc/x'' ''/home/u/kept''" by code_simp+
  then have f: "find_folder_for_path ''/home/u/kept/x'' (shell_resolver [(''/home/u/kept'', 5)] polled_system) = Some 5"
      "find_folder_for_path ''/etc/x'' (shell_resolver [(''/home/u/kept'', 5)] polled_system) = None"
    unfolding find_folder_for_path_def roots by simp_all
  have "fm_sync_states (d_fm (sy_daemon polled_system)) 5 \<noteq> None"
    by (simp add: polled_system_def one_folder_system_def start_system_def init_daemon_def poll_tick_def on_poll_def
        one_folder_fm_def insert_folder_def sample_space_folder_def new_folder_def)
  with shell_status_never_changes [OF polled_reachable, of "[(''/home/u/kept'', 5)]" "''/home/u/kept/x''"]
    shell_status_never_changes [OF polled_reachable, of "[(''/home/u/kept'', 5)]" "''/etc/x''"] f
  show ?thesis by (simp add: Let_def)
qed

end
